(* ===== verification/Prelude.thy ===== *)
theory Prelude
  imports Main "HOL-Library.Multiset" "HOL-Library.AList" "HOL-Library.Char_ord"
    "HOL-Library.List_Lexorder"
begin

text \<open>
  What the components share: the result type of a method that changes its receiver, signed 64-bit
  arithmetic, Go maps as association lists with distinct keys (the order of the list stands for
  the unspecified order of \<open>range\<close>), the contract of \<open>sort.Slice\<close>, and the two slice idioms
  the program uses everywhere: delete the first match, and the check that a key is strictly
  increasing.
\<close>

section \<open>Collections of facts\<close>

named_theorems go_simps \<open>unfolding rules of the model's small operations\<close>
named_theorems go_inv \<open>an operation keeps its component's invariant\<close>

text \<open>Introduction of a conjunction of several parts, none of them split further.\<close>

lemma conj2I: "P1 \<Longrightarrow> P2 \<Longrightarrow> P1 \<and> P2"
  by (rule conjI)

lemma conj3I: "P1 \<Longrightarrow> P2 \<Longrightarrow> P3 \<Longrightarrow> P1 \<and> P2 \<and> P3"
  by (intro conjI)

lemma conj4I: "P1 \<Longrightarrow> P2 \<Longrightarrow> P3 \<Longrightarrow> P4 \<Longrightarrow> P1 \<and> P2 \<and> P3 \<and> P4"
  by (intro conjI)

lemma conj5I: "P1 \<Longrightarrow> P2 \<Longrightarrow> P3 \<Longrightarrow> P4 \<Longrightarrow> P5 \<Longrightarrow> P1 \<and> P2 \<and> P3 \<and> P4 \<and> P5"
  by (intro conjI)

section \<open>Results and 64-bit integers\<close>

text \<open>A Go method that returns an error changes its receiver and returns \<open>Inl\<close> the error.\<close>

type_synonym ('s, 'e, 'a) gores = "'s \<times> ('e + 'a)"

text \<open>Nanoseconds: \<open>time.Time\<close> as an instant, \<open>time.Duration\<close> as a length.\<close>

type_synonym time = int
type_synonym duration = int

abbreviation second :: duration where "second \<equiv> 1000000000"
abbreviation millisecond :: duration where "millisecond \<equiv> 1000000"
abbreviation minute :: duration where "minute \<equiv> 60 * second"

text \<open>\<open>wrap64\<close> is what an \<open>int64\<close> register keeps of an exact integer.\<close>

definition wrap64 :: "int \<Rightarrow> int" where
  "wrap64 x = (x + 2 ^ 63) mod 2 ^ 64 - 2 ^ 63"

definition is_int64 :: "int \<Rightarrow> bool" where
  "is_int64 x \<longleftrightarrow> - (2 ^ 63) \<le> x \<and> x < 2 ^ 63"

lemma wrap64_id [simp]: "is_int64 x \<Longrightarrow> wrap64 x = x"
  by (simp add: is_int64_def wrap64_def)

lemma is_int64_wrap64 [simp]: "is_int64 (wrap64 x)"
proof -
  have "0 \<le> (x + 2 ^ 63) mod 2 ^ 64" and "(x + 2 ^ 63) mod 2 ^ 64 < (2 ^ 64 :: int)"
    by simp_all
  then show ?thesis by (simp add: is_int64_def wrap64_def)
qed

section \<open>Go maps\<close>

type_synonym ('k, 'v) gomap = "('k \<times> 'v) list"

abbreviation gm_ok :: "('k, 'v) gomap \<Rightarrow> bool" where
  "gm_ok m \<equiv> distinct (map fst m)"

abbreviation gm_put :: "'k \<Rightarrow> 'v \<Rightarrow> ('k, 'v) gomap \<Rightarrow> ('k, 'v) gomap" where
  "gm_put \<equiv> AList.update"

abbreviation gm_del :: "'k \<Rightarrow> ('k, 'v) gomap \<Rightarrow> ('k, 'v) gomap" where
  "gm_del \<equiv> AList.delete"

lemma map_of_gm_put [simp]: "map_of (gm_put k v m) = (map_of m)(k \<mapsto> v)"
  by (rule ext) (simp add: update_conv)

lemma map_of_gm_del [simp]: "map_of (gm_del k m) = (map_of m)(k := None)"
  by (rule ext) (simp add: delete_conv)

lemma gm_ok_put [simp, go_inv]: "gm_ok m \<Longrightarrow> gm_ok (gm_put k v m)"
  by (rule distinct_update)

lemma gm_ok_del [simp, go_inv]: "gm_ok m \<Longrightarrow> gm_ok (gm_del k m)"
  by (rule distinct_delete)

lemma gm_ok_filter [simp, go_inv]: "gm_ok m \<Longrightarrow> gm_ok (filter P m)"
  by (induction m) auto

lemma gm_size_del:
  assumes "gm_ok m" and "map_of m k \<noteq> None"
  shows "Suc (length (gm_del k m)) = length m"
  using assms
proof (induction m)
  case Nil
  then show ?case by simp
next
  case (Cons p m)
  obtain a b where p: "p = (a, b)" by (cases p)
  show ?case
  proof (cases "a = k")
    case True
    with Cons.prems p have "k \<notin> fst ` set m" by auto
    then have "gm_del k m = m" by (simp add: delete_id)
    with True p show ?thesis by simp
  next
    case False
    with Cons.prems Cons.IH p show ?thesis by auto
  qed
qed

lemma gm_size_put:
  assumes "map_of m k = None"
  shows "length (gm_put k v m) = Suc (length m)"
  using assms by (induction m) auto

lemma gm_put_keys [simp]: "fst ` set (gm_put k v m) = insert k (fst ` set m)"
  by (simp add: dom_update flip: dom_map_of_conv_image_fst)

lemma gm_del_keys [simp]: "fst ` set (gm_del k m) = fst ` set m - {k}"
  by (induction m) auto

lemma map_of_filter_key:
  "gm_ok m \<Longrightarrow> map_of (filter (\<lambda>(k, v). P k v) m) k =
     (case map_of m k of None \<Rightarrow> None | Some v \<Rightarrow> if P k v then Some v else None)"
proof (induction m)
  case Nil
  then show ?case by simp
next
  case (Cons p m)
  obtain a b where p: "p = (a, b)" by (cases p)
  from Cons.prems p have "map_of m a = None"
    by (simp add: map_of_eq_None_iff)
  with Cons p show ?case by (auto split: option.splits)
qed

section \<open>Slices\<close>

text \<open>
  \<open>for i, x := range s { if p(x) { s = append(s[:i], s[i+1:]...); break } }\<close>: delete the first
  element that satisfies \<open>p\<close>.
\<close>

fun remove_first :: "('a \<Rightarrow> bool) \<Rightarrow> 'a list \<Rightarrow> 'a list" where
  "remove_first p [] = []"
| "remove_first p (x # xs) = (if p x then xs else x # remove_first p xs)"

lemma remove_first_subset: "set (remove_first p xs) \<subseteq> set xs"
  by (induction xs) auto

lemma remove_first_none [simp]: "\<forall>x\<in>set xs. \<not> p x \<Longrightarrow> remove_first p xs = xs"
  by (induction xs) auto

lemma length_remove_first:
  "length (remove_first p xs) = (if \<exists>x\<in>set xs. p x then length xs - 1 else length xs)"
  by (induction xs) (auto simp: Suc_diff_1 dest: length_pos_if_in_set)

lemma sorted_wrt_remove_first: "sorted_wrt R xs \<Longrightarrow> sorted_wrt R (remove_first p xs)"
  by (induction xs) (auto dest: set_mp [OF remove_first_subset])

lemma distinct_map_remove_first: "distinct (map f xs) \<Longrightarrow> distinct (map f (remove_first p xs))"
  by (induction xs) (auto dest: set_mp [OF remove_first_subset])

lemma set_remove_first_key:
  "distinct (map f xs) \<Longrightarrow> set (remove_first (\<lambda>x. f x = k) xs) = {x \<in> set xs. f x \<noteq> k}"
proof (induction xs)
  case Nil
  then show ?case by simp
next
  case (Cons a xs)
  then show ?case by (cases "f a = k") (auto simp: image_iff)
qed

section \<open>The contract of \<open>sort.Slice\<close>\<close>

text \<open>
  The library promises a permutation in which no element is less than one before it; it does not
  promise stability. Every lemma of the components goes through this contract. The function the
  model evaluates is the insertion sort that the library runs on slices of at most 12 elements:
  each element is moved left while it is less than its left neighbour (the accumulator is the
  sorted prefix, read from its right end).
\<close>

definition strict_weak :: "('a \<Rightarrow> 'a \<Rightarrow> bool) \<Rightarrow> bool" where
  "strict_weak before \<longleftrightarrow>
     (\<forall>x y. before x y \<longrightarrow> \<not> before y x) \<and>
     (\<forall>x y z. \<not> before y x \<longrightarrow> \<not> before z y \<longrightarrow> \<not> before z x)"

lemma strict_weak_key [intro]: "strict_weak (\<lambda>x y. (f x :: 'b :: linorder) < f y)"
  by (auto simp: strict_weak_def)

lemma strict_weak_key_desc [intro]: "strict_weak (\<lambda>x y. (f y :: 'b :: linorder) < f x)"
  by (auto simp: strict_weak_def)

locale slice_sort =
  fixes srt :: "('a \<Rightarrow> 'a \<Rightarrow> bool) \<Rightarrow> 'a list \<Rightarrow> 'a list"
  assumes srt_mset: "mset (srt before xs) = mset xs"
    and srt_ordered: "strict_weak before \<Longrightarrow> sorted_wrt (\<lambda>x y. \<not> before y x) (srt before xs)"
begin

lemma srt_set [simp]: "set (srt before xs) = set xs"
  by (metis srt_mset set_mset_mset)

lemma srt_length [simp]: "length (srt before xs) = length xs"
  by (metis srt_mset size_mset)

lemma srt_mset_map: "mset (map f (srt before xs)) = mset (map f xs)"
  by (simp add: srt_mset)

lemma srt_distinct_map: "distinct (map f (srt before xs)) = distinct (map f xs)"
  by (metis mset_eq_imp_distinct_iff srt_mset_map)

lemma srt_sorted_key:
  fixes f :: "'a \<Rightarrow> 'b :: linorder"
  shows "sorted (map f (srt (\<lambda>x y. f x < f y) xs))"
  using srt_ordered [OF strict_weak_key, of f xs] by (simp add: sorted_map not_less)

text \<open>With distinct keys the contract leaves one result only.\<close>

lemma srt_unique:
  fixes f :: "'a \<Rightarrow> 'b :: linorder"
  assumes "distinct (map f xs)"
  shows "srt (\<lambda>x y. f x < f y) xs = sort_key f xs"
proof (rule map_inj_on [of f])
  let ?s = "srt (\<lambda>x y. f x < f y) xs"
  have "sorted (map f ?s)" by (rule srt_sorted_key)
  moreover have "distinct (map f ?s)" using assms by (simp add: srt_distinct_map)
  moreover have "sorted (map f (sort_key f xs))" by (rule sorted_sort_key)
  moreover have "distinct (map f (sort_key f xs))"
    using assms by (simp add: distinct_map)
  ultimately show "map f ?s = map f (sort_key f xs)"
    by (rule sorted_distinct_set_unique) simp
  show "inj_on f (set ?s \<union> set (sort_key f xs))"
    using assms by (simp add: distinct_map)
qed

end

fun ins_left :: "('a \<Rightarrow> 'a \<Rightarrow> bool) \<Rightarrow> 'a \<Rightarrow> 'a list \<Rightarrow> 'a list" where
  "ins_left before x [] = [x]"
| "ins_left before x (y # ys) = (if before x y then y # ins_left before x ys else x # y # ys)"

definition sort_slice :: "('a \<Rightarrow> 'a \<Rightarrow> bool) \<Rightarrow> 'a list \<Rightarrow> 'a list" where
  "sort_slice before xs = rev (foldl (\<lambda>acc x. ins_left before x acc) [] xs)"

lemma mset_ins_left: "mset (ins_left before x ys) = add_mset x (mset ys)"
  by (induction ys) auto

lemma set_ins_left [simp]: "set (ins_left before x ys) = insert x (set ys)"
  by (induction ys) auto

lemma ordered_ins_left:
  assumes "strict_weak before" and "sorted_wrt (\<lambda>x y. \<not> before x y) ys"
  shows "sorted_wrt (\<lambda>x y. \<not> before x y) (ins_left before x ys)"
  using assms(2)
proof (induction ys)
  case Nil
  then show ?case by simp
next
  case (Cons y ys)
  have asym: "\<not> before b a" if "before a b" for a b
    using assms(1) that unfolding strict_weak_def by metis
  have negt: "\<not> before c a" if "\<not> before b a" "\<not> before c b" for a b c
    using assms(1) that unfolding strict_weak_def by metis
  show ?case
  proof (cases "before x y")
    case True
    then have "\<not> before y x" by (rule asym)
    with True Cons show ?thesis by simp
  next
    case False
    have "\<not> before x z" if "z \<in> set ys" for z
    proof (rule negt)
      show "\<not> before y z" using Cons.prems that by simp
      show "\<not> before x y" by (rule False)
    qed
    with False Cons.prems show ?thesis by simp
  qed
qed

lemma mset_foldl_ins: "mset (foldl (\<lambda>acc x. ins_left before x acc) acc xs) = mset acc + mset xs"
  by (induction xs arbitrary: acc) (auto simp: mset_ins_left)

lemma ordered_foldl_ins:
  "strict_weak before \<Longrightarrow> sorted_wrt (\<lambda>x y. \<not> before x y) acc \<Longrightarrow>
     sorted_wrt (\<lambda>x y. \<not> before x y) (foldl (\<lambda>acc x. ins_left before x acc) acc xs)"
  by (induction xs arbitrary: acc) (auto intro: ordered_ins_left)

interpretation gosort: slice_sort sort_slice
proof unfold_locales
  show "mset (sort_slice before xs) = mset xs" for before :: "'a \<Rightarrow> 'a \<Rightarrow> bool" and xs
    by (simp add: sort_slice_def mset_foldl_ins)
  show "sorted_wrt (\<lambda>x y. \<not> before y x) (sort_slice before xs)"
    if "strict_weak before" for before :: "'a \<Rightarrow> 'a \<Rightarrow> bool" and xs
    using ordered_foldl_ins [OF that, of "[]" xs] by (simp add: sort_slice_def sorted_wrt_rev)
qed

section \<open>Decimal numbers\<close>

text \<open>\<open>%d\<close> and \<open>strconv.Itoa\<close>; \<open>atoi_digits\<close> is the digit loop that reads one back.\<close>

definition digit_char :: "nat \<Rightarrow> char" where
  "digit_char d = char_of (48 + d)"

fun nat_str :: "nat \<Rightarrow> string" where
  "nat_str n = (if n < 10 then [digit_char n] else nat_str (n div 10) @ [digit_char (n mod 10)])"

declare nat_str.simps [simp del]

definition int_str :: "int \<Rightarrow> string" where
  "int_str i = (if i < 0 then CHR ''-'' # nat_str (nat (- i)) else nat_str (nat i))"

definition digit_val :: "char \<Rightarrow> nat option" where
  "digit_val c = (let d = of_char c :: nat in if 48 \<le> d \<and> d \<le> 57 then Some (d - 48) else None)"

fun atoi_digits :: "string \<Rightarrow> nat \<Rightarrow> nat option" where
  "atoi_digits [] acc = Some acc"
| "atoi_digits (c # cs) acc =
     (case digit_val c of None \<Rightarrow> None | Some d \<Rightarrow> atoi_digits cs (10 * acc + d))"

lemma digit_val_char [simp]: "d < 10 \<Longrightarrow> digit_val (digit_char d) = Some d"
  by (simp add: digit_val_def digit_char_def Let_def)

lemma atoi_append:
  "atoi_digits (xs @ ys) acc = Option.bind (atoi_digits xs acc) (atoi_digits ys)"
  by (induction xs arbitrary: acc) (auto split: option.splits)

lemma atoi_nat_str [simp]: "atoi_digits (nat_str n) 0 = Some n"
proof (induction n rule: nat_str.induct)
  case (1 n)
  then show ?case
    by (cases "n < 10") (simp_all add: nat_str.simps [of n] atoi_append)
qed

lemma nat_str_inject [simp]: "nat_str m = nat_str n \<longleftrightarrow> m = n"
  by (metis atoi_nat_str option.inject)

lemma nat_str_nonempty [simp]: "nat_str n \<noteq> []"
  by (subst nat_str.simps) simp

lemma hd_nat_str: "\<exists>d<10. hd (nat_str n) = digit_char d"
proof (induction n rule: nat_str.induct)
  case (1 n)
  show ?case
  proof (cases "n < 10")
    case True
    then show ?thesis by (auto simp: nat_str.simps [of n])
  next
    case False
    with 1 show ?thesis by (simp add: nat_str.simps [of n])
  qed
qed

lemma minus_not_nat_str: "CHR ''-'' # xs \<noteq> nat_str n"
proof
  assume "CHR ''-'' # xs = nat_str n"
  with hd_nat_str [of n] obtain d where "d < 10" and "CHR ''-'' = digit_char d"
    by (metis list.sel(1))
  then have "digit_val (CHR ''-'') = Some d" using \<open>d < 10\<close> by simp
  then show False by (simp add: digit_val_def)
qed

lemma int_str_inject [simp]: "int_str a = int_str b \<longleftrightarrow> a = b"
  using minus_not_nat_str minus_not_nat_str [symmetric] by (auto simp: int_str_def)

end
