(* ===== verification/NodeManager.thy ===== *)
theory NodeManager
  imports Prelude
begin

text \<open>
  \<open>internal/node/state.go\<close> and \<open>internal/node/manager.go\<close>: the lifecycle of the node process. A
  process is its pid; the channel \<open>doneCh\<close> is an identity, and the closed identities are kept so
  that a goroutine that holds an old reference still sees it closed. Every call takes what the
  operating system answers (does the binary exist, does the spawn succeed, do the signals go
  through) as an argument.
\<close>

section \<open>States\<close>

datatype node_state =
  StateStopped | StateStarting | StateRunning | StateStopping | StateUpgrading | StateError
| StateCrashed

fun state_string :: "node_state \<Rightarrow> string" where
  "state_string StateStopped = ''stopped''"
| "state_string StateStarting = ''starting''"
| "state_string StateRunning = ''running''"
| "state_string StateStopping = ''stopping''"
| "state_string StateUpgrading = ''upgrading''"
| "state_string StateError = ''error''"
| "state_string StateCrashed = ''crashed''"

text \<open>The \<open>iota\<close> numbering, which orders the states.\<close>

fun state_iota :: "node_state \<Rightarrow> nat" where
  "state_iota StateStopped = 0"
| "state_iota StateStarting = 1"
| "state_iota StateRunning = 2"
| "state_iota StateStopping = 3"
| "state_iota StateUpgrading = 4"
| "state_iota StateError = 5"
| "state_iota StateCrashed = 6"

lemma state_iota_inject: "state_iota a = state_iota b \<longleftrightarrow> a = b"
  by (cases a; cases b; simp)

instantiation node_state :: linorder
begin

definition less_eq_node_state :: "node_state \<Rightarrow> node_state \<Rightarrow> bool" where
  "less_eq_node_state a b \<longleftrightarrow> state_iota a \<le> state_iota b"

definition less_node_state :: "node_state \<Rightarrow> node_state \<Rightarrow> bool" where
  "less_node_state a b \<longleftrightarrow> state_iota a < state_iota b"

instance
  by standard (auto simp: less_eq_node_state_def less_node_state_def state_iota_inject)

end

lemma state_string_inject: "state_string a = state_string b \<longleftrightarrow> a = b"
  by (cases a; cases b; simp)

section \<open>The manager\<close>

record nm_config =
  nc_bin :: string
  nc_home :: string
  nc_network :: string
  nc_environment :: "(string, string) gomap"
  nc_restart_on_failure :: bool
  nc_max_restarts :: int
  nc_shutdown_grace :: duration

definition default_max_restarts :: int where "default_max_restarts = 5"
definition default_shutdown_grace :: duration where "default_shutdown_grace = 30 * second"

record node_mgr =
  nm_state :: node_state
  nm_cmd :: "nat option"
  nm_process :: "nat option"
  nm_args :: "string list"
  nm_start_time :: time
  nm_restart_count :: int
  nm_max_restarts :: int
  nm_done :: "nat option"
  nm_closed :: "nat list"
  nm_next_chan :: nat
  nm_ctx_done :: bool

definition new_manager :: "nm_config \<Rightarrow> node_mgr" where
  "new_manager cfg =
     \<lparr>nm_state = StateStopped, nm_cmd = None, nm_process = None, nm_args = [], nm_start_time = 0,
      nm_restart_count = 0,
      nm_max_restarts = (if nc_max_restarts cfg > 0 then nc_max_restarts cfg else default_max_restarts),
      nm_done = Some 0, nm_closed = [], nm_next_chan = 1, nm_ctx_done = False\<rparr>"

datatype nm_error =
  Not_stopped node_state | No_binary | Binary_not_found | Spawn_failed | Not_running | Kill_failed
| Nil_process | Restart_stop nm_error | Restart_start nm_error

record start_env =
  se_stat_ok :: bool
  se_spawn :: "nat option"
  se_now :: time

record stop_env =
  ke_group_term :: bool
  ke_process_term :: bool
  ke_group_kill :: bool

text \<open>\<open>exec.CommandContext\<close> refuses to start once the manager's context is cancelled.\<close>

definition start_process :: "start_env \<Rightarrow> node_mgr \<Rightarrow> (node_mgr, nm_error, unit) gores" where
  "start_process env m =
     (case (if nm_ctx_done m then None else se_spawn env) of
        None \<Rightarrow> (m, Inl Spawn_failed)
      | Some pid \<Rightarrow>
          (m\<lparr>nm_cmd := Some pid, nm_process := Some pid, nm_start_time := se_now env,
             nm_state := StateRunning\<rparr>, Inr ()))"

definition nm_start ::
  "nm_config \<Rightarrow> start_env \<Rightarrow> string list \<Rightarrow> node_mgr \<Rightarrow> (node_mgr, nm_error, unit) gores" where
  "nm_start cfg env args m =
     (if nm_state m \<noteq> StateStopped then (m, Inl (Not_stopped (nm_state m)))
      else
        let m1 = m\<lparr>nm_state := StateStarting, nm_args := args\<rparr> in
        if nc_bin cfg = '''' then (m1\<lparr>nm_state := StateError\<rparr>, Inl No_binary)
        else if \<not> se_stat_ok env then (m1\<lparr>nm_state := StateError\<rparr>, Inl Binary_not_found)
        else (case start_process env m1 of
                (m2, Inl e) \<Rightarrow> (m2\<lparr>nm_state := StateError\<rparr>, Inl e)
              | (m2, Inr _) \<Rightarrow> (m2, Inr ())))"

text \<open>\<open>Stop\<close>: the guarded change to \<open>StateStopping\<close>, the signals, the wait and the clean-up.\<close>

definition stop_begin :: "node_mgr \<Rightarrow> (node_mgr, nm_error, nat) gores" where
  "stop_begin m =
     (if nm_state m \<noteq> StateRunning then (m, Inl Not_running)
      else (case nm_process m of
              None \<Rightarrow> (m\<lparr>nm_state := StateStopping\<rparr>, Inl Nil_process)
            | Some pid \<Rightarrow> (m\<lparr>nm_state := StateStopping\<rparr>, Inr pid)))"

definition send_stop_signal :: "stop_env \<Rightarrow> nm_error + unit" where
  "send_stop_signal env =
     (if \<not> ke_group_term env \<and> \<not> ke_process_term env \<and> \<not> ke_group_kill env
      then Inl Kill_failed else Inr ())"

definition shutdown_grace :: "nm_config \<Rightarrow> duration" where
  "shutdown_grace cfg =
     (if nc_shutdown_grace cfg > 0 then nc_shutdown_grace cfg else default_shutdown_grace)"

text \<open>
  The \<open>select\<close> of \<open>waitForShutdown\<close> on the channel it was given: \<open>True\<close> when the graceful branch can
  fire. A nil channel never can; otherwise the grace timer fires and the process is killed.
\<close>

definition done_fired :: "nat option \<Rightarrow> node_mgr \<Rightarrow> bool" where
  "done_fired ch m = (case ch of None \<Rightarrow> False | Some c \<Rightarrow> c \<in> set (nm_closed m))"

definition close_done :: "node_mgr \<Rightarrow> node_mgr" where
  "close_done m =
     (case nm_done m of None \<Rightarrow> m | Some c \<Rightarrow> m\<lparr>nm_closed := c # nm_closed m, nm_done := None\<rparr>)"

definition cleanup_state :: "node_mgr \<Rightarrow> node_mgr" where
  "cleanup_state m = close_done (m\<lparr>nm_state := StateStopped, nm_cmd := None, nm_process := None\<rparr>)"

text \<open>The whole call; the result says whether the process had to be killed.\<close>

definition nm_stop :: "stop_env \<Rightarrow> node_mgr \<Rightarrow> (node_mgr, nm_error, bool) gores" where
  "nm_stop env m =
     (case stop_begin m of
        (m1, Inl e) \<Rightarrow> (m1, Inl e)
      | (m1, Inr pid) \<Rightarrow>
          (case send_stop_signal env of
             Inl e \<Rightarrow> (m1, Inl e)
           | Inr _ \<Rightarrow> (cleanup_state m1, Inr (\<not> done_fired (nm_done m1) m1))))"

definition reset_state :: "node_mgr \<Rightarrow> node_mgr" where
  "reset_state m = m\<lparr>nm_state := StateStopped, nm_cmd := None, nm_process := None\<rparr>"

definition ensure_done :: "node_mgr \<Rightarrow> node_mgr" where
  "ensure_done m =
     (case nm_done m of
        None \<Rightarrow> m\<lparr>nm_done := Some (nm_next_chan m), nm_next_chan := Suc (nm_next_chan m)\<rparr>
      | Some _ \<Rightarrow> m)"

definition nm_restart ::
  "nm_config \<Rightarrow> stop_env \<Rightarrow> start_env \<Rightarrow> node_mgr \<Rightarrow> (node_mgr, nm_error, unit) gores" where
  "nm_restart cfg kenv senv m =
     (let args = nm_args m;
          stopped = (if nm_state m = StateRunning
                     then (case nm_stop kenv m of (m1, Inl e) \<Rightarrow> (m1, Inl (Restart_stop e))
                                                | (m1, Inr _) \<Rightarrow> (m1, Inr ()))
                     else if nm_state m \<noteq> StateStopped then (reset_state m, Inr ())
                     else (m, Inr ())) in
      case stopped of
        (m1, Inl e) \<Rightarrow> (m1, Inl e)
      | (m1, Inr _) \<Rightarrow>
          (case nm_start cfg senv args (ensure_done m1) of
             (m2, Inl e) \<Rightarrow> (m2, Inl (Restart_start e))
           | (m2, Inr _) \<Rightarrow> (m2\<lparr>nm_restart_count := nm_restart_count m2 + 1\<rparr>, Inr ())))"

definition should_auto_restart :: "nm_config \<Rightarrow> node_mgr \<Rightarrow> bool" where
  "should_auto_restart cfg m \<longleftrightarrow>
     nc_restart_on_failure cfg \<and> nm_restart_count m < nm_max_restarts m"

text \<open>The flag says whether an automatic restart was scheduled.\<close>

definition handle_process_crash :: "nm_config \<Rightarrow> node_mgr \<Rightarrow> node_mgr \<times> bool" where
  "handle_process_crash cfg m =
     (let m1 = close_done (m\<lparr>nm_state := StateCrashed\<rparr>) in
      if should_auto_restart cfg m1 then (m1, True)
      else (m1\<lparr>nm_state := StateError\<rparr>, False))"

text \<open>The monitor goroutine after \<open>cmd.Wait\<close> has returned.\<close>

definition monitor_wake :: "nm_config \<Rightarrow> node_mgr \<Rightarrow> node_mgr \<times> bool" where
  "monitor_wake cfg m =
     (if nm_state m = StateStopping then (m, False) else handle_process_crash cfg m)"

definition nm_close :: "stop_env \<Rightarrow> node_mgr \<Rightarrow> (node_mgr, nm_error, unit) gores" where
  "nm_close env m =
     (let m0 = m\<lparr>nm_ctx_done := True\<rparr> in
      if nm_state m0 = StateRunning
      then (case nm_stop env m0 of (m1, Inl e) \<Rightarrow> (m1, Inl e) | (m1, Inr _) \<Rightarrow> (m1, Inr ()))
      else (m0, Inr ()))"

definition get_state :: "node_mgr \<Rightarrow> node_state" where
  "get_state m = nm_state m"

definition get_pid :: "node_mgr \<Rightarrow> nat" where
  "get_pid m = (case nm_process m of Some pid \<Rightarrow> pid | None \<Rightarrow> 0)"

definition get_uptime :: "time \<Rightarrow> node_mgr \<Rightarrow> duration" where
  "get_uptime now m =
     (if nm_state m = StateRunning \<and> nm_start_time m \<noteq> 0 then now - nm_start_time m else 0)"

definition is_healthy :: "bool \<Rightarrow> node_mgr \<Rightarrow> bool" where
  "is_healthy signal_ok m =
     (if nm_state m \<noteq> StateRunning \<or> nm_process m = None then False else signal_ok)"

definition set_node_args :: "string list \<Rightarrow> node_mgr \<Rightarrow> node_mgr" where
  "set_node_args args m = m\<lparr>nm_args := args\<rparr>"

definition build_environment :: "nm_config \<Rightarrow> string list \<Rightarrow> string list" where
  "build_environment cfg os_env =
     os_env
     @ (if nc_home cfg \<noteq> '''' then [''WEMIX_HOME='' @ nc_home cfg] else [])
     @ (if nc_network cfg \<noteq> '''' then [''WEMIX_NETWORK='' @ nc_network cfg] else [])
     @ map (\<lambda>(k, v). k @ ''='' @ v) (nc_environment cfg)"

text \<open>
  \<open>getBinaryVersion\<close>: the four spellings are tried in order; an answer is the first line of an
  output that is not blank. The answer to each try, and whether the 5 second context has expired
  after it, come from the environment: \<open>None\<close> is a failed command.
\<close>

datatype version_result = Version string | Version_timeout | Version_unknown

fun try_versions :: "(string list option \<times> bool) list \<Rightarrow> version_result" where
  "try_versions [] = Version_unknown"
| "try_versions ((Some (l # ls), expired) # tries) =
     (if l \<noteq> '''' then Version l
      else if expired then Version_timeout else try_versions tries)"
| "try_versions ((_, expired) # tries) =
     (if expired then Version_timeout else try_versions tries)"

definition get_version :: "nm_config \<Rightarrow> (string list option \<times> bool) list \<Rightarrow> node_mgr \<Rightarrow> string" where
  "get_version cfg tries m =
     (if nm_state m \<noteq> StateRunning \<or> nc_bin cfg = '''' then ''unknown''
      else (case try_versions (take 4 tries) of Version v \<Rightarrow> v | _ \<Rightarrow> ''unknown''))"

section \<open>Well-formed managers\<close>

text \<open>
  A process and its command come and go together, a running or stopping node has one, a channel is
  closed at most once, and fresh channel identities are fresh.
\<close>

definition mgr_ok :: "node_mgr \<Rightarrow> bool" where
  "mgr_ok m \<longleftrightarrow>
     nm_cmd m = nm_process m \<and>
     (nm_state m = StateRunning \<or> nm_state m = StateStopping \<longrightarrow> nm_process m \<noteq> None) \<and>
     (\<forall>c. nm_done m = Some c \<longrightarrow> c \<notin> set (nm_closed m) \<and> c < nm_next_chan m) \<and>
     (\<forall>c\<in>set (nm_closed m). c < nm_next_chan m) \<and> distinct (nm_closed m) \<and>
     0 < nm_max_restarts m"

lemma mgr_ok_new [go_inv]: "mgr_ok (new_manager cfg)"
  by (simp add: mgr_ok_def new_manager_def default_max_restarts_def)

lemma nm_start_cases:
  obtains (refused) "nm_state m \<noteq> StateStopped"
      "nm_start cfg env args m = (m, Inl (Not_stopped (nm_state m)))"
  | (failed) e where "nm_state m = StateStopped"
      "nm_start cfg env args m = (m\<lparr>nm_state := StateError, nm_args := args\<rparr>, Inl e)"
  | (started) pid where "nm_state m = StateStopped" "se_spawn env = Some pid"
      "nm_start cfg env args m =
         (m\<lparr>nm_state := StateRunning, nm_cmd := Some pid, nm_process := Some pid,
            nm_args := args, nm_start_time := se_now env\<rparr>, Inr ())"
proof (cases "nm_state m = StateStopped")
  case True
  consider "nc_bin cfg = ''''" | "nc_bin cfg \<noteq> ''''" "\<not> se_stat_ok env"
    | "nc_bin cfg \<noteq> ''''" "se_stat_ok env" "nm_ctx_done m"
    | "nc_bin cfg \<noteq> ''''" "se_stat_ok env" "\<not> nm_ctx_done m" "se_spawn env = None"
    | pid where "nc_bin cfg \<noteq> ''''" "se_stat_ok env" "\<not> nm_ctx_done m" "se_spawn env = Some pid"
    by auto
  then show thesis
    by cases (use True failed started in \<open>simp_all add: nm_start_def start_process_def Let_def\<close>)
next
  case False
  with refused show thesis by (simp add: nm_start_def)
qed

lemma mgr_ok_start [go_inv]: "mgr_ok m \<Longrightarrow> mgr_ok (fst (nm_start cfg env args m))"
  by (cases rule: nm_start_cases [of m cfg env args]) (simp_all add: mgr_ok_def)

lemma close_done_simps [simp]:
  "nm_state (close_done m) = nm_state m" "nm_cmd (close_done m) = nm_cmd m"
  "nm_process (close_done m) = nm_process m" "nm_args (close_done m) = nm_args m"
  "nm_done (close_done m) = None" "nm_restart_count (close_done m) = nm_restart_count m"
  "nm_max_restarts (close_done m) = nm_max_restarts m"
  "nm_ctx_done (close_done m) = nm_ctx_done m"
  "nm_next_chan (close_done m) = nm_next_chan m"
  by (simp_all add: close_done_def split: option.splits)

lemma close_done_closed:
  "set (nm_closed (close_done m)) = set (nm_closed m) \<union> set_option (nm_done m)"
  by (auto simp: close_done_def split: option.splits)

lemma mgr_ok_close_done [go_inv]: "mgr_ok m \<Longrightarrow> mgr_ok (close_done m)"
  by (auto simp: mgr_ok_def close_done_def split: option.splits)

lemma mgr_ok_update:
  assumes "mgr_ok m"
  shows "st \<noteq> StateRunning \<Longrightarrow> st \<noteq> StateStopping \<Longrightarrow> mgr_ok (m\<lparr>nm_state := st\<rparr>)"
    and "st \<noteq> StateRunning \<Longrightarrow> st \<noteq> StateStopping \<Longrightarrow>
      mgr_ok (m\<lparr>nm_state := st, nm_cmd := None, nm_process := None\<rparr>)"
    and "mgr_ok (m\<lparr>nm_restart_count := n\<rparr>)" and "mgr_ok (m\<lparr>nm_args := as\<rparr>)"
    and "mgr_ok (m\<lparr>nm_ctx_done := b\<rparr>)"
  using assms by (auto simp: mgr_ok_def)

lemma mgr_ok_cleanup [go_inv]: "mgr_ok m \<Longrightarrow> mgr_ok (cleanup_state m)"
  by (simp add: cleanup_state_def mgr_ok_close_done mgr_ok_update(2))

lemma mgr_ok_reset [go_inv]: "mgr_ok m \<Longrightarrow> mgr_ok (reset_state m)"
  by (simp add: reset_state_def mgr_ok_update(2))

lemma mgr_ok_ensure [go_inv]: "mgr_ok m \<Longrightarrow> mgr_ok (ensure_done m)"
  by (auto simp: mgr_ok_def ensure_done_def split: option.splits)

lemma mgr_ok_stopping [go_inv]:
  "mgr_ok m \<Longrightarrow> nm_process m \<noteq> None \<Longrightarrow> mgr_ok (m\<lparr>nm_state := StateStopping\<rparr>)"
  by (simp add: mgr_ok_def)

lemma nm_stop_cases:
  obtains (refused) "nm_state m \<noteq> StateRunning" "nm_stop env m = (m, Inl Not_running)"
  | (no_process) "nm_state m = StateRunning" "nm_process m = None"
      "nm_stop env m = (m\<lparr>nm_state := StateStopping\<rparr>, Inl Nil_process)"
  | (kill_failed) pid where "nm_state m = StateRunning" "nm_process m = Some pid"
      "nm_stop env m = (m\<lparr>nm_state := StateStopping\<rparr>, Inl Kill_failed)"
  | (stopped) pid where "nm_state m = StateRunning" "nm_process m = Some pid"
      "nm_stop env m = (cleanup_state (m\<lparr>nm_state := StateStopping\<rparr>),
         Inr (\<not> done_fired (nm_done m) m))"
proof (cases "nm_state m = StateRunning")
  case True
  have fired: "done_fired ch (m\<lparr>nm_state := StateStopping\<rparr>) = done_fired ch m" for ch
    by (simp add: done_fired_def split: option.splits)
  show thesis
  proof (cases "nm_process m")
    case None
    with True no_process show thesis by (simp add: nm_stop_def stop_begin_def)
  next
    case (Some pid)
    with True kill_failed stopped fired show thesis
      by (cases "send_stop_signal env")
        (simp_all add: nm_stop_def stop_begin_def send_stop_signal_def split: if_splits)
  qed
next
  case False
  with refused show thesis by (simp add: nm_stop_def stop_begin_def)
qed

lemma mgr_ok_stop [go_inv]:
  assumes "mgr_ok m"
  shows "mgr_ok (fst (nm_stop env m))"
proof (cases rule: nm_stop_cases [of m env])
  case no_process
  with assms show ?thesis by (simp add: mgr_ok_def)
qed (use assms in \<open>simp_all add: mgr_ok_cleanup mgr_ok_stopping\<close>)

lemma mgr_ok_crash [go_inv]: "mgr_ok m \<Longrightarrow> mgr_ok (fst (handle_process_crash cfg m))"
  by (simp add: handle_process_crash_def Let_def mgr_ok_update(1) mgr_ok_close_done)

lemma mgr_ok_wake [go_inv]: "mgr_ok m \<Longrightarrow> mgr_ok (fst (monitor_wake cfg m))"
  by (simp add: monitor_wake_def mgr_ok_crash)

lemma mgr_ok_restart [go_inv]:
  assumes "mgr_ok m"
  shows "mgr_ok (fst (nm_restart cfg kenv senv m))"
proof -
  have start: "mgr_ok (fst (case nm_start cfg senv args (ensure_done m1) of
        (m2, Inl e) \<Rightarrow> (m2, Inl (Restart_start e))
      | (m2, Inr _) \<Rightarrow> (m2\<lparr>nm_restart_count := nm_restart_count m2 + 1\<rparr>, Inr ())))"
    if "mgr_ok m1" for args m1
    using mgr_ok_start [OF mgr_ok_ensure [OF that], of cfg senv args]
    by (cases rule: nm_start_cases [of "ensure_done m1" cfg senv args])
      (simp_all add: mgr_ok_update(3))
  show ?thesis
  proof (cases "nm_state m = StateRunning")
    case True
    with assms mgr_ok_stop [OF assms, of kenv] start show ?thesis
      by (cases rule: nm_stop_cases [of m kenv]) (simp_all add: nm_restart_def Let_def)
  next
    case False
    with start [OF assms] start [OF mgr_ok_reset [OF assms]] show ?thesis
      by (simp add: nm_restart_def Let_def)
  qed
qed

section \<open>The interface of the orchestrator\<close>

text \<open>
  \<open>NodeManager\<close> of \<open>internal/orchestrator/interfaces.go\<close>, with the laws the orchestrator's upgrade
  flow depends on: both calls are guarded by the state, and a failed start leaves the error state.
\<close>

locale node_control =
  fixes start :: "'se \<Rightarrow> 'n \<Rightarrow> 'n \<times> bool"
    and stop :: "'ke \<Rightarrow> 'n \<Rightarrow> 'n \<times> bool"
    and state :: "'n \<Rightarrow> node_state"
    and invar :: "'n \<Rightarrow> bool"
  assumes start_ok: "start env n = (n', True) \<Longrightarrow> state n = StateStopped \<and> state n' = StateRunning"
    and start_refused: "state n \<noteq> StateStopped \<Longrightarrow> start env n = (n, False)"
    and start_failed: "start env n = (n', False) \<Longrightarrow> state n = StateStopped \<Longrightarrow> state n' = StateError"
    and stop_ok: "stop kenv n = (n', True) \<Longrightarrow> state n = StateRunning \<and> state n' = StateStopped"
    and stop_refused: "state n \<noteq> StateRunning \<Longrightarrow> stop kenv n = (n, False)"
    and stop_failed: "stop kenv n = (n', False) \<Longrightarrow> state n = StateRunning \<Longrightarrow> state n' = StateStopping"
    and start_invar: "invar n \<Longrightarrow> invar (fst (start env n))"
    and stop_invar: "invar n \<Longrightarrow> invar (fst (stop kenv n))"

definition ctl_start :: "nm_config \<Rightarrow> start_env \<Rightarrow> node_mgr \<Rightarrow> node_mgr \<times> bool" where
  "ctl_start cfg env m = (case nm_start cfg env [] m of (m', r) \<Rightarrow> (m', r = Inr ()))"

definition ctl_stop :: "stop_env \<Rightarrow> node_mgr \<Rightarrow> node_mgr \<times> bool" where
  "ctl_stop env m = (case nm_stop env m of (m', Inl _) \<Rightarrow> (m', False) | (m', Inr _) \<Rightarrow> (m', True))"

lemma cleanup_state_simps [simp]:
  "nm_state (cleanup_state m) = StateStopped" "nm_process (cleanup_state m) = None"
  "nm_cmd (cleanup_state m) = None" "nm_done (cleanup_state m) = None"
  "nm_restart_count (cleanup_state m) = nm_restart_count m"
  by (simp_all add: cleanup_state_def)

interpretation nodectl: node_control "ctl_start cfg" ctl_stop get_state mgr_ok for cfg
proof unfold_locales
  fix env kenv n n'
  show "ctl_start cfg env n = (n', True) \<Longrightarrow> get_state n = StateStopped \<and> get_state n' = StateRunning"
    by (cases rule: nm_start_cases [of n cfg env "[]"]) (auto simp: ctl_start_def get_state_def)
  show "get_state n \<noteq> StateStopped \<Longrightarrow> ctl_start cfg env n = (n, False)"
    by (simp add: ctl_start_def nm_start_def get_state_def)
  show "ctl_start cfg env n = (n', False) \<Longrightarrow> get_state n = StateStopped \<Longrightarrow> get_state n' = StateError"
    by (cases rule: nm_start_cases [of n cfg env "[]"]) (auto simp: ctl_start_def get_state_def)
  show "ctl_stop kenv n = (n', True) \<Longrightarrow> get_state n = StateRunning \<and> get_state n' = StateStopped"
    by (cases rule: nm_stop_cases [of n kenv]) (auto simp: ctl_stop_def get_state_def)
  show "get_state n \<noteq> StateRunning \<Longrightarrow> ctl_stop kenv n = (n, False)"
    by (simp add: ctl_stop_def nm_stop_def stop_begin_def get_state_def)
  show "ctl_stop kenv n = (n', False) \<Longrightarrow> get_state n = StateRunning \<Longrightarrow> get_state n' = StateStopping"
    by (cases rule: nm_stop_cases [of n kenv]) (auto simp: ctl_stop_def get_state_def)
  show "mgr_ok n \<Longrightarrow> mgr_ok (fst (ctl_start cfg env n))"
    using mgr_ok_start [of n cfg env "[]"] by (simp add: ctl_start_def case_prod_beta)
  show "mgr_ok n \<Longrightarrow> mgr_ok (fst (ctl_stop kenv n))"
    using mgr_ok_stop [of n kenv]
    by (cases rule: nm_stop_cases [of n kenv]) (simp_all add: ctl_stop_def)
qed

end
