(* ===== verification/UpgradeTypes.thy ===== *)
theory UpgradeTypes
  imports Prelude
begin

text \<open>
  \<open>pkg/types/upgrade.go\<close>: the upgrade-info record, its file, and the binary table inside its
  \<open>info\<close> object. A JSON number keeps its literal text, because nothing here reads one from the
  \<open>info\<close> object. A file is what the program can observe of it: whether it is empty, its
  modification time, and what \<open>json.Unmarshal\<close> into an \<open>UpgradeInfo\<close> makes of its bytes
  (\<open>None\<close> for an error). Instants count from Go's zero time.
\<close>

datatype json =
  JNull | JBool bool | JNum string | JStr string | JArr "json list" | JObj "(string \<times> json) list"

record upgrade_info =
  ui_name :: string
  ui_height :: int
  ui_info :: "(string \<times> json) list"

record ufile =
  uf_empty :: bool
  uf_mtime :: time
  uf_decoded :: "upgrade_info option"

datatype fentry = Absent | Unreadable | Present ufile

type_synonym ufs = "string \<Rightarrow> fentry"

datatype types_error =
  Read_failed | Parse_failed | Name_empty | Height_not_positive | Write_failed
| Stat_failed | File_empty | Already_started

definition parse_upgrade_info_file :: "ufs \<Rightarrow> string \<Rightarrow> types_error + upgrade_info" where
  "parse_upgrade_info_file fs path =
     (case fs path of
        Absent \<Rightarrow> Inl Read_failed
      | Unreadable \<Rightarrow> Inl Read_failed
      | Present f \<Rightarrow>
          (case uf_decoded f of
             None \<Rightarrow> Inl Parse_failed
           | Some info \<Rightarrow>
               if ui_name info = '''' then Inl Name_empty
               else if ui_height info \<le> 0 then Inl Height_not_positive
               else Inr info))"

text \<open>
  \<open>os.WriteFile\<close> of the marshalled record: the environment says whether the write succeeds and
  what the clock reads. Marshalling such a record does not fail, and decoding its text gives the
  record back (the contract of \<open>encoding/json\<close> on strings, integers and JSON values).
\<close>

definition write_upgrade_info_file ::
  "bool \<Rightarrow> time \<Rightarrow> string \<Rightarrow> upgrade_info \<Rightarrow> ufs \<Rightarrow> (ufs, types_error, unit) gores" where
  "write_upgrade_info_file writable now path info fs =
     (if writable
      then (fs(path := Present \<lparr>uf_empty = False, uf_mtime = now, uf_decoded = Some info\<rparr>), Inr ())
      else (fs, Inl Write_failed))"

record binary_info =
  bi_binaries :: "(string, string) gomap"
  bi_checksum :: string

text \<open>The type assertions \<open>v.(map[string]interface{})\<close> and \<open>v.(string)\<close> on an optional entry.\<close>

fun as_obj :: "json option \<Rightarrow> (string \<times> json) list option" where
  "as_obj (Some (JObj kvs)) = Some kvs"
| "as_obj _ = None"

fun as_str :: "json option \<Rightarrow> string option" where
  "as_str (Some (JStr s)) = Some s"
| "as_str _ = None"

fun add_binaries :: "(string \<times> json) list \<Rightarrow> (string, string) gomap \<Rightarrow> (string, string) gomap" where
  "add_binaries [] bs = bs"
| "add_binaries ((platform, url) # kvs) bs =
     add_binaries kvs (case as_str (Some url) of Some s \<Rightarrow> gm_put platform s bs | None \<Rightarrow> bs)"

definition parse_binary_info :: "(string \<times> json) list \<Rightarrow> types_error + binary_info" where
  "parse_binary_info info =
     Inr \<lparr>bi_binaries = (case as_obj (map_of info ''binaries'') of
                           Some kvs \<Rightarrow> add_binaries kvs [] | None \<Rightarrow> []),
          bi_checksum = (case as_str (map_of info ''checksum'') of Some s \<Rightarrow> s | None \<Rightarrow> '''')\<rparr>"

section \<open>Lemmas\<close>

definition valid_info :: "upgrade_info \<Rightarrow> bool" where
  "valid_info info \<longleftrightarrow> ui_name info \<noteq> '''' \<and> 0 < ui_height info"

lemma parse_Inr_iff:
  "parse_upgrade_info_file fs path = Inr info \<longleftrightarrow>
     (\<exists>f. fs path = Present f \<and> uf_decoded f = Some info) \<and> valid_info info"
  by (auto simp: parse_upgrade_info_file_def valid_info_def split: fentry.splits option.splits if_splits)

lemma parse_valid: "parse_upgrade_info_file fs path = Inr info \<Longrightarrow> valid_info info"
  by (simp add: parse_Inr_iff)

lemma add_binaries_ok: "gm_ok bs \<Longrightarrow> gm_ok (add_binaries kvs bs)"
  by (induction kvs bs rule: add_binaries.induct) (auto split: option.splits)

lemma add_binaries_lookup:
  "gm_ok kvs \<Longrightarrow> map_of (add_binaries kvs bs) p =
     (case as_str (map_of kvs p) of Some s \<Rightarrow> Some s | None \<Rightarrow> map_of bs p)"
proof (induction kvs bs rule: add_binaries.induct)
  case (1 bs)
  then show ?case by simp
next
  case (2 platform url kvs bs)
  from "2.prems" have "map_of kvs platform = None" by (simp add: map_of_eq_None_iff)
  with 2 show ?case by (auto split: option.splits)
qed

text \<open>
  Writing an upgrade-info file and parsing it back returns the same record exactly when the
  record is one the parser accepts (a name and a positive height); otherwise the parse fails.
\<close>

theorem upgrade_file_roundtrip:
  "parse_upgrade_info_file (fst (write_upgrade_info_file True now path info fs)) path =
     (if valid_info info then Inr info
      else if ui_name info = '''' then Inl Name_empty else Inl Height_not_positive)"
  by (simp add: parse_upgrade_info_file_def write_upgrade_info_file_def valid_info_def)

text \<open>
  The binary table of an upgrade's \<open>info\<close> object holds exactly the string entries of its
  \<open>binaries\<close> object: other entries and a missing or ill-typed object are skipped, never an error.
\<close>

theorem parse_binary_info_table:
  assumes "\<And>kvs. as_obj (map_of info ''binaries'') = Some kvs \<Longrightarrow> gm_ok kvs"
  shows "\<exists>b. parse_binary_info info = Inr b \<and> gm_ok (bi_binaries b) \<and>
    (\<forall>p s. map_of (bi_binaries b) p = Some s \<longleftrightarrow>
       (\<exists>kvs. as_obj (map_of info ''binaries'') = Some kvs \<and> map_of kvs p = Some (JStr s)))"
proof -
  have str: "as_str j = Some s \<longleftrightarrow> j = Some (JStr s)" for j s
    by (cases j rule: as_str.cases) auto
  show ?thesis
    by (auto simp: parse_binary_info_def assms add_binaries_ok add_binaries_lookup str
        simp del: map_of_eq_Some_iff split: option.splits)
qed

theorem parse_binary_info_table_witness:
  "\<exists>b. parse_binary_info [(''binaries'', JObj [(''linux/amd64'', JStr ''u''), (''x'', JNull)])] = Inr b \<and>
     map_of (bi_binaries b) ''linux/amd64'' = Some ''u'' \<and> map_of (bi_binaries b) ''x'' = None"
proof -
  let ?info = "[(''binaries'', JObj [(''linux/amd64'', JStr ''u''), (''x'', JNull)])]"
  have "\<And>kvs. as_obj (map_of ?info ''binaries'') = Some kvs \<Longrightarrow> gm_ok kvs" by auto
  from parse_binary_info_table [OF this] obtain b where b: "parse_binary_info ?info = Inr b"
    and t: "\<And>p s. map_of (bi_binaries b) p = Some s \<longleftrightarrow>
       (\<exists>kvs. as_obj (map_of ?info ''binaries'') = Some kvs \<and> map_of kvs p = Some (JStr s))"
    by blast
  have "map_of (bi_binaries b) ''linux/amd64'' = Some ''u''" by (simp add: t)
  moreover have "map_of (bi_binaries b) ''x'' \<noteq> Some s" for s by (simp add: t)
  ultimately show ?thesis using b by auto
qed

end
