(* ===== verification/FileWatcher.thy ===== *)
theory FileWatcher
  imports UpgradeTypes
begin

text \<open>
  \<open>internal/upgrade/watcher.go\<close>: the file watcher. One poll of the file is \<open>check_for_update\<close>;
  the lifecycle (\<open>Start\<close>, \<open>Stop\<close>, the exit of the monitor goroutine) keeps track of the two
  channels it closes, because closing one twice is a panic (\<open>None\<close>). The interface the
  orchestrator uses (\<open>UpgradeWatcher\<close> in \<open>internal/orchestrator/interfaces.go\<close>) is the locale
  \<open>upgrade_source\<close>, interpreted on this watcher.
\<close>

record watcher =
  fw_filename :: string
  fw_interval :: duration
  fw_last_mod :: time
  fw_current :: "upgrade_info option"
  fw_needs :: bool
  fw_initialized :: bool
  fw_stop_closed :: bool
  fw_stopped_closed :: bool

definition new_file_watcher :: "string \<Rightarrow> duration \<Rightarrow> watcher" where
  "new_file_watcher filename interval =
     \<lparr>fw_filename = filename, fw_interval = interval, fw_last_mod = 0, fw_current = None,
      fw_needs = False, fw_initialized = False, fw_stop_closed = False, fw_stopped_closed = False\<rparr>"

definition check_file :: "ufs \<Rightarrow> watcher \<Rightarrow> (watcher, types_error, upgrade_info option) gores" where
  "check_file fs fw =
     (case fs (fw_filename fw) of
        Absent \<Rightarrow> (fw, Inr None)
      | Unreadable \<Rightarrow> (fw, Inl Stat_failed)
      | Present f \<Rightarrow>
          if uf_empty f then (fw, Inl File_empty)
          else if \<not> fw_last_mod fw < uf_mtime f then (fw, Inr None)
          else (case parse_upgrade_info_file fs (fw_filename fw) of
                  Inl _ \<Rightarrow> (fw, Inl Parse_failed)
                | Inr info \<Rightarrow> (fw\<lparr>fw_last_mod := uf_mtime f\<rparr>, Inr (Some info))))"

text \<open>The poll: the result says whether an upgrade was detected.\<close>

definition check_for_update :: "ufs \<Rightarrow> watcher \<Rightarrow> watcher \<times> bool" where
  "check_for_update fs fw =
     (case check_file fs fw of
        (fw', Inl _) \<Rightarrow> (fw', False)
      | (fw', Inr None) \<Rightarrow> (fw', False)
      | (fw', Inr (Some info)) \<Rightarrow>
          (case fw_current fw' of
             None \<Rightarrow> (fw'\<lparr>fw_current := Some info, fw_needs := True\<rparr>, True)
           | Some cur \<Rightarrow>
               if ui_name info \<noteq> ui_name cur \<or> ui_height info \<noteq> ui_height cur
               then (fw'\<lparr>fw_current := Some info, fw_needs := True\<rparr>, True)
               else (fw', False)))"

definition watcher_start :: "ufs \<Rightarrow> watcher \<Rightarrow> (watcher, types_error, unit) gores" where
  "watcher_start fs fw =
     (if fw_initialized fw then (fw, Inl Already_started)
      else (case check_file fs fw of
              (fw', Inr (Some info)) \<Rightarrow> (fw'\<lparr>fw_current := Some info, fw_initialized := True\<rparr>, Inr ())
            | (fw', _) \<Rightarrow> (fw'\<lparr>fw_initialized := True\<rparr>, Inr ())))"

text \<open>
  \<open>Stop\<close> closes \<open>stopChan\<close>; the monitor goroutine, whose \<open>select\<close> then has it ready, returns and
  its deferred call closes \<open>stoppedChan\<close>, on which \<open>Stop\<close> waits.
\<close>

definition watcher_stop :: "watcher \<Rightarrow> watcher option" where
  "watcher_stop fw =
     (if \<not> fw_initialized fw then Some fw
      else if fw_stop_closed fw then None
      else Some (fw\<lparr>fw_initialized := False, fw_stop_closed := True\<rparr>))"

definition monitor_exit :: "watcher \<Rightarrow> watcher option" where
  "monitor_exit fw =
     (if \<not> fw_stop_closed fw then Some fw
      else if fw_stopped_closed fw then None
      else Some (fw\<lparr>fw_stopped_closed := True\<rparr>))"

definition get_current_upgrade :: "watcher \<Rightarrow> upgrade_info option" where
  "get_current_upgrade fw = fw_current fw"

definition needs_update :: "watcher \<Rightarrow> bool" where
  "needs_update fw = fw_needs fw"

definition clear_update_flag :: "watcher \<Rightarrow> watcher" where
  "clear_update_flag fw = fw\<lparr>fw_needs := False\<rparr>"

text \<open>
  One round of \<open>WaitForUpgrade\<close>: \<open>Some (Some info)\<close> returns the upgrade, \<open>Some None\<close> returns
  \<open>nil\<close> because the watcher stopped, \<open>None\<close> waits for the next tick.
\<close>

definition wait_for_upgrade_round :: "watcher \<Rightarrow> watcher \<times> upgrade_info option option" where
  "wait_for_upgrade_round fw =
     (if fw_stop_closed fw then (fw, Some None)
      else if needs_update fw
      then (clear_update_flag fw, Some (get_current_upgrade fw))
      else (fw, None))"

text \<open>The monitor goroutine over a run of ticks, each with the file system it finds.\<close>

fun watch_ticks :: "ufs list \<Rightarrow> watcher \<Rightarrow> watcher" where
  "watch_ticks [] fw = fw"
| "watch_ticks (fs # fss) fw = watch_ticks fss (fst (check_for_update fs fw))"

section \<open>The interface of the orchestrator\<close>

locale upgrade_source =
  fixes needs :: "'w \<Rightarrow> bool"
    and current :: "'w \<Rightarrow> upgrade_info option"
    and clear :: "'w \<Rightarrow> 'w"
    and invar :: "'w \<Rightarrow> bool"
  assumes needs_current: "invar w \<Longrightarrow> needs w \<Longrightarrow> \<exists>u. current w = Some u \<and> valid_info u"
    and clear_needs [simp]: "\<not> needs (clear w)"
    and clear_current [simp]: "current (clear w) = current w"
    and clear_invar: "invar w \<Longrightarrow> invar (clear w)"

definition watcher_ok :: "watcher \<Rightarrow> bool" where
  "watcher_ok fw \<longleftrightarrow>
     (fw_needs fw \<longrightarrow> fw_current fw \<noteq> None) \<and>
     (\<forall>u. fw_current fw = Some u \<longrightarrow> valid_info u)"

interpretation file_source: upgrade_source needs_update get_current_upgrade clear_update_flag watcher_ok
  by unfold_locales
    (auto simp: needs_update_def get_current_upgrade_def clear_update_flag_def watcher_ok_def)

section \<open>Lemmas\<close>

lemma check_file_disj:
  "(\<exists>f info. fs (fw_filename fw) = Present f \<and> \<not> uf_empty f \<and> fw_last_mod fw < uf_mtime f \<and>
      parse_upgrade_info_file fs (fw_filename fw) = Inr info \<and>
      check_file fs fw = (fw\<lparr>fw_last_mod := uf_mtime f\<rparr>, Inr (Some info))) \<or>
   check_file fs fw = (fw, Inr None) \<or> (\<exists>e. check_file fs fw = (fw, Inl e))"
  by (auto simp: check_file_def split: fentry.splits sum.splits if_splits)

lemma check_file_cases:
  obtains (found) f info where "fs (fw_filename fw) = Present f" "\<not> uf_empty f"
      "fw_last_mod fw < uf_mtime f" "parse_upgrade_info_file fs (fw_filename fw) = Inr info"
      "check_file fs fw = (fw\<lparr>fw_last_mod := uf_mtime f\<rparr>, Inr (Some info))"
  | (nothing) "check_file fs fw = (fw, Inr None)"
  | (failed) e where "check_file fs fw = (fw, Inl e)"
  using check_file_disj [of fs fw] by metis

lemma check_file_ok: "watcher_ok fw \<Longrightarrow> watcher_ok (fst (check_file fs fw))"
  by (cases rule: check_file_cases [of fs fw]) (auto simp: watcher_ok_def)

lemma check_for_update_ok [go_inv]: "watcher_ok fw \<Longrightarrow> watcher_ok (fst (check_for_update fs fw))"
  by (cases rule: check_file_cases [of fs fw])
    (auto simp: watcher_ok_def check_for_update_def dest: parse_valid split: option.splits)

lemma watcher_start_ok [go_inv]: "watcher_ok fw \<Longrightarrow> watcher_ok (fst (watcher_start fs fw))"
  by (cases rule: check_file_cases [of fs fw])
    (auto simp: watcher_ok_def watcher_start_def dest: parse_valid)

lemma watcher_new_ok [go_inv]: "watcher_ok (new_file_watcher p i)"
  by (simp add: watcher_ok_def new_file_watcher_def)

lemma check_for_update_frame:
  "fw_filename (fst (check_for_update fs fw)) = fw_filename fw"
  "fw_last_mod fw \<le> fw_last_mod (fst (check_for_update fs fw))"
  by (cases rule: check_file_cases [of fs fw]; auto simp: check_for_update_def split: option.splits)+

text \<open>A file that is not newer than the last one parsed changes nothing.\<close>

lemma check_for_update_old:
  assumes "\<And>f. fs (fw_filename fw) = Present f \<Longrightarrow> uf_mtime f \<le> fw_last_mod fw"
  shows "check_for_update fs fw = (fw, False)"
  using assms by (cases rule: check_file_cases [of fs fw]) (auto simp: check_for_update_def)

lemma watch_ticks_old:
  assumes "\<forall>fs\<in>set fss. \<forall>f. fs (fw_filename fw) = Present f \<longrightarrow> uf_mtime f \<le> fw_last_mod fw"
  shows "watch_ticks fss fw = fw"
  using assms by (induction fss) (auto simp: check_for_update_old)

text \<open>
  C15. A poll reports an update exactly when the file is newer than the last one parsed, parses, and
  differs in name or height from the upgrade the watcher holds; it then holds that upgrade with the
  update flag set, and otherwise flag and upgrade are unchanged. The watcher never goes back to an
  older modification time.
\<close>

theorem check_for_update_detects:
  assumes "check_for_update fs fw = (fw', detected)"
  shows "(detected \<longleftrightarrow>
      (\<exists>f info. fs (fw_filename fw) = Present f \<and> \<not> uf_empty f \<and> fw_last_mod fw < uf_mtime f \<and>
         parse_upgrade_info_file fs (fw_filename fw) = Inr info \<and>
         (\<forall>cur. fw_current fw = Some cur \<longrightarrow>
            (ui_name info, ui_height info) \<noteq> (ui_name cur, ui_height cur)))) \<and>
    (detected \<longrightarrow> fw_needs fw' \<and>
      Inr (the (fw_current fw')) = parse_upgrade_info_file fs (fw_filename fw) \<and>
      fw_current fw' \<noteq> None) \<and>
    (\<not> detected \<longrightarrow> fw_needs fw' = fw_needs fw \<and> fw_current fw' = fw_current fw) \<and>
    (fw_last_mod fw \<le> fw_last_mod fw')"
proof (rule conj4I; (intro impI)?)
  show "detected \<longleftrightarrow>
      (\<exists>f info. fs (fw_filename fw) = Present f \<and> \<not> uf_empty f \<and> fw_last_mod fw < uf_mtime f \<and>
         parse_upgrade_info_file fs (fw_filename fw) = Inr info \<and>
         (\<forall>cur. fw_current fw = Some cur \<longrightarrow>
            (ui_name info, ui_height info) \<noteq> (ui_name cur, ui_height cur)))"
    using assms by (auto simp: check_for_update_def check_file_def
        split: fentry.splits if_splits sum.splits option.splits)
  show "fw_needs fw' \<and> Inr (the (fw_current fw')) = parse_upgrade_info_file fs (fw_filename fw) \<and>
      fw_current fw' \<noteq> None" if detected
    using assms that by (cases rule: check_file_cases [of fs fw])
      (auto simp: check_for_update_def split: option.splits if_splits)
  show "fw_needs fw' = fw_needs fw \<and> fw_current fw' = fw_current fw" if "\<not> detected"
    using assms that by (cases rule: check_file_cases [of fs fw])
      (auto simp: check_for_update_def split: option.splits if_splits)
  show "fw_last_mod fw \<le> fw_last_mod fw'"
    using assms check_for_update_frame(2) [of fw fs] by simp
qed

text \<open>
  An upgrade file that is already there when the watcher starts is loaded as the current upgrade
  without the update flag, and as long as the file is not rewritten no poll ever raises the flag: a
  reader that waits for \<open>NeedsUpdate\<close>, as the orchestrator does, never sees that upgrade.
\<close>

theorem existing_upgrade_never_flagged:
  assumes "fs (fw_filename fw) = Present f" and "\<not> uf_empty f" and "fw_last_mod fw < uf_mtime f"
    and "parse_upgrade_info_file fs (fw_filename fw) = Inr info"
    and "\<not> fw_initialized fw" and "\<not> fw_needs fw"
    and "watcher_start fs fw = (fw', r)"
  shows "(get_current_upgrade fw' = Some info) \<and>
    (\<not> needs_update (watch_ticks (replicate n fs) fw'))"
proof (rule conj2I; (intro impI)?)
  have fw': "fw' = fw\<lparr>fw_last_mod := uf_mtime f, fw_current := Some info, fw_initialized := True\<rparr>"
    using assms by (simp add: watcher_start_def check_file_def)
  then show "get_current_upgrade fw' = Some info" by (simp add: get_current_upgrade_def)
  have "watch_ticks (replicate n fs) fw' = fw'"
    by (rule watch_ticks_old) (use assms fw' in auto)
  with fw' assms(6) show "\<not> needs_update (watch_ticks (replicate n fs) fw')"
    by (simp add: needs_update_def)
qed

definition demo_info :: upgrade_info where
  "demo_info = \<lparr>ui_name = ''v2'', ui_height = 100, ui_info = []\<rparr>"

definition demo_fs :: ufs where
  "demo_fs = (\<lambda>p. if p = ''f'' then Present \<lparr>uf_empty = False, uf_mtime = 5, uf_decoded = Some demo_info\<rparr>
                 else Absent)"

lemma demo_file:
  "demo_fs ''f'' = Present \<lparr>uf_empty = False, uf_mtime = 5, uf_decoded = Some demo_info\<rparr>"
  by (simp add: demo_fs_def)

lemma demo_parse: "parse_upgrade_info_file demo_fs ''f'' = Inr demo_info"
  by (simp add: parse_upgrade_info_file_def demo_fs_def demo_info_def)

theorem check_for_update_detects_witness:
  "fw_needs (fst (check_for_update demo_fs (new_file_watcher ''f'' 1)))"
proof -
  obtain fw' d where e: "check_for_update demo_fs (new_file_watcher ''f'' 1) = (fw', d)"
    by fastforce
  have "d" unfolding check_for_update_detects [OF e, THEN conjunct1]
    using demo_parse by (simp add: new_file_watcher_def demo_fs_def)
  then show ?thesis using check_for_update_detects [OF e, THEN conjunct2, THEN conjunct1] e by simp
qed

theorem existing_upgrade_never_flagged_witness:
  "\<not> needs_update (watch_ticks (replicate 7 demo_fs)
      (fst (watcher_start demo_fs (new_file_watcher ''f'' 1))))"
proof -
  let ?fw = "new_file_watcher ''f'' 1"
  obtain fw' r where e: "watcher_start demo_fs ?fw = (fw', r)" by fastforce
  have f: "demo_fs (fw_filename ?fw) =
      Present \<lparr>uf_empty = False, uf_mtime = 5, uf_decoded = Some demo_info\<rparr>"
    by (simp add: demo_fs_def new_file_watcher_def)
  have "\<not> needs_update (watch_ticks (replicate 7 demo_fs) fw')"
    by (rule existing_upgrade_never_flagged [OF f _ _ _ _ _ e, where info = demo_info, THEN conjunct2])
      (simp_all add: new_file_watcher_def demo_parse)
  with e show ?thesis by simp
qed

text \<open>
  The watcher's lifecycle does not survive a restart: after \<open>Start\<close>, \<open>Stop\<close> and the exit of its
  goroutine, a second \<open>Start\<close> is accepted, but the new goroutine finds \<open>stopChan\<close> closed, leaves at
  once and panics on closing \<open>stoppedChan\<close> again, and a second \<open>Stop\<close> panics on \<open>stopChan\<close>.
\<close>

theorem watcher_restart_panics:
  assumes "watcher_start fs fw = (fw1, Inr ())" and "watcher_stop fw1 = Some fw2"
    and "monitor_exit fw2 = Some fw3"
  shows "\<exists>fw4. watcher_start fs' fw3 = (fw4, Inr ()) \<and> monitor_exit fw4 = None \<and>
    watcher_stop fw4 = None"
proof -
  have i1: "fw_initialized fw1"
    using assms(1) by (cases rule: check_file_cases [of fs fw])
      (auto simp: watcher_start_def split: if_splits)
  have "\<not> fw_initialized fw3 \<and> fw_stop_closed fw3 \<and> fw_stopped_closed fw3"
    using assms(2,3) i1 by (auto simp: watcher_stop_def monitor_exit_def split: if_splits)
  then show ?thesis
    by (cases rule: check_file_cases [of fs' fw3])
      (auto simp: watcher_start_def monitor_exit_def watcher_stop_def)
qed

theorem watcher_restart_panics_witness:
  "\<exists>fw4. monitor_exit fw4 = None \<and> fw_initialized fw4"
proof -
  let ?fw = "new_file_watcher ''f'' 1"
  let ?fw1 = "?fw\<lparr>fw_initialized := True\<rparr>"
  have s: "watcher_start (\<lambda>_. Absent) ?fw = (?fw1, Inr ())"
    by (simp add: watcher_start_def check_file_def new_file_watcher_def)
  have p: "watcher_stop ?fw1 = Some (?fw1\<lparr>fw_initialized := False, fw_stop_closed := True\<rparr>)"
    by (simp add: watcher_stop_def new_file_watcher_def)
  have m: "monitor_exit (?fw1\<lparr>fw_initialized := False, fw_stop_closed := True\<rparr>) =
      Some (?fw1\<lparr>fw_initialized := False, fw_stop_closed := True, fw_stopped_closed := True\<rparr>)"
    by (simp add: monitor_exit_def new_file_watcher_def)
  from watcher_restart_panics [OF s p m, of "\<lambda>_. Absent"] show ?thesis
    by (auto simp: watcher_stop_def split: if_splits)
qed

end
