(* ===== verification/Channels.thy ===== *)
theory Channels
  imports Prelude
begin

text \<open>
  Go's buffered channels: the type the height monitor's subscribers, the connection pool and the
  worker pool rest on. A channel is its buffer, its capacity and whether it was closed; a send or
  receive that would block is a value, and a send on a closed channel is the panic the language
  specifies. The interface the components rely on is the locale \<open>fifo_channel\<close>, interpreted here on
  this model; its lemmas say what a run of non-blocking sends leaves in the buffer.
\<close>

record 'a chan =
  ch_buf :: "'a list"
  ch_cap :: nat
  ch_closed :: bool

datatype 'c send_result = Sent 'c | Send_blocks | Send_panics
datatype ('a, 'c) recv_result = Received 'a 'c | Closed_zero | Recv_blocks

definition make_chan :: "nat \<Rightarrow> 'a chan" where
  "make_chan n = \<lparr>ch_buf = [], ch_cap = n, ch_closed = False\<rparr>"

definition ch_send :: "'a \<Rightarrow> 'a chan \<Rightarrow> 'a chan send_result" where
  "ch_send x c =
     (if ch_closed c then Send_panics
      else if length (ch_buf c) < ch_cap c then Sent (c\<lparr>ch_buf := ch_buf c @ [x]\<rparr>)
      else Send_blocks)"

definition ch_recv :: "'a chan \<Rightarrow> ('a, 'a chan) recv_result" where
  "ch_recv c =
     (case ch_buf c of
        x # xs \<Rightarrow> Received x (c\<lparr>ch_buf := xs\<rparr>)
      | [] \<Rightarrow> if ch_closed c then Closed_zero else Recv_blocks)"

text \<open>\<open>close(c)\<close>: \<open>None\<close> is the panic on a channel that is closed already.\<close>

definition ch_close :: "'a chan \<Rightarrow> 'a chan option" where
  "ch_close c = (if ch_closed c then None else Some (c\<lparr>ch_closed := True\<rparr>))"

text \<open>
  \<open>select { case c <- x: default: }\<close>, and a run of such sends: what does not fit is dropped. The
  second component of \<open>offer\<close> says whether the value was taken.
\<close>

definition offer :: "('a \<Rightarrow> 'c \<Rightarrow> 'c send_result) \<Rightarrow> 'a \<Rightarrow> 'c \<Rightarrow> 'c \<times> bool" where
  "offer snd_op x c = (case snd_op x c of Sent c' \<Rightarrow> (c', True) | _ \<Rightarrow> (c, False))"

fun offer_all :: "('a \<Rightarrow> 'c \<Rightarrow> 'c send_result) \<Rightarrow> 'a list \<Rightarrow> 'c \<Rightarrow> 'c" where
  "offer_all snd_op [] c = c"
| "offer_all snd_op (x # xs) c = offer_all snd_op xs (fst (offer snd_op x c))"

locale fifo_channel =
  fixes send :: "'a \<Rightarrow> 'c \<Rightarrow> 'c send_result"
    and recv :: "'c \<Rightarrow> ('a, 'c) recv_result"
    and buf :: "'c \<Rightarrow> 'a list"
    and cap :: "'c \<Rightarrow> nat"
    and is_open :: "'c \<Rightarrow> bool"
  assumes send_room: "is_open c \<Longrightarrow> length (buf c) < cap c \<Longrightarrow>
      \<exists>c'. send x c = Sent c' \<and> buf c' = buf c @ [x] \<and> cap c' = cap c \<and> is_open c'"
    and send_full: "is_open c \<Longrightarrow> \<not> length (buf c) < cap c \<Longrightarrow> send x c = Send_blocks"
    and recv_item: "buf c = x # xs \<Longrightarrow>
      \<exists>c'. recv c = Received x c' \<and> buf c' = xs \<and> cap c' = cap c \<and> is_open c' = is_open c"
    and recv_none: "buf c = [] \<Longrightarrow> recv c = (if is_open c then Recv_blocks else Closed_zero)"
begin

lemma offer_taken: "is_open c \<Longrightarrow> snd (offer send x c) \<longleftrightarrow> length (buf c) < cap c"
  by (cases "length (buf c) < cap c")
    (use send_room [of c x] send_full [of c x] in \<open>auto simp: offer_def\<close>)

lemma offer_buf:
  assumes "is_open c"
  shows "buf (fst (offer send x c)) = (if length (buf c) < cap c then buf c @ [x] else buf c)"
    and "cap (fst (offer send x c)) = cap c" and "is_open (fst (offer send x c))"
  by (cases "length (buf c) < cap c";
      use assms send_room [of c x] send_full [of c x] in \<open>auto simp: offer_def\<close>)+

lemma offer_bounded:
  "is_open c \<Longrightarrow> length (buf c) \<le> cap c \<Longrightarrow> length (buf (fst (offer send x c))) \<le> cap c"
  by (simp add: offer_buf(1))

text \<open>A run of offers keeps a prefix: what is in the buffer is never displaced.\<close>

lemma offer_all_buf:
  "is_open c \<Longrightarrow> length (buf c) \<le> cap c \<Longrightarrow>
     buf (offer_all send xs c) = buf c @ take (cap c - length (buf c)) xs"
proof (induction xs arbitrary: c)
  case Nil
  then show ?case by simp
next
  case (Cons x xs)
  let ?c = "fst (offer send x c)"
  from Cons.prems have "length (buf ?c) \<le> cap ?c" and op: "is_open ?c"
    by (auto simp: offer_buf offer_bounded)
  with Cons.IH have "buf (offer_all send (x # xs) c) = buf ?c @ take (cap ?c - length (buf ?c)) xs"
    by simp
  with Cons.prems show ?case
    by (auto simp: offer_buf take_Cons')
qed

lemma offer_all_frame:
  "is_open c \<Longrightarrow> cap (offer_all send xs c) = cap c \<and> is_open (offer_all send xs c)"
  by (induction xs arbitrary: c) (auto simp: offer_buf)

lemma offer_all_bounded:
  "is_open c \<Longrightarrow> length (buf c) \<le> cap c \<Longrightarrow> length (buf (offer_all send xs c)) \<le> cap c"
  by (simp add: offer_all_buf)

end

interpretation gochan: fifo_channel ch_send ch_recv ch_buf ch_cap "\<lambda>c. \<not> ch_closed c"
  by unfold_locales (auto simp: ch_send_def ch_recv_def)

lemma make_chan_simps [simp]:
  "ch_buf (make_chan n) = []" "ch_cap (make_chan n) = n" "\<not> ch_closed (make_chan n)"
  by (simp_all add: make_chan_def)

end
