(* ===== verification/HeightMon.thy ===== *)
theory HeightMon
  imports Channels "HOL-Library.Sublist"
begin

text \<open>
  \<open>internal/height/monitor.go\<close>: the height monitor. The provider (an interface of the package) is
  the list of answers it gives, one per tick: \<open>None\<close> for an error. A subscriber is a channel of
  capacity 10 held by its position in the subscriber list; \<open>HReceive i\<close> is subscriber \<open>i\<close> taking
  one value, which is appended to its log.
\<close>

definition default_poll_interval :: duration where "default_poll_interval = 5 * second"
definition default_subscriber_buffer :: nat where "default_subscriber_buffer = 10"

record hmon =
  hm_height :: int
  hm_started :: bool
  hm_interval :: duration
  hm_subs :: "int chan list"
  hm_cancelled :: bool
  hm_running :: bool

definition new_height_monitor :: "duration \<Rightarrow> hmon" where
  "new_height_monitor interval =
     \<lparr>hm_height = 0, hm_started = False,
      hm_interval = (if interval \<le> 0 then default_poll_interval else interval),
      hm_subs = [], hm_cancelled = False, hm_running = False\<rparr>"

datatype hm_error = Monitor_already_started

definition hm_start :: "hmon \<Rightarrow> (hmon, hm_error, unit) gores" where
  "hm_start hm =
     (if hm_started hm then (hm, Inl Monitor_already_started)
      else (hm\<lparr>hm_started := True, hm_running := True\<rparr>, Inr ()))"

text \<open>\<open>Stop\<close> cancels the context and waits until the loop has returned.\<close>

definition hm_stop :: "hmon \<Rightarrow> hmon" where
  "hm_stop hm = hm\<lparr>hm_cancelled := True, hm_running := False\<rparr>"

definition hm_subscribe :: "hmon \<Rightarrow> hmon \<times> nat" where
  "hm_subscribe hm =
     (hm\<lparr>hm_subs := hm_subs hm @ [make_chan default_subscriber_buffer]\<rparr>, length (hm_subs hm))"

definition hm_get_current_height :: "hmon \<Rightarrow> int" where
  "hm_get_current_height hm = hm_height hm"

definition notify_subscribers :: "int \<Rightarrow> hmon \<Rightarrow> hmon" where
  "notify_subscribers h hm = hm\<lparr>hm_subs := map (\<lambda>c. fst (offer ch_send h c)) (hm_subs hm)\<rparr>"

text \<open>One iteration of \<open>monitorLoop\<close> on a tick.\<close>

definition hm_tick :: "int option \<Rightarrow> hmon \<Rightarrow> hmon" where
  "hm_tick answer hm =
     (if \<not> hm_running hm then hm
      else (case answer of
              None \<Rightarrow> hm
            | Some h \<Rightarrow> if h \<noteq> hm_height hm then notify_subscribers h (hm\<lparr>hm_height := h\<rparr>) else hm))"

definition hm_receive :: "nat \<Rightarrow> hmon \<Rightarrow> hmon \<times> int option" where
  "hm_receive i hm =
     (if i < length (hm_subs hm)
      then (case ch_recv (hm_subs hm ! i) of
              Received h c \<Rightarrow> (hm\<lparr>hm_subs := (hm_subs hm)[i := c]\<rparr>, Some h)
            | _ \<Rightarrow> (hm, None))
      else (hm, None))"

datatype hm_event = HTick "int option" | HReceive nat

fun hm_step :: "hm_event \<Rightarrow> hmon \<times> (nat \<Rightarrow> int list) \<Rightarrow> hmon \<times> (nat \<Rightarrow> int list)" where
  "hm_step (HTick a) (hm, logs) = (hm_tick a hm, logs)"
| "hm_step (HReceive i) (hm, logs) =
     (case hm_receive i hm of
        (hm', Some h) \<Rightarrow> (hm', logs(i := logs i @ [h]))
      | (hm', None) \<Rightarrow> (hm', logs))"

fun hm_run :: "hm_event list \<Rightarrow> hmon \<times> (nat \<Rightarrow> int list) \<Rightarrow> hmon \<times> (nat \<Rightarrow> int list)" where
  "hm_run [] s = s"
| "hm_run (e # es) s = hm_run es (hm_step e s)"

text \<open>What the provider's answers mean: the successive changes of height.\<close>

fun changes :: "int \<Rightarrow> int option list \<Rightarrow> int list" where
  "changes cur [] = []"
| "changes cur (None # as) = changes cur as"
| "changes cur (Some h # as) = (if h \<noteq> cur then h # changes h as else changes cur as)"

fun answers :: "hm_event list \<Rightarrow> int option list" where
  "answers [] = []"
| "answers (HTick a # es) = a # answers es"
| "answers (HReceive _ # es) = answers es"

section \<open>Lemmas\<close>

definition sub_ok :: "int chan \<Rightarrow> bool" where
  "sub_ok c \<longleftrightarrow> \<not> ch_closed c \<and> length (ch_buf c) \<le> default_subscriber_buffer \<and>
     ch_cap c = default_subscriber_buffer"

definition subs_ok :: "hmon \<Rightarrow> bool" where
  "subs_ok hm \<longleftrightarrow> (\<forall>c\<in>set (hm_subs hm). sub_ok c)"

lemma sub_ok_offer [go_inv]: "sub_ok c \<Longrightarrow> sub_ok (fst (offer ch_send h c))"
  using gochan.offer_bounded [of c h] by (auto simp: sub_ok_def gochan.offer_buf)

lemma sub_ok_recv: "sub_ok c \<Longrightarrow> ch_recv c = Received h c' \<Longrightarrow> sub_ok c'"
  by (auto simp: sub_ok_def ch_recv_def split: list.splits if_splits)

lemma subs_ok_subscribe [go_inv]: "subs_ok hm \<Longrightarrow> subs_ok (fst (hm_subscribe hm))"
  by (simp add: subs_ok_def hm_subscribe_def sub_ok_def)

lemma subs_ok_tick [go_inv]: "subs_ok hm \<Longrightarrow> subs_ok (hm_tick a hm)"
  by (auto simp: hm_tick_def subs_ok_def notify_subscribers_def intro: sub_ok_offer
      split: option.splits)

lemma subs_ok_receive [go_inv]: "subs_ok hm \<Longrightarrow> subs_ok (fst (hm_receive i hm))"
  by (auto simp: hm_receive_def subs_ok_def intro: sub_ok_recv split: recv_result.splits
      dest!: set_mp [OF set_update_subset_insert])

lemma tick_sub:
  assumes "subs_ok hm" and "hm_running hm" and "i < length (hm_subs hm)"
  shows "ch_buf (hm_subs (hm_tick a hm) ! i) =
      (let b = ch_buf (hm_subs hm ! i) in
       case a of Some h \<Rightarrow> if h \<noteq> hm_height hm \<and> length b < default_subscriber_buffer
                           then b @ [h] else b
               | None \<Rightarrow> b)"
proof -
  have "hm_subs hm ! i \<in> set (hm_subs hm)" using assms(3) by simp
  then have "\<not> ch_closed (hm_subs hm ! i)" "ch_cap (hm_subs hm ! i) = default_subscriber_buffer"
    using assms(1) by (auto simp: subs_ok_def sub_ok_def)
  with assms(2,3) show ?thesis
    by (auto simp: hm_tick_def notify_subscribers_def gochan.offer_buf split: option.splits)
qed

lemma tick_frame [simp]:
  "hm_running (hm_tick a hm) = hm_running hm"
  "length (hm_subs (hm_tick a hm)) = length (hm_subs hm)"
  by (auto simp: hm_tick_def notify_subscribers_def split: option.splits)

lemma tick_height:
  "hm_running hm \<Longrightarrow> hm_height (hm_tick a hm) = (case a of None \<Rightarrow> hm_height hm | Some h \<Rightarrow> h)"
  by (auto simp: hm_tick_def notify_subscribers_def split: option.splits)

lemma receive_frame:
  assumes "hm_receive i hm = (hm', r)"
  shows "hm_running hm' = hm_running hm" "hm_height hm' = hm_height hm"
    "length (hm_subs hm') = length (hm_subs hm)"
    "j \<noteq> i \<Longrightarrow> hm_subs hm' ! j = hm_subs hm ! j"
    "i < length (hm_subs hm) \<Longrightarrow>
       (case r of Some h \<Rightarrow> [h] | None \<Rightarrow> []) @ ch_buf (hm_subs hm' ! i) = ch_buf (hm_subs hm ! i)"
  using assms by (auto simp: hm_receive_def ch_recv_def split: if_splits list.splits)

text \<open>
  What a subscriber must get, from the events alone: with \<open>n\<close> values waiting for subscriber \<open>i\<close>, a
  change is delivered when there is room and lost when there is not, and a receive of its own makes
  room. It keeps up when no change finds its buffer full.
\<close>

fun delivered :: "nat \<Rightarrow> nat \<Rightarrow> int \<Rightarrow> hm_event list \<Rightarrow> int list" where
  "delivered i n cur [] = []"
| "delivered i n cur (HTick None # es) = delivered i n cur es"
| "delivered i n cur (HTick (Some h) # es) =
     (if h = cur then delivered i n cur es
      else if n < default_subscriber_buffer then h # delivered i (Suc n) h es
      else delivered i n h es)"
| "delivered i n cur (HReceive j # es) = delivered i (if j = i then n - 1 else n) cur es"

fun keeps_up :: "nat \<Rightarrow> nat \<Rightarrow> int \<Rightarrow> hm_event list \<Rightarrow> bool" where
  "keeps_up i n cur [] \<longleftrightarrow> True"
| "keeps_up i n cur (HTick None # es) \<longleftrightarrow> keeps_up i n cur es"
| "keeps_up i n cur (HTick (Some h) # es) \<longleftrightarrow>
     (if h = cur then keeps_up i n cur es
      else n < default_subscriber_buffer \<and> keeps_up i (Suc n) h es)"
| "keeps_up i n cur (HReceive j # es) \<longleftrightarrow> keeps_up i (if j = i then n - 1 else n) cur es"

lemma delivered_subseq: "subseq (delivered i n cur es) (changes cur (answers es))"
  by (induction i n cur es rule: delivered.induct) auto

lemma delivered_keeps_up: "keeps_up i n cur es \<Longrightarrow> delivered i n cur es = changes cur (answers es)"
  by (induction i n cur es rule: keeps_up.induct) (auto split: if_splits)

lemma receive_buffered:
  assumes "hm_receive j hm = (hm', r)" and "i < length (hm_subs hm)"
  shows "length (ch_buf (hm_subs hm' ! i)) =
    (if j = i then length (ch_buf (hm_subs hm ! i)) - 1 else length (ch_buf (hm_subs hm ! i)))"
  using assms by (auto simp: hm_receive_def ch_recv_def split: if_splits list.splits)

text \<open>The run invariant: what subscriber \<open>i\<close> has taken, followed by what waits in its channel, grows
  by exactly what must be delivered.\<close>

lemma hm_run_delivers:
  assumes "subs_ok hm" and "hm_running hm" and "i < length (hm_subs hm)"
    and "hm_run es (hm, logs) = (hm', logs')"
  shows "logs' i @ ch_buf (hm_subs hm' ! i) = logs i @ ch_buf (hm_subs hm ! i) @
      delivered i (length (ch_buf (hm_subs hm ! i))) (hm_height hm) es \<and>
    length (ch_buf (hm_subs hm' ! i)) \<le> default_subscriber_buffer"
  using assms
proof (induction es arbitrary: hm logs)
  case Nil
  then have "sub_ok (hm_subs hm ! i)" by (auto simp: subs_ok_def)
  with Nil show ?case by (auto simp: sub_ok_def)
next
  case (Cons e es)
  show ?case
  proof (cases e)
    case (HTick a)
    have "hm_run es (hm_tick a hm, logs) = (hm', logs')" using Cons.prems(4) HTick by simp
    from Cons.IH [OF subs_ok_tick [OF Cons.prems(1)] _ _ this] Cons.prems(2,3) HTick
    show ?thesis
      by (cases a) (auto simp: tick_sub [OF Cons.prems(1-3)] tick_height Let_def split: if_splits)
  next
    case (HReceive j)
    obtain hm2 r where r: "hm_receive j hm = (hm2, r)" by fastforce
    let ?logs = "case r of Some h \<Rightarrow> logs(j := logs j @ [h]) | None \<Rightarrow> logs"
    have eq: "?logs i @ ch_buf (hm_subs hm2 ! i) = logs i @ ch_buf (hm_subs hm ! i)"
      using receive_frame(4,5) [OF r] Cons.prems(3) by (cases "j = i") (auto split: option.splits)
    have run: "hm_run es (hm2, ?logs) = (hm', logs')"
      using Cons.prems(4) HReceive r by (auto split: option.splits)
    have ok: "subs_ok hm2" using subs_ok_receive [OF Cons.prems(1), of j] r by simp
    have frame: "hm_running hm2" "i < length (hm_subs hm2)" "hm_height hm2 = hm_height hm"
      using Cons.prems(2,3) receive_frame(1-3) [OF r] by simp_all
    have "delivered i (length (ch_buf (hm_subs hm ! i))) (hm_height hm) (e # es) =
        delivered i (length (ch_buf (hm_subs hm2 ! i))) (hm_height hm2) es"
      using HReceive receive_buffered [OF r Cons.prems(3)] frame(3) by simp
    with Cons.IH [OF ok frame(1,2) run] eq show ?thesis
      by (simp only: append_assoc [symmetric])
  qed
qed

text \<open>
  C5. Whatever the interleaving of polls and receives, the heights a new subscriber takes, followed
  by those waiting in its channel, are exactly the changes of height the provider reported after
  the subscription that found room in its buffer of 10, in order; they are all the changes when it
  kept up, and a subsequence of them otherwise.
\<close>

theorem subscriber_sees_changes_in_order:
  assumes "subs_ok hm" and "hm_running hm" and "hm_subscribe hm = (hm0, i)"
    and "hm_run es (hm0, \<lambda>_. []) = (hm', logs)"
  shows "(logs i @ ch_buf (hm_subs hm' ! i) = delivered i 0 (hm_height hm) es) \<and>
    (length (ch_buf (hm_subs hm' ! i)) \<le> default_subscriber_buffer) \<and>
    (keeps_up i 0 (hm_height hm) es \<longrightarrow>
       logs i @ ch_buf (hm_subs hm' ! i) = changes (hm_height hm) (answers es)) \<and>
    (subseq (logs i @ ch_buf (hm_subs hm' ! i)) (changes (hm_height hm) (answers es)))"
proof -
  from assms(3) have i: "i < length (hm_subs hm0)" "ch_buf (hm_subs hm0 ! i) = []"
    "hm_running hm0 = hm_running hm" "hm_height hm0 = hm_height hm"
    by (auto simp: hm_subscribe_def)
  have "subs_ok hm0" using subs_ok_subscribe [OF assms(1)] assms(3) by simp
  from hm_run_delivers [OF this _ i(1) assms(4)] i(2-4) assms(2)
    delivered_keeps_up [of i 0 "hm_height hm" es] delivered_subseq [of i 0 "hm_height hm" es]
  show ?thesis by auto
qed

definition demo_hm :: hmon where
  "demo_hm = fst (hm_start (new_height_monitor 0))"

lemma demo_hm_ok: "subs_ok demo_hm" "hm_running demo_hm" "hm_height demo_hm = 0"
  by (simp_all add: demo_hm_def hm_start_def new_height_monitor_def subs_ok_def)

theorem subscriber_sees_changes_in_order_witness:
  "\<exists>hm' logs. hm_run [HTick (Some 7), HReceive 0, HTick None, HTick (Some 9), HTick (Some 9)]
      (fst (hm_subscribe demo_hm), \<lambda>_. []) = (hm', logs) \<and> logs 0 @ ch_buf (hm_subs hm' ! 0) = [7, 9]"
proof -
  let ?es = "[HTick (Some 7), HReceive 0, HTick None, HTick (Some 9), HTick (Some 9)]"
  obtain hm0 i where s: "hm_subscribe demo_hm = (hm0, i)" by fastforce
  obtain hm' logs where r: "hm_run ?es (hm0, \<lambda>_. []) = (hm', logs)" by fastforce
  have i: "i = 0" using s
    by (auto simp: hm_subscribe_def demo_hm_def hm_start_def new_height_monitor_def)
  have "keeps_up 0 0 0 ?es" by (simp add: default_subscriber_buffer_def)
  with subscriber_sees_changes_in_order [OF demo_hm_ok(1,2) s r] i demo_hm_ok(3) s r
  show ?thesis by auto
qed

text \<open>
  A subscriber that does not read keeps the first 10 changes and loses every later one: when
  the channel is full it is the new update that is dropped (the comment on \<open>Subscribe\<close> says the
  oldest is).
\<close>

theorem slow_subscriber_keeps_oldest:
  assumes "subs_ok hm" and "hm_running hm" and "hm_subscribe hm = (hm0, i)"
  shows "ch_buf (hm_subs (fold hm_tick as hm0) ! i) =
    take default_subscriber_buffer (changes (hm_height hm) as)"
proof -
  have gen: "ch_buf (hm_subs (fold hm_tick as h) ! i) =
      ch_buf (hm_subs h ! i) @
        take (default_subscriber_buffer - length (ch_buf (hm_subs h ! i))) (changes (hm_height h) as)"
    if "subs_ok h" "hm_running h" "i < length (hm_subs h)" for h
    using that
  proof (induction as arbitrary: h)
    case Nil
    then show ?case by simp
  next
    case (Cons a as)
    have IH: "ch_buf (hm_subs (fold hm_tick as (hm_tick a h)) ! i) =
        ch_buf (hm_subs (hm_tick a h) ! i) @
          take (default_subscriber_buffer - length (ch_buf (hm_subs (hm_tick a h) ! i)))
            (changes (hm_height (hm_tick a h)) as)"
      by (rule Cons.IH) (use Cons.prems in \<open>auto intro: go_inv\<close>)
    with Cons.prems show ?case
      by (cases a) (auto simp: tick_sub tick_height Let_def take_Cons')
  qed
  from assms(3) have i: "i < length (hm_subs hm0)" "ch_buf (hm_subs hm0 ! i) = []"
    "hm_running hm0 = hm_running hm" "hm_height hm0 = hm_height hm"
    by (auto simp: hm_subscribe_def)
  have "subs_ok hm0" using subs_ok_subscribe [OF assms(1)] assms(3) by simp
  from gen [OF this] i assms(2) show ?thesis by simp
qed

theorem slow_subscriber_keeps_oldest_witness:
  "ch_buf (hm_subs (fold hm_tick (map Some [1..12]) (fst (hm_subscribe demo_hm))) ! 0) = [1..10]"
proof -
  obtain hm0 i where s: "hm_subscribe demo_hm = (hm0, i)" by fastforce
  have i: "i = 0" using s
    by (auto simp: hm_subscribe_def demo_hm_def hm_start_def new_height_monitor_def)
  have "take default_subscriber_buffer (changes 0 (map Some [1..12])) = [1..10]"
    by (simp add: upto.simps default_subscriber_buffer_def numeral_eq_Suc)
  with slow_subscriber_keeps_oldest [OF demo_hm_ok(1,2) s, of "map Some [1..12]"] s i demo_hm_ok(3)
  show ?thesis by simp
qed

end
