(* ===== verification/Orchestrator.thy ===== *)
theory Orchestrator
  imports NodeManager FileWatcher HeightMon
begin

text \<open>
  \<open>internal/orchestrator/orchestrator.go\<close>: the upgrade orchestrator. Its node manager and upgrade
  watcher are interfaces, so every operation takes their methods as arguments; the lemmas are proved
  once in the locales \<open>node_control\<close> and \<open>upgrade_source\<close> and used at the model's own manager and
  file watcher. \<open>handle_height\<close> is one round of \<open>monitorHeights\<close>; its last step, which clears the
  pending upgrade under its own lock, is \<open>finish_upgrade\<close>.
\<close>

record orch =
  uo_pending :: "upgrade_info option"
  uo_upgrading :: bool
  uo_started :: bool
  uo_height_sub :: "nat option"

definition new_orchestrator :: orch where
  "new_orchestrator =
     \<lparr>uo_pending = None, uo_upgrading = False, uo_started = False, uo_height_sub = None\<rparr>"

datatype orch_error =
  Orch_already_started | Upgrade_in_progress | Upgrade_nil | Upgrade_name_empty
| Upgrade_height_not_positive | Upgrade_height_exceeded | Stop_failed | Switch_failed | Start_failed
| Rollback_start_failed

text \<open>\<open>Start\<close> subscribes to the height monitor.\<close>

definition orch_start :: "orch \<times> hmon \<Rightarrow> (orch \<times> hmon, orch_error, unit) gores" where
  "orch_start = (\<lambda>(uo, hm).
     if uo_started uo then ((uo, hm), Inl Orch_already_started)
     else (case hm_subscribe hm of
             (hm', i) \<Rightarrow> ((uo\<lparr>uo_height_sub := Some i, uo_started := True\<rparr>, hm'), Inr ())))"

definition schedule_upgrade :: "upgrade_info \<Rightarrow> orch \<Rightarrow> orch" where
  "schedule_upgrade u uo = uo\<lparr>uo_pending := Some u\<rparr>"

text \<open>One tick of \<open>watchUpgradeConfigs\<close>.\<close>

definition poll_configs ::
  "('w \<Rightarrow> bool) \<Rightarrow> ('w \<Rightarrow> upgrade_info option) \<Rightarrow> ('w \<Rightarrow> 'w) \<Rightarrow> orch \<times> 'w \<Rightarrow> orch \<times> 'w" where
  "poll_configs needs current clear = (\<lambda>(uo, w).
     if needs w
     then (case current w of
             Some u \<Rightarrow> (schedule_upgrade u uo, clear w)
           | None \<Rightarrow> (uo, w))
     else (uo, w))"

definition validate_upgrade :: "upgrade_info option \<Rightarrow> int \<Rightarrow> orch_error + unit" where
  "validate_upgrade upgrade current_height =
     (case upgrade of
        None \<Rightarrow> Inl Upgrade_nil
      | Some u \<Rightarrow>
          if ui_name u = '''' then Inl Upgrade_name_empty
          else if ui_height u \<le> 0 then Inl Upgrade_height_not_positive
          else if current_height > ui_height u then Inl Upgrade_height_exceeded
          else Inr ())"

text \<open>The placeholder of the source: it logs and returns.\<close>

definition switch_binary :: "string \<Rightarrow> orch_error + unit" where
  "switch_binary upgrade_name = Inr ()"

record ('se, 'ke) height_env =
  he_stop :: 'ke
  he_start :: 'se
  he_rollback :: 'se

definition execute_upgrade ::
  "('se \<Rightarrow> 'n \<Rightarrow> 'n \<times> bool) \<Rightarrow> ('ke \<Rightarrow> 'n \<Rightarrow> 'n \<times> bool) \<Rightarrow> ('se, 'ke) height_env \<Rightarrow>
     upgrade_info \<Rightarrow> int \<Rightarrow> orch \<times> 'n \<Rightarrow> (orch \<times> 'n, orch_error, unit) gores" where
  "execute_upgrade start stop env u h = (\<lambda>(uo, n).
     if uo_upgrading uo then ((uo, n), Inl Upgrade_in_progress)
     else
       let uo1 = uo\<lparr>uo_upgrading := True\<rparr>;
           done_with = (\<lambda>n' r. ((uo1\<lparr>uo_upgrading := False\<rparr>, n'), r)) in
       case validate_upgrade (Some u) h of
         Inl e \<Rightarrow> done_with n (Inl e)
       | Inr _ \<Rightarrow>
           (case stop (he_stop env) n of
              (n1, False) \<Rightarrow> done_with n1 (Inl Stop_failed)
            | (n1, True) \<Rightarrow>
                (case switch_binary (ui_name u) of
                   Inl e \<Rightarrow> done_with n1 (Inl Switch_failed)
                 | Inr _ \<Rightarrow>
                     (case start (he_start env) n1 of
                        (n2, False) \<Rightarrow> done_with n2 (Inl Start_failed)
                      | (n2, True) \<Rightarrow> done_with n2 (Inr ())))))"

definition rollback ::
  "('se \<Rightarrow> 'n \<Rightarrow> 'n \<times> bool) \<Rightarrow> 'se \<Rightarrow> 'n \<Rightarrow> ('n, orch_error, unit) gores" where
  "rollback start env n =
     (case switch_binary ''genesis'' of
        Inl e \<Rightarrow> (n, Inl Switch_failed)
      | Inr _ \<Rightarrow>
          (case start env n of
             (n1, False) \<Rightarrow> (n1, Inl Rollback_start_failed)
           | (n1, True) \<Rightarrow> (n1, Inr ())))"

definition finish_upgrade :: "orch \<Rightarrow> orch" where
  "finish_upgrade uo = uo\<lparr>uo_pending := None\<rparr>"

text \<open>What a height update led to, as the log lines tell it.\<close>

datatype outcome = Idle | Upgraded | Rolled_back orch_error | Rollback_failed orch_error orch_error

definition handle_height ::
  "('se \<Rightarrow> 'n \<Rightarrow> 'n \<times> bool) \<Rightarrow> ('ke \<Rightarrow> 'n \<Rightarrow> 'n \<times> bool) \<Rightarrow> ('se, 'ke) height_env \<Rightarrow>
     int \<Rightarrow> orch \<times> 'n \<Rightarrow> (orch \<times> 'n) \<times> outcome" where
  "handle_height start stop env h = (\<lambda>(uo, n).
     case uo_pending uo of
       None \<Rightarrow> ((uo, n), Idle)
     | Some u \<Rightarrow>
         if uo_upgrading uo \<or> h < ui_height u then ((uo, n), Idle)
         else (case execute_upgrade start stop env u h (uo, n) of
                 ((uo1, n1), Inr _) \<Rightarrow> ((finish_upgrade uo1, n1), Upgraded)
               | ((uo1, n1), Inl e) \<Rightarrow>
                   (case rollback start (he_rollback env) n1 of
                      (n2, Inr _) \<Rightarrow> ((finish_upgrade uo1, n2), Rolled_back e)
                    | (n2, Inl e') \<Rightarrow> ((finish_upgrade uo1, n2), Rollback_failed e e'))))"

record upgrade_status =
  us_pending :: "upgrade_info option"
  us_upgrading :: bool
  us_height :: int
  us_node_state :: node_state

definition get_upgrade_status :: "('n \<Rightarrow> node_state) \<Rightarrow> hmon \<Rightarrow> 'n \<Rightarrow> orch \<Rightarrow> upgrade_status" where
  "get_upgrade_status state hm n uo =
     \<lparr>us_pending = uo_pending uo, us_upgrading = uo_upgrading uo,
      us_height = hm_get_current_height hm, us_node_state = state n\<rparr>"

section \<open>Lemmas over the interfaces\<close>

lemma validate_Inr_iff:
  "validate_upgrade (Some u) h = Inr r \<longleftrightarrow> valid_info u \<and> h \<le> ui_height u"
  by (auto simp: validate_upgrade_def valid_info_def)

context upgrade_source
begin

text \<open>A poll hands over exactly what the watcher flags, once.\<close>

lemma poll_hands_over:
  assumes "invar w" and "poll_configs needs current clear (uo, w) = (uo', w')"
  shows "uo_pending uo' = (if needs w then current w else uo_pending uo)"
    and "\<not> needs w'" and "current w' = current w" and "invar w'"
    and "needs w \<Longrightarrow> \<exists>u. uo_pending uo' = Some u \<and> valid_info u"
    and "uo_upgrading uo' = uo_upgrading uo"
  using assms needs_current [OF assms(1)]
  by (auto simp: poll_configs_def schedule_upgrade_def clear_invar split: if_splits)

end

context node_control
begin

text \<open>
  The outcome of a height update decides what was and is the state of the node. A running node is
  either upgraded, at exactly the planned height, or the rollback fails.
\<close>

lemma upgrade_cases:
  assumes "handle_height start stop env h (uo, n) = ((uo', n'), out)"
  shows "out = Idle \<longleftrightarrow> uo_upgrading uo \<or> (\<forall>u. uo_pending uo = Some u \<longrightarrow> h < ui_height u)"
    and "out = Idle \<Longrightarrow> (uo', n') = (uo, n)"
    and "out \<noteq> Idle \<Longrightarrow> uo_pending uo' = None \<and> \<not> uo_upgrading uo'"
    and "out = Upgraded \<Longrightarrow> (\<exists>u. uo_pending uo = Some u \<and> valid_info u \<and> h = ui_height u) \<and>
      state n = StateRunning \<and> state n' = StateRunning"
    and "out = Rolled_back e \<Longrightarrow> state n = StateStopped"
    and "invar n \<Longrightarrow> invar n'"
proof -
  show "out = Idle \<longleftrightarrow> uo_upgrading uo \<or> (\<forall>u. uo_pending uo = Some u \<longrightarrow> h < ui_height u)"
    using assms by (auto simp: handle_height_def split: option.splits if_splits prod.splits sum.splits)
  show "out = Idle \<Longrightarrow> (uo', n') = (uo, n)"
    using assms by (auto simp: handle_height_def split: option.splits if_splits prod.splits sum.splits)
  show "out \<noteq> Idle \<Longrightarrow> uo_pending uo' = None \<and> \<not> uo_upgrading uo'"
    using assms by (auto simp: handle_height_def execute_upgrade_def finish_upgrade_def Let_def
        switch_binary_def split: option.splits if_splits prod.splits sum.splits bool.splits)
  show "out = Upgraded \<Longrightarrow> (\<exists>u. uo_pending uo = Some u \<and> valid_info u \<and> h = ui_height u) \<and>
      state n = StateRunning \<and> state n' = StateRunning"
    using assms by (auto simp: handle_height_def execute_upgrade_def Let_def validate_Inr_iff
        switch_binary_def split: option.splits if_splits prod.splits sum.splits bool.splits
        dest: stop_ok start_ok)
  show "state n = StateStopped" if "out = Rolled_back e"
  proof (rule ccontr)
    assume ns: "state n \<noteq> StateStopped"
    have stopped: "state n1 \<noteq> StateStopped" if "stop k n = (n1, False)" for k n1
      using ns that stop_refused [of n k] stop_failed [OF that] by (cases "state n = StateRunning") auto
    have started: "state n2 \<noteq> StateStopped"
      if "stop k n = (n1, True)" "start e1 n1 = (n2, False)" for k n1 e1 n2
      using start_failed [OF that(2)] stop_ok [OF that(1)] by simp
    show False
      using assms that ns stopped started
      by (auto simp: handle_height_def execute_upgrade_def rollback_def Let_def switch_binary_def
          split: option.splits if_splits prod.splits sum.splits bool.splits dest!: start_ok)
  qed
  show "invar n'" if "invar n"
  proof -
    have st: "invar n2" if "start e1 n1 = (n2, b)" "invar n1" for e1 n1 n2 b
      using start_invar [OF that(2), of e1] that(1) by simp
    have sp: "invar n2" if "stop e1 n1 = (n2, b)" "invar n1" for e1 n1 n2 b
      using stop_invar [OF that(2), of e1] that(1) by simp
    show ?thesis
      using assms that st sp
      by (auto simp: handle_height_def execute_upgrade_def rollback_def Let_def switch_binary_def
          split: option.splits if_splits prod.splits sum.splits bool.splits)
  qed
qed

lemma failed_start_ends_in_error:
  assumes "uo_pending uo = Some u" and "\<not> uo_upgrading uo" and "valid_info u" and "h = ui_height u"
    and "stop (he_stop env) n = (n1, True)" and "start (he_start env) n1 = (n2, False)"
    and "handle_height start stop env h (uo, n) = ((uo', n'), out)"
  shows "out = Rollback_failed Start_failed Rollback_start_failed \<and> state n' = StateError"
proof -
  have err: "state n2 = StateError"
    using start_failed [OF assms(6)] stop_ok [OF assms(5)] by simp
  then have "start (he_rollback env) n2 = (n2, False)" by (simp add: start_refused)
  with err show ?thesis
    using assms by (simp add: handle_height_def execute_upgrade_def rollback_def Let_def
        switch_binary_def validate_upgrade_def valid_info_def)
qed

lemma missed_height_dropped:
  assumes "uo_pending uo = Some u" and "\<not> uo_upgrading uo" and "ui_height u < h"
    and "state n \<noteq> StateStopped"
    and "handle_height start stop env h (uo, n) = ((uo', n'), out)"
  shows "uo_pending uo' = None \<and> n' = n \<and> (\<exists>e e'. out = Rollback_failed e e')"
  using assms start_refused [OF assms(4)]
  by (auto simp: handle_height_def execute_upgrade_def rollback_def Let_def switch_binary_def
      validate_upgrade_def finish_upgrade_def split: if_splits)

end

section \<open>Properties\<close>

text \<open>
  C1. A height update performs the pending upgrade only at exactly its height: when the outcome is an
  upgrade, the node ran before and runs after, the plan is valid and the height equals the planned
  one. In every case the manager stays well-formed and, unless the update was ignored, no upgrade
  is left pending or in progress.
\<close>

theorem upgrade_only_at_exact_height:
  assumes "handle_height (ctl_start cfg) ctl_stop env h (uo, n) = ((uo', n'), out)"
  shows "(out = Upgraded \<longrightarrow>
      (\<exists>u. uo_pending uo = Some u \<and> valid_info u \<and> h = ui_height u) \<and>
      get_state n = StateRunning \<and> get_state n' = StateRunning) \<and>
    (out \<noteq> Idle \<longrightarrow> uo_pending uo' = None \<and> \<not> uo_upgrading uo') \<and>
    (out = Idle \<longrightarrow> uo' = uo \<and> n' = n) \<and>
    (mgr_ok n \<longrightarrow> mgr_ok n')"
  using nodectl.upgrade_cases [OF assms] by auto

definition pending_orch :: orch where
  "pending_orch = new_orchestrator\<lparr>uo_pending := Some demo_info\<rparr>"

definition ok_cfg :: nm_config where
  "ok_cfg = \<lparr>nc_bin = ''wemixd'', nc_home = '''', nc_network = '''', nc_environment = [],
     nc_restart_on_failure = True, nc_max_restarts = 3, nc_shutdown_grace = second\<rparr>"

definition up_mgr :: node_mgr where
  "up_mgr = (new_manager ok_cfg)\<lparr>nm_state := StateRunning, nm_cmd := Some 7, nm_process := Some 7\<rparr>"

definition spawn_as :: "nat option \<Rightarrow> start_env" where
  "spawn_as p = \<lparr>se_stat_ok = True, se_spawn = p, se_now = 1\<rparr>"

definition ok_signals :: stop_env where
  "ok_signals = \<lparr>ke_group_term = True, ke_process_term = True, ke_group_kill = True\<rparr>"

definition env_with :: "nat option \<Rightarrow> (start_env, stop_env) height_env" where
  "env_with p = \<lparr>he_stop = ok_signals, he_start = spawn_as p, he_rollback = spawn_as (Some 9)\<rparr>"

lemmas demo_run_simps = handle_height_def execute_upgrade_def rollback_def Let_def switch_binary_def
  validate_upgrade_def ctl_start_def ctl_stop_def nm_start_def nm_stop_def stop_begin_def
  start_process_def send_stop_signal_def pending_orch_def new_orchestrator_def demo_info_def
  ok_cfg_def up_mgr_def spawn_as_def ok_signals_def env_with_def new_manager_def cleanup_state_def
  close_done_def get_state_def finish_upgrade_def

theorem upgrade_only_at_exact_height_witness:
  "snd (handle_height (ctl_start ok_cfg) ctl_stop (env_with (Some 8)) 100 (pending_orch, up_mgr)) = Upgraded \<and>
   uo_pending (fst (fst (handle_height (ctl_start ok_cfg) ctl_stop (env_with (Some 8)) 100
     (pending_orch, up_mgr)))) = None"
proof -
  obtain uo' n' out where e: "handle_height (ctl_start ok_cfg) ctl_stop (env_with (Some 8)) 100
      (pending_orch, up_mgr) = ((uo', n'), out)"
    by (metis prod.exhaust)
  then have "out = Upgraded" by (simp add: demo_run_simps)
  with upgrade_only_at_exact_height [OF e, THEN conjunct2, THEN conjunct1] e show ?thesis by simp
qed

text \<open>
  A plan whose height is already behind the reported one (a skipped or late update) is dropped: the
  update is answered with the failed validation and a failed rollback, the running node is left as it
  is on its old binary, and no plan is pending any more.
\<close>

theorem missed_height_drops_upgrade:
  assumes "uo_pending uo = Some u" and "\<not> uo_upgrading uo" and "ui_height u < h"
    and "get_state n = StateRunning"
    and "handle_height (ctl_start cfg) ctl_stop env h (uo, n) = ((uo', n'), out)"
  shows "(uo_pending uo' = None) \<and>
    (n' = n) \<and>
    (\<exists>e e'. out = Rollback_failed e e')"
  using nodectl.missed_height_dropped [OF assms(1-3) _ assms(5)] assms(4) by auto

theorem missed_height_drops_upgrade_witness:
  "uo_pending (fst (fst (handle_height (ctl_start ok_cfg) ctl_stop (env_with (Some 8)) 101
     (pending_orch, up_mgr)))) = None"
proof -
  obtain uo' n' out where e: "handle_height (ctl_start ok_cfg) ctl_stop (env_with (Some 8)) 101
      (pending_orch, up_mgr) = ((uo', n'), out)"
    by (metis prod.exhaust)
  have p: "uo_pending pending_orch = Some demo_info" "\<not> uo_upgrading pending_orch"
    "ui_height demo_info < 101" "get_state up_mgr = StateRunning"
    by (simp_all add: demo_run_simps)
  from missed_height_drops_upgrade [OF p e, THEN conjunct1] e show ?thesis by simp
qed

text \<open>
  A rollback succeeds only if the node was already stopped before the upgrade began. For a node that
  was running it never does, whatever failed: a refused stop leaves it not stopped, and a failed start
  leaves the manager in the error state, from which \<open>Start\<close> is refused.
\<close>

theorem rollback_never_recovers_running_node:
  assumes "get_state n = StateRunning"
    and "handle_height (ctl_start cfg) ctl_stop env h (uo, n) = ((uo', n'), out)"
  shows "out \<noteq> Rolled_back e"
  using nodectl.upgrade_cases(5) [OF assms(2)] assms(1) by auto

theorem rollback_never_recovers_running_node_witness:
  "snd (handle_height (ctl_start ok_cfg) ctl_stop (env_with None) 100 (pending_orch, up_mgr))
     \<noteq> Rolled_back Start_failed"
proof -
  obtain uo' n' out where e: "handle_height (ctl_start ok_cfg) ctl_stop (env_with None) 100
      (pending_orch, up_mgr) = ((uo', n'), out)"
    by (metis prod.exhaust)
  have "get_state up_mgr = StateRunning" by (simp add: demo_run_simps)
  from rollback_never_recovers_running_node [OF this e] e show ?thesis by simp
qed

text \<open>
  C6. When the new binary fails to start, the node ends in the error state: the rollback that follows
  always fails, although the file that names it promises a restart with the previous binary.
\<close>

theorem failed_start_leaves_error_state:
  assumes "uo_pending uo = Some u" and "\<not> uo_upgrading uo" and "valid_info u"
    and "ctl_stop (he_stop env) n = (n1, True)" and "ctl_start cfg (he_start env) n1 = (n2, False)"
    and "handle_height (ctl_start cfg) ctl_stop env (ui_height u) (uo, n) = ((uo', n'), out)"
  shows "(get_state n' = StateError) \<and>
    (out = Rollback_failed Start_failed Rollback_start_failed)"
  using nodectl.failed_start_ends_in_error [OF assms(1-3) refl assms(4-6)] by auto

theorem failed_start_leaves_error_state_witness:
  "get_state (snd (fst (handle_height (ctl_start ok_cfg) ctl_stop (env_with None) 100
     (pending_orch, up_mgr)))) = StateError"
proof -
  obtain uo' n' out where e: "handle_height (ctl_start ok_cfg) ctl_stop (env_with None)
      (ui_height demo_info) (pending_orch, up_mgr) = ((uo', n'), out)"
    by (metis prod.exhaust)
  obtain n1 where s: "ctl_stop (he_stop (env_with None)) up_mgr = (n1, True)"
    by (simp add: demo_run_simps)
  then have "get_state n1 = StateStopped" using nodectl.stop_ok by blast
  then obtain n2 where f: "ctl_start ok_cfg (he_start (env_with None)) n1 = (n2, False)"
    by (simp add: demo_run_simps)
  have p: "uo_pending pending_orch = Some demo_info" "\<not> uo_upgrading pending_orch"
    "valid_info demo_info"
    by (simp_all add: demo_run_simps valid_info_def)
  from failed_start_leaves_error_state [OF p s f e, THEN conjunct1] e show ?thesis by (simp add: demo_info_def)
qed

text \<open>
  A plan that the watcher goroutine schedules while an upgrade is being executed is lost: the height
  goroutine clears the pending plan at the end without looking at it, and the watcher's flag, cleared
  by the poll, does not bring it back.
\<close>

theorem plan_scheduled_during_upgrade_is_lost:
  assumes "watcher_ok w" and "needs_update w"
    and "execute_upgrade (ctl_start cfg) ctl_stop env u h (uo, n) = ((uo1, n1), r)"
    and "poll_configs needs_update get_current_upgrade clear_update_flag (uo1, w) = (uo2, w2)"
  shows "(uo_pending uo2 = get_current_upgrade w) \<and>
    (get_current_upgrade w \<noteq> None) \<and>
    (uo_pending (finish_upgrade uo2) = None) \<and>
    (poll_configs needs_update get_current_upgrade clear_update_flag (finish_upgrade uo2, w2) =
      (finish_upgrade uo2, w2))"
  using file_source.poll_hands_over [OF assms(1,4)] file_source.needs_current [OF assms(1,2)] assms(2)
  by (auto simp: finish_upgrade_def poll_configs_def)

theorem plan_scheduled_during_upgrade_is_lost_witness:
  "uo_pending (finish_upgrade (fst (poll_configs needs_update get_current_upgrade clear_update_flag
     (fst (fst (execute_upgrade (ctl_start ok_cfg) ctl_stop (env_with (Some 8)) demo_info 100
        (pending_orch, up_mgr))),
      fst (check_for_update demo_fs (new_file_watcher ''f'' 1)))))) = None"
proof -
  let ?w = "fst (check_for_update demo_fs (new_file_watcher ''f'' 1))"
  obtain uo1 n1 r where x: "execute_upgrade (ctl_start ok_cfg) ctl_stop (env_with (Some 8)) demo_info 100
      (pending_orch, up_mgr) = ((uo1, n1), r)"
    by (metis prod.exhaust)
  obtain uo2 w2 where p: "poll_configs needs_update get_current_upgrade clear_update_flag (uo1, ?w) =
      (uo2, w2)"
    by (metis prod.exhaust)
  have "watcher_ok ?w" by (intro go_inv)
  moreover have "needs_update ?w"
    by (simp add: check_for_update_def check_file_def new_file_watcher_def demo_parse demo_file
        needs_update_def)
  ultimately show ?thesis
    using plan_scheduled_during_upgrade_is_lost [OF _ _ x p, THEN conjunct2, THEN conjunct2, THEN conjunct1] x p by simp
qed

end
