(* ===== verification/NodeLifecycle.thy ===== *)
theory NodeLifecycle
  imports NodeManager
begin

text \<open>
  The goroutines of \<open>internal/node/manager.go\<close> as a step relation: calls of \<open>Start\<close>, \<open>Stop\<close>, \<open>Restart\<close>,
  \<open>Close\<close> and \<open>SetNodeArgs\<close>, the operating system ending a process, the monitor goroutine of each
  process waking after that, and the automatic restart that a crash schedules. A call in progress is
  a value of \<open>nm_call\<close>: where it stands between two accesses to the shared state, with what it read
  before. \<open>Restart\<close> takes the arguments, looks at the state, stops or resets, sleeps, makes a channel,
  starts and counts, and anything may happen between two of these; its \<open>Stop\<close> resumes it.

  With \<open>timely\<close> set, the grace timer fires, and a signal fails, only after the monitor goroutine of
  the stopped process has run, the schedule the code hopes for. With \<open>serial\<close> set, a call of \<open>Start\<close>,
  \<open>Stop\<close> or \<open>Restart\<close>, the automatic restart's too, begins only when no other is in progress. A step
  is a new call from outside or the progress of what is under way. A monitor goroutine reads its
  command as soon as \<open>Start\<close> has returned.
\<close>

datatype nm_call =
  Restart_called "string list"
| Restart_saw "string list" node_state
| Restart_resumes "string list"
| Restart_starts "string list"
| Restart_counts
| Stop_signals nat "string list option"
| Stop_waits nat "nat option" "string list option"

datatype nm_label = Call | Progress

record nm_sys =
  sy_mgr :: node_mgr
  sy_live :: "nat list"
  sy_waits :: "nat list"
  sy_calls :: "nm_call list"
  sy_sleeping :: nat

definition init_sys :: "nm_config \<Rightarrow> nm_sys" where
  "init_sys cfg = \<lparr>sy_mgr = new_manager cfg, sy_live = [], sy_waits = [], sy_calls = [],
     sy_sleeping = 0\<rparr>"

text \<open>A call goes on as another one; a finished \<open>Stop\<close> gives way to the rest of its \<open>Restart\<close>.\<close>

definition goes_on :: "nm_call \<Rightarrow> nm_call list \<Rightarrow> nm_sys \<Rightarrow> nm_sys" where
  "goes_on c cs s = s\<lparr>sy_calls := cs @ remove1 c (sy_calls s)\<rparr>"

fun after_stop :: "string list option \<Rightarrow> nm_call list" where
  "after_stop None = []"
| "after_stop (Some args) = [Restart_resumes args]"

definition spawned :: "nat \<Rightarrow> node_mgr \<Rightarrow> nm_sys \<Rightarrow> nm_sys" where
  "spawned pid m s = s\<lparr>sy_mgr := m, sy_live := pid # sy_live s, sy_waits := pid # sy_waits s\<rparr>"

inductive nm_step :: "nm_config \<Rightarrow> bool \<Rightarrow> bool \<Rightarrow> nm_label \<Rightarrow> nm_sys \<Rightarrow> nm_sys \<Rightarrow> bool"
  for cfg :: nm_config and timely :: bool and serial :: bool
  where
  Start_ok: "(serial \<Longrightarrow> sy_calls s = []) \<Longrightarrow> se_spawn env = Some pid \<Longrightarrow> pid \<notin> set (sy_live s) \<Longrightarrow>
     pid \<notin> set (sy_waits s) \<Longrightarrow> nm_start cfg env args (sy_mgr s) = (m, Inr ()) \<Longrightarrow>
     nm_step cfg timely serial Call s (spawned pid m s)"
| Start_fails: "(serial \<Longrightarrow> sy_calls s = []) \<Longrightarrow> nm_start cfg env args (sy_mgr s) = (m, Inl e) \<Longrightarrow>
     nm_step cfg timely serial Call s (s\<lparr>sy_mgr := m\<rparr>)"
| Stop_begins: "(serial \<Longrightarrow> sy_calls s = []) \<Longrightarrow> stop_begin (sy_mgr s) = (m, Inr pid) \<Longrightarrow>
     nm_step cfg timely serial Call s (s\<lparr>sy_mgr := m, sy_calls := Stop_signals pid None # sy_calls s\<rparr>)"
| Stop_refused: "(serial \<Longrightarrow> sy_calls s = []) \<Longrightarrow> stop_begin (sy_mgr s) = (m, Inl e) \<Longrightarrow>
     nm_step cfg timely serial Call s (s\<lparr>sy_mgr := m\<rparr>)"
| Restart_begins: "(serial \<Longrightarrow> sy_calls s = []) \<Longrightarrow>
     nm_step cfg timely serial Call s (s\<lparr>sy_calls := Restart_called (nm_args (sy_mgr s)) # sy_calls s\<rparr>)"
| Close_cancels:
    "nm_step cfg timely serial Call s (s\<lparr>sy_mgr := (sy_mgr s)\<lparr>nm_ctx_done := True\<rparr>\<rparr>)"
| Args_set:
    "nm_step cfg timely serial Call s (s\<lparr>sy_mgr := set_node_args args (sy_mgr s)\<rparr>)"
| Auto_wakes: "sy_sleeping s = Suc k \<Longrightarrow> (serial \<Longrightarrow> sy_calls s = []) \<Longrightarrow>
     nm_step cfg timely serial Progress s (s\<lparr>sy_sleeping := k,
       sy_calls := Restart_called (nm_args (sy_mgr s)) # sy_calls s\<rparr>)"
| Restart_looks: "Restart_called args \<in> set (sy_calls s) \<Longrightarrow>
     nm_step cfg timely serial Progress s
       (goes_on (Restart_called args) [Restart_saw args (get_state (sy_mgr s))] s)"
| Restart_stops: "Restart_saw args StateRunning \<in> set (sy_calls s) \<Longrightarrow>
     stop_begin (sy_mgr s) = (m, Inr pid) \<Longrightarrow>
     nm_step cfg timely serial Progress s
       ((goes_on (Restart_saw args StateRunning) [Stop_signals pid (Some args)] s)\<lparr>sy_mgr := m\<rparr>)"
| Restart_refused: "Restart_saw args StateRunning \<in> set (sy_calls s) \<Longrightarrow>
     stop_begin (sy_mgr s) = (m, Inl e) \<Longrightarrow>
     nm_step cfg timely serial Progress s
       ((goes_on (Restart_saw args StateRunning) [] s)\<lparr>sy_mgr := m\<rparr>)"
| Restart_resets: "Restart_saw args st \<in> set (sy_calls s) \<Longrightarrow> st \<noteq> StateRunning \<Longrightarrow>
     nm_step cfg timely serial Progress s
       ((goes_on (Restart_saw args st) [Restart_resumes args] s)
          \<lparr>sy_mgr := (if st \<noteq> StateStopped then reset_state (sy_mgr s) else sy_mgr s)\<rparr>)"
| Restart_makes_done: "Restart_resumes args \<in> set (sy_calls s) \<Longrightarrow>
     nm_step cfg timely serial Progress s
       ((goes_on (Restart_resumes args) [Restart_starts args] s)\<lparr>sy_mgr := ensure_done (sy_mgr s)\<rparr>)"
| Restart_start_ok: "Restart_starts args \<in> set (sy_calls s) \<Longrightarrow> se_spawn env = Some pid \<Longrightarrow>
     pid \<notin> set (sy_live s) \<Longrightarrow> pid \<notin> set (sy_waits s) \<Longrightarrow>
     nm_start cfg env args (sy_mgr s) = (m, Inr ()) \<Longrightarrow>
     nm_step cfg timely serial Progress s (spawned pid m (goes_on (Restart_starts args) [Restart_counts] s))"
| Restart_start_fails: "Restart_starts args \<in> set (sy_calls s) \<Longrightarrow>
     nm_start cfg env args (sy_mgr s) = (m, Inl e) \<Longrightarrow>
     nm_step cfg timely serial Progress s ((goes_on (Restart_starts args) [] s)\<lparr>sy_mgr := m\<rparr>)"
| Restart_counted: "Restart_counts \<in> set (sy_calls s) \<Longrightarrow>
     nm_step cfg timely serial Progress s ((goes_on Restart_counts [] s)
       \<lparr>sy_mgr := (sy_mgr s)\<lparr>nm_restart_count := nm_restart_count (sy_mgr s) + 1\<rparr>\<rparr>)"
| Stop_signalled: "Stop_signals pid k \<in> set (sy_calls s) \<Longrightarrow>
     nm_step cfg timely serial Progress s
       (goes_on (Stop_signals pid k) [Stop_waits pid (nm_done (sy_mgr s)) k] s)"
| Stop_signal_fails: "Stop_signals pid k \<in> set (sy_calls s) \<Longrightarrow>
     (timely \<Longrightarrow> pid \<notin> set (sy_waits s)) \<Longrightarrow>
     nm_step cfg timely serial Progress s (goes_on (Stop_signals pid k) [] s)"
| Stop_graceful: "Stop_waits pid ch k \<in> set (sy_calls s) \<Longrightarrow> done_fired ch (sy_mgr s) \<Longrightarrow>
     nm_step cfg timely serial Progress s
       ((goes_on (Stop_waits pid ch k) (after_stop k) s)\<lparr>sy_mgr := cleanup_state (sy_mgr s)\<rparr>)"
| Stop_forced: "Stop_waits pid ch k \<in> set (sy_calls s) \<Longrightarrow> (timely \<Longrightarrow> pid \<notin> set (sy_waits s)) \<Longrightarrow>
     nm_step cfg timely serial Progress s
       ((goes_on (Stop_waits pid ch k) (after_stop k) s)\<lparr>sy_mgr := cleanup_state (sy_mgr s)\<rparr>)"
| Process_exits: "pid \<in> set (sy_live s) \<Longrightarrow>
     nm_step cfg timely serial Progress s (s\<lparr>sy_live := remove1 pid (sy_live s)\<rparr>)"
| Monitor_wakes: "pid \<in> set (sy_waits s) \<Longrightarrow> pid \<notin> set (sy_live s) \<Longrightarrow>
     monitor_wake cfg (sy_mgr s) = (m, scheduled) \<Longrightarrow>
     nm_step cfg timely serial Progress s (s\<lparr>sy_mgr := m, sy_waits := remove1 pid (sy_waits s),
       sy_sleeping := sy_sleeping s + (if scheduled then 1 else 0)\<rparr>)"

inductive nm_reach :: "nm_config \<Rightarrow> bool \<Rightarrow> bool \<Rightarrow> nm_sys \<Rightarrow> bool"
  for cfg :: nm_config and timely :: bool and serial :: bool
  where
  reach_init: "nm_reach cfg timely serial (init_sys cfg)"
| reach_step: "nm_reach cfg timely serial s \<Longrightarrow> nm_step cfg timely serial l s t \<Longrightarrow>
     nm_reach cfg timely serial t"

lemma goes_on_simps [simp]:
  "sy_mgr (goes_on c cs s) = sy_mgr s" "sy_live (goes_on c cs s) = sy_live s"
  "sy_waits (goes_on c cs s) = sy_waits s" "sy_sleeping (goes_on c cs s) = sy_sleeping s"
  "sy_calls (goes_on c cs s) = cs @ remove1 c (sy_calls s)"
  by (simp_all add: goes_on_def)

lemma spawned_simps [simp]:
  "sy_mgr (spawned pid m s) = m" "sy_live (spawned pid m s) = pid # sy_live s"
  "sy_waits (spawned pid m s) = pid # sy_waits s" "sy_calls (spawned pid m s) = sy_calls s"
  "sy_sleeping (spawned pid m s) = sy_sleeping s"
  by (simp_all add: spawned_def)

section \<open>What every schedule keeps\<close>

lemma stop_begin_Inr:
  "stop_begin m = (m', Inr pid) \<Longrightarrow>
     nm_state m = StateRunning \<and> nm_process m = Some pid \<and> m' = m\<lparr>nm_state := StateStopping\<rparr>"
  by (auto simp: stop_begin_def split: if_splits option.splits)

lemma stop_begin_Inl:
  "stop_begin m = (m', Inl e) \<Longrightarrow> mgr_ok m \<Longrightarrow> m' = m \<and> nm_state m \<noteq> StateRunning"
  by (auto simp: stop_begin_def mgr_ok_def split: if_splits option.splits)

lemma mgr_ok_begin:
  "mgr_ok m \<Longrightarrow> stop_begin m = (m', r) \<Longrightarrow> mgr_ok m'"
  by (cases r) (auto dest: stop_begin_Inr stop_begin_Inl simp: mgr_ok_stopping)

lemma mgr_ok_start_pair: "mgr_ok m \<Longrightarrow> nm_start cfg env args m = (m', r) \<Longrightarrow> mgr_ok m'"
  using mgr_ok_start [of m cfg env args] by simp

lemma mgr_ok_wake_pair: "mgr_ok m \<Longrightarrow> monitor_wake cfg m = (m', r) \<Longrightarrow> mgr_ok m'"
  using mgr_ok_wake [of m cfg] by simp

lemmas mgr_ok_parts = mgr_ok_begin mgr_ok_start_pair mgr_ok_wake_pair mgr_ok_cleanup mgr_ok_reset
  mgr_ok_ensure mgr_ok_update

lemma step_mgr_ok:
  "nm_step cfg timely serial l s t \<Longrightarrow> mgr_ok (sy_mgr s) \<Longrightarrow> mgr_ok (sy_mgr t)"
  by (induction rule: nm_step.induct)
    (auto intro: mgr_ok_parts simp: mgr_ok_update(4,5) set_node_args_def)

lemma reach_mgr_ok: "nm_reach cfg timely serial s \<Longrightarrow> mgr_ok (sy_mgr s)"
  by (induction rule: nm_reach.induct) (auto intro: step_mgr_ok simp: init_sys_def mgr_ok_new)

section \<open>The timely serial schedule\<close>

text \<open>
  The invariant of the schedule, by the state of the manager: a running node has exactly its own
  monitor waiting and no \<open>Stop\<close> in progress; a stopping one has at most its own, and none when the
  \<open>Stop\<close> has given up; in any other state no process is left. A \<open>Stop\<close> in progress is about the
  manager's process and selects on the channel the manager still holds, and a \<open>Restart\<close> that is about
  to reset the state has no process to lose.
\<close>

fun is_stop :: "nm_call \<Rightarrow> bool" where
  "is_stop (Stop_signals pid k) = True"
| "is_stop (Stop_waits pid ch k) = True"
| "is_stop _ = False"

fun call_fits :: "nm_sys \<Rightarrow> nm_call \<Rightarrow> bool" where
  "call_fits s (Stop_signals pid k) \<longleftrightarrow>
     nm_state (sy_mgr s) = StateStopping \<and> nm_process (sy_mgr s) = Some pid"
| "call_fits s (Stop_waits pid ch k) \<longleftrightarrow>
     nm_state (sy_mgr s) = StateStopping \<and> nm_process (sy_mgr s) = Some pid \<and>
     (ch = None \<or> ch = nm_done (sy_mgr s))"
| "call_fits s (Restart_saw args st) \<longleftrightarrow> st = StateRunning \<or> st = StateStopped \<or> sy_waits s = []"
| "call_fits s _ \<longleftrightarrow> True"

definition timely_ok :: "nm_sys \<Rightarrow> bool" where
  "timely_ok s \<longleftrightarrow>
     set (sy_live s) \<subseteq> set (sy_waits s) \<and> distinct (sy_live s) \<and>
     length (sy_calls s) \<le> 1 \<and> list_all (call_fits s) (sy_calls s) \<and>
     (if nm_state (sy_mgr s) = StateRunning then sy_waits s = [the (nm_process (sy_mgr s))]
      else if nm_state (sy_mgr s) = StateStopping \<and> list_ex is_stop (sy_calls s)
      then sy_waits s = [] \<or> sy_waits s = [the (nm_process (sy_mgr s))]
      else sy_waits s = [])"

lemma timely_ok_init: "timely_ok (init_sys cfg)"
  by (simp add: timely_ok_def init_sys_def new_manager_def)

lemma nm_start_result:
  "nm_start cfg env args m = (m', Inr ()) \<Longrightarrow>
     nm_state m = StateStopped \<and> nm_state m' = StateRunning \<and> nm_process m' = se_spawn env \<and>
     nm_restart_count m' = nm_restart_count m \<and> nm_done m' = nm_done m"
  "nm_start cfg env args m = (m', Inl e) \<Longrightarrow>
     m' = m \<and> nm_state m \<noteq> StateStopped \<or>
     nm_state m = StateStopped \<and> nm_state m' = StateError \<and> nm_process m' = nm_process m"
  by (cases rule: nm_start_cases [of m cfg env args]; auto)+

lemma ensure_done_simps [simp]:
  "nm_state (ensure_done m) = nm_state m" "nm_process (ensure_done m) = nm_process m"
  "nm_restart_count (ensure_done m) = nm_restart_count m"
  "nm_max_restarts (ensure_done m) = nm_max_restarts m"
  "nm_ctx_done (ensure_done m) = nm_ctx_done m"
  "nm_cmd (ensure_done m) = nm_cmd m" "nm_args (ensure_done m) = nm_args m"
  by (simp_all add: ensure_done_def split: option.splits)

lemma reset_state_simps [simp]:
  "nm_state (reset_state m) = StateStopped" "nm_process (reset_state m) = None"
  "nm_done (reset_state m) = nm_done m" "nm_args (reset_state m) = nm_args m"
  "nm_restart_count (reset_state m) = nm_restart_count m" "nm_ctx_done (reset_state m) = nm_ctx_done m"
  by (simp_all add: reset_state_def)

lemma done_not_fired: "mgr_ok m \<Longrightarrow> ch = None \<or> ch = nm_done m \<Longrightarrow> \<not> done_fired ch m"
  by (auto simp: mgr_ok_def done_fired_def split: option.splits)

text \<open>In this schedule a call in progress is the only one.\<close>

lemma only_call: "timely_ok s \<Longrightarrow> c \<in> set (sy_calls s) \<Longrightarrow> sy_calls s = [c]"
  by (cases "sy_calls s") (auto simp: timely_ok_def)

lemma call_fits_only: "timely_ok s \<Longrightarrow> c \<in> set (sy_calls s) \<Longrightarrow> call_fits s c"
  by (auto simp: timely_ok_def list_all_iff)

lemma live_not_waiting: "timely_ok s \<Longrightarrow> pid \<in> set (sy_live s) \<Longrightarrow> pid \<in> set (sy_waits s)"
  by (auto simp: timely_ok_def)

lemma subset_single_empty: "set xs \<subseteq> {a} \<Longrightarrow> a \<notin> set xs \<Longrightarrow> xs = []"
  by (cases xs) auto

lemma call_fits_cong:
  "nm_state (sy_mgr t) = nm_state (sy_mgr s) \<Longrightarrow> nm_process (sy_mgr t) = nm_process (sy_mgr s) \<Longrightarrow>
   nm_done (sy_mgr t) = nm_done (sy_mgr s) \<Longrightarrow> sy_waits t = [] \<or> sy_waits t = sy_waits s \<Longrightarrow>
   call_fits s c \<Longrightarrow> call_fits t c"
  by (cases c) auto

lemma timely_ok_distinct: "timely_ok s \<Longrightarrow> distinct (sy_live s)"
  by (simp add: timely_ok_def)

text \<open>A step that changes neither the state nor the calls, and no process, keeps the invariant.\<close>

lemma timely_ok_frame:
  assumes "timely_ok s" and "nm_state (sy_mgr t) = nm_state (sy_mgr s)"
    and "nm_process (sy_mgr t) = nm_process (sy_mgr s)" and "nm_done (sy_mgr t) = nm_done (sy_mgr s)"
    and "sy_waits t = sy_waits s" and "sy_calls t = sy_calls s"
    and "set (sy_live t) \<subseteq> set (sy_live s)" and "distinct (sy_live t)"
  shows "timely_ok t"
  using assms(1) call_fits_cong [OF assms(2-4), OF disjI2, OF assms(5)] assms(2-8)
  by (auto simp: timely_ok_def list_all_iff)

lemma timely_ok_step:
  assumes "nm_step cfg True True l s t" and "timely_ok s" and "mgr_ok (sy_mgr s)"
  shows "timely_ok t"
  using assms(1)
proof cases
  case (Start_ok env pid args m)
  with nm_start_result(1) [OF Start_ok(7)] assms(2) show ?thesis
    by (auto simp: timely_ok_def)
next
  case (Start_fails args env m e)
  with nm_start_result(2) [OF Start_fails(4)] assms(2) show ?thesis
    by (auto simp: timely_ok_def)
next
  case (Stop_begins m pid)
  with stop_begin_Inr [OF Stop_begins(4)] assms(2) show ?thesis
    by (auto simp: timely_ok_def)
next
  case (Stop_refused m e)
  with stop_begin_Inl [OF Stop_refused(4) assms(3)] assms(2) show ?thesis
    by (auto simp: timely_ok_def)
next
  case Restart_begins
  with assms(2) show ?thesis by (auto simp: timely_ok_def)
next
  case Close_cancels
  with timely_ok_distinct [OF assms(2)] show ?thesis
    by (intro timely_ok_frame [OF assms(2)]) simp_all
next
  case (Args_set args)
  with timely_ok_distinct [OF assms(2)] show ?thesis
    by (intro timely_ok_frame [OF assms(2)]) (simp_all add: set_node_args_def)
next
  case (Auto_wakes k)
  with assms(2) show ?thesis by (auto simp: timely_ok_def)
next
  case (Restart_looks args)
  with only_call [OF assms(2) Restart_looks(3)] assms(2) show ?thesis
    by (auto simp: timely_ok_def get_state_def)
next
  case (Restart_stops args m pid)
  with only_call [OF assms(2) Restart_stops(3)] stop_begin_Inr [OF Restart_stops(4)] assms(2)
  show ?thesis by (auto simp: timely_ok_def)
next
  case (Restart_refused args m e)
  with only_call [OF assms(2) Restart_refused(3)] stop_begin_Inl [OF Restart_refused(4) assms(3)]
    assms(2)
  show ?thesis by (auto simp: timely_ok_def)
next
  case (Restart_resets args st)
  with only_call [OF assms(2) Restart_resets(3)] call_fits_only [OF assms(2) Restart_resets(3)] assms(2)
  show ?thesis by (auto simp: timely_ok_def)
next
  case (Restart_makes_done args)
  with only_call [OF assms(2) Restart_makes_done(3)] assms(2) show ?thesis
    by (auto simp: timely_ok_def)
next
  case (Restart_start_ok args env pid m)
  with only_call [OF assms(2) Restart_start_ok(3)] nm_start_result(1) [OF Restart_start_ok(7)] assms(2)
  show ?thesis by (auto simp: timely_ok_def)
next
  case (Restart_start_fails args env m e)
  with only_call [OF assms(2) Restart_start_fails(3)] nm_start_result(2) [OF Restart_start_fails(4)]
    assms(2)
  show ?thesis by (auto simp: timely_ok_def)
next
  case Restart_counted
  with only_call [OF assms(2) Restart_counted(3)] assms(2) show ?thesis by (auto simp: timely_ok_def)
next
  case (Stop_signalled pid k)
  with only_call [OF assms(2) Stop_signalled(3)] call_fits_only [OF assms(2) Stop_signalled(3)] assms(2)
  show ?thesis by (auto simp: timely_ok_def)
next
  case (Stop_signal_fails pid k)
  with only_call [OF assms(2) Stop_signal_fails(3)] call_fits_only [OF assms(2) Stop_signal_fails(3)]
    assms(2)
  show ?thesis by (auto simp: timely_ok_def)
next
  case (Stop_graceful pid ch k)
  with call_fits_only [OF assms(2) Stop_graceful(3)] done_not_fired [OF assms(3)] show ?thesis by auto
next
  case (Stop_forced pid ch k)
  with only_call [OF assms(2) Stop_forced(3)] call_fits_only [OF assms(2) Stop_forced(3)] assms(2)
  show ?thesis by (cases k) (auto simp: timely_ok_def)
next
  case (Process_exits pid)
  with timely_ok_distinct [OF assms(2)] show ?thesis
    by (intro timely_ok_frame [OF assms(2)]) (simp_all add: set_remove1_subset distinct_remove1)
next
  case (Monitor_wakes pid m scheduled)
  then have gone: "sy_waits s = [pid] \<and> sy_live s = []"
    using assms(2) by (auto simp: timely_ok_def dest: subset_single_empty split: if_splits)
  show ?thesis
  proof (cases "nm_state (sy_mgr s) = StateStopping")
    case True
    then have eq: "m = sy_mgr s" using Monitor_wakes(5) by (simp add: monitor_wake_def)
    have "call_fits t c" if "call_fits s c" for c
      using call_fits_cong [of t s c] that Monitor_wakes(2) gone eq by simp
    with True Monitor_wakes(2) gone assms(2) eq show ?thesis
      by (auto simp: timely_ok_def list_all_iff)
  next
    case False
    then have run: "nm_state (sy_mgr s) = StateRunning"
      using gone assms(2) by (auto simp: timely_ok_def split: if_splits)
    have "call_fits t c" if "call_fits s c" for c
      using that run Monitor_wakes(2) gone by (cases c) auto
    with False run Monitor_wakes gone assms(2) show ?thesis
      by (auto simp: timely_ok_def list_all_iff monitor_wake_def handle_process_crash_def Let_def
          split: if_splits)
  qed
qed

lemma reach_timely_ok: "nm_reach cfg True True s \<Longrightarrow> timely_ok s"
  by (induction rule: nm_reach.induct) (auto intro: timely_ok_init timely_ok_step reach_mgr_ok)

section \<open>Properties\<close>

definition demo_cfg :: nm_config where
  "demo_cfg = \<lparr>nc_bin = ''wemixd'', nc_home = ''/h'', nc_network = ''mainnet'', nc_environment = [],
     nc_restart_on_failure = True, nc_max_restarts = 2, nc_shutdown_grace = second\<rparr>"

definition demo_env :: "nat \<Rightarrow> start_env" where
  "demo_env pid = \<lparr>se_stat_ok = True, se_spawn = Some pid, se_now = 1\<rparr>"

text \<open>The run the examples share: started as process 7 with the argument \<open>run\<close>, then a \<open>Stop\<close> that
  waits on the channel the manager was made with.\<close>

definition running_mgr :: "nm_config \<Rightarrow> node_mgr" where
  "running_mgr cfg = (new_manager cfg)\<lparr>nm_state := StateRunning, nm_cmd := Some 7,
     nm_process := Some 7, nm_args := [''run''], nm_start_time := 1\<rparr>"

definition running_sys :: "nm_config \<Rightarrow> nm_sys" where
  "running_sys cfg = \<lparr>sy_mgr = running_mgr cfg, sy_live = [7], sy_waits = [7], sy_calls = [],
     sy_sleeping = 0\<rparr>"

definition stopping_mgr :: "nm_config \<Rightarrow> node_mgr" where
  "stopping_mgr cfg = (running_mgr cfg)\<lparr>nm_state := StateStopping\<rparr>"

definition stopping_sys :: "nm_config \<Rightarrow> nat list \<Rightarrow> nat list \<Rightarrow> nm_sys" where
  "stopping_sys cfg live waits = \<lparr>sy_mgr = stopping_mgr cfg, sy_live = live, sy_waits = waits,
     sy_calls = [Stop_waits 7 (Some 0) None], sy_sleeping = 0\<rparr>"

lemma reach_running:
  assumes "nc_bin cfg \<noteq> ''''"
  shows "nm_reach cfg timely serial (running_sys cfg)"
proof (rule reach_step [OF reach_init])
  have st: "nm_start cfg (demo_env 7) [''run''] (sy_mgr (init_sys cfg)) = (running_mgr cfg, Inr ())"
    using assms by (simp add: init_sys_def nm_start_def start_process_def Let_def demo_env_def
        running_mgr_def new_manager_def)
  show "nm_step cfg timely serial Call (init_sys cfg) (running_sys cfg)"
    using Start_ok [OF _ _ _ _ st, of serial 7 timely]
    by (simp add: demo_env_def init_sys_def running_sys_def spawned_def)
qed

lemma reach_stopping:
  assumes "nc_bin cfg \<noteq> ''''"
  shows "nm_reach cfg timely serial (stopping_sys cfg [7] [7])"
proof (rule reach_step [OF reach_step [OF reach_running [OF assms]]])
  let ?s = "(running_sys cfg)\<lparr>sy_mgr := stopping_mgr cfg, sy_calls := [Stop_signals 7 None]\<rparr>"
  have "stop_begin (sy_mgr (running_sys cfg)) = (stopping_mgr cfg, Inr 7)"
    by (simp add: stop_begin_def running_sys_def running_mgr_def stopping_mgr_def)
  from Stop_begins [OF _ this, of serial cfg timely]
  show "nm_step cfg timely serial Call (running_sys cfg) ?s" by (simp add: running_sys_def)
  have "nm_done (stopping_mgr cfg) = Some 0"
    by (simp add: stopping_mgr_def running_mgr_def new_manager_def)
  then show "nm_step cfg timely serial Progress ?s (stopping_sys cfg [7] [7])"
    using Stop_signalled [of 7 None ?s cfg timely serial]
    by (simp add: goes_on_def running_sys_def stopping_sys_def)
qed

text \<open>The process exits and its monitor runs, and sees a stop under way.\<close>

lemma reach_exited:
  assumes "nc_bin cfg \<noteq> ''''"
  shows "nm_reach cfg timely serial (stopping_sys cfg [] [7])"
  by (rule reach_step [OF reach_stopping [OF assms]])
    (use Process_exits [of 7 "stopping_sys cfg [7] [7]" cfg timely serial] in
      \<open>simp add: stopping_sys_def\<close>)

lemma reach_monitored:
  assumes "nc_bin cfg \<noteq> ''''"
  shows "nm_reach cfg timely serial (stopping_sys cfg [] [])"
proof (rule reach_step [OF reach_exited [OF assms]])
  have "monitor_wake cfg (sy_mgr (stopping_sys cfg [] [7])) = (stopping_mgr cfg, False)"
    by (simp add: monitor_wake_def stopping_sys_def stopping_mgr_def)
  from Monitor_wakes [OF _ _ this, of 7 timely serial]
  show "nm_step cfg timely serial Progress (stopping_sys cfg [] [7]) (stopping_sys cfg [] [])"
    by (simp add: stopping_sys_def)
qed

text \<open>The grace timer fires before the monitor has run: the node is stopped, the monitor still waits.\<close>

definition stopped_sys :: "nm_config \<Rightarrow> nm_sys" where
  "stopped_sys cfg = \<lparr>sy_mgr = cleanup_state (stopping_mgr cfg), sy_live = [], sy_waits = [7],
     sy_calls = [], sy_sleeping = 0\<rparr>"

lemma reach_stopped:
  assumes "nc_bin cfg \<noteq> ''''"
  shows "nm_reach cfg False serial (stopped_sys cfg)"
  by (rule reach_step [OF reach_exited [OF assms]])
    (use Stop_forced [of 7 "Some 0" None "stopping_sys cfg [] [7]" False cfg serial] in
      \<open>simp add: stopping_sys_def stopped_sys_def goes_on_def\<close>)

text \<open>
  C17. In the timely serial schedule a waiting \<open>Stop\<close> never takes the graceful branch, not even after
  the process has exited and its monitor has run: nobody closes \<open>doneCh\<close> while the node is stopping,
  so every \<open>Stop\<close> waits out the whole grace period and then kills. (A late monitor, or a call that
  overlaps the \<open>Stop\<close>, can close the channel.)
\<close>

theorem stop_never_graceful:
  assumes "nm_reach cfg True True s" and "Stop_waits pid ch k \<in> set (sy_calls s)"
  shows "\<not> done_fired ch (sy_mgr s)"
proof (rule done_not_fired [OF reach_mgr_ok [OF assms(1)]])
  show "ch = None \<or> ch = nm_done (sy_mgr s)"
    using call_fits_only [OF reach_timely_ok [OF assms(1)] assms(2)] by simp
qed

theorem stop_never_graceful_witness:
  "\<not> done_fired (Some 0) (sy_mgr (stopping_sys demo_cfg [] []))"
proof (rule stop_never_graceful)
  show "nm_reach demo_cfg True True (stopping_sys demo_cfg [] [])"
    by (rule reach_monitored) (simp add: demo_cfg_def)
  show "Stop_waits 7 (Some 0) None \<in> set (sy_calls (stopping_sys demo_cfg [] []))"
    by (simp add: stopping_sys_def)
qed

text \<open>
  C2. In the timely serial schedule at most one node process is alive at any moment, it is the
  manager's own, and only while the manager is running or stopping it: every start, stop, restart,
  crash and automatic restart keeps this, whatever the order of the steps.
\<close>

theorem at_most_one_process:
  assumes "nm_reach cfg True True s" and "pid \<in> set (sy_live s)"
  shows "(sy_live s = [pid]) \<and>
    (nm_process (sy_mgr s) = Some pid) \<and>
    (nm_state (sy_mgr s) \<in> {StateRunning, StateStopping})"
proof -
  have ok: "timely_ok s" and mok: "mgr_ok (sy_mgr s)"
    using reach_timely_ok [OF assms(1)] reach_mgr_ok [OF assms(1)] by auto
  have w: "pid \<in> set (sy_waits s)" by (rule live_not_waiting [OF ok assms(2)])
  with ok have st: "nm_state (sy_mgr s) \<in> {StateRunning, StateStopping}"
    and w1: "sy_waits s = [the (nm_process (sy_mgr s))]"
    by (auto simp: timely_ok_def split: if_splits)
  with mok w have "nm_process (sy_mgr s) = Some pid" by (auto simp: mgr_ok_def)
  moreover have "sy_live s = [pid]"
    using ok w w1 assms(2) by (cases "sy_live s") (auto simp: timely_ok_def subset_singleton_iff)
  ultimately show ?thesis using st by blast
qed

theorem at_most_one_process_witness:
  "sy_live (running_sys demo_cfg) = [7] \<and> nm_process (sy_mgr (running_sys demo_cfg)) = Some 7"
proof -
  have r: "nm_reach demo_cfg True True (running_sys demo_cfg)"
    by (rule reach_running) (simp add: demo_cfg_def)
  have "7 \<in> set (sy_live (running_sys demo_cfg))" by (simp add: running_sys_def)
  with at_most_one_process [OF r this] show ?thesis by simp
qed

text \<open>
  Without the serial schedule it fails, with every monitor in time: a \<open>Restart\<close> that begins during
  the wait of a \<open>Stop\<close> finds the node stopping, resets the state and starts a second process beside
  the one the \<open>Stop\<close> is waiting for.
\<close>

theorem overlapping_restart_runs_two:
  assumes "nc_bin cfg \<noteq> ''''"
  shows "\<exists>s. nm_reach cfg True False s \<and> sy_live s = [8, 7] \<and> nm_state (sy_mgr s) = StateRunning"
proof -
  let ?w = "Stop_waits 7 (Some 0) None"
  let ?m = "stopping_mgr cfg"
  let ?s = "\<lambda>m cs. \<lparr>sy_mgr = m, sy_live = [7], sy_waits = [7], sy_calls = cs @ [?w], sy_sleeping = 0\<rparr>"
  have start: "stopping_sys cfg [7] [7] = ?s ?m []" by (simp add: stopping_sys_def)
  have args: "nm_args ?m = [''run'']" "nm_state ?m = StateStopping"
    by (simp_all add: stopping_mgr_def running_mgr_def)
  note go [simp] = goes_on_def get_state_def
  have 1: "nm_reach cfg True False (?s ?m [Restart_called [''run'']])"
    by (rule reach_step [OF reach_stopping [OF assms]])
      (use Restart_begins [of False "?s ?m []" cfg True] args in \<open>simp add: start\<close>)
  have 2: "nm_reach cfg True False (?s ?m [Restart_saw [''run''] StateStopping])"
    by (rule reach_step [OF 1])
      (use Restart_looks [of "[''run'']" "?s ?m [Restart_called [''run'']]" cfg True False] args in simp)
  have 3: "nm_reach cfg True False (?s (reset_state ?m) [Restart_resumes [''run'']])"
    by (rule reach_step [OF 2])
      (use Restart_resets [of "[''run'']" StateStopping "?s ?m [Restart_saw [''run''] StateStopping]"
          cfg True False] in simp)
  have 4: "nm_reach cfg True False (?s (ensure_done (reset_state ?m)) [Restart_starts [''run'']])"
    by (rule reach_step [OF 3])
      (use Restart_makes_done [of "[''run'']" "?s (reset_state ?m) [Restart_resumes [''run'']]"
          cfg True False] in simp)
  have "\<not> nm_ctx_done (ensure_done (reset_state ?m))"
    by (simp add: stopping_mgr_def running_mgr_def new_manager_def)
  then obtain m where m: "nm_start cfg (demo_env 8) [''run''] (ensure_done (reset_state ?m)) = (m, Inr ())"
    using assms by (simp add: nm_start_def start_process_def Let_def demo_env_def)
  let ?t = "\<lparr>sy_mgr = m, sy_live = [8, 7], sy_waits = [8, 7], sy_calls = [Restart_counts, ?w],
    sy_sleeping = 0\<rparr>"
  have "nm_reach cfg True False ?t"
    by (rule reach_step [OF 4])
      (use Restart_start_ok [of "[''run'']" "?s (ensure_done (reset_state ?m)) [Restart_starts [''run'']]"
          "demo_env 8" 8 cfg m True False] m in \<open>simp add: demo_env_def spawned_def\<close>)
  with nm_start_result(1) [OF m] show ?thesis by (intro exI [of _ ?t]) simp
qed

text \<open>
  C3. A stopped node comes back to life when the monitor goroutine of its process is late: whenever
  the node is stopped, no call is in progress and a monitor still has to wake for a process that is
  gone, its wake takes the exit for a crash and schedules a restart, and from there the node is
  started again, with its last arguments, as a new process and with no call from outside, provided
  that restarts on failure are on and not used up, the context is not cancelled and the binary can
  be started. (The example reaches such a state: the grace timer of \<open>Stop\<close> fires before the monitor
  has run.)
\<close>

theorem late_monitor_restarts_stopped_node:
  fixes env :: start_env and s :: nm_sys
  assumes "nm_state (sy_mgr s) = StateStopped" and "sy_calls s = []"
    and "pid \<in> set (sy_waits s)" and "pid \<notin> set (sy_live s)"
    and "nc_restart_on_failure cfg" and "nm_restart_count (sy_mgr s) < nm_max_restarts (sy_mgr s)"
    and "\<not> nm_ctx_done (sy_mgr s)" and "nc_bin cfg \<noteq> ''''" and "se_stat_ok env"
    and "se_spawn env = Some new" and "new \<notin> set (sy_live s)" and "new \<notin> set (sy_waits s)"
  shows "(nm_state (fst (monitor_wake cfg (sy_mgr s))) = StateCrashed) \<and>
    (snd (monitor_wake cfg (sy_mgr s))) \<and>
    (\<exists>t. (nm_step cfg timely serial Progress)\<^sup>*\<^sup>* s t \<and> nm_state (sy_mgr t) = StateRunning \<and>
       sy_live t = new # sy_live s \<and> nm_process (sy_mgr t) = Some new \<and>
       nm_args (sy_mgr t) = nm_args (sy_mgr s) \<and>
       nm_restart_count (sy_mgr t) = nm_restart_count (sy_mgr s) + 1)"
proof -
  let ?R = "nm_step cfg timely serial Progress"
  let ?args = "nm_args (sy_mgr s)"
  obtain m1 where wake: "monitor_wake cfg (sy_mgr s) = (m1, True)"
    and m1: "nm_state m1 = StateCrashed" "nm_args m1 = ?args" "\<not> nm_ctx_done m1"
      "nm_restart_count m1 = nm_restart_count (sy_mgr s)"
    using assms(1,5,6,7)
    by (simp add: monitor_wake_def handle_process_crash_def should_auto_restart_def Let_def)
  let ?w = "remove1 pid (sy_waits s)"
  let ?s = "\<lambda>m n cs. \<lparr>sy_mgr = m, sy_live = sy_live s, sy_waits = ?w, sy_calls = cs, sy_sleeping = n\<rparr>"
  let ?k = "sy_sleeping s"
  note go [simp] = goes_on_def get_state_def
  have eq: "s\<lparr>sy_mgr := m1, sy_waits := ?w, sy_sleeping := Suc ?k\<rparr> = ?s m1 (Suc ?k) []"
    by (rule nm_sys.equality) (simp_all add: assms(2))
  have s1: "?R s (?s m1 (Suc ?k) [])"
    by (rule subst [OF eq, of "?R s"])
      (use Monitor_wakes [OF assms(3,4) wake, of timely serial] in simp)
  have s2: "?R (?s m1 (Suc ?k) []) (?s m1 ?k [Restart_called ?args])"
    using Auto_wakes [of "?s m1 (Suc ?k) []" ?k serial cfg timely] m1 by simp
  have s3: "?R (?s m1 ?k [Restart_called ?args]) (?s m1 ?k [Restart_saw ?args StateCrashed])"
    using Restart_looks [of ?args "?s m1 ?k [Restart_called ?args]" cfg timely serial] m1 by simp
  have s4: "?R (?s m1 ?k [Restart_saw ?args StateCrashed]) (?s (reset_state m1) ?k [Restart_resumes ?args])"
    using Restart_resets [of ?args StateCrashed "?s m1 ?k [Restart_saw ?args StateCrashed]" cfg timely serial]
    by simp
  let ?m2 = "ensure_done (reset_state m1)"
  have s5: "?R (?s (reset_state m1) ?k [Restart_resumes ?args]) (?s ?m2 ?k [Restart_starts ?args])"
    using Restart_makes_done [of ?args "?s (reset_state m1) ?k [Restart_resumes ?args]" cfg timely serial]
    by simp
  obtain m3 where start: "nm_start cfg env ?args ?m2 = (m3, Inr ())"
    and m3: "nm_state m3 = StateRunning" "nm_process m3 = Some new" "nm_args m3 = ?args"
      "nm_restart_count m3 = nm_restart_count (sy_mgr s)"
    using assms(8-10) m1 by (simp add: nm_start_def start_process_def Let_def)
  have "new \<notin> set ?w" using assms(12) by (meson notin_set_remove1)
  then have s6: "?R (?s ?m2 ?k [Restart_starts ?args]) (spawned new m3 (?s ?m2 ?k [Restart_counts]))"
    using Restart_start_ok [of ?args "?s ?m2 ?k [Restart_starts ?args]" env new cfg m3 timely serial]
      start assms(10,11)
    by (simp add: spawned_def)
  let ?t = "(spawned new m3 (?s ?m2 ?k []))
    \<lparr>sy_mgr := m3\<lparr>nm_restart_count := nm_restart_count m3 + 1\<rparr>\<rparr>"
  have s7: "?R (spawned new m3 (?s ?m2 ?k [Restart_counts])) ?t"
    using Restart_counted [of "spawned new m3 (?s ?m2 ?k [Restart_counts])" cfg timely serial]
    by (simp add: spawned_def)
  have "?R\<^sup>*\<^sup>* s ?t"
    using s1 s2 s3 s4 s5 s6 s7 by (meson converse_rtranclp_into_rtranclp rtranclp.rtrancl_refl)
  then have "\<exists>t. ?R\<^sup>*\<^sup>* s t \<and> nm_state (sy_mgr t) = StateRunning \<and> sy_live t = new # sy_live s \<and>
      nm_process (sy_mgr t) = Some new \<and> nm_args (sy_mgr t) = ?args \<and>
      nm_restart_count (sy_mgr t) = nm_restart_count (sy_mgr s) + 1"
    using m3 by (intro exI [of _ ?t]) simp
  with wake m1 show ?thesis by simp
qed

theorem late_monitor_restarts_stopped_node_witness:
  "nm_reach demo_cfg False True (stopped_sys demo_cfg) \<and>
   (\<exists>t. (nm_step demo_cfg False True Progress)\<^sup>*\<^sup>* (stopped_sys demo_cfg) t \<and>
     nm_state (sy_mgr t) = StateRunning \<and> sy_live t = [8] \<and> nm_args (sy_mgr t) = [''run''])"
proof -
  let ?s = "stopped_sys demo_cfg"
  have m: "sy_mgr ?s = (new_manager demo_cfg)\<lparr>nm_state := StateStopped, nm_args := [''run''],
      nm_start_time := 1, nm_closed := [0], nm_done := None\<rparr>"
    by (simp add: stopped_sys_def stopping_mgr_def cleanup_state_def close_done_def running_mgr_def
        new_manager_def)
  have r: "nm_reach demo_cfg False True ?s" by (rule reach_stopped) (simp add: demo_cfg_def)
  have h: "nm_state (sy_mgr ?s) = StateStopped" "sy_calls ?s = []" "7 \<in> set (sy_waits ?s)"
    "7 \<notin> set (sy_live ?s)" "nc_restart_on_failure demo_cfg"
    "nm_restart_count (sy_mgr ?s) < nm_max_restarts (sy_mgr ?s)" "\<not> nm_ctx_done (sy_mgr ?s)"
    "nc_bin demo_cfg \<noteq> ''''" "se_stat_ok (demo_env 8)" "se_spawn (demo_env 8) = Some 8"
    "8 \<notin> set (sy_live ?s)" "8 \<notin> set (sy_waits ?s)"
    by (simp_all only: m) (simp_all add: stopped_sys_def new_manager_def demo_cfg_def demo_env_def)
  have "sy_live ?s = []" "nm_args (sy_mgr ?s) = [''run'']"
    by (simp_all add: m) (simp_all add: stopped_sys_def)
  with r late_monitor_restarts_stopped_node [OF h, of False True, THEN conjunct2, THEN conjunct2]
  show ?thesis by auto
qed

section \<open>The crash loop\<close>




definition demo_kenv :: stop_env where
  "demo_kenv = \<lparr>ke_group_term = True, ke_process_term = True, ke_group_kill = True\<rparr>"


text \<open>
  Only \<open>Restart\<close> makes a new \<open>doneCh\<close>: after \<open>Stop\<close> and a plain \<open>Start\<close>, the pair of calls the
  orchestrator's upgrade makes, the manager has none, so \<open>Wait\<close> returns a nil channel that never
  fires, and a crash later closes nothing.
\<close>

theorem start_after_stop_has_no_done:
  assumes "nm_stop kenv m = (m1, Inr forced)" and "nm_start cfg senv args m1 = (m2, Inr ())"
  shows "nm_done m2 = None" and "\<not> done_fired (nm_done m2) m'"
    and "nm_closed (fst (handle_process_crash cfg m2)) = nm_closed m2"
proof -
  have "nm_done m1 = None"
    using assms(1) by (cases rule: nm_stop_cases [of m kenv]) auto
  with nm_start_result(1) [OF assms(2)] show none: "nm_done m2 = None" by simp
  then show "\<not> done_fired (nm_done m2) m'" by (simp add: done_fired_def)
  show "nm_closed (fst (handle_process_crash cfg m2)) = nm_closed m2"
    using none by (simp add: handle_process_crash_def Let_def close_done_def)
qed

theorem start_after_stop_has_no_done_witness:
  "nm_done (fst (nm_start demo_cfg (demo_env 9) [] (fst (nm_stop demo_kenv (running_mgr demo_cfg))))) = None"
proof -
  obtain m1 forced where s: "nm_stop demo_kenv (running_mgr demo_cfg) = (m1, Inr forced)"
    by (simp add: nm_stop_def stop_begin_def running_mgr_def send_stop_signal_def demo_kenv_def)
  then have "nm_state m1 = StateStopped" "\<not> nm_ctx_done m1"
    by (auto simp: nm_stop_def stop_begin_def running_mgr_def send_stop_signal_def demo_kenv_def
        cleanup_state_def new_manager_def)
  then obtain m2 where t: "nm_start demo_cfg (demo_env 9) [] m1 = (m2, Inr ())"
    by (simp add: nm_start_def start_process_def demo_cfg_def demo_env_def Let_def)
  from start_after_stop_has_no_done(1) [OF s t] s t show ?thesis by simp
qed

end
