(* ===== verification/Paths.thy ===== *)
theory Paths
  imports Prelude
begin

text \<open>
  \<open>internal/config/paths.go\<close>: where the binaries of a node live, and the symbolic link that selects
  one. \<open>path/filepath\<close> is written out (\<open>Clean\<close>, \<open>Join\<close>, \<open>Dir\<close>, \<open>Rel\<close> on slash-separated paths),
  because the directory layout rests on its treatment of dots.
\<close>

section \<open>\<open>path/filepath\<close>\<close>

abbreviation slash :: char where "slash \<equiv> CHR ''/''"

fun split_slash :: "string \<Rightarrow> string list" where
  "split_slash [] = [[]]"
| "split_slash (c # cs) =
     (if c = slash then [] # split_slash cs
      else (case split_slash cs of s # ss \<Rightarrow> (c # s) # ss | [] \<Rightarrow> [[c]]))"

fun join_slash :: "string list \<Rightarrow> string" where
  "join_slash [] = []"
| "join_slash [s] = s"
| "join_slash (s # t # ss) = s @ slash # join_slash (t # ss)"

fun clean_comps :: "bool \<Rightarrow> string list \<Rightarrow> string list \<Rightarrow> string list" where
  "clean_comps rooted st [] = rev st"
| "clean_comps rooted st (c # cs) =
     (if c = '''' \<or> c = ''.'' then clean_comps rooted st cs
      else if c = ''..'' then
        (case st of
           t # ts \<Rightarrow> if t \<noteq> ''..'' then clean_comps rooted ts cs
                    else clean_comps rooted (''..'' # st) cs
         | [] \<Rightarrow> if rooted then clean_comps rooted [] cs else clean_comps rooted [''..''] cs)
      else clean_comps rooted (c # st) cs)"

definition is_abs :: "string \<Rightarrow> bool" where
  "is_abs p \<longleftrightarrow> (case p of c # _ \<Rightarrow> c = slash | [] \<Rightarrow> False)"

definition path_comps :: "string \<Rightarrow> string list" where
  "path_comps p = clean_comps (is_abs p) [] (split_slash p)"

definition path_clean :: "string \<Rightarrow> string" where
  "path_clean p =
     (if is_abs p then slash # join_slash (path_comps p)
      else if path_comps p = [] then ''.'' else join_slash (path_comps p))"

definition path_join :: "string list \<Rightarrow> string" where
  "path_join elems =
     (case filter (\<lambda>e. e \<noteq> '''') elems of [] \<Rightarrow> '''' | es \<Rightarrow> path_clean (join_slash es))"

text \<open>\<open>filepath.Ext\<close>: from the last dot of the last component.\<close>

definition path_ext :: "string \<Rightarrow> string" where
  "path_ext p =
     (let tail = rev (takeWhile (\<lambda>ch. ch \<noteq> slash) (rev p)) in
      if CHR ''.'' \<in> set tail then CHR ''.'' # rev (takeWhile (\<lambda>ch. ch \<noteq> CHR ''.'') (rev tail)) else '''')"

definition path_dir :: "string \<Rightarrow> string" where
  "path_dir p = path_clean (rev (dropWhile (\<lambda>c. c \<noteq> slash) (rev p)))"

definition path_base :: "string \<Rightarrow> string" where
  "path_base p =
     (let s = rev (dropWhile (\<lambda>c. c = slash) (rev p)) in
      if p = '''' then ''.'' else if s = '''' then [slash] else rev (takeWhile (\<lambda>c. c \<noteq> slash) (rev s)))"

fun strip_common :: "string list \<Rightarrow> string list \<Rightarrow> string list \<times> string list" where
  "strip_common (x # xs) (y # ys) = (if x = y then strip_common xs ys else (x # xs, y # ys))"
| "strip_common xs ys = (xs, ys)"

definition path_rel :: "string \<Rightarrow> string \<Rightarrow> string option" where
  "path_rel basepath targ =
     (if is_abs basepath \<noteq> is_abs targ then None
      else (case strip_common (path_comps basepath) (path_comps targ) of
              (bs, ts) \<Rightarrow>
                if ''..'' \<in> set bs then None
                else if bs = [] \<and> ts = [] then Some ''.''
                else Some (join_slash (replicate (length bs) ''..'' @ ts))))"

section \<open>The layout\<close>

record path_cfg =
  pc_home :: string
  pc_name :: string

definition wemixvisor_dir :: "path_cfg \<Rightarrow> string" where
  "wemixvisor_dir c = path_join [pc_home c, ''wemixvisor'']"

definition current_dir :: "path_cfg \<Rightarrow> string" where
  "current_dir c = path_join [wemixvisor_dir c, ''current'']"

definition genesis_dir :: "path_cfg \<Rightarrow> string" where
  "genesis_dir c = path_join [wemixvisor_dir c, ''genesis'']"

definition upgrades_dir :: "path_cfg \<Rightarrow> string" where
  "upgrades_dir c = path_join [wemixvisor_dir c, ''upgrades'']"

definition upgrade_dir :: "path_cfg \<Rightarrow> string \<Rightarrow> string" where
  "upgrade_dir c name = path_join [upgrades_dir c, name]"

definition current_bin :: "path_cfg \<Rightarrow> string" where
  "current_bin c = path_join [current_dir c, ''bin'', pc_name c]"

definition genesis_bin :: "path_cfg \<Rightarrow> string" where
  "genesis_bin c = path_join [genesis_dir c, ''bin'', pc_name c]"

definition upgrade_bin :: "path_cfg \<Rightarrow> string \<Rightarrow> string" where
  "upgrade_bin c name = path_join [upgrade_dir c name, ''bin'', pc_name c]"

definition upgrade_info_file_path :: "path_cfg \<Rightarrow> string" where
  "upgrade_info_file_path c = path_join [pc_home c, ''data'', ''upgrade-info.json'']"

text \<open>
  The link manager. Its state is what is at \<open>current\<close>: nothing, a link with a relative target, or a
  directory put there by hand. The environment says which calls of the operating system succeed.
\<close>

datatype cur_entry = No_current | Link_to string | Real_dir

record link_env =
  le_stat_ok :: "string \<Rightarrow> bool"
  le_remove_ok :: bool
  le_symlink_ok :: bool

datatype link_error = Upgrade_dir_missing | Remove_failed | Rel_failed | Symlink_failed

definition create_symlink ::
  "path_cfg \<Rightarrow> link_env \<Rightarrow> string \<Rightarrow> cur_entry \<Rightarrow> (cur_entry, link_error, unit) gores" where
  "create_symlink c env target cur =
     (if \<not> le_remove_ok env then (cur, Inl Remove_failed)
      else (case path_rel (path_dir (current_dir c)) target of
              None \<Rightarrow> (No_current, Inl Rel_failed)
            | Some rel \<Rightarrow>
                if le_symlink_ok env then (Link_to rel, Inr ()) else (No_current, Inl Symlink_failed)))"

definition link_to_genesis :: "path_cfg \<Rightarrow> link_env \<Rightarrow> cur_entry \<Rightarrow> (cur_entry, link_error, unit) gores" where
  "link_to_genesis c env = create_symlink c env (genesis_dir c)"

definition link_to_upgrade ::
  "path_cfg \<Rightarrow> link_env \<Rightarrow> string \<Rightarrow> cur_entry \<Rightarrow> (cur_entry, link_error, unit) gores" where
  "link_to_upgrade c env name cur =
     (if \<not> le_stat_ok env (upgrade_dir c name) then (cur, Inl Upgrade_dir_missing)
      else create_symlink c env (upgrade_dir c name) cur)"

text \<open>What the kernel opens for a path below \<open>current\<close>.\<close>

definition resolve_current :: "path_cfg \<Rightarrow> cur_entry \<Rightarrow> string list \<Rightarrow> string option" where
  "resolve_current c cur below =
     (case cur of
        No_current \<Rightarrow> None
      | Real_dir \<Rightarrow> Some (path_join (current_dir c # below))
      | Link_to rel \<Rightarrow> Some (path_join ([path_dir (current_dir c), rel] @ below)))"

section \<open>Lemmas on paths\<close>

text \<open>A plain component is kept as it is.\<close>

definition plain :: "string \<Rightarrow> bool" where
  "plain s \<longleftrightarrow> s \<noteq> '''' \<and> s \<noteq> ''.'' \<and> s \<noteq> ''..'' \<and> slash \<notin> set s"

definition abs_path :: "string list \<Rightarrow> string" where
  "abs_path cs = slash # join_slash cs"

lemma split_slash_nonempty [simp]: "split_slash s \<noteq> []"
  by (cases s) (auto split: list.splits)

lemma split_slash_append: "split_slash (a @ slash # b) = split_slash a @ split_slash b"
  by (induction a) (auto split: list.splits)

lemma split_no_slash: "slash \<notin> set s \<Longrightarrow> split_slash s = [s]"
  by (induction s) auto

lemma split_join: "cs \<noteq> [] \<Longrightarrow> \<forall>s\<in>set cs. slash \<notin> set s \<Longrightarrow> split_slash (join_slash cs) = cs"
  by (induction cs rule: join_slash.induct) (auto simp: split_slash_append split_no_slash)

lemma split_join_concat:
  "cs \<noteq> [] \<Longrightarrow> split_slash (join_slash cs) = concat (map split_slash cs)"
  by (induction cs rule: join_slash.induct) (auto simp: split_slash_append)

lemma clean_append:
  "clean_comps r st (xs @ ys) = clean_comps r (rev (clean_comps r st xs)) ys"
  by (induction r st xs rule: clean_comps.induct) (auto split: list.splits)

lemma clean_plain [simp]: "\<forall>s\<in>set cs. plain s \<Longrightarrow> clean_comps r st cs = rev st @ cs"
  by (induction cs arbitrary: st) (auto simp: plain_def)

lemma split_slash_free: "s \<in> set (split_slash p) \<Longrightarrow> slash \<notin> set s"
  by (induction p arbitrary: s) (auto split: if_splits list.splits)

lemma clean_all_plain:
  "\<forall>s\<in>set st. plain s \<Longrightarrow> \<forall>s\<in>set cs. slash \<notin> set s \<Longrightarrow>
     \<forall>s\<in>set (clean_comps True st cs). plain s"
proof (induction cs arbitrary: st)
  case Nil
  then show ?case by simp
next
  case step: (Cons c cs)
  consider "c = '''' \<or> c = ''.''" | "c = ''..''" | "plain c"
    using step.prems(2) by (auto simp: plain_def)
  then show ?case
  proof cases
    case 1
    then have "clean_comps True st (c # cs) = clean_comps True st cs" by simp
    with step.IH [of st] step.prems show ?thesis by simp
  next
    case 2
    show ?thesis
    proof (cases st)
      case Nil
      with 2 have "clean_comps True st (c # cs) = clean_comps True [] cs" by simp
      with step.IH [of "[]"] step.prems(2) show ?thesis by simp
    next
      case (Cons t ts)
      then have "t \<noteq> ''..''" using step.prems(1) by (simp add: plain_def)
      with 2 Cons have "clean_comps True st (c # cs) = clean_comps True ts cs" by simp
      with step.IH [of ts] step.prems Cons show ?thesis by simp
    qed
  next
    case 3
    then have "clean_comps True st (c # cs) = clean_comps True (c # st) cs"
      by (simp add: plain_def)
    with step.IH [of "c # st"] step.prems 3 show ?thesis by simp
  qed
qed

lemma path_comps_plain: "is_abs p \<Longrightarrow> \<forall>s\<in>set (path_comps p). plain s"
  using clean_all_plain [of "[]" "split_slash p"] split_slash_free by (auto simp: path_comps_def)

lemma is_abs_simps [simp]: "is_abs (slash # p)" "is_abs (abs_path cs)"
  "is_abs p \<Longrightarrow> is_abs (p @ q)" "is_abs p \<Longrightarrow> p \<noteq> []"
  by (auto simp: is_abs_def abs_path_def split: list.splits)

lemma comps_abs_path: "\<forall>s\<in>set cs. plain s \<Longrightarrow> path_comps (abs_path cs) = cs"
  by (cases "cs = []") (simp_all add: path_comps_def abs_path_def split_join plain_def)

text \<open>Joining onto an absolute path cleans what is appended against its components.\<close>

lemma join_abs:
  assumes "is_abs p" and "\<forall>s\<in>set es. s \<noteq> ''''"
  shows "path_join (p # es) = abs_path (clean_comps True (rev (path_comps p)) (concat (map split_slash es)))"
proof -
  have "filter (\<lambda>e. e \<noteq> '''') (p # es) = p # es" using assms by (simp add: filter_id_conv)
  moreover have "is_abs (join_slash (p # es))" using assms(1) by (cases es) simp_all
  ultimately show ?thesis
    using assms(1) split_join_concat [of "p # es"]
    by (simp add: path_join_def path_clean_def abs_path_def path_comps_def clean_append)
qed

lemma join_plain:
  assumes "is_abs p" and "\<forall>s\<in>set es. plain s"
  shows "path_join (p # es) = abs_path (path_comps p @ es)"
proof -
  have "concat (map split_slash es) = es"
    using assms(2) by (induction es) (auto simp: plain_def split_no_slash)
  moreover have "\<forall>s\<in>set es. s \<noteq> ''''" using assms(2) by (auto simp: plain_def)
  ultimately show ?thesis using assms by (simp add: join_abs)
qed

lemma join_slash_inject:
  "cs \<noteq> [] \<Longrightarrow> ds \<noteq> [] \<Longrightarrow> \<forall>s\<in>set cs \<union> set ds. slash \<notin> set s \<Longrightarrow>
     join_slash cs = join_slash ds \<longleftrightarrow> cs = ds"
  by (metis UnCI split_join)

lemma abs_path_inject:
  "\<forall>s\<in>set cs. plain s \<Longrightarrow> \<forall>s\<in>set ds. plain s \<Longrightarrow> abs_path cs = abs_path ds \<longleftrightarrow> cs = ds"
  by (metis comps_abs_path)

lemma join_slash_snoc: "cs \<noteq> [] \<Longrightarrow> join_slash (cs @ [s]) = join_slash cs @ slash # s"
  by (induction cs rule: join_slash.induct) auto

lemma dir_abs:
  assumes "\<forall>s\<in>set cs. plain s" and "plain s"
  shows "path_dir (abs_path (cs @ [s])) = abs_path cs"
proof -
  have s: "dropWhile (\<lambda>c. c \<noteq> slash) (rev s @ slash # xs) = slash # xs" for xs
    using assms(2) by (subst dropWhile_append2) (auto simp: plain_def)
  show ?thesis
  proof (cases "cs = []")
    case True
    then show ?thesis using s [of "[]"]
      by (simp add: path_dir_def abs_path_def path_clean_def path_comps_def)
  next
    case False
    with s have "path_dir (abs_path (cs @ [s])) = path_clean (abs_path cs @ [slash])"
      by (simp add: path_dir_def abs_path_def join_slash_snoc)
    also have "\<dots> = abs_path cs"
      using assms(1) False comps_abs_path [OF assms(1)]
        split_slash_append [of "abs_path cs" "[]"]
      by (simp add: path_clean_def path_comps_def abs_path_def clean_append)
    finally show ?thesis .
  qed
qed

lemma strip_prefix [simp]: "strip_common xs (xs @ ys) = ([], ys)"
  by (induction xs) (auto intro: strip_common.simps)

lemma clean_comps_nonempty:
  "\<forall>s\<in>set st. s \<noteq> '''' \<Longrightarrow> s \<in> set (clean_comps r st cs) \<Longrightarrow> s \<noteq> ''''"
  by (induction r st cs rule: clean_comps.induct) (auto split: if_splits list.splits)

lemma join_slash_nonempty: "cs \<noteq> [] \<Longrightarrow> \<forall>s\<in>set cs. s \<noteq> '''' \<Longrightarrow> join_slash cs \<noteq> ''''"
  by (induction cs rule: join_slash.induct) auto

lemma path_clean_nonempty: "path_clean p \<noteq> ''''"
  using clean_comps_nonempty [of "[]" _ "is_abs p" "split_slash p"] join_slash_nonempty [of "path_comps p"]
  by (auto simp: path_clean_def path_comps_def)

lemma path_join_nonempty:
  assumes "e \<in> set es" and "e \<noteq> ''''"
  shows "path_join es \<noteq> ''''"
proof -
  have "filter (\<lambda>e. e \<noteq> '''') es \<noteq> []" using assms by (auto simp: filter_empty_conv)
  then show ?thesis using path_clean_nonempty by (auto simp: path_join_def split: list.splits)
qed

section \<open>Lemmas on the layout\<close>

lemma plain_names [simp]:
  "plain ''wemixvisor''" "plain ''current''" "plain ''genesis''" "plain ''upgrades''" "plain ''bin''"
  "plain ''data''" "plain ''upgrade-info.json''"
  by (simp_all add: plain_def)

lemma join_abs_path:
  "\<forall>s\<in>set cs. plain s \<Longrightarrow> \<forall>s\<in>set es. plain s \<Longrightarrow>
     path_join (abs_path cs # es) = abs_path (cs @ es)"
  by (simp add: join_plain comps_abs_path)

abbreviation home_comps :: "path_cfg \<Rightarrow> string list" where
  "home_comps c \<equiv> path_comps (pc_home c)"

lemma layout:
  assumes "is_abs (pc_home c)"
  shows "wemixvisor_dir c = abs_path (home_comps c @ [''wemixvisor''])"
    and "current_dir c = abs_path (home_comps c @ [''wemixvisor'', ''current''])"
    and "genesis_dir c = abs_path (home_comps c @ [''wemixvisor'', ''genesis''])"
    and "upgrades_dir c = abs_path (home_comps c @ [''wemixvisor'', ''upgrades''])"
    and "plain n \<Longrightarrow> upgrade_dir c n = abs_path (home_comps c @ [''wemixvisor'', ''upgrades'', n])"
proof -
  note h = path_comps_plain [OF assms]
  show w: "wemixvisor_dir c = abs_path (home_comps c @ [''wemixvisor''])"
    using assms by (simp add: wemixvisor_dir_def join_plain)
  with h show "current_dir c = abs_path (home_comps c @ [''wemixvisor'', ''current''])"
    and "genesis_dir c = abs_path (home_comps c @ [''wemixvisor'', ''genesis''])"
    and u: "upgrades_dir c = abs_path (home_comps c @ [''wemixvisor'', ''upgrades''])"
    by (simp_all add: current_dir_def genesis_dir_def upgrades_dir_def join_abs_path)
  with h show "plain n \<Longrightarrow> upgrade_dir c n = abs_path (home_comps c @ [''wemixvisor'', ''upgrades'', n])"
    by (simp add: upgrade_dir_def join_abs_path)
qed

lemma layout_bins:
  assumes "is_abs (pc_home c)" and "plain (pc_name c)"
  shows "genesis_bin c = abs_path (home_comps c @ [''wemixvisor'', ''genesis'', ''bin'', pc_name c])"
    and "current_bin c = abs_path (home_comps c @ [''wemixvisor'', ''current'', ''bin'', pc_name c])"
    and "plain n \<Longrightarrow>
      upgrade_bin c n = abs_path (home_comps c @ [''wemixvisor'', ''upgrades'', n, ''bin'', pc_name c])"
  using path_comps_plain [OF assms(1)] assms(2)
  by (simp_all add: genesis_bin_def current_bin_def upgrade_bin_def layout [OF assms(1)] join_abs_path)

lemma dir_current:
  assumes "is_abs (pc_home c)"
  shows "path_dir (current_dir c) = abs_path (home_comps c @ [''wemixvisor''])"
  using path_comps_plain [OF assms] dir_abs [of "home_comps c @ [''wemixvisor'']" "''current''"]
  by (simp add: layout [OF assms])

lemma rel_below:
  assumes "\<forall>s\<in>set cs. plain s" and "\<forall>s\<in>set es. plain s" and "es \<noteq> []"
  shows "path_rel (abs_path cs) (abs_path (cs @ es)) = Some (join_slash es)"
  using assms comps_abs_path [of "cs @ es"] by (simp add: path_rel_def comps_abs_path ball_Un)

lemma resolve_below:
  assumes "\<forall>s\<in>set cs. plain s" and "\<forall>s\<in>set es. plain s" and "es \<noteq> []"
    and "\<forall>s\<in>set below. plain s"
  shows "path_join (abs_path cs # join_slash es # below) = abs_path (cs @ es @ below)"
proof -
  have ne: "join_slash es \<noteq> ''''"
    using assms(2,3) by (cases es rule: join_slash.cases) (auto simp: plain_def)
  have sp: "concat (map split_slash below) = below"
    using assms(4) by (induction below) (auto simp: plain_def split_no_slash)
  have "split_slash (join_slash es) = es"
    using assms(2,3) by (simp add: split_join plain_def)
  with ne sp assms show ?thesis
    by (subst join_abs) (auto simp: comps_abs_path clean_append plain_def)
qed

lemma upgrade_bin_separate:
  assumes "is_abs (pc_home c)" and "plain (pc_name c)" and "plain m" and "plain n"
  shows "upgrade_bin c m = upgrade_bin c n \<longleftrightarrow> m = n"
    and "upgrade_bin c m \<noteq> genesis_bin c"
    and "upgrade_bin c m @ ''.tmp'' \<noteq> upgrade_bin c n"
proof -
  note h = path_comps_plain [OF assms(1)]
  note b = layout_bins [OF assms(1,2)]
  show "upgrade_bin c m = upgrade_bin c n \<longleftrightarrow> m = n"
    using h assms by (simp add: b abs_path_inject)
  show "upgrade_bin c m \<noteq> genesis_bin c"
    using h assms by (simp add: b abs_path_inject)
  have t: "plain (pc_name c @ ''.tmp'')" using assms(2) by (simp add: plain_def)
  have "upgrade_bin c m @ ''.tmp'' =
      abs_path (home_comps c @ [''wemixvisor'', ''upgrades'', m, ''bin'', pc_name c @ ''.tmp''])"
    using join_slash_snoc [of "home_comps c @ [''wemixvisor'', ''upgrades'', m, ''bin'']"]
    by (simp add: b assms abs_path_def)
  then show "upgrade_bin c m @ ''.tmp'' \<noteq> upgrade_bin c n"
    using h assms t by (simp add: b abs_path_inject)
qed

section \<open>Properties\<close>

definition demo_paths :: path_cfg where
  "demo_paths = \<lparr>pc_home = ''/w'', pc_name = ''wemixd''\<rparr>"

lemma demo_paths_ok:
  "is_abs (pc_home demo_paths)" "plain (pc_name demo_paths)" "plain ''v1''" "plain ''v2''"
  by (simp_all add: demo_paths_def is_abs_def plain_def)

text \<open>What \<open>LinkToUpgrade\<close> leaves in \<open>current\<close>.\<close>

lemma link_upgrade_result:
  assumes "is_abs (pc_home c)" and "plain (pc_name c)" and "plain n"
    and "link_to_upgrade c env n cur = (cur', r)"
  shows "(r = Inr () \<longrightarrow> resolve_current c cur' [''bin'', pc_name c] = Some (upgrade_bin c n)) \<and>
    (r = Inl Upgrade_dir_missing \<longrightarrow> cur' = cur) \<and>
    (r = Inl e \<longrightarrow> cur' = cur \<or> cur' = No_current)"
proof (rule conj3I; (intro impI)?)
  note h = path_comps_plain [OF assms(1)]
  have rel: "path_rel (path_dir (current_dir c)) (upgrade_dir c n) = Some (join_slash [''upgrades'', n])"
    using h assms(3) rel_below [of "home_comps c @ [''wemixvisor'']" "[''upgrades'', n]"]
    by (simp add: dir_current [OF assms(1)] layout(5) [OF assms(1)])
  show "resolve_current c cur' [''bin'', pc_name c] = Some (upgrade_bin c n)" if "r = Inr ()"
  proof -
    have "cur' = Link_to (join_slash [''upgrades'', n])"
      using assms(4) that rel
      by (auto simp: link_to_upgrade_def create_symlink_def split: if_splits)
    then show ?thesis
      using h assms resolve_below [of "home_comps c @ [''wemixvisor'']" "[''upgrades'', n]"
          "[''bin'', pc_name c]"]
      by (simp add: resolve_current_def dir_current layout_bins)
  qed
  show "r = Inl Upgrade_dir_missing \<Longrightarrow> cur' = cur" and "r = Inl e \<Longrightarrow> cur' = cur \<or> cur' = No_current"
    using assms(4) rel by (auto simp: link_to_upgrade_def create_symlink_def split: if_splits)
qed

text \<open>
  Switching binaries by the link manager: when \<open>LinkToUpgrade\<close> succeeds, the daemon opened
  through \<open>current\<close> is exactly that upgrade's binary, whatever \<open>current\<close> was before; when the upgrade
  directory is missing nothing changes; and after any other failure either nothing changed or no
  \<open>current\<close> is left at all, because the old link is removed first.
\<close>

theorem link_selects_upgrade:
  assumes "is_abs (pc_home c)" and "plain (pc_name c)" and "plain n"
    and "link_to_upgrade c env n cur = (cur', r)"
  shows "(r = Inr () \<longrightarrow> resolve_current c cur' [''bin'', pc_name c] = Some (upgrade_bin c n)) \<and>
    (r = Inl Upgrade_dir_missing \<longrightarrow> cur' = cur) \<and>
    (r = Inl e \<longrightarrow> cur' = cur \<or> cur' = No_current)"
  by (rule link_upgrade_result [OF assms])

theorem link_selects_upgrade_witness:
  "resolve_current demo_paths (fst (link_to_upgrade demo_paths
       \<lparr>le_stat_ok = \<lambda>_. True, le_remove_ok = True, le_symlink_ok = True\<rparr> ''v1'' Real_dir))
     [''bin'', pc_name demo_paths] = Some (upgrade_bin demo_paths ''v1'')"
proof -
  let ?e = "\<lparr>le_stat_ok = \<lambda>_. True, le_remove_ok = True, le_symlink_ok = True\<rparr>"
  obtain cur' r where e: "link_to_upgrade demo_paths ?e ''v1'' Real_dir = (cur', r)" by fastforce
  have "r = Inr ()" using e
    by (simp add: link_to_upgrade_def create_symlink_def demo_paths_def path_rel_def path_dir_def
        path_comps_def current_dir_def upgrade_dir_def upgrades_dir_def wemixvisor_dir_def path_join_def
        path_clean_def is_abs_def)
  with link_selects_upgrade [OF demo_paths_ok(1,2,3) e, THEN conjunct1] e show ?thesis by simp
qed

text \<open>
  The name of an upgrade is not checked: with \<open>../genesis\<close> as its name, the upgrade's directory
  and binary are those of the genesis version, so that preparing it writes over them.
\<close>

theorem upgrade_name_escapes:
  assumes "is_abs (pc_home c)" and "plain (pc_name c)"
  shows "(upgrade_dir c ''../genesis'' = genesis_dir c) \<and>
    (upgrade_bin c ''../genesis'' = genesis_bin c)"
proof (rule conj2I; (intro impI)?)
  note h = path_comps_plain [OF assms(1)]
  have "upgrade_dir c ''../genesis'' =
      abs_path (clean_comps True (rev (path_comps (upgrades_dir c))) [''..'', ''genesis''])"
    unfolding upgrade_dir_def by (subst join_abs) (simp_all add: layout [OF assms(1)])
  also have "\<dots> = genesis_dir c"
    using h by (simp add: layout [OF assms(1)] comps_abs_path)
  finally show d: "upgrade_dir c ''../genesis'' = genesis_dir c" .
  show "upgrade_bin c ''../genesis'' = genesis_bin c"
    by (simp add: upgrade_bin_def genesis_bin_def d)
qed

theorem upgrade_name_escapes_witness:
  "upgrade_bin demo_paths ''../genesis'' = genesis_bin demo_paths"
  by (rule upgrade_name_escapes [THEN conjunct2]) (rule demo_paths_ok)+

end
