(* ===== verification/ConfigModel.thy ===== *)
theory ConfigModel
  imports Paths NodeManager
begin

text \<open>
  \<open>internal/config/config.go\<close>: the configuration, with the fields of the Go struct in its order,
  grouped as its comments group them, the defaults, and the basic check. The projections at the end
  are what the path, node and download code reads of it.
\<close>

record core_cfg =
  cf_home :: string
  cf_name :: string
  cf_args :: "string list"

record upgrade_cfg =
  cf_allow_download_binaries :: bool
  cf_download_must_have_checksum :: bool
  cf_restart_after_upgrade :: bool
  cf_restart_delay :: duration

record process_cfg =
  cf_shutdown_grace :: duration
  cf_poll_interval :: duration
  cf_restart_on_failure :: bool
  cf_max_restarts :: int

record health_cfg =
  cf_health_check_interval :: duration
  cf_metrics_interval :: duration
  cf_rpc_port :: int
  cf_log_file :: string
  cf_environment :: "(string, string) gomap"
  cf_network :: string
  cf_debug :: bool

record backup_cfg =
  cf_unsafe_skip_backup :: bool
  cf_data_backup_path :: string
  cf_preupgrade_max_retries :: int
  cf_custom_preupgrade :: string

record wbft_cfg =
  cf_rpc_address :: string
  cf_validator_mode :: bool
  cf_disable_recase :: bool
  cf_network_id :: nat
  cf_chain_id :: string

record download_cfg =
  cf_download_urls :: "(string, string) gomap option"
  cf_unsafe_skip_checksum :: bool

record logging_cfg =
  cf_disable_logs :: bool
  cf_color_logs :: bool
  cf_time_format_logs :: string

record metrics_cfg =
  cf_metrics_enabled :: bool
  cf_metrics_port :: int
  cf_metrics_path :: string
  cf_metrics_collection_interval :: duration
  cf_enable_system_metrics :: bool
  cf_enable_app_metrics :: bool
  cf_enable_gov_metrics :: bool
  cf_enable_perf_metrics :: bool

record api_cfg =
  cf_api_enabled :: bool
  cf_api_port :: int
  cf_api_host :: string
  cf_api_enable_auth :: bool
  cf_api_key :: string
  cf_api_jwt_secret :: string
  cf_api_cors_origins :: "string list"
  cf_api_rate_limit :: int

record alerting_cfg =
  cf_alerting_enabled :: bool
  cf_alerting_eval_interval :: duration
  cf_alerting_retention :: duration
  cf_alerting_channels :: "string list"

record performance_cfg =
  cf_enable_caching :: bool
  cf_cache_size :: int
  cf_cache_ttl :: duration
  cf_enable_pooling :: bool
  cf_max_connections :: int
  cf_max_workers :: int
  cf_enable_gc_tuning :: bool
  cf_gc_percent :: int
  cf_enable_profiling :: bool
  cf_profile_interval :: duration

record automation_cfg =
  cf_governance_enabled :: bool
  cf_upgrade_enabled :: bool
  cf_height_poll_interval :: duration
  cf_daemon :: bool
  cf_json_output :: bool
  cf_quiet :: bool
  cf_config_version :: string

record config =
  c_core :: core_cfg
  c_upgrade :: upgrade_cfg
  c_process :: process_cfg
  c_health :: health_cfg
  c_backup :: backup_cfg
  c_wbft :: wbft_cfg
  c_download :: download_cfg
  c_logging :: logging_cfg
  c_metrics :: metrics_cfg
  c_api :: api_cfg
  c_alerting :: alerting_cfg
  c_performance :: performance_cfg
  c_automation :: automation_cfg

text \<open>\<open>DefaultConfig\<close>; the two environment variables it reads are arguments.\<close>

definition default_home :: "string \<Rightarrow> string \<Rightarrow> string" where
  "default_home daemon_home env_home =
     (if daemon_home \<noteq> '''' then daemon_home else path_join [env_home, ''.wemixd''])"

definition min_poll_interval :: duration where "min_poll_interval = 100 * millisecond"

definition default_config :: "string \<Rightarrow> string \<Rightarrow> config" where
  "default_config daemon_home env_home =
     (let home = default_home daemon_home env_home in
      \<lparr>c_core = \<lparr>cf_home = home, cf_name = ''wemixd'', cf_args = []\<rparr>,
       c_upgrade = \<lparr>cf_allow_download_binaries = False, cf_download_must_have_checksum = False,
         cf_restart_after_upgrade = True, cf_restart_delay = 0\<rparr>,
       c_process = \<lparr>cf_shutdown_grace = 30 * second, cf_poll_interval = 300 * millisecond,
         cf_restart_on_failure = True, cf_max_restarts = 5\<rparr>,
       c_health = \<lparr>cf_health_check_interval = 30 * second, cf_metrics_interval = 0,
         cf_rpc_port = 8545, cf_log_file = '''', cf_environment = [], cf_network = ''mainnet'',
         cf_debug = False\<rparr>,
       c_backup = \<lparr>cf_unsafe_skip_backup = False, cf_data_backup_path = path_join [home, ''backups''],
         cf_preupgrade_max_retries = 0, cf_custom_preupgrade = ''''\<rparr>,
       c_wbft = \<lparr>cf_rpc_address = ''localhost:8545'', cf_validator_mode = False,
         cf_disable_recase = False, cf_network_id = 0, cf_chain_id = ''''\<rparr>,
       c_download = \<lparr>cf_download_urls = None, cf_unsafe_skip_checksum = False\<rparr>,
       c_logging = \<lparr>cf_disable_logs = False, cf_color_logs = True, cf_time_format_logs = ''kitchen''\<rparr>,
       c_metrics = \<lparr>cf_metrics_enabled = False, cf_metrics_port = 9090, cf_metrics_path = ''/metrics'',
         cf_metrics_collection_interval = 15 * second, cf_enable_system_metrics = True,
         cf_enable_app_metrics = True, cf_enable_gov_metrics = True, cf_enable_perf_metrics = True\<rparr>,
       c_api = \<lparr>cf_api_enabled = False, cf_api_port = 8080, cf_api_host = ''0.0.0.0'',
         cf_api_enable_auth = False, cf_api_key = '''', cf_api_jwt_secret = '''',
         cf_api_cors_origins = [''*''], cf_api_rate_limit = 100\<rparr>,
       c_alerting = \<lparr>cf_alerting_enabled = False, cf_alerting_eval_interval = 30 * second,
         cf_alerting_retention = 24 * 60 * minute, cf_alerting_channels = []\<rparr>,
       c_performance = \<lparr>cf_enable_caching = True, cf_cache_size = 1000, cf_cache_ttl = 60 * minute,
         cf_enable_pooling = True, cf_max_connections = 100, cf_max_workers = 10,
         cf_enable_gc_tuning = False, cf_gc_percent = 100, cf_enable_profiling = False,
         cf_profile_interval = 30 * second\<rparr>,
       c_automation = \<lparr>cf_governance_enabled = False, cf_upgrade_enabled = True,
         cf_height_poll_interval = 5 * second, cf_daemon = False, cf_json_output = False,
         cf_quiet = False, cf_config_version = ''0.8.0''\<rparr>\<rparr>)"

datatype config_error = Home_not_set | Name_not_set | Poll_interval_too_short

definition config_validate :: "config \<Rightarrow> config_error + unit" where
  "config_validate c =
     (if cf_home (c_core c) = '''' then Inl Home_not_set
      else if cf_name (c_core c) = '''' then Inl Name_not_set
      else if cf_poll_interval (c_process c) < min_poll_interval then Inl Poll_interval_too_short
      else Inr ())"

section \<open>What other components read\<close>

definition paths_of :: "config \<Rightarrow> path_cfg" where
  "paths_of c = \<lparr>pc_home = cf_home (c_core c), pc_name = cf_name (c_core c)\<rparr>"

definition node_config_of :: "config \<Rightarrow> nm_config" where
  "node_config_of c =
     \<lparr>nc_bin = current_bin (paths_of c), nc_home = cf_home (c_core c),
      nc_network = cf_network (c_health c), nc_environment = cf_environment (c_health c),
      nc_restart_on_failure = cf_restart_on_failure (c_process c),
      nc_max_restarts = cf_max_restarts (c_process c),
      nc_shutdown_grace = cf_shutdown_grace (c_process c)\<rparr>"

lemma default_config_valid: "config_validate (default_config dh eh) = Inr ()"
proof -
  have "default_home dh eh \<noteq> ''''"
    using path_join_nonempty [of "''.wemixd''" "[eh, ''.wemixd'']"] by (simp add: default_home_def)
  then show ?thesis
    by (simp add: config_validate_def default_config_def Let_def min_poll_interval_def)
qed

end
