(* ===== verification/Validation.thy ===== *)
theory Validation
  imports ConfigModel
begin

text \<open>
  \<open>internal/config/validator.go\<close>: the seven validation rules in their order, and the checks of a
  single field. What the rules ask the operating system and the resolver is a record: what \<open>os.Stat\<close>
  finds (with the executable bits of the mode), whether a port is free, what \<open>net.ParseIP\<close> accepts and what \<open>net.LookupHost\<close> resolves.
\<close>

datatype stat_result = Missing | Directory bool | Regular bool | Stat_error

record val_env =
  ve_home :: string
  ve_stat :: "string \<Rightarrow> stat_result"
  ve_port_free :: "int \<Rightarrow> bool"
  ve_is_ip :: "string \<Rightarrow> bool"
  ve_resolves :: "string \<Rightarrow> bool"

datatype rule_name =
  PathValidation | BinaryValidation | PortValidation | NetworkValidation | ResourceValidation
| SecurityValidation | CompatibilityValidation

datatype rule_error =
  Home_required | Home_not_directory | Backup_parent_missing | Name_required | Name_invalid_chars
| Port_invalid | Port_in_use | Rpc_address_invalid | Rpc_host_unresolved | Rpc_port_not_number
| Rpc_port_out_of_range | Grace_negative | Grace_too_long | Poll_negative | Poll_too_short
| Restart_delay_negative | Health_negative | Health_too_short | Metrics_negative | Metrics_too_short
| Restarts_negative | Restarts_too_high | Retries_negative | Retries_too_high | Unsafe_download
| Script_missing | Script_stat_failed | Script_not_executable | Recase_required | Time_format_invalid

definition expand_home :: "val_env \<Rightarrow> string \<Rightarrow> string" where
  "expand_home env p = (if take 2 p = ''~/'' then path_join [ve_home env, drop 2 p] else p)"

definition path_rule :: "val_env \<Rightarrow> config \<Rightarrow> rule_error + unit" where
  "path_rule env c =
     (let home = expand_home env (cf_home (c_core c));
          backup = cf_data_backup_path (c_backup c) in
      if cf_home (c_core c) = '''' then Inl Home_required
      else if (case ve_stat env home of Regular _ \<Rightarrow> True | _ \<Rightarrow> False) then Inl Home_not_directory
      else if backup \<noteq> '''' \<and> ve_stat env (path_dir (expand_home env backup)) = Missing
      then Inl Backup_parent_missing
      else Inr ())"

text \<open>The characters \<open>/\:*?"<>|\<close>.\<close>

definition bad_name_char :: "char \<Rightarrow> bool" where
  "bad_name_char ch \<longleftrightarrow>
     (of_char ch :: nat) \<in> {0x2F, 0x5C, 0x3A, 0x2A, 0x3F, 0x22, 0x3C, 0x3E, 0x7C}"

definition binary_rule :: "config \<Rightarrow> rule_error + unit" where
  "binary_rule c =
     (if cf_name (c_core c) = '''' then Inl Name_required
      else if list_ex bad_name_char (cf_name (c_core c)) then Inl Name_invalid_chars
      else Inr ())"

definition port_rule :: "val_env \<Rightarrow> config \<Rightarrow> rule_error + unit" where
  "port_rule env c =
     (let p = cf_rpc_port (c_health c) in
      if p > 0 then
        (if p > 65535 then Inl Port_invalid
         else if \<not> ve_port_free env p then Inl Port_in_use
         else Inr ())
      else Inr ())"

text \<open>\<open>net.SplitHostPort\<close>.\<close>

definition rindex_colon :: "string \<Rightarrow> nat option" where
  "rindex_colon s =
     (if CHR '':'' \<in> set s then Some (length s - 1 - length (takeWhile (\<lambda>c. c \<noteq> CHR '':'') (rev s)))
      else None)"

definition split_host_port :: "string \<Rightarrow> (string \<times> string) option" where
  "split_host_port s =
     (case rindex_colon s of
        None \<Rightarrow> None
      | Some i \<Rightarrow>
          if take 1 s = ''['' then
            (let e = length (takeWhile (\<lambda>c. c \<noteq> CHR '']'') s) in
             if e = length s \<or> Suc e \<noteq> i then None
             else if CHR ''['' \<in> set (drop 1 s) \<or> CHR '']'' \<in> set (drop (Suc e) s) then None
             else Some (drop 1 (take e s), drop (Suc i) s))
          else if CHR '':'' \<in> set (take i s) then None
          else if CHR ''['' \<in> set s \<or> CHR '']'' \<in> set s then None
          else Some (take i s, drop (Suc i) s))"

text \<open>
  \<open>fmt.Sscanf(s, "%d", &n)\<close> on a string with no newline: blanks are skipped, a sign is accepted,
  at least one digit is needed, the value must fit an \<open>int\<close>, and what follows the digits is left.
\<close>

definition is_digit :: "char \<Rightarrow> bool" where
  "is_digit ch \<longleftrightarrow> digit_val ch \<noteq> None"

definition scan_int :: "string \<Rightarrow> (int \<times> string) option" where
  "scan_int s0 =
     (let s = dropWhile (\<lambda>c. c = CHR '' '' \<or> (of_char c :: nat) = 9) s0;
          neg = (take 1 s = ''-'');
          s1 = (if neg \<or> take 1 s = ''+'' then drop 1 s else s);
          ds = takeWhile is_digit s1 in
      if ds = [] then None
      else (case atoi_digits ds 0 of
              None \<Rightarrow> None
            | Some n \<Rightarrow>
                let i = (if neg then - int n else int n) in
                if is_int64 i then Some (i, dropWhile is_digit s1) else None))"

definition network_rule :: "val_env \<Rightarrow> config \<Rightarrow> rule_error + unit" where
  "network_rule env c =
     (let a = cf_rpc_address (c_wbft c) in
      if a = '''' then Inr ()
      else (case split_host_port a of
              None \<Rightarrow> if ve_is_ip env a then Inr () else Inl Rpc_address_invalid
            | Some (host, port) \<Rightarrow>
                if host \<noteq> '''' \<and> host \<noteq> ''localhost'' \<and> \<not> ve_is_ip env host \<and> \<not> ve_resolves env host
                then Inl Rpc_host_unresolved
                else if port \<noteq> '''' then
                  (case scan_int port of
                     None \<Rightarrow> Inl Rpc_port_not_number
                   | Some (n, _) \<Rightarrow> if n < 1 \<or> n > 65535 then Inl Rpc_port_out_of_range else Inr ())
                else Inr ()))"

definition resource_rule :: "config \<Rightarrow> rule_error + unit" where
  "resource_rule c =
     (let grace = cf_shutdown_grace (c_process c); poll = cf_poll_interval (c_process c);
          health = cf_health_check_interval (c_health c); metrics = cf_metrics_interval (c_health c);
          restarts = cf_max_restarts (c_process c); retries = cf_preupgrade_max_retries (c_backup c) in
      if grace < 0 then Inl Grace_negative
      else if grace > 10 * minute then Inl Grace_too_long
      else if poll < 0 then Inl Poll_negative
      else if poll > 0 \<and> poll < 100 * millisecond then Inl Poll_too_short
      else if cf_restart_delay (c_upgrade c) < 0 then Inl Restart_delay_negative
      else if health < 0 then Inl Health_negative
      else if health > 0 \<and> health < 5 * second then Inl Health_too_short
      else if metrics < 0 then Inl Metrics_negative
      else if metrics > 0 \<and> metrics < 10 * second then Inl Metrics_too_short
      else if restarts < 0 then Inl Restarts_negative
      else if restarts > 100 then Inl Restarts_too_high
      else if retries < 0 then Inl Retries_negative
      else if retries > 10 then Inl Retries_too_high
      else Inr ())"

definition security_rule :: "val_env \<Rightarrow> config \<Rightarrow> rule_error + unit" where
  "security_rule env c =
     (let script = cf_custom_preupgrade (c_backup c) in
      if cf_unsafe_skip_checksum (c_download c) \<and> cf_allow_download_binaries (c_upgrade c)
      then Inl Unsafe_download
      else if script \<noteq> '''' then
        (case ve_stat env script of
           Missing \<Rightarrow> Inl Script_missing
         | Stat_error \<Rightarrow> Inl Script_stat_failed
         | Regular executable \<Rightarrow> if executable then Inr () else Inl Script_not_executable
         | Directory executable \<Rightarrow> if executable then Inr () else Inl Script_not_executable)
      else Inr ())"

definition compatibility_rule :: "config \<Rightarrow> rule_error + unit" where
  "compatibility_rule c =
     (let tf = cf_time_format_logs (c_logging c) in
      if cf_validator_mode (c_wbft c) \<and> cf_disable_recase (c_wbft c) then Inl Recase_required
      else if tf \<noteq> '''' \<and> tf \<notin> set [''kitchen'', ''rfc3339'', ''rfc3339nano'', ''iso8601'']
      then Inl Time_format_invalid
      else Inr ())"

type_synonym rule = "rule_name \<times> (config \<Rightarrow> rule_error + unit)"

definition default_rules :: "val_env \<Rightarrow> rule list" where
  "default_rules env =
     [(PathValidation, path_rule env), (BinaryValidation, binary_rule),
      (PortValidation, port_rule env), (NetworkValidation, network_rule env),
      (ResourceValidation, resource_rule), (SecurityValidation, security_rule env),
      (CompatibilityValidation, compatibility_rule)]"

definition add_rule :: "rule \<Rightarrow> rule list \<Rightarrow> rule list" where
  "add_rule r rules = rules @ [r]"

fun run_rules :: "rule list \<Rightarrow> config \<Rightarrow> (rule_name \<times> rule_error) list" where
  "run_rules [] c = []"
| "run_rules ((name, check) # rules) c =
     (case check c of
        Inl e \<Rightarrow> (name, e) # run_rules rules c
      | Inr _ \<Rightarrow> run_rules rules c)"

datatype validate_error = Config_nil | Validation_failed "(rule_name \<times> rule_error) list"

definition validate :: "rule list \<Rightarrow> config option \<Rightarrow> validate_error + unit" where
  "validate rules cfg =
     (case cfg of
        None \<Rightarrow> Inl Config_nil
      | Some c \<Rightarrow>
          let errors = run_rules rules c in
          if length errors > 0 then Inl (Validation_failed errors) else Inr ())"

section \<open>Single fields\<close>

text \<open>
  The dynamic types the checks look for; \<open>VFloat\<close> holds the value truncated to an integer. (Go leaves
  the conversion of a float outside the target's range to the implementation.)
\<close>

datatype field_value = VString string | VInt int | VInt64 int | VFloat int | VUint64 nat | VOther

datatype field_error = Wrong_type | Empty_value | Parent_missing | Invalid_chars | Out_of_range
| Is_zero | Not_numeric | Negative | Too_many

definition validate_path :: "val_env \<Rightarrow> field_value \<Rightarrow> field_error + unit" where
  "validate_path env v =
     (case v of
        VString p \<Rightarrow>
          if p = '''' then Inl Empty_value
          else if ve_stat env (path_dir (expand_home env p)) = Missing then Inl Parent_missing
          else Inr ()
      | _ \<Rightarrow> Inl Wrong_type)"

definition validate_binary_name :: "field_value \<Rightarrow> field_error + unit" where
  "validate_binary_name v =
     (case v of
        VString n \<Rightarrow>
          if n = '''' then Inl Empty_value
          else if list_ex bad_name_char n then Inl Invalid_chars
          else Inr ()
      | _ \<Rightarrow> Inl Wrong_type)"

definition validate_port :: "field_value \<Rightarrow> field_error + unit" where
  "validate_port v =
     (case (case v of VInt p \<Rightarrow> Some p | VInt64 p \<Rightarrow> Some p | VFloat p \<Rightarrow> Some p | _ \<Rightarrow> None) of
        None \<Rightarrow> Inl Wrong_type
      | Some p \<Rightarrow> if p < 1 \<or> p > 65535 then Inl Out_of_range else Inr ())"

text \<open>\<open>uint64(id)\<close> of an \<open>int\<close> is zero only for zero.\<close>

definition validate_network_id :: "field_value \<Rightarrow> field_error + unit" where
  "validate_network_id v =
     (case (case v of VUint64 n \<Rightarrow> Some n | VInt i \<Rightarrow> Some (nat (i mod 2 ^ 64))
                    | VFloat i \<Rightarrow> Some (nat (i mod 2 ^ 64)) | _ \<Rightarrow> None) of
        None \<Rightarrow> Inl Wrong_type
      | Some n \<Rightarrow> if n = 0 then Inl Is_zero else Inr ())"

definition validate_chain_id :: "field_value \<Rightarrow> field_error + unit" where
  "validate_chain_id v =
     (case v of
        VString s \<Rightarrow>
          if s = '''' then Inl Empty_value
          else if \<not> list_all is_digit s then Inl Not_numeric
          else Inr ()
      | _ \<Rightarrow> Inl Wrong_type)"

definition validate_max_peers :: "field_value \<Rightarrow> field_error + unit" where
  "validate_max_peers v =
     (case (case v of VInt p \<Rightarrow> Some p | VFloat p \<Rightarrow> Some p | _ \<Rightarrow> None) of
        None \<Rightarrow> Inl Wrong_type
      | Some p \<Rightarrow> if p < 0 then Inl Negative else if p > 200 then Inl Too_many else Inr ())"

definition validate_field :: "val_env \<Rightarrow> string \<Rightarrow> field_value \<Rightarrow> field_error + unit" where
  "validate_field env field v =
     (if field = ''home'' then validate_path env v
      else if field = ''name'' then validate_binary_name v
      else if field = ''rpc_port'' \<or> field = ''ws_port'' \<or> field = ''p2p_port'' then validate_port v
      else if field = ''network_id'' then validate_network_id v
      else if field = ''chain_id'' then validate_chain_id v
      else if field = ''max_peers'' then validate_max_peers v
      else Inr ())"

section \<open>Lemmas\<close>

lemma run_rules_append: "run_rules (xs @ ys) c = run_rules xs c @ run_rules ys c"
  by (induction xs c rule: run_rules.induct) (auto split: sum.splits)

lemma run_rules_nil_iff: "run_rules rules c = [] \<longleftrightarrow> (\<forall>(n, check)\<in>set rules. \<exists>u. check c = Inr u)"
  by (induction rules c rule: run_rules.induct) (auto split: sum.splits)

lemma run_rules_set: "set (run_rules rules c) = {(n, e). \<exists>check. (n, check) \<in> set rules \<and> check c = Inl e}"
  by (induction rules c rule: run_rules.induct) (auto split: sum.splits)

lemma config_validate_Inr_iff:
  "validate rules cfg = Inr u \<longleftrightarrow> (\<exists>c. cfg = Some c \<and> (\<forall>(n, check)\<in>set rules. \<exists>v. check c = Inr v))"
  by (cases cfg) (simp_all add: validate_def Let_def run_rules_nil_iff)

lemma resource_rule_Inr_iff:
  "resource_rule c = Inr u \<longleftrightarrow>
     0 \<le> cf_shutdown_grace (c_process c) \<and> cf_shutdown_grace (c_process c) \<le> 10 * minute \<and>
     (cf_poll_interval (c_process c) = 0 \<or> 100 * millisecond \<le> cf_poll_interval (c_process c)) \<and>
     0 \<le> cf_restart_delay (c_upgrade c) \<and>
     (cf_health_check_interval (c_health c) = 0 \<or> 5 * second \<le> cf_health_check_interval (c_health c)) \<and>
     (cf_metrics_interval (c_health c) = 0 \<or> 10 * second \<le> cf_metrics_interval (c_health c)) \<and>
     0 \<le> cf_max_restarts (c_process c) \<and> cf_max_restarts (c_process c) \<le> 100 \<and>
     0 \<le> cf_preupgrade_max_retries (c_backup c) \<and> cf_preupgrade_max_retries (c_backup c) \<le> 10"
  unfolding resource_rule_def Let_def by (simp split: if_split) arith

lemma security_rule_safe:
  "security_rule env c = Inr u \<Longrightarrow>
     \<not> (cf_unsafe_skip_checksum (c_download c) \<and> cf_allow_download_binaries (c_upgrade c))"
  by (simp add: security_rule_def Let_def split: if_splits)

lemma binary_rule_plain:
  assumes "binary_rule c = Inr u"
  shows "cf_name (c_core c) \<noteq> '''' \<and> slash \<notin> set (cf_name (c_core c))"
proof -
  have "bad_name_char slash" by (simp add: bad_name_char_def)
  with assms show ?thesis by (auto simp: binary_rule_def list_ex_iff split: if_splits)
qed

section \<open>Properties\<close>

text \<open>
  The validator reports every rule that fails and nothing else, in the order of the rules: it
  accepts a configuration exactly when all seven rules do, and an accepted configuration has its
  resource limits in range, a daemon name that is one path component, and does not combine
  downloads with skipped checksums.
\<close>

theorem validator_reports_failing_rules:
  assumes "validate (default_rules env) (Some c) = r"
  shows "(r = Inr () \<longleftrightarrow> run_rules (default_rules env) c = []) \<and>
    (r = Inl (Validation_failed errs) \<longrightarrow>
      errs \<noteq> [] \<and> set errs = {(n, e). \<exists>check. (n, check) \<in> set (default_rules env) \<and> check c = Inl e}) \<and>
    (r = Inr () \<longrightarrow> 0 \<le> cf_shutdown_grace (c_process c) \<and>
      cf_shutdown_grace (c_process c) \<le> 10 * minute \<and> 0 \<le> cf_max_restarts (c_process c) \<and>
      cf_max_restarts (c_process c) \<le> 100 \<and> cf_preupgrade_max_retries (c_backup c) \<le> 10) \<and>
    (r = Inr () \<longrightarrow> cf_name (c_core c) \<noteq> '''' \<and> slash \<notin> set (cf_name (c_core c)) \<and>
      \<not> (cf_unsafe_skip_checksum (c_download c) \<and> cf_allow_download_binaries (c_upgrade c)))"
proof (rule conj4I; (intro impI)?)
  show "r = Inr () \<longleftrightarrow> run_rules (default_rules env) c = []"
    using assms by (auto simp: validate_def Let_def split: if_splits)
  show "errs \<noteq> [] \<and> set errs = {(n, e). \<exists>check. (n, check) \<in> set (default_rules env) \<and> check c = Inl e}"
    if "r = Inl (Validation_failed errs)"
    using assms that by (auto simp: validate_def Let_def run_rules_set split: if_splits)
  assume r: "r = Inr ()"
  have nil: "run_rules (default_rules env) c = []"
    using assms r by (simp add: validate_def Let_def split: if_splits)
  have all: "check c = Inr ()" if "(n, check) \<in> set (default_rules env)" for n check
  proof -
    have "case (n, check) of (n, check) \<Rightarrow> \<exists>u. check c = Inr u"
      using nil that unfolding run_rules_nil_iff by blast
    then show ?thesis by simp
  qed
  have res: "resource_rule c = Inr ()"
    by (rule all [of ResourceValidation]) (simp add: default_rules_def)
  have sec: "security_rule env c = Inr ()"
    by (rule all [of SecurityValidation]) (simp add: default_rules_def)
  have bin: "binary_rule c = Inr ()"
    by (rule all [of BinaryValidation]) (simp add: default_rules_def)
  from res show "0 \<le> cf_shutdown_grace (c_process c) \<and>
      cf_shutdown_grace (c_process c) \<le> 10 * minute \<and> 0 \<le> cf_max_restarts (c_process c) \<and>
      cf_max_restarts (c_process c) \<le> 100 \<and> cf_preupgrade_max_retries (c_backup c) \<le> 10"
    by (simp add: resource_rule_Inr_iff)
  from binary_rule_plain [OF bin] security_rule_safe [OF sec]
  show "cf_name (c_core c) \<noteq> '''' \<and> slash \<notin> set (cf_name (c_core c)) \<and>
      \<not> (cf_unsafe_skip_checksum (c_download c) \<and> cf_allow_download_binaries (c_upgrade c))"
    by simp
qed

text \<open>
  The default configuration of a user with an absolute home directory passes the validator
  exactly when the daemon home exists (as a directory, if it can be inspected) and port 8545 is free.
  A first run on a fresh machine, where the home is yet to be created, and a check while the node is
  serving its RPC port both fail.
\<close>

theorem default_config_validates_iff:
  assumes "is_abs eh" and "\<not> ve_is_ip env ''localhost''"
  shows "validate (default_rules env) (Some (default_config '''' eh)) = Inr () \<longleftrightarrow>
    (\<forall>x. ve_stat env (path_join [eh, ''.wemixd'']) \<notin> {Missing, Regular x}) \<and> ve_port_free env 8545"
proof -
  let ?home = "path_join [eh, ''.wemixd'']"
  let ?c = "default_config '''' eh"
  have p: "plain ''.wemixd''" "plain ''backups''" by (simp_all add: plain_def)
  note pl = path_comps_plain [OF assms(1)]
  have h: "?home = abs_path (path_comps eh @ [''.wemixd''])"
    using assms(1) p by (simp add: join_plain)
  have b: "path_join [?home, ''backups''] = abs_path ((path_comps eh @ [''.wemixd'']) @ [''backups''])"
    unfolding h using join_abs_path [of "path_comps eh @ [''.wemixd'']" "[''backups'']"] pl p by simp
  have d: "path_dir (path_join [?home, ''backups'']) = ?home"
    unfolding b using dir_abs [of "path_comps eh @ [''.wemixd'']" "''backups''"] pl p by (simp add: h)
  have n: "?home \<noteq> ''''" "take 2 ?home \<noteq> ''~/''" "path_join [?home, ''backups''] \<noteq> ''''"
    "take 2 (path_join [?home, ''backups'']) \<noteq> ''~/''"
    unfolding b by (simp_all add: h abs_path_def numeral_2_eq_2)
  have path: "path_rule env ?c = Inr () \<longleftrightarrow> (\<forall>x. ve_stat env ?home \<notin> {Missing, Regular x})"
    using n d by (cases "ve_stat env ?home")
      (simp_all add: path_rule_def default_config_def default_home_def Let_def expand_home_def)
  have others: "binary_rule ?c = Inr ()" "network_rule env ?c = Inr ()" "resource_rule ?c = Inr ()"
    "security_rule env ?c = Inr ()" "compatibility_rule ?c = Inr ()"
    by (simp_all add: binary_rule_def network_rule_def resource_rule_def security_rule_def
        compatibility_rule_def default_config_def default_home_def Let_def bad_name_char_def
        split_host_port_def rindex_colon_def scan_int_def is_digit_def digit_val_def is_int64_def)
  have port: "port_rule env ?c = Inr () \<longleftrightarrow> ve_port_free env 8545"
    by (simp add: port_rule_def default_config_def Let_def)
  show ?thesis
    using path others port by (simp add: config_validate_Inr_iff default_rules_def)
qed

definition demo_val_env :: "stat_result \<Rightarrow> val_env" where
  "demo_val_env st = \<lparr>ve_home = ''/h'', ve_stat = \<lambda>_. st, ve_port_free = \<lambda>_. True,
     ve_is_ip = \<lambda>_. False, ve_resolves = \<lambda>_. True\<rparr>"

theorem default_config_validates_iff_witness:
  "validate (default_rules (demo_val_env Missing)) (Some (default_config '''' ''/h'')) \<noteq> Inr () \<and>
   validate (default_rules (demo_val_env (Directory True))) (Some (default_config '''' ''/h'')) = Inr ()"
proof -
  have a: "is_abs ''/h''" by (simp add: is_abs_def)
  show ?thesis
    using default_config_validates_iff [OF a, of "demo_val_env Missing"]
      default_config_validates_iff [OF a, of "demo_val_env (Directory True)"]
    by (simp add: demo_val_env_def)
qed

theorem validator_reports_failing_rules_witness:
  "\<exists>errs. (CompatibilityValidation, Time_format_invalid) \<in> set errs \<and>
     validate (default_rules (demo_val_env (Directory True)))
       (Some ((default_config '''' ''/h'')\<lparr>c_logging :=
          \<lparr>cf_disable_logs = False, cf_color_logs = True, cf_time_format_logs = ''x''\<rparr>\<rparr>)) =
     Inl (Validation_failed errs)"
proof -
  let ?env = "demo_val_env (Directory True)"
  let ?c = "(default_config '''' ''/h'')\<lparr>c_logging :=
      \<lparr>cf_disable_logs = False, cf_color_logs = True, cf_time_format_logs = ''x''\<rparr>\<rparr>"
  have e: "compatibility_rule ?c = Inl Time_format_invalid"
    by (simp add: compatibility_rule_def default_config_def Let_def)
  then have "run_rules (default_rules ?env) ?c \<noteq> []"
    unfolding run_rules_nil_iff by (auto simp: default_rules_def)
  then obtain errs where r: "validate (default_rules ?env) (Some ?c) = Inl (Validation_failed errs)"
    by (simp add: validate_def Let_def)
  with validator_reports_failing_rules [OF r, THEN conjunct2, THEN conjunct1] e show ?thesis
    by (auto simp: default_rules_def)
qed

end
