(* ===== verification/Migration.thy ===== *)
theory Migration
  imports Validation
begin

text \<open>
  \<open>internal/config/migrator.go\<close>: versions, the four registered migrations, the generic one, and the
  loop that applies them. \<open>cloneConfig\<close> is the identity on values (all fields are exported and JSON
  keeps them). The backup of a configuration is a map from file names to what decoding the file
  gives.
\<close>

section \<open>Versions\<close>

record version =
  v_major :: int
  v_minor :: int
  v_patch :: int

abbreviation ver :: "int \<Rightarrow> int \<Rightarrow> int \<Rightarrow> version" where
  "ver a b c \<equiv> \<lparr>v_major = a, v_minor = b, v_patch = c\<rparr>"

definition version_string :: "version \<Rightarrow> string" where
  "version_string v = int_str (v_major v) @ ''.'' @ int_str (v_minor v) @ ''.'' @ int_str (v_patch v)"

definition version_equal :: "version \<Rightarrow> version \<Rightarrow> bool" where
  "version_equal v w \<longleftrightarrow> v_major v = v_major w \<and> v_minor v = v_minor w \<and> v_patch v = v_patch w"

definition version_greater :: "version \<Rightarrow> version \<Rightarrow> bool" where
  "version_greater v w \<longleftrightarrow>
     (if v_major v > v_major w then True
      else if v_major v < v_major w then False
      else if v_minor v > v_minor w then True
      else if v_minor v < v_minor w then False
      else v_patch v > v_patch w)"

definition version_less :: "version \<Rightarrow> version \<Rightarrow> bool" where
  "version_less v w \<longleftrightarrow> version_greater w v"

text \<open>\<open>Sscanf\<close> with \<open>%d.%d.%d\<close>, then with \<open>%d.%d\<close>.\<close>

definition scan_dot :: "string \<Rightarrow> string option" where
  "scan_dot s = (if take 1 s = ''.'' then Some (drop 1 s) else None)"

definition scan3 :: "string \<Rightarrow> version option" where
  "scan3 s =
     Option.bind (scan_int s) (\<lambda>(a, s1). Option.bind (scan_dot s1) (\<lambda>s2.
     Option.bind (scan_int s2) (\<lambda>(b, s3). Option.bind (scan_dot s3) (\<lambda>s4.
     Option.bind (scan_int s4) (\<lambda>(c, _). Some (ver a b c))))))"

definition scan2 :: "string \<Rightarrow> version option" where
  "scan2 s =
     Option.bind (scan_int s) (\<lambda>(a, s1). Option.bind (scan_dot s1) (\<lambda>s2.
     Option.bind (scan_int s2) (\<lambda>(b, _). Some (ver a b 0))))"

definition parse_version :: "string \<Rightarrow> version option" where
  "parse_version s0 =
     (let s = (if take 1 s0 = ''v'' then drop 1 s0 else s0) in
      case scan3 s of Some v \<Rightarrow> Some v | None \<Rightarrow> scan2 s)"

section \<open>The migrations\<close>

definition migrate_v1_to_v2 :: "config \<Rightarrow> config" where
  "migrate_v1_to_v2 c =
     (let c1 = (if cf_data_backup_path (c_backup c) = ''''
                then c\<lparr>c_backup := (c_backup c)\<lparr>cf_data_backup_path :=
                         path_join [cf_home (c_core c), ''backups'']\<rparr>\<rparr> else c);
          c2 = (if cf_shutdown_grace (c_process c1) = 0
                then c1\<lparr>c_process := (c_process c1)\<lparr>cf_shutdown_grace := 30 * second\<rparr>\<rparr> else c1) in
      if cf_preupgrade_max_retries (c_backup c2) = 0
      then c2\<lparr>c_backup := (c_backup c2)\<lparr>cf_preupgrade_max_retries := 3\<rparr>\<rparr> else c2)"

definition migrate_v2_to_v3 :: "config \<Rightarrow> config" where
  "migrate_v2_to_v3 c =
     (let c1 = (if cf_rpc_address (c_wbft c) = ''''
                then c\<lparr>c_wbft := (c_wbft c)\<lparr>cf_rpc_address := ''localhost:8545''\<rparr>\<rparr> else c) in
      if cf_download_urls (c_download c1) = None
      then c1\<lparr>c_download := (c_download c1)\<lparr>cf_download_urls := Some []\<rparr>\<rparr> else c1)"

text \<open>\<open>strings.Split(s, ":")\<close> has two parts exactly when there is one colon.\<close>

fun split_colon :: "string \<Rightarrow> string list" where
  "split_colon [] = [[]]"
| "split_colon (c # cs) =
     (if c = CHR '':'' then [] # split_colon cs
      else (case split_colon cs of s # ss \<Rightarrow> (c # s) # ss | [] \<Rightarrow> [[c]]))"

definition port_of_address :: "string \<Rightarrow> int" where
  "port_of_address a =
     (if a = '''' then 0
      else (case split_colon a of
              [_, p] \<Rightarrow> (case scan_int p of Some (n, _) \<Rightarrow> n | None \<Rightarrow> 0)
            | _ \<Rightarrow> 0))"

definition migrate_v3_to_v4 :: "config \<Rightarrow> config" where
  "migrate_v3_to_v4 c =
     (let c1 = (if cf_health_check_interval (c_health c) = 0
                then c\<lparr>c_health := (c_health c)\<lparr>cf_health_check_interval := 30 * second\<rparr>\<rparr> else c);
          c2 = (if cf_metrics_interval (c_health c1) = 0
                then c1\<lparr>c_health := (c_health c1)\<lparr>cf_metrics_interval := 60 * second\<rparr>\<rparr> else c1);
          c3 = (if cf_max_restarts (c_process c2) = 0
                then c2\<lparr>c_process := (c_process c2)\<lparr>cf_max_restarts := 5\<rparr>\<rparr> else c2) in
      if cf_rpc_port (c_health c3) = 0
      then (let p = port_of_address (cf_rpc_address (c_wbft c3)) in
            c3\<lparr>c_health := (c_health c3)\<lparr>cf_rpc_port := (if p = 0 then 8545 else p)\<rparr>\<rparr>)
      else c3)"

definition migrate_v4_to_v5 :: "config \<Rightarrow> config" where
  "migrate_v4_to_v5 c =
     (let c1 = (if cf_config_version (c_automation c) = ''''
                then c\<lparr>c_automation := (c_automation c)\<lparr>cf_config_version := ''0.5.0''\<rparr>\<rparr> else c);
          c2 = (if cf_network_id (c_wbft c1) = 0
                then c1\<lparr>c_wbft := (c_wbft c1)\<lparr>cf_network_id :=
                          (if cf_validator_mode (c_wbft c1) then 1111 else 1112)\<rparr>\<rparr> else c1) in
      if cf_chain_id (c_wbft c2) = ''''
      then c2\<lparr>c_wbft := (c_wbft c2)\<lparr>cf_chain_id := nat_str (cf_network_id (c_wbft c2))\<rparr>\<rparr> else c2)"

definition generic_migration :: "string \<Rightarrow> config \<Rightarrow> config" where
  "generic_migration env_home c =
     (let c1 = (if cf_home (c_core c) = ''''
                then c\<lparr>c_core := (c_core c)\<lparr>cf_home := path_join [env_home, ''.wemixvisor'']\<rparr>\<rparr> else c) in
      if cf_name (c_core c1) = '''' then c1\<lparr>c_core := (c_core c1)\<lparr>cf_name := ''wemixd''\<rparr>\<rparr> else c1)"

definition register_migrations :: "(string, config \<Rightarrow> config) gomap" where
  "register_migrations =
     [(''0.1.0->0.2.0'', migrate_v1_to_v2), (''0.2.0->0.3.0'', migrate_v2_to_v3),
      (''0.3.0->0.4.0'', migrate_v3_to_v4), (''0.4.0->0.5.0'', migrate_v4_to_v5)]"

section \<open>The loop\<close>

definition known_versions :: "version list" where
  "known_versions = [ver 0 1 0, ver 0 2 0, ver 0 3 0, ver 0 4 0, ver 0 5 0, ver 0 6 0, ver 0 7 0, ver 1 0 0]"

fun next_in :: "version list \<Rightarrow> version \<Rightarrow> version \<Rightarrow> version" where
  "next_in (v # w # vs) current target =
     (if version_equal current v then (if version_greater w target then target else w)
      else next_in (w # vs) current target)"
| "next_in _ current target = target"

definition get_next_version :: "version \<Rightarrow> version \<Rightarrow> version" where
  "get_next_version = next_in known_versions"

definition migration_key :: "version \<Rightarrow> version \<Rightarrow> string" where
  "migration_key v w = version_string v @ ''->'' @ version_string w"

definition migration_for :: "string \<Rightarrow> version \<Rightarrow> version \<Rightarrow> config \<Rightarrow> config" where
  "migration_for env_home v w =
     (case map_of register_migrations (migration_key v w) of
        Some f \<Rightarrow> f | None \<Rightarrow> generic_migration env_home)"

lemma version_equal_iff [simp]: "version_equal v w \<longleftrightarrow> v = w"
  by (auto simp: version_equal_def)

lemma next_in_cases:
  "next_in vs current target = target \<or>
   (next_in vs current target \<in> set vs \<and>
    (sorted_wrt version_less vs \<longrightarrow> version_greater (next_in vs current target) current))"
  by (induction vs current target rule: next_in.induct) (auto simp: version_less_def)

lemma known_sorted: "sorted_wrt version_less known_versions"
  by (simp add: known_versions_def version_less_def version_greater_def)

lemma version_greater_trans: "version_greater a b \<Longrightarrow> version_greater b c \<Longrightarrow> version_greater a c"
  by (auto simp: version_greater_def split: if_splits)

lemma version_greater_irrefl [simp]: "\<not> version_greater a a"
  by (simp add: version_greater_def)

definition newer_known :: "version \<Rightarrow> nat" where
  "newer_known v = length (filter (\<lambda>w. version_greater w v) known_versions)"

lemma newer_known_decreases:
  assumes "w \<in> set known_versions" and "version_greater w v"
  shows "newer_known w < newer_known v"
proof -
  have d: "distinct known_versions" by (simp add: known_versions_def)
  have "{u \<in> set known_versions. version_greater u w} \<subset> {u \<in> set known_versions. version_greater u v}"
    using assms version_greater_trans version_greater_irrefl by blast
  then have "card {u \<in> set known_versions. version_greater u w}
      < card {u \<in> set known_versions. version_greater u v}"
    by (rule psubset_card_mono [rotated]) simp
  then show ?thesis
    using d by (simp add: newer_known_def distinct_length_filter Collect_conj_eq Int_commute)
qed

text \<open>Each round takes the current version to the target or to a newer known version.\<close>

function migrate_loop :: "string \<Rightarrow> version \<Rightarrow> version \<Rightarrow> config \<Rightarrow> config" where
  "migrate_loop env_home current target c =
     (if version_equal current target then c
      else let next = get_next_version current target in
           migrate_loop env_home next target (migration_for env_home current next c))"
  by pat_completeness auto
termination
proof (relation "measure (\<lambda>(_, current, target, _).
    if current = target then 0 else Suc (newer_known current))", goal_cases)
  case 1
  then show ?case by simp
next
  case (2 env_home current target c nxt)
  then show ?case
    using next_in_cases [of known_versions current target] known_sorted
      newer_known_decreases [of nxt current]
    by (auto simp: get_next_version_def)
qed

declare migrate_loop.simps [simp del]

datatype migrate_error = Migrate_nil | Invalid_from string | Invalid_to string | Cannot_downgrade

definition migrate ::
  "string \<Rightarrow> config option \<Rightarrow> string \<Rightarrow> string \<Rightarrow> migrate_error + config" where
  "migrate env_home cfg from_version to_version =
     (case cfg of
        None \<Rightarrow> Inl Migrate_nil
      | Some c \<Rightarrow>
          (case parse_version from_version of
             None \<Rightarrow> Inl (Invalid_from from_version)
           | Some f \<Rightarrow>
               (case parse_version to_version of
                  None \<Rightarrow> Inl (Invalid_to to_version)
                | Some t \<Rightarrow>
                    if version_equal f t then Inr c
                    else if version_greater f t then Inl Cannot_downgrade
                    else Inr (migrate_loop env_home f t c))))"

section \<open>Backups of the configuration\<close>

type_synonym cfg_store = "(string, config option) gomap"

datatype backup_error = Backup_nil | Backup_mkdir_failed | Backup_write_failed
| Restore_read_failed | Restore_decode_failed

definition backup_config ::
  "bool \<Rightarrow> bool \<Rightarrow> string \<Rightarrow> config option \<Rightarrow> string \<Rightarrow> cfg_store \<Rightarrow> (cfg_store, backup_error, unit) gores" where
  "backup_config mkdir_ok write_ok timestamp cfg path st =
     (case cfg of
        None \<Rightarrow> (st, Inl Backup_nil)
      | Some c \<Rightarrow>
          if \<not> mkdir_ok then (st, Inl Backup_mkdir_failed)
          else if \<not> write_ok then (st, Inl Backup_write_failed)
          else (gm_put (path @ ''.'' @ timestamp @ ''.backup'') (Some c) st, Inr ()))"

definition restore_config :: "string \<Rightarrow> cfg_store \<Rightarrow> backup_error + config" where
  "restore_config backup_path st =
     (case map_of st backup_path of
        None \<Rightarrow> Inl Restore_read_failed
      | Some None \<Rightarrow> Inl Restore_decode_failed
      | Some (Some c) \<Rightarrow> Inr c)"

section \<open>Lemmas\<close>

text \<open>Every migration keeps the version label unless it is empty, and never clears a set field.\<close>

lemma migrations_keep_version:
  "cf_config_version (c_automation c) \<noteq> '''' \<Longrightarrow>
     cf_config_version (c_automation (migration_for eh v w c)) = cf_config_version (c_automation c)"
  by (auto simp: migration_for_def register_migrations_def migrate_v1_to_v2_def migrate_v2_to_v3_def
      migrate_v3_to_v4_def migrate_v4_to_v5_def generic_migration_def Let_def)

lemma migrate_loop_keeps_version:
  "cf_config_version (c_automation c) \<noteq> '''' \<Longrightarrow>
     cf_config_version (c_automation (migrate_loop eh v t c)) = cf_config_version (c_automation c)"
proof (induction eh v t c rule: migrate_loop.induct)
  case (1 eh v t c)
  show ?case
  proof (cases "v = t")
    case True
    then show ?thesis by (subst migrate_loop.simps) simp
  next
    case False
    with 1 show ?thesis
      by (simp add: migrate_loop.simps [of eh v t c] Let_def migrations_keep_version)
  qed
qed

lemma unlisted_next: "v \<notin> set known_versions \<Longrightarrow> get_next_version v t = t"
proof -
  have "v \<notin> set vs \<Longrightarrow> next_in vs v t = t" for vs
    by (induction vs v t rule: next_in.induct) auto
  then show "v \<notin> set known_versions \<Longrightarrow> get_next_version v t = t"
    by (simp add: get_next_version_def)
qed

text \<open>Version strings are unique, and so are the keys made of two of them.\<close>

lemma digit_char_neq [simp]:
  "d < 10 \<Longrightarrow> digit_char d \<noteq> CHR ''.''" "d < 10 \<Longrightarrow> digit_char d \<noteq> CHR ''>''"
  using digit_val_char [of d] by (auto simp: digit_val_def)

lemma nat_str_free: "CHR ''.'' \<notin> set (nat_str n) \<and> CHR ''>'' \<notin> set (nat_str n)"
proof (induction n rule: nat_str.induct)
  case (1 n)
  show ?case
    using 1 by (cases "n < 10")
      (simp_all add: nat_str.simps [of n] digit_char_neq [THEN not_sym])
qed

lemma int_str_free: "CHR ''.'' \<notin> set (int_str i)" "CHR ''>'' \<notin> set (int_str i)"
  using nat_str_free by (auto simp: int_str_def)

lemma split_at_mark:
  assumes "a @ m # x = b @ m # y" and "m \<notin> set a" and "m \<notin> set b"
  shows "a = b \<and> x = y"
  using assms
proof (induction a arbitrary: b)
  case Nil
  then show ?case by (cases b) auto
next
  case (Cons c a)
  then show ?case by (cases b) auto
qed

lemma version_string_inject [simp]: "version_string v = version_string w \<longleftrightarrow> v = w"
proof
  assume "version_string v = version_string w"
  then have "int_str (v_major v) @ CHR ''.'' # (int_str (v_minor v) @ CHR ''.'' # int_str (v_patch v))
      = int_str (v_major w) @ CHR ''.'' # (int_str (v_minor w) @ CHR ''.'' # int_str (v_patch w))"
    by (simp add: version_string_def)
  from split_at_mark [OF this int_str_free(1) int_str_free(1)]
  have a: "v_major v = v_major w" and
    "int_str (v_minor v) @ CHR ''.'' # int_str (v_patch v) =
      int_str (v_minor w) @ CHR ''.'' # int_str (v_patch w)" by simp_all
  from split_at_mark [OF this(2) int_str_free(1) int_str_free(1)] a show "v = w" by simp
qed simp

lemma version_string_free: "CHR ''>'' \<notin> set (version_string v)"
  using int_str_free by (simp add: version_string_def)

lemma migration_key_inject: "migration_key v w = migration_key v' w' \<longleftrightarrow> v = v' \<and> w = w'"
proof
  assume "migration_key v w = migration_key v' w'"
  then have "(version_string v @ ''-'') @ CHR ''>'' # version_string w =
      (version_string v' @ ''-'') @ CHR ''>'' # version_string w'"
    by (simp add: migration_key_def)
  from split_at_mark [OF this] show "v = v' \<and> w = w'"
    using version_string_free by simp
qed simp

lemma digit_chars:
  "digit_char 0 = CHR ''0''" "digit_char 1 = CHR ''1''" "digit_char 2 = CHR ''2''"
  "digit_char 3 = CHR ''3''" "digit_char 4 = CHR ''4''" "digit_char 5 = CHR ''5''"
  by code_simp+

lemma nat_str_small:
  "nat_str 0 = ''0''" "nat_str 1 = ''1''" "nat_str 2 = ''2''" "nat_str 3 = ''3''" "nat_str 4 = ''4''"
  "nat_str 5 = ''5''"
  by (subst nat_str.simps, use digit_chars in simp)+

lemma registered_keys:
  "register_migrations =
     [(migration_key (ver 0 1 0) (ver 0 2 0), migrate_v1_to_v2),
      (migration_key (ver 0 2 0) (ver 0 3 0), migrate_v2_to_v3),
      (migration_key (ver 0 3 0) (ver 0 4 0), migrate_v3_to_v4),
      (migration_key (ver 0 4 0) (ver 0 5 0), migrate_v4_to_v5)]"
  using nat_str_small(2)
  by (simp add: register_migrations_def migration_key_def version_string_def int_str_def nat_str_small)

lemma migration_for_simps:
  "migration_for eh (ver 0 1 0) (ver 0 2 0) = migrate_v1_to_v2"
  "migration_for eh (ver 0 2 0) (ver 0 3 0) = migrate_v2_to_v3"
  "migration_for eh (ver 0 3 0) (ver 0 4 0) = migrate_v3_to_v4"
  "migration_for eh (ver 0 4 0) (ver 0 5 0) = migrate_v4_to_v5"
  by (simp_all add: migration_for_def registered_keys migration_key_inject)

lemma migration_for_other:
  "v \<notin> set [ver 0 1 0, ver 0 2 0, ver 0 3 0, ver 0 4 0] \<Longrightarrow> migration_for eh v w = generic_migration eh"
  by (simp add: migration_for_def registered_keys migration_key_inject)

text \<open>What the four migrations are to establish, and that the later ones keep it.\<close>

definition configured :: "config \<Rightarrow> bool" where
  "configured c \<longleftrightarrow>
     cf_data_backup_path (c_backup c) \<noteq> '''' \<and> cf_shutdown_grace (c_process c) \<noteq> 0 \<and>
     cf_preupgrade_max_retries (c_backup c) \<noteq> 0 \<and> cf_rpc_address (c_wbft c) \<noteq> '''' \<and>
     cf_download_urls (c_download c) \<noteq> None \<and> cf_health_check_interval (c_health c) \<noteq> 0 \<and>
     cf_metrics_interval (c_health c) \<noteq> 0 \<and> cf_max_restarts (c_process c) \<noteq> 0 \<and>
     cf_rpc_port (c_health c) \<noteq> 0 \<and> cf_config_version (c_automation c) \<noteq> '''' \<and>
     cf_network_id (c_wbft c) \<noteq> 0 \<and> cf_chain_id (c_wbft c) \<noteq> ''''"

lemma migrate_v1_sets:
  "cf_data_backup_path (c_backup (migrate_v1_to_v2 c)) \<noteq> ''''"
  "cf_shutdown_grace (c_process (migrate_v1_to_v2 c)) \<noteq> 0"
  "cf_preupgrade_max_retries (c_backup (migrate_v1_to_v2 c)) \<noteq> 0"
  using path_join_nonempty [of "''backups''" "[cf_home (c_core c), ''backups'']"]
  by (auto simp: migrate_v1_to_v2_def Let_def)

lemma migrate_v2_sets:
  "cf_rpc_address (c_wbft (migrate_v2_to_v3 c)) \<noteq> ''''"
  "cf_download_urls (c_download (migrate_v2_to_v3 c)) \<noteq> None"
  "c_backup (migrate_v2_to_v3 c) = c_backup c" "c_process (migrate_v2_to_v3 c) = c_process c"
  by (auto simp: migrate_v2_to_v3_def Let_def)

lemma migrate_v3_sets:
  "cf_health_check_interval (c_health (migrate_v3_to_v4 c)) \<noteq> 0"
  "cf_metrics_interval (c_health (migrate_v3_to_v4 c)) \<noteq> 0"
  "cf_max_restarts (c_process (migrate_v3_to_v4 c)) \<noteq> 0"
  "cf_rpc_port (c_health (migrate_v3_to_v4 c)) \<noteq> 0"
  "c_backup (migrate_v3_to_v4 c) = c_backup c" "c_wbft (migrate_v3_to_v4 c) = c_wbft c"
  "c_download (migrate_v3_to_v4 c) = c_download c"
  "cf_shutdown_grace (c_process (migrate_v3_to_v4 c)) = cf_shutdown_grace (c_process c)"
  by (auto simp: migrate_v3_to_v4_def Let_def)

lemma migrate_v4_sets:
  "cf_config_version (c_automation (migrate_v4_to_v5 c)) \<noteq> ''''"
  "cf_network_id (c_wbft (migrate_v4_to_v5 c)) \<noteq> 0"
  "cf_chain_id (c_wbft (migrate_v4_to_v5 c)) \<noteq> ''''"
  "c_backup (migrate_v4_to_v5 c) = c_backup c" "c_process (migrate_v4_to_v5 c) = c_process c"
  "c_health (migrate_v4_to_v5 c) = c_health c" "c_download (migrate_v4_to_v5 c) = c_download c"
  "cf_rpc_address (c_wbft (migrate_v4_to_v5 c)) = cf_rpc_address (c_wbft c)"
  by (auto simp: migrate_v4_to_v5_def Let_def)

lemma configured_chain:
  "configured (migrate_v4_to_v5 (migrate_v3_to_v4 (migrate_v2_to_v3 (migrate_v1_to_v2 c))))"
  by (simp add: configured_def migrate_v1_sets migrate_v2_sets migrate_v3_sets migrate_v4_sets)

lemma configured_generic: "configured c \<Longrightarrow> configured (generic_migration eh c)"
  by (simp add: configured_def generic_migration_def Let_def)

lemma migrate_loop_later:
  assumes "v \<notin> set [ver 0 1 0, ver 0 2 0, ver 0 3 0, ver 0 4 0]" and "configured c"
    and "\<not> version_greater v t"
  shows "configured (migrate_loop eh v t c)"
  using assms
proof (induction eh v t c rule: migrate_loop.induct)
  case (1 eh v t c)
  show ?case
  proof (cases "v = t")
    case True
    with 1(3) show ?thesis by (subst migrate_loop.simps) simp
  next
    case False
    let ?n = "get_next_version v t"
    have "?n = t \<or> ?n \<in> set [ver 0 6 0, ver 0 7 0, ver 1 0 0] \<and> \<not> version_greater ?n t"
      using 1(2) by (auto simp: get_next_version_def known_versions_def)
    moreover have "t \<notin> set [ver 0 1 0, ver 0 2 0, ver 0 3 0, ver 0 4 0] \<or> v \<notin> set known_versions"
      using 1(2,4) False by (auto simp: known_versions_def version_greater_def)
    ultimately show ?thesis
      using 1 False by (auto simp: migrate_loop.simps [of eh v t c] Let_def migration_for_other
          configured_generic migrate_loop.simps [of eh t t])
  qed
qed

text \<open>From the first release, the loop passes through the four migrations in order.\<close>

lemma migrate_loop_first:
  assumes "\<not> version_greater (ver 0 5 0) t"
  shows "migrate_loop eh (ver 0 1 0) t c =
    migrate_loop eh (ver 0 5 0) t
      (migrate_v4_to_v5 (migrate_v3_to_v4 (migrate_v2_to_v3 (migrate_v1_to_v2 c))))"
proof -
  have g: "\<not> version_greater (ver 0 b 0) t \<and> ver 0 b' 0 \<noteq> t" if "b \<le> 5" "b' < 5" for b b'
    using assms that by (auto simp: version_greater_def split: if_splits)
  have n: "get_next_version (ver 0 1 0) t = ver 0 2 0" "get_next_version (ver 0 2 0) t = ver 0 3 0"
    "get_next_version (ver 0 3 0) t = ver 0 4 0" "get_next_version (ver 0 4 0) t = ver 0 5 0"
    using g [of 2 0] g [of 3 0] g [of 4 0] g [of 5 0]
    by (simp_all add: get_next_version_def known_versions_def)
  have s: "migrate_loop eh (ver 0 b 0) t c =
      migrate_loop eh (get_next_version (ver 0 b 0) t) t
        (migration_for eh (ver 0 b 0) (get_next_version (ver 0 b 0) t) c)" if "b < 5" for b c
    using g [of 0 b] that by (simp add: migrate_loop.simps [of eh "ver 0 b 0" t c] Let_def)
  show ?thesis by (simp add: s n migration_for_simps)
qed

section \<open>Properties\<close>

text \<open>
  A migration from the first release to any version from 0.5.0 on succeeds and leaves every field
  the four migrations are responsible for set: backup path, grace period, retries, RPC address and
  port, download table, intervals, restart limit, version label, network and chain identifiers.
\<close>

theorem migrate_from_first_release:
  assumes "parse_version to_version = Some t" and "\<not> version_greater (ver 0 5 0) t"
  shows "\<exists>c'. migrate eh (Some c) ''0.1.0'' to_version = Inr c' \<and> configured c'"
proof -
  have f: "parse_version ''0.1.0'' = Some (ver 0 1 0)"
    by (simp add: parse_version_def scan3_def scan_dot_def scan_int_def is_digit_def digit_val_def
        is_int64_def Let_def)
  have "ver 0 1 0 \<noteq> t" "\<not> version_greater (ver 0 1 0) t"
    using assms(2) by (auto simp: version_greater_def split: if_splits)
  then have "migrate eh (Some c) ''0.1.0'' to_version = Inr (migrate_loop eh (ver 0 1 0) t c)"
    by (simp add: migrate_def f assms(1))
  moreover have "configured (migrate_loop eh (ver 0 1 0) t c)"
    unfolding migrate_loop_first [OF assms(2)]
    by (rule migrate_loop_later) (simp_all add: assms(2) configured_chain)
  ultimately show ?thesis by blast
qed

lemma parse_080: "parse_version ''v0.8.0'' = Some (ver 0 8 0)"
  by (simp add: parse_version_def scan3_def scan_dot_def scan_int_def is_digit_def digit_val_def
      is_int64_def Let_def)

theorem migrate_from_first_release_witness:
  "\<exists>c'. migrate '''' (Some (default_config '''' '''')) ''0.1.0'' ''v0.8.0'' = Inr c' \<and> configured c'"
  by (rule migrate_from_first_release [OF parse_080]) (simp add: version_greater_def)

text \<open>
  From a version that is not one of the eight the program lists, such as a patch release, the
  migration jumps to the target in one generic step, which sets at most the home and the name: no
  registered migration runs, whatever lies between the versions.
\<close>

theorem unlisted_version_skips_migrations:
  assumes "parse_version from_version = Some v" and "parse_version to_version = Some t"
    and "v \<notin> set known_versions" and "version_greater t v"
  shows "migrate eh (Some c) from_version to_version = Inr (generic_migration eh c)"
proof -
  have "v \<noteq> t" "\<not> version_greater v t"
    using assms(4) by (auto simp: version_greater_def split: if_splits)
  moreover have "migration_for eh v t = generic_migration eh"
    using assms(3) by (intro migration_for_other) (auto simp: known_versions_def)
  ultimately show ?thesis
    using assms unlisted_next [OF assms(3), of t]
    by (simp add: migrate_def migrate_loop.simps [of eh v t c] migrate_loop.simps [of eh t t] Let_def)
qed

theorem unlisted_version_skips_migrations_witness:
  "\<exists>c'. migrate '''' (Some (default_config '''' '''')) ''0.1.1'' ''v0.8.0'' = Inr c' \<and>
     cf_network_id (c_wbft c') = 0"
proof -
  have p: "parse_version ''0.1.1'' = Some (ver 0 1 1)"
    by (simp add: parse_version_def scan3_def scan_dot_def scan_int_def is_digit_def digit_val_def
        is_int64_def Let_def)
  have "migrate '''' (Some (default_config '''' '''')) ''0.1.1'' ''v0.8.0'' =
      Inr (generic_migration '''' (default_config '''' ''''))"
    by (rule unlisted_version_skips_migrations [OF p parse_080])
      (simp_all add: known_versions_def version_greater_def)
  then show ?thesis by (simp add: generic_migration_def default_config_def Let_def)
qed

text \<open>
  A migration never changes the version label of a configuration that has one: after migrating
  0.4.0 to 0.5.0 the configuration still says 0.4.0, the version the next migration starts from.
\<close>

theorem migrated_config_keeps_old_version:
  assumes "migrate eh (Some c) from_version to_version = Inr c'"
    and "cf_config_version (c_automation c) \<noteq> ''''"
  shows "cf_config_version (c_automation c') = cf_config_version (c_automation c)"
  using assms migrate_loop_keeps_version [OF assms(2)]
  by (auto simp: migrate_def split: option.splits if_splits)

theorem migrated_config_keeps_old_version_witness:
  "\<exists>c'. migrate '''' (Some (default_config '''' '''')) ''v0.8.0'' ''v1.0.0'' = Inr c' \<and>
     cf_config_version (c_automation c') = ''0.8.0''"
proof -
  let ?c = "default_config '''' ''''"
  have p: "parse_version ''v1.0.0'' = Some (ver 1 0 0)"
    by (simp add: parse_version_def scan3_def scan_dot_def scan_int_def is_digit_def digit_val_def
        is_int64_def Let_def)
  have v: "cf_config_version (c_automation ?c) = ''0.8.0''"
    by (simp add: default_config_def Let_def)
  have "migrate '''' (Some ?c) ''v0.8.0'' ''v1.0.0'' = Inr (migrate_loop '''' (ver 0 8 0) (ver 1 0 0) ?c)"
    by (simp add: migrate_def parse_080 p version_greater_def)
  with migrated_config_keeps_old_version [OF this] v show ?thesis by simp
qed

end
