(* ===== verification/BatchPlans.thy ===== *)
theory BatchPlans
  imports UpgradeTypes FileWatcher Paths Complex_Main
begin

text \<open>
  \<open>internal/batch/batch.go\<close>: plans of several upgrades. The plan directory is a map from entry names
  (without separators) to what is there; a plan file is what decoding it gives. The clock and its
  text are arguments. The progress of a plan is an exact quotient, with \<open>None\<close> for the \<open>NaN\<close> of an
  empty plan; the program rounds it to a float.
\<close>

record upgrade_plan =
  up_version :: string
  up_name :: string
  up_description :: string
  up_created_at :: time
  up_upgrades :: "upgrade_info list"

datatype plan_entry = Plan_file "upgrade_plan option" | Plan_subdir bool

record plan_dir =
  pd_exists :: bool
  pd_entries :: "(string, plan_entry) gomap"

record plan_env =
  pe_mkdir_ok :: bool
  pe_write_ok :: bool
  pe_read_ok :: bool
  pe_now :: time
  pe_stamp :: "time \<Rightarrow> string"

datatype batch_error =
  Upgrade_no_name nat | Upgrade_bad_height string int | Heights_not_increasing
| Plan_mkdir_failed | Plan_write_failed | Plan_read_failed | Plan_decode_failed | Plan_remove_failed
| Plan_nil | Plan_no_name | Plan_no_upgrades | Duplicate_name string | Not_in_height_order string string
| Ensure_failed string | Write_info_failed string

section \<open>Operations\<close>

definition plan_filename :: "(time \<Rightarrow> string) \<Rightarrow> upgrade_plan \<Rightarrow> string" where
  "plan_filename stamp p = up_name p @ ''-'' @ stamp (up_created_at p) @ ''.json''"

definition save_plan :: "plan_env \<Rightarrow> upgrade_plan \<Rightarrow> plan_dir \<Rightarrow> (plan_dir, batch_error, unit) gores" where
  "save_plan env p d =
     (if \<not> pe_mkdir_ok env then (d, Inl Plan_mkdir_failed)
      else
        let d1 = d\<lparr>pd_exists := True\<rparr>; f = plan_filename (pe_stamp env) p in
        if \<not> pe_write_ok env \<or> (case map_of (pd_entries d1) f of Some (Plan_subdir _) \<Rightarrow> True | _ \<Rightarrow> False)
        then (d1, Inl Plan_write_failed)
        else (d1\<lparr>pd_entries := gm_put f (Plan_file (Some p)) (pd_entries d1)\<rparr>, Inr ()))"

text \<open>The loop of \<open>CreatePlan\<close> at index \<open>i\<close>, after the upgrade \<open>prev\<close>.\<close>

fun check_upgrades :: "nat \<Rightarrow> upgrade_info option \<Rightarrow> upgrade_info list \<Rightarrow> batch_error + unit" where
  "check_upgrades i prev [] = Inr ()"
| "check_upgrades i prev (u # us) =
     (if ui_name u = '''' then Inl (Upgrade_no_name i)
      else if ui_height u \<le> 0 then Inl (Upgrade_bad_height (ui_name u) (ui_height u))
      else if (case prev of None \<Rightarrow> False | Some p \<Rightarrow> ui_height u \<le> ui_height p)
      then Inl Heights_not_increasing
      else check_upgrades (Suc i) (Some u) us)"

text \<open>\<open>CreatePlan\<close> sorts the caller's slice in place.\<close>

definition create_plan ::
  "plan_env \<Rightarrow> string \<Rightarrow> string \<Rightarrow> upgrade_info list \<times> plan_dir \<Rightarrow>
     (upgrade_info list \<times> plan_dir, batch_error, upgrade_plan) gores" where
  "create_plan env name descr = (\<lambda>(us, d).
     let us' = sort_slice (\<lambda>u v. ui_height u < ui_height v) us in
     case check_upgrades 0 None us' of
       Inl e \<Rightarrow> ((us', d), Inl e)
     | Inr _ \<Rightarrow>
         let p = \<lparr>up_version = ''1.0'', up_name = name, up_description = descr,
                  up_created_at = pe_now env, up_upgrades = us'\<rparr> in
         (case save_plan env p d of
            (d', Inl e) \<Rightarrow> ((us', d'), Inl e)
          | (d', Inr _) \<Rightarrow> ((us', d'), Inr p)))"

definition load_plan :: "plan_env \<Rightarrow> string \<Rightarrow> plan_dir \<Rightarrow> batch_error + upgrade_plan" where
  "load_plan env filename d =
     (if \<not> pe_read_ok env then Inl Plan_read_failed
      else (case map_of (pd_entries d) filename of
              Some (Plan_file (Some p)) \<Rightarrow> Inr p
            | Some (Plan_file None) \<Rightarrow> Inl Plan_decode_failed
            | _ \<Rightarrow> Inl Plan_read_failed))"

definition file_ext :: "string \<Rightarrow> string" where
  "file_ext s =
     (if CHR ''.'' \<in> set s then CHR ''.'' # rev (takeWhile (\<lambda>c. c \<noteq> CHR ''.'') (rev s)) else '''')"

definition list_plans :: "plan_env \<Rightarrow> plan_dir \<Rightarrow> batch_error + string list" where
  "list_plans env d =
     (if \<not> pd_exists d then Inr []
      else if \<not> pe_read_ok env then Inl Plan_read_failed
      else Inr (sort [n. (n, e) \<leftarrow> pd_entries d,
                         (case e of Plan_file _ \<Rightarrow> True | Plan_subdir _ \<Rightarrow> False) \<and> file_ext n = ''.json'']))"

definition remove_plan :: "bool \<Rightarrow> string \<Rightarrow> plan_dir \<Rightarrow> (plan_dir, batch_error, unit) gores" where
  "remove_plan remove_ok filename d =
     (case map_of (pd_entries d) filename of
        None \<Rightarrow> (d, Inl Plan_remove_failed)
      | Some e \<Rightarrow>
          if \<not> remove_ok \<or> e = Plan_subdir False then (d, Inl Plan_remove_failed)
          else (d\<lparr>pd_entries := gm_del filename (pd_entries d)\<rparr>, Inr ()))"

fun first_duplicate :: "string list \<Rightarrow> string list \<Rightarrow> string option" where
  "first_duplicate seen [] = None"
| "first_duplicate seen (n # ns) =
     (if n \<in> set seen then Some n else first_duplicate (n # seen) ns)"

fun first_disorder :: "upgrade_info list \<Rightarrow> (string \<times> string) option" where
  "first_disorder (u # v # us) =
     (if ui_height v \<le> ui_height u then Some (ui_name v, ui_name u) else first_disorder (v # us))"
| "first_disorder _ = None"

definition validate_plan :: "upgrade_plan option \<Rightarrow> batch_error + unit" where
  "validate_plan plan =
     (case plan of
        None \<Rightarrow> Inl Plan_nil
      | Some p \<Rightarrow>
          if up_name p = '''' then Inl Plan_no_name
          else if length (up_upgrades p) = 0 then Inl Plan_no_upgrades
          else (case first_duplicate [] (map ui_name (up_upgrades p)) of
                  Some n \<Rightarrow> Inl (Duplicate_name n)
                | None \<Rightarrow>
                    (case first_disorder (up_upgrades p) of
                       Some (a, b) \<Rightarrow> Inl (Not_in_height_order a b)
                     | None \<Rightarrow> Inr ())))"

definition get_next_upgrade :: "upgrade_plan \<Rightarrow> int \<Rightarrow> upgrade_info option" where
  "get_next_upgrade p h = find (\<lambda>u. ui_height u > h) (up_upgrades p)"

definition get_upgrade_by_height :: "upgrade_plan \<Rightarrow> int \<Rightarrow> upgrade_info option" where
  "get_upgrade_by_height p h = find (\<lambda>u. ui_height u = h) (up_upgrades p)"

fun ensure_all :: "(string \<Rightarrow> 'd \<Rightarrow> 'd \<times> bool) \<Rightarrow> string list \<Rightarrow> 'd \<Rightarrow> ('d, batch_error, unit) gores" where
  "ensure_all ensure [] d = (d, Inr ())"
| "ensure_all ensure (n # ns) d =
     (case ensure n d of
        (d', False) \<Rightarrow> (d', Inl (Ensure_failed n))
      | (d', True) \<Rightarrow> ensure_all ensure ns d')"

definition prepare_batch_upgrade ::
  "(string \<Rightarrow> 'd \<Rightarrow> 'd \<times> bool) \<Rightarrow> upgrade_plan \<Rightarrow> 'd \<Rightarrow> ('d, batch_error, unit) gores" where
  "prepare_batch_upgrade ensure p = ensure_all ensure (map ui_name (up_upgrades p))"

definition info_path :: "string \<Rightarrow> int \<Rightarrow> string" where
  "info_path home h = path_join [home, ''data'', ''upgrades'', int_str h, ''upgrade-info.json'']"

text \<open>\<open>writeUpgradeInfo\<close>: the environment says at which heights the directory and the file can be written.\<close>

record info_env =
  ie_mkdir_ok :: "int \<Rightarrow> bool"
  ie_write_ok :: "int \<Rightarrow> bool"
  ie_now :: time

definition write_height_info ::
  "info_env \<Rightarrow> string \<Rightarrow> upgrade_info \<Rightarrow> ufs \<Rightarrow> (ufs, types_error, unit) gores" where
  "write_height_info env home u fs =
     (if \<not> ie_mkdir_ok env (ui_height u) then (fs, Inl Write_failed)
      else write_upgrade_info_file (ie_write_ok env (ui_height u)) (ie_now env)
             (info_path home (ui_height u)) u fs)"

fun write_infos ::
  "info_env \<Rightarrow> string \<Rightarrow> upgrade_info list \<Rightarrow> ufs \<Rightarrow> (ufs, batch_error, unit) gores" where
  "write_infos env home [] fs = (fs, Inr ())"
| "write_infos env home (u # us) fs =
     (case write_height_info env home u fs of
        (fs', Inl _) \<Rightarrow> (fs', Inl (Write_info_failed (ui_name u)))
      | (fs', Inr _) \<Rightarrow> write_infos env home us fs')"

definition execute_plan ::
  "info_env \<Rightarrow> string \<Rightarrow> upgrade_plan option \<Rightarrow> ufs \<Rightarrow> (ufs, batch_error, unit) gores" where
  "execute_plan env home plan fs =
     (case validate_plan plan of
        Inl e \<Rightarrow> (fs, Inl e)
      | Inr _ \<Rightarrow>
          (case plan of Some p \<Rightarrow> write_infos env home (up_upgrades p) fs | None \<Rightarrow> (fs, Inl Plan_nil)))"

record plan_status =
  ps_name :: string
  ps_total :: nat
  ps_completed :: nat
  ps_pending :: nat
  ps_active :: string
  ps_height :: int
  ps_progress :: "rat option"

fun status_loop :: "int \<Rightarrow> upgrade_info list \<Rightarrow> nat \<times> nat \<times> string \<Rightarrow> nat \<times> nat \<times> string" where
  "status_loop h [] acc = acc"
| "status_loop h (u # us) (completed, pending, active) =
     (if ui_height u \<le> h then status_loop h us (Suc completed, pending, active)
      else status_loop h us (completed, Suc pending, if active = '''' then ui_name u else active))"

definition get_plan_status :: "upgrade_plan \<Rightarrow> int \<Rightarrow> plan_status" where
  "get_plan_status p h =
     (case status_loop h (up_upgrades p) (0, 0, '''') of
        (completed, pending, active) \<Rightarrow>
          \<lparr>ps_name = up_name p, ps_total = length (up_upgrades p), ps_completed = completed,
           ps_pending = pending, ps_active = active, ps_height = h,
           ps_progress = (if up_upgrades p = [] then None
                          else Some (of_nat completed / of_nat (length (up_upgrades p)) * 100))\<rparr>)"

section \<open>The interface of the downloader\<close>

text \<open>
  What \<open>PrepareBatchUpgrade\<close> needs of \<open>EnsureUpgradeBinary\<close>: success means the binary is there, and
  no call takes away a binary that was there.
\<close>

locale binary_source =
  fixes ensure :: "string \<Rightarrow> 'd \<Rightarrow> 'd \<times> bool"
    and has :: "'d \<Rightarrow> string \<Rightarrow> bool"
    and ok_name :: "string \<Rightarrow> bool"
  assumes ensure_has: "ensure n d = (d', True) \<Longrightarrow> has d' n"
    and ensure_keeps: "ok_name n \<Longrightarrow> ok_name m \<Longrightarrow> has d m \<Longrightarrow> ensure n d = (d', b) \<Longrightarrow> has d' m"
begin

lemma ensure_all_keeps:
  "\<forall>n\<in>set ns. ok_name n \<Longrightarrow> ok_name m \<Longrightarrow> has d m \<Longrightarrow> has (fst (ensure_all ensure ns d)) m"
proof (induction ns arbitrary: d)
  case Nil
  then show ?case by simp
next
  case (Cons n ns)
  obtain d' b where e: "ensure n d = (d', b)" by fastforce
  with Cons.prems have "has d' m" using ensure_keeps [of n m d d' b] by simp
  with Cons e show ?case by (cases b) simp_all
qed

text \<open>A successful preparation leaves every binary of the plan in place.\<close>

lemma ensure_all_has:
  "\<forall>n\<in>set ns. ok_name n \<Longrightarrow> ensure_all ensure ns d = (d', Inr u) \<Longrightarrow> \<forall>n\<in>set ns. has d' n"
proof (induction ns arbitrary: d)
  case Nil
  then show ?case by simp
next
  case (Cons n ns)
  obtain d1 b where e: "ensure n d = (d1, b)" by fastforce
  with Cons.prems have b: "b" and rest: "ensure_all ensure ns d1 = (d', Inr u)"
    by (cases b; simp)+
  from e b have "has d1 n" using ensure_has by simp
  then have "has d' n" using ensure_all_keeps [of ns n d1] Cons.prems rest by simp
  with Cons.IH [OF _ rest] Cons.prems show ?case by simp
qed

end

section \<open>Lemmas\<close>

lemma check_upgrades_Inr_iff:
  "check_upgrades i prev us = Inr u \<longleftrightarrow>
     (\<forall>x\<in>set us. valid_info x) \<and> sorted_wrt (\<lambda>x y. ui_height x < ui_height y) us \<and>
     (\<forall>p. prev = Some p \<longrightarrow> us = [] \<or> ui_height p < ui_height (hd us))"
proof (induction i prev us rule: check_upgrades.induct)
  case (2 i prev u us)
  then show ?case
    by (cases prev; cases us) (auto simp: valid_info_def)
qed auto

lemma first_duplicate_none: "first_duplicate seen ns = None \<longleftrightarrow> distinct ns \<and> set ns \<inter> set seen = {}"
  by (induction seen ns rule: first_duplicate.induct) auto

lemma first_disorder_none:
  "first_disorder us = None \<longleftrightarrow> sorted_wrt (\<lambda>x y. ui_height x < ui_height y) us"
  by (induction us rule: first_disorder.induct) auto

lemma validate_plan_Inr_iff:
  "validate_plan (Some p) = Inr u \<longleftrightarrow>
     up_name p \<noteq> '''' \<and> up_upgrades p \<noteq> [] \<and> distinct (map ui_name (up_upgrades p)) \<and>
     sorted_wrt (\<lambda>x y. ui_height x < ui_height y) (up_upgrades p)"
  using first_duplicate_none [of "[]" "map ui_name (up_upgrades p)"]
    first_disorder_none [of "up_upgrades p"]
  by (cases "first_duplicate [] (map ui_name (up_upgrades p))"; cases "first_disorder (up_upgrades p)")
    (simp_all add: validate_plan_def split: prod.splits)

lemma strictly_sorted_iff:
  "sorted_wrt (\<lambda>x y. ui_height x < ui_height y) us \<longleftrightarrow>
     sorted (map ui_height us) \<and> distinct (map ui_height us)"
  using strict_sorted_iff [of "map ui_height us"] by (simp only: sorted_wrt_map)

lemma sort_strict_iff:
  "sorted_wrt (\<lambda>x y. ui_height x < ui_height y) (sort_slice (\<lambda>u v. ui_height u < ui_height v) us)
     \<longleftrightarrow> distinct (map ui_height us)"
  by (simp add: strictly_sorted_iff gosort.srt_sorted_key gosort.srt_distinct_map)

lemma find_sorted_min:
  assumes "sorted_wrt (\<lambda>x y. f x < (f y :: int)) xs"
  shows "find (\<lambda>x. h < f x) xs = Some u \<longleftrightarrow>
    u \<in> set xs \<and> h < f u \<and> (\<forall>v\<in>set xs. h < f v \<longrightarrow> f u \<le> f v)"
  using assms by (induction xs) force+

lemma status_loop_eq:
  "status_loop h us (c, p, a) =
     (c + length (filter (\<lambda>u. ui_height u \<le> h) us), p + length (filter (\<lambda>u. h < ui_height u) us),
      (if a = '''' then (case find (\<lambda>u. h < ui_height u \<and> ui_name u \<noteq> '''') us of
                           None \<Rightarrow> '''' | Some u \<Rightarrow> ui_name u) else a))"
  by (induction us arbitrary: c p a) auto

lemma info_path_inject:
  assumes "is_abs home"
  shows "info_path home h = info_path home k \<longleftrightarrow> h = k"
proof -
  have p: "plain (int_str i)" for i
  proof -
    have "set (int_str i) \<subseteq> {c. c = CHR ''-'' \<or> digit_val c \<noteq> None}"
    proof -
      have "set (nat_str n) \<subseteq> {c. digit_val c \<noteq> None}" for n
      proof (induction n rule: nat_str.induct)
        case (1 n)
        then show ?case by (cases "n < 10") (simp_all add: nat_str.simps [of n])
      qed
      then show ?thesis by (auto simp: int_str_def)
    qed
    moreover have "int_str i \<noteq> ''''" by (simp add: int_str_def)
    ultimately show ?thesis
      by (auto simp: plain_def digit_val_def subset_iff)
  qed
  have "info_path home i = abs_path (path_comps home @ [''data'', ''upgrades'', int_str i, ''upgrade-info.json''])"
    for i using assms p by (simp add: info_path_def join_plain)
  then show ?thesis using p path_comps_plain [OF assms] by (simp add: abs_path_inject)
qed

lemma write_infos_result:
  assumes "is_abs home" and "write_infos env home us fs = (fs', r)" and "distinct (map ui_height us)"
  shows "\<exists>n\<le>length us. (r = Inr () \<longleftrightarrow> n = length us) \<and>
    (\<forall>u\<in>set (take n us). fs' (info_path home (ui_height u)) =
       Present \<lparr>uf_empty = False, uf_mtime = ie_now env, uf_decoded = Some u\<rparr>) \<and>
    (\<forall>p. (\<forall>u\<in>set (take n us). p \<noteq> info_path home (ui_height u)) \<longrightarrow> fs' p = fs p)"
  using assms(2,3)
proof (induction us arbitrary: fs)
  case Nil
  then show ?case by simp
next
  case (Cons u us)
  show ?case
  proof (cases "ie_mkdir_ok env (ui_height u) \<and> ie_write_ok env (ui_height u)")
    case False
    with Cons.prems have "fs' = fs \<and> r \<noteq> Inr ()"
      by (auto simp: write_height_info_def write_upgrade_info_file_def split: if_splits)
    then show ?thesis by (intro exI [of _ 0]) simp
  next
    case True
    let ?fs = "fs(info_path home (ui_height u) :=
        Present \<lparr>uf_empty = False, uf_mtime = ie_now env, uf_decoded = Some u\<rparr>)"
    have w: "write_infos env home us ?fs = (fs', r)"
      using Cons.prems(1) True by (simp add: write_height_info_def write_upgrade_info_file_def)
    from Cons.IH [OF w] Cons.prems(2) obtain n where n: "n \<le> length us"
      "r = Inr () \<longleftrightarrow> n = length us"
      "\<forall>v\<in>set (take n us). fs' (info_path home (ui_height v)) =
         Present \<lparr>uf_empty = False, uf_mtime = ie_now env, uf_decoded = Some v\<rparr>"
      "\<forall>p. (\<forall>v\<in>set (take n us). p \<noteq> info_path home (ui_height v)) \<longrightarrow> fs' p = ?fs p"
      by auto
    have "fs' (info_path home (ui_height u)) = ?fs (info_path home (ui_height u))"
    proof -
      have "info_path home (ui_height u) \<noteq> info_path home (ui_height v)" if "v \<in> set (take n us)" for v
        using that Cons.prems(2) set_take_subset [of n us]
        by (auto simp: info_path_inject [OF assms(1)] image_iff)
      with n(4) show ?thesis by blast
    qed
    with n show ?thesis by (intro exI [of _ "Suc n"]) auto
  qed
qed

section \<open>Properties\<close>

text \<open>
  \<open>CreatePlan\<close> succeeds exactly when the plan file can be written and the upgrades are named, have
  positive and pairwise different heights; the plan then lists them in the order of their heights,
  whatever order they came in, and loading the saved file gives the plan back. What it does not
  ensure is that \<open>ValidatePlan\<close>, and so \<open>ExecutePlan\<close>, accepts the plan: that holds exactly when it
  has a name, at least one upgrade and no two upgrades of the same name.
\<close>

theorem create_plan_sorts:
  assumes "create_plan env name descr (us, d) = ((us', d'), r)"
  shows "((\<exists>p. r = Inr p) \<longleftrightarrow> pe_mkdir_ok env \<and> pe_write_ok env \<and>
      (\<forall>b. map_of (pd_entries d) (name @ ''-'' @ pe_stamp env (pe_now env) @ ''.json'') \<noteq> Some (Plan_subdir b)) \<and>
      (\<forall>u\<in>set us. valid_info u) \<and> distinct (map ui_height us)) \<and>
    (r = Inr p \<longrightarrow> up_upgrades p = sort_key ui_height us \<and> us' = up_upgrades p) \<and>
    (r = Inr p \<longrightarrow> pe_read_ok env \<longrightarrow> load_plan env (plan_filename (pe_stamp env) p) d' = Inr p) \<and>
    (r = Inr p \<longrightarrow> (validate_plan (Some p) = Inr () \<longleftrightarrow>
      name \<noteq> '''' \<and> us \<noteq> [] \<and> distinct (map ui_name us)))"
proof (rule conj4I; (intro impI)?)
  let ?us = "sort_slice (\<lambda>u v. ui_height u < ui_height v) us"
  let ?p = "\<lparr>up_version = ''1.0'', up_name = name, up_description = descr,
      up_created_at = pe_now env, up_upgrades = ?us\<rparr>"
  let ?ok = "(\<forall>u\<in>set us. valid_info u) \<and> distinct (map ui_height us)"
  have chk: "check_upgrades 0 None ?us = Inr u \<longleftrightarrow> ?ok" for u
    by (simp add: check_upgrades_Inr_iff sort_strict_iff)
  have r: "(\<exists>p. r = Inr p) \<longleftrightarrow> ?ok \<and> (\<exists>v. snd (save_plan env ?p d) = Inr v)"
    using assms chk by (cases "check_upgrades 0 None ?us")
      (auto simp: create_plan_def Let_def split: prod.splits sum.splits)
  have i: "r = Inr p \<Longrightarrow> p = ?p \<and> us' = ?us \<and> ?ok \<and> save_plan env ?p d = (d', Inr ())" for p
    using assms chk by (cases "check_upgrades 0 None ?us")
      (auto simp: create_plan_def Let_def split: prod.splits sum.splits)
  show "(\<exists>p. r = Inr p) \<longleftrightarrow> pe_mkdir_ok env \<and> pe_write_ok env \<and>
      (\<forall>b. map_of (pd_entries d) (name @ ''-'' @ pe_stamp env (pe_now env) @ ''.json'') \<noteq> Some (Plan_subdir b)) \<and>
      (\<forall>u\<in>set us. valid_info u) \<and> distinct (map ui_height us)"
    unfolding r by (auto simp: save_plan_def plan_filename_def Let_def split: option.splits plan_entry.splits)
  show "r = Inr p \<Longrightarrow> up_upgrades p = sort_key ui_height us \<and> us' = up_upgrades p"
    using i [of p] gosort.srt_unique [of ui_height us] by auto
  show "r = Inr p \<Longrightarrow> pe_read_ok env \<Longrightarrow> load_plan env (plan_filename (pe_stamp env) p) d' = Inr p"
    using i [of p] by (auto simp: save_plan_def load_plan_def Let_def split: if_splits)
  show "r = Inr p \<Longrightarrow> validate_plan (Some p) = Inr () \<longleftrightarrow>
      name \<noteq> '''' \<and> us \<noteq> [] \<and> distinct (map ui_name us)"
    using i [of p] gosort.srt_length [of "\<lambda>u v. ui_height u < ui_height v" us]
    by (auto simp: validate_plan_Inr_iff sort_strict_iff gosort.srt_distinct_map
        simp del: gosort.srt_length)
qed

definition demo_plan_env :: plan_env where
  "demo_plan_env = \<lparr>pe_mkdir_ok = True, pe_write_ok = True, pe_read_ok = True, pe_now = 3,
     pe_stamp = \<lambda>_. ''t''\<rparr>"

abbreviation ui :: "string \<Rightarrow> int \<Rightarrow> upgrade_info" where
  "ui n h \<equiv> \<lparr>ui_name = n, ui_height = h, ui_info = []\<rparr>"

theorem create_plan_sorts_witness:
  "\<exists>p. snd (create_plan demo_plan_env ''p'' '''' ([ui ''b'' 20, ui ''a'' 10], \<lparr>pd_exists = False, pd_entries = []\<rparr>))
     = Inr p \<and> up_upgrades p = [ui ''a'' 10, ui ''b'' 20]"
proof -
  let ?us = "[ui ''b'' 20, ui ''a'' 10]" and ?d = "\<lparr>pd_exists = False, pd_entries = []\<rparr>"
  obtain us' d' r where e: "create_plan demo_plan_env ''p'' '''' (?us, ?d) = ((us', d'), r)"
    by (metis prod.exhaust)
  have "\<exists>p. r = Inr p" unfolding create_plan_sorts [OF e, THEN conjunct1]
    by (simp add: demo_plan_env_def valid_info_def)
  then obtain p where "r = Inr p" by blast
  with create_plan_sorts [OF e, THEN conjunct2, THEN conjunct1, THEN mp, OF this] e show ?thesis by simp
qed

text \<open>
  On a plan that \<open>ValidatePlan\<close> accepts, \<open>GetNextUpgrade\<close> returns the lowest upgrade above the
  current height, and nothing exactly when every upgrade has been passed; \<open>GetUpgradeByHeight\<close> finds
  the upgrade of a height whenever there is one.
\<close>

theorem next_upgrade_is_lowest_above:
  assumes "validate_plan (Some p) = Inr ()"
  shows "(get_next_upgrade p h = Some u \<longleftrightarrow>
      u \<in> set (up_upgrades p) \<and> h < ui_height u \<and>
      (\<forall>v\<in>set (up_upgrades p). h < ui_height v \<longrightarrow> ui_height u \<le> ui_height v)) \<and>
    (get_next_upgrade p h = None \<longleftrightarrow> (\<forall>v\<in>set (up_upgrades p). ui_height v \<le> h)) \<and>
    (get_upgrade_by_height p h = Some u \<longleftrightarrow> u \<in> set (up_upgrades p) \<and> ui_height u = h)"
proof (rule conj3I; (intro impI)?)
  have s: "sorted_wrt (\<lambda>x y. ui_height x < ui_height y) (up_upgrades p)"
    using assms by (simp add: validate_plan_Inr_iff)
  then show "get_next_upgrade p h = Some u \<longleftrightarrow>
      u \<in> set (up_upgrades p) \<and> h < ui_height u \<and>
      (\<forall>v\<in>set (up_upgrades p). h < ui_height v \<longrightarrow> ui_height u \<le> ui_height v)"
    by (simp add: get_next_upgrade_def find_sorted_min)
  show "get_next_upgrade p h = None \<longleftrightarrow> (\<forall>v\<in>set (up_upgrades p). ui_height v \<le> h)"
    by (auto simp: get_next_upgrade_def find_None_iff not_less)
  have "find (\<lambda>u. ui_height u = h) us = Some u \<longleftrightarrow> u \<in> set us \<and> ui_height u = h"
    if "sorted_wrt (\<lambda>x y. ui_height x < ui_height y) us" for us
    using that by (induction us) force+
  with s show "get_upgrade_by_height p h = Some u \<longleftrightarrow> u \<in> set (up_upgrades p) \<and> ui_height u = h"
    by (simp add: get_upgrade_by_height_def)
qed

definition demo_plan :: upgrade_plan where
  "demo_plan = \<lparr>up_version = ''1.0'', up_name = ''p'', up_description = '''', up_created_at = 1,
     up_upgrades = [ui ''a'' 10, ui ''b'' 20]\<rparr>"

lemma demo_plan_valid: "validate_plan (Some demo_plan) = Inr ()"
  by (simp add: validate_plan_def demo_plan_def)

theorem next_upgrade_is_lowest_above_witness:
  "get_next_upgrade demo_plan 10 = Some (ui ''b'' 20) \<and> get_next_upgrade demo_plan 20 = None"
  using next_upgrade_is_lowest_above [OF demo_plan_valid, of 10 "ui ''b'' 20", THEN conjunct1]
    next_upgrade_is_lowest_above [OF demo_plan_valid, of 20, THEN conjunct2, THEN conjunct1]
  by (simp add: demo_plan_def)

text \<open>
  The status of a plan whose upgrades are named agrees with \<open>GetNextUpgrade\<close>: completed and
  pending upgrades add up to the total, the active name is that of the next upgrade (empty when
  there is none), and the progress lies between 0 and 100, at 100 exactly when nothing is pending.
\<close>

theorem plan_status_agrees:
  assumes "\<forall>u\<in>set (up_upgrades p). ui_name u \<noteq> ''''"
  shows "(ps_completed (get_plan_status p h) + ps_pending (get_plan_status p h) = ps_total (get_plan_status p h)) \<and>
    (ps_active (get_plan_status p h) =
      (case get_next_upgrade p h of None \<Rightarrow> '''' | Some u \<Rightarrow> ui_name u)) \<and>
    (ps_progress (get_plan_status p h) = Some q \<longrightarrow>
      0 \<le> q \<and> q \<le> 100 \<and> (q = 100 \<longleftrightarrow> ps_pending (get_plan_status p h) = 0))"
proof (rule conj3I; (intro impI)?)
  let ?us = "up_upgrades p"
  have part: "length (filter (\<lambda>u. ui_height u \<le> h) us) + length (filter (\<lambda>u. h < ui_height u) us) = length us"
    for us using sum_length_filter_compl [of "\<lambda>u. ui_height u \<le> h" us] by (simp add: not_le)
  then show "ps_completed (get_plan_status p h) + ps_pending (get_plan_status p h) = ps_total (get_plan_status p h)"
    by (simp add: get_plan_status_def status_loop_eq)
  have "find (\<lambda>u. h < ui_height u \<and> ui_name u \<noteq> '''') us = find (\<lambda>u. h < ui_height u) us"
    if "\<forall>u\<in>set us. ui_name u \<noteq> ''''" for us
    using that by (induction us) auto
  from this [OF assms] show "ps_active (get_plan_status p h) =
      (case get_next_upgrade p h of None \<Rightarrow> '''' | Some u \<Rightarrow> ui_name u)"
    by (simp add: get_plan_status_def status_loop_eq get_next_upgrade_def)
  show "0 \<le> q \<and> q \<le> 100 \<and> (q = 100 \<longleftrightarrow> ps_pending (get_plan_status p h) = 0)"
    if "ps_progress (get_plan_status p h) = Some q"
  proof -
    let ?c = "length (filter (\<lambda>u. ui_height u \<le> h) ?us)" and ?n = "length ?us"
    have ne: "?us \<noteq> []" and q: "q = of_nat ?c / of_nat ?n * 100"
      using that by (auto simp: get_plan_status_def status_loop_eq split: if_splits)
    have pend: "ps_pending (get_plan_status p h) = ?n - ?c"
      using part [of ?us] by (simp add: get_plan_status_def status_loop_eq)
    have le: "?c \<le> ?n" by simp
    have pos: "(0::rat) < of_nat ?n" using ne by simp
    have "q = 100 \<longleftrightarrow> ?c = ?n"
    proof -
      have "q = 100 \<longleftrightarrow> (of_nat ?c :: rat) = of_nat ?n"
        unfolding q using pos by (auto simp: field_simps)
      then show ?thesis by (simp only: of_nat_eq_iff)
    qed
    moreover have "0 \<le> q" unfolding q by simp
    moreover have "q \<le> 100"
    proof -
      have "(of_nat ?c :: rat) \<le> of_nat ?n" using le by (simp only: of_nat_le_iff)
      then show ?thesis unfolding q using pos by (simp add: pos_divide_le_eq)
    qed
    moreover have "ps_pending (get_plan_status p h) = 0 \<longleftrightarrow> ?c = ?n"
      unfolding pend using le by linarith
    ultimately show ?thesis by blast
  qed
qed

theorem plan_status_agrees_witness:
  "ps_active (get_plan_status demo_plan 10) = ''b''"
  by (subst plan_status_agrees [THEN conjunct2, THEN conjunct1]) (simp_all add: demo_plan_def get_next_upgrade_def)

text \<open>
  Executing a plan validates it first and writes nothing when it is rejected. Otherwise there is a
  number of upgrades, all of them exactly when the call succeeds, such that each of the first so
  many has its record in the file of its height and no other file changed.
\<close>

theorem execute_plan_writes_prefix:
  assumes "is_abs home" and "execute_plan env home (Some p) fs = (fs', r)"
  shows "(validate_plan (Some p) = Inl e \<longrightarrow> fs' = fs \<and> r = Inl e) \<and>
    (validate_plan (Some p) = Inr () \<longrightarrow>
      (\<exists>n\<le>length (up_upgrades p). (r = Inr () \<longleftrightarrow> n = length (up_upgrades p)) \<and>
      (\<forall>u\<in>set (take n (up_upgrades p)). fs' (info_path home (ui_height u)) =
         Present \<lparr>uf_empty = False, uf_mtime = ie_now env, uf_decoded = Some u\<rparr>) \<and>
      (\<forall>q. (\<forall>u\<in>set (take n (up_upgrades p)). q \<noteq> info_path home (ui_height u)) \<longrightarrow> fs' q = fs q)))"
proof (rule conj2I; (intro impI)?)
  show "validate_plan (Some p) = Inl e \<Longrightarrow> fs' = fs \<and> r = Inl e"
    using assms(2) by (simp add: execute_plan_def)
  assume v: "validate_plan (Some p) = Inr ()"
  then have "distinct (map ui_height (up_upgrades p))"
    by (simp add: validate_plan_Inr_iff strictly_sorted_iff)
  moreover have "write_infos env home (up_upgrades p) fs = (fs', r)"
    using assms(2) v by (simp add: execute_plan_def)
  ultimately show "\<exists>n\<le>length (up_upgrades p). (r = Inr () \<longleftrightarrow> n = length (up_upgrades p)) \<and>
      (\<forall>u\<in>set (take n (up_upgrades p)). fs' (info_path home (ui_height u)) =
         Present \<lparr>uf_empty = False, uf_mtime = ie_now env, uf_decoded = Some u\<rparr>) \<and>
      (\<forall>q. (\<forall>u\<in>set (take n (up_upgrades p)). q \<noteq> info_path home (ui_height u)) \<longrightarrow> fs' q = fs q)"
    using write_infos_result [OF assms(1)] by blast
qed

theorem execute_plan_writes_prefix_witness:
  "\<exists>fs'. execute_plan \<lparr>ie_mkdir_ok = \<lambda>_. True, ie_write_ok = \<lambda>_. True, ie_now = 9\<rparr> ''/w'' (Some demo_plan)
      (\<lambda>_. Absent) = (fs', Inr ()) \<and>
    fs' (info_path ''/w'' 20) = Present \<lparr>uf_empty = False, uf_mtime = 9, uf_decoded = Some (ui ''b'' 20)\<rparr>"
proof -
  let ?env = "\<lparr>ie_mkdir_ok = \<lambda>_. True, ie_write_ok = \<lambda>_. True, ie_now = 9\<rparr>"
  obtain fs' r where e: "execute_plan ?env ''/w'' (Some demo_plan) (\<lambda>_. Absent) = (fs', r)" by fastforce
  have a: "is_abs ''/w''" by (simp add: is_abs_def)
  have r: "r = Inr ()"
    using e demo_plan_valid
    by (auto simp: execute_plan_def demo_plan_def write_height_info_def write_upgrade_info_file_def)
  from execute_plan_writes_prefix [OF a e, THEN conjunct2, THEN mp, OF demo_plan_valid] r
  have "fs' (info_path ''/w'' 20) = Present \<lparr>uf_empty = False, uf_mtime = 9, uf_decoded = Some (ui ''b'' 20)\<rparr>"
    by (auto simp: demo_plan_def)
  with e r show ?thesis by blast
qed

end
