(* ===== verification/Coordinator.thy ===== *)
theory Coordinator
  imports BatchPlans
begin

text \<open>
  \<open>internal/wbft/client.go\<close> and \<open>coordinator.go\<close>: the consensus client and the coordinator that walks a
  batch plan. An RPC answer is decoded: \<open>None\<close> for a transport or decoding failure, otherwise a result
  or an error object. The loops run over the list of what their tickers and channels deliver; a list
  that ends stands for the expired context.
\<close>

section \<open>The consensus client\<close>

record consensus_state =
  cs_height :: int
  cs_round :: int
  cs_step :: string
  cs_validator_index :: int
  cs_is_validator :: bool
  cs_is_syncing :: bool
  cs_catching_up :: bool
  cs_validator_count :: int
  cs_validator_power :: int
  cs_total_power :: int
  cs_validators :: "string list"

record node_status =
  ns_height :: int
  ns_catching_up :: bool
  ns_voting_power :: int

datatype wbft_error =
  Rpc_failed | Rpc_error int string | Unmarshal_failed | Still_syncing | No_active_plan
| Load_failed batch_error | Invalid_plan batch_error | Participation_timeout | Height_timeout int
| Context_done

type_synonym 'a rpc_answer = "((int \<times> string) option \<times> 'a option) option"

text \<open>The outer option of an answer is the transport, the first component the error object.\<close>

definition rpc_call :: "'a rpc_answer \<Rightarrow> wbft_error + 'a option" where
  "rpc_call a =
     (case a of
        None \<Rightarrow> Inl Rpc_failed
      | Some (Some (code, msg), _) \<Rightarrow> Inl (Rpc_error code msg)
      | Some (None, result) \<Rightarrow> Inr result)"

record rpc_env =
  re_status :: "node_status rpc_answer"
  re_consensus :: "consensus_state rpc_answer"

definition get_status :: "rpc_env \<Rightarrow> wbft_error + node_status" where
  "get_status env =
     (case rpc_call (re_status env) of
        Inl e \<Rightarrow> Inl e
      | Inr None \<Rightarrow> Inl Unmarshal_failed
      | Inr (Some s) \<Rightarrow> Inr s)"

definition zero_state :: consensus_state where
  "zero_state = \<lparr>cs_height = 0, cs_round = 0, cs_step = '''', cs_validator_index = 0,
     cs_is_validator = False, cs_is_syncing = False, cs_catching_up = False, cs_validator_count = 0,
     cs_validator_power = 0, cs_total_power = 0, cs_validators = []\<rparr>"

definition get_consensus_state :: "rpc_env \<Rightarrow> wbft_error + consensus_state" where
  "get_consensus_state env =
     (case get_status env of
        Inl e \<Rightarrow> Inl e
      | Inr st \<Rightarrow>
          let basic = zero_state\<lparr>cs_height := ns_height st, cs_is_syncing := ns_catching_up st,
                                 cs_catching_up := ns_catching_up st\<rparr> in
          (case rpc_call (re_consensus env) of
             Inl _ \<Rightarrow> Inr basic
           | Inr None \<Rightarrow> Inr basic
           | Inr (Some s) \<Rightarrow> Inr (s\<lparr>cs_height := ns_height st, cs_catching_up := ns_catching_up st\<rparr>)))"

definition get_current_height :: "rpc_env \<Rightarrow> wbft_error + int" where
  "get_current_height env =
     (case get_status env of Inl e \<Rightarrow> Inl e | Inr st \<Rightarrow> Inr (ns_height st))"

definition is_validator :: "bool \<Rightarrow> rpc_env \<Rightarrow> wbft_error + bool" where
  "is_validator validator_mode env =
     (if \<not> validator_mode then Inr False
      else (case get_status env of Inl e \<Rightarrow> Inl e | Inr st \<Rightarrow> Inr (ns_voting_power st > 0)))"

text \<open>\<open>CheckReadiness\<close> asks three times; each question has its own answers.\<close>

definition check_readiness :: "bool \<Rightarrow> rpc_env \<Rightarrow> rpc_env \<Rightarrow> wbft_error + unit" where
  "check_readiness validator_mode env1 env2 =
     (case get_consensus_state env1 of
        Inl e \<Rightarrow> Inl e
      | Inr st \<Rightarrow>
          if cs_is_syncing st \<or> cs_catching_up st then Inl Still_syncing
          else if validator_mode
          then (case is_validator validator_mode env2 of Inl e \<Rightarrow> Inl e | Inr _ \<Rightarrow> Inr ())
          else Inr ())"

definition has_state_changed :: "consensus_state \<Rightarrow> consensus_state \<Rightarrow> bool" where
  "has_state_changed old new \<longleftrightarrow>
     (if cs_height old \<noteq> cs_height new then True
      else if cs_round old \<noteq> cs_round new then True
      else if cs_step old \<noteq> cs_step new then True
      else if cs_is_syncing old \<noteq> cs_is_syncing new then True
      else if cs_is_validator old \<noteq> cs_is_validator new then True
      else False)"

text \<open>\<open>MonitorConsensus\<close>: the states sent over a run of ticks, each taken by the receiver.\<close>

fun monitor_consensus :: "consensus_state option \<Rightarrow> rpc_env list \<Rightarrow> consensus_state list" where
  "monitor_consensus prev [] = []"
| "monitor_consensus prev (env # envs) =
     (case get_consensus_state env of
        Inl _ \<Rightarrow> monitor_consensus prev envs
      | Inr st \<Rightarrow>
          if (case prev of None \<Rightarrow> True | Some old \<Rightarrow> has_state_changed old st)
          then st # monitor_consensus (Some st) envs
          else monitor_consensus prev envs)"

fun wait_for_height :: "int \<Rightarrow> rpc_env list \<Rightarrow> wbft_error + unit" where
  "wait_for_height target [] = Inl (Height_timeout target)"
| "wait_for_height target (env # envs) =
     (case get_current_height env of
        Inl _ \<Rightarrow> wait_for_height target envs
      | Inr h \<Rightarrow> if h \<ge> target then Inr () else wait_for_height target envs)"

section \<open>The coordinator\<close>

record coordinator =
  co_validator_mode :: bool
  co_info_path :: string
  co_active :: "upgrade_plan option"

definition coord_load_plan ::
  "plan_env \<Rightarrow> string \<Rightarrow> plan_dir \<Rightarrow> coordinator \<Rightarrow> (coordinator, wbft_error, unit) gores" where
  "coord_load_plan env filename d co =
     (case load_plan env filename d of
        Inl e \<Rightarrow> (co, Inl (Load_failed e))
      | Inr p \<Rightarrow>
          (case validate_plan (Some p) of
             Inl e \<Rightarrow> (co, Inl (Invalid_plan e))
           | Inr _ \<Rightarrow> (co\<lparr>co_active := Some p\<rparr>, Inr ())))"

record coord_env =
  oe_writable :: bool
  oe_now :: time
  oe_participation :: "rpc_env list"

definition prepare_upgrade :: "coord_env \<Rightarrow> coordinator \<Rightarrow> upgrade_info \<Rightarrow> ufs \<Rightarrow> ufs" where
  "prepare_upgrade env co u fs =
     fst (write_upgrade_info_file (oe_writable env) (oe_now env) (co_info_path co) u fs)"

text \<open>\<open>waitForConsensusParticipation\<close>: three ticks that find the validator in a later round.\<close>

fun participation_loop :: "consensus_state \<Rightarrow> nat \<Rightarrow> rpc_env list \<Rightarrow> wbft_error + unit" where
  "participation_loop st rounds [] = Inl Participation_timeout"
| "participation_loop st rounds (env # envs) =
     (case get_consensus_state env of
        Inl _ \<Rightarrow> participation_loop st rounds envs
      | Inr new \<Rightarrow>
          if cs_is_validator new \<and> cs_round new > cs_round st
          then (if Suc rounds \<ge> 3 then Inr () else participation_loop st (Suc rounds) envs)
          else participation_loop st rounds envs)"

definition wait_for_consensus_participation ::
  "consensus_state \<Rightarrow> rpc_env list \<Rightarrow> wbft_error + unit" where
  "wait_for_consensus_participation st envs =
     (if \<not> cs_is_validator st then Inr () else participation_loop st 0 envs)"

text \<open>\<open>triggerUpgrade\<close> reports the status of the plan and returns.\<close>

definition trigger_upgrade :: "coordinator \<Rightarrow> upgrade_info \<Rightarrow> plan_status option" where
  "trigger_upgrade co u = map_option (\<lambda>p. get_plan_status p (ui_height u)) (co_active co)"

text \<open>What a round did, besides writing the file.\<close>

datatype round_action =
  Approaching upgrade_info int
| Prepared upgrade_info
| Participation "wbft_error + unit"
| Triggered upgrade_info "plan_status option"

definition coord_round ::
  "coord_env \<Rightarrow> coordinator \<Rightarrow> upgrade_plan \<Rightarrow> consensus_state \<Rightarrow> ufs \<Rightarrow> ufs \<times> round_action list \<times> bool" where
  "coord_round env co p st fs =
     (case get_next_upgrade p (cs_height st) of
        None \<Rightarrow> (fs, [], True)
      | Some next \<Rightarrow>
          let blocks = wrap64 (ui_height next - cs_height st);
              near = blocks \<le> 100 \<and> blocks > 0;
              fs1 = (if near \<and> blocks \<le> 10 then prepare_upgrade env co next fs else fs);
              acts1 = (if near then [Approaching next blocks] @ (if blocks \<le> 10 then [Prepared next] else [])
                       else []);
              acts2 = (if cs_height st \<ge> ui_height next
                       then (if co_validator_mode co
                             then [Participation (wait_for_consensus_participation st (oe_participation env))]
                             else []) @ [Triggered next (trigger_upgrade co next)]
                       else []) in
          (fs1, acts1 @ acts2, False))"

datatype coord_event = Cons_state coord_env consensus_state | Closed_channel

fun coord_loop ::
  "coordinator \<Rightarrow> upgrade_plan \<Rightarrow> coord_event list \<Rightarrow> ufs \<Rightarrow> ufs \<times> round_action list \<times> (wbft_error + unit)" where
  "coord_loop co p [] fs = (fs, [], Inl Context_done)"
| "coord_loop co p (Closed_channel # evs) fs = coord_loop co p evs fs"
| "coord_loop co p (Cons_state env st # evs) fs =
     (case coord_round env co p st fs of
        (fs1, acts, True) \<Rightarrow> (fs1, acts, Inr ())
      | (fs1, acts, False) \<Rightarrow>
          (case coord_loop co p evs fs1 of (fs2, acts2, r) \<Rightarrow> (fs2, acts @ acts2, r)))"

definition monitor_and_coordinate ::
  "rpc_env \<Rightarrow> rpc_env \<Rightarrow> rpc_env \<Rightarrow> coordinator \<Rightarrow> coord_event list \<Rightarrow> ufs \<Rightarrow>
     ufs \<times> round_action list \<times> (wbft_error + unit)" where
  "monitor_and_coordinate env1 env2 env3 co evs fs =
     (case co_active co of
        None \<Rightarrow> (fs, [], Inl No_active_plan)
      | Some p \<Rightarrow>
          (case check_readiness (co_validator_mode co) env1 env2 of
             Inl e \<Rightarrow> (fs, [], Inl e)
           | Inr _ \<Rightarrow>
               (case get_current_height env3 of
                  Inl e \<Rightarrow> (fs, [], Inl e)
                | Inr _ \<Rightarrow> coord_loop co p evs fs)))"

definition coord_plan_status :: "rpc_env \<Rightarrow> coordinator \<Rightarrow> wbft_error + plan_status" where
  "coord_plan_status env co =
     (case co_active co of
        None \<Rightarrow> Inl No_active_plan
      | Some p \<Rightarrow>
          (case get_current_height env of Inl e \<Rightarrow> Inl e | Inr h \<Rightarrow> Inr (get_plan_status p h)))"

text \<open>The schedule check only logs; the warnings are its result.\<close>

datatype schedule_warning = Height_passed upgrade_info | Very_close upgrade_info int

definition validate_upgrade_schedule ::
  "rpc_env \<Rightarrow> coordinator \<Rightarrow> upgrade_plan \<Rightarrow> schedule_warning list \<times> (wbft_error + unit)" where
  "validate_upgrade_schedule env co p =
     (case get_current_height env of
        Inl e \<Rightarrow> ([], Inl e)
      | Inr h \<Rightarrow>
          (concat (map (\<lambda>u.
             (if ui_height u \<le> h then [Height_passed u] else []) @
             (let blocks = wrap64 (ui_height u - h) in
              if co_validator_mode co \<and> blocks > 0 \<and> blocks < 100 then [Very_close u blocks] else []))
             (up_upgrades p)), Inr ()))"

definition wait_timeout :: "int \<Rightarrow> duration" where
  "wait_timeout blocks =
     (let estimated = wrap64 (wrap64 (blocks * 2) * second) in
      wrap64 (estimated + (sgn estimated * (\<bar>estimated\<bar> div 5))))"

text \<open>The ticks of the second call are those that fire before its timeout.\<close>

definition wait_for_upgrade_height ::
  "rpc_env \<Rightarrow> (duration \<Rightarrow> rpc_env list) \<Rightarrow> upgrade_info \<Rightarrow> wbft_error + unit" where
  "wait_for_upgrade_height env ticks u =
     (case get_current_height env of
        Inl e \<Rightarrow> Inl e
      | Inr h \<Rightarrow>
          let blocks = wrap64 (ui_height u - h) in
          if blocks \<le> 0 then Inr ()
          else wait_for_height (ui_height u) (ticks (wait_timeout blocks)))"

section \<open>Lemmas\<close>

lemma next_above: "get_next_upgrade p h = Some u \<Longrightarrow> h < ui_height u \<and> u \<in> set (up_upgrades p)"
  by (auto simp: get_next_upgrade_def find_Some_iff)

definition triggered :: "round_action \<Rightarrow> bool" where
  "triggered a \<longleftrightarrow> (case a of Triggered _ _ \<Rightarrow> True | _ \<Rightarrow> False)"

lemma round_never_triggers: "\<forall>a\<in>set (fst (snd (coord_round env co p st fs))). \<not> triggered a"
  using next_above [of p "cs_height st"]
  by (force simp: coord_round_def Let_def triggered_def split: option.splits)

lemma loop_never_triggers: "\<forall>a\<in>set (fst (snd (coord_loop co p evs fs))). \<not> triggered a"
proof (induction co p evs fs rule: coord_loop.induct)
  case (3 co p env st evs fs)
  obtain fs1 acts b where r: "coord_round env co p st fs = (fs1, acts, b)" by (metis prod.exhaust)
  with round_never_triggers [of env co p st fs] have a: "\<forall>a\<in>set acts. \<not> triggered a" by simp
  obtain fs2 acts2 r2 where l: "coord_loop co p evs fs1 = (fs2, acts2, r2)" by (metis prod.exhaust)
  show ?case
  proof (cases b)
    case True
    with a r show ?thesis by simp
  next
    case False
    with 3 [OF r [symmetric] refl] l a r show ?thesis by auto
  qed
qed simp_all

lemma round_result:
  "snd (snd (coord_round env co p st fs)) \<longleftrightarrow> get_next_upgrade p (cs_height st) = None"
  by (cases "get_next_upgrade p (cs_height st)") (simp_all add: coord_round_def Let_def)

lemma loop_result:
  "snd (snd (coord_loop co p evs fs)) = Inr () \<longleftrightarrow>
     (\<exists>env st. Cons_state env st \<in> set evs \<and> get_next_upgrade p (cs_height st) = None)"
proof (induction co p evs fs rule: coord_loop.induct)
  case (3 co p env st evs fs)
  obtain fs1 acts b where r: "coord_round env co p st fs = (fs1, acts, b)" by (metis prod.exhaust)
  obtain fs2 acts2 r2 where l: "coord_loop co p evs fs1 = (fs2, acts2, r2)" by (metis prod.exhaust)
  from round_result [of env co p st fs] r
  have b: "b \<longleftrightarrow> get_next_upgrade p (cs_height st) = None" by simp
  show ?case
  proof (cases b)
    case True
    then have "snd (snd (coord_loop co p (Cons_state env st # evs) fs)) = Inr ()" by (simp add: r)
    with True b show ?thesis by (metis list.set_intros(1))
  next
    case False
    then have "snd (snd (coord_loop co p (Cons_state env st # evs) fs)) = r2" by (simp add: r l)
    moreover have "r2 = Inr () \<longleftrightarrow>
        (\<exists>env st. Cons_state env st \<in> set evs \<and> get_next_upgrade p (cs_height st) = None)"
      using 3 [OF r [symmetric] refl] False l by simp
    ultimately show ?thesis using False b by auto
  qed
qed simp_all

text \<open>The timeout of \<open>WaitForUpgradeHeight\<close> is 2.4 seconds a block, as long as that fits a duration.\<close>

lemma wait_timeout_value:
  assumes "0 < blocks" and "blocks * 2400000000 < 2 ^ 63"
  shows "wait_timeout blocks = blocks * 2400000000"
proof -
  have "is_int64 (blocks * 2)" "is_int64 (blocks * 2 * second)" "is_int64 (2400000000 * blocks)"
    using assms by (simp_all add: is_int64_def)
  moreover have "sgn (blocks * 2 * second) * (\<bar>blocks * 2 * second\<bar> div 5) = blocks * 400000000"
    using assms(1) by (simp add: sgn_mult)
  ultimately show ?thesis by (simp add: wait_timeout_def Let_def)
qed

text \<open>One block more and the sum wraps around: the wait then times out at once.\<close>

lemma wait_timeout_wraps: "wait_timeout 3843071682 > 0" "wait_timeout 3843071683 < 0"
  by (simp_all add: wait_timeout_def wrap64_def Let_def)

text \<open>Consecutive states that the consensus monitor sends differ.\<close>

lemma monitor_sends_changes:
  "successively has_state_changed ((case prev of None \<Rightarrow> [] | Some st \<Rightarrow> [st]) @ monitor_consensus prev envs)"
  by (induction prev envs rule: monitor_consensus.induct) (auto split: sum.splits option.splits)

section \<open>Properties\<close>

text \<open>
  The coordinator never triggers an upgrade, whatever consensus states it is sent: it compares the
  height with an upgrade that was chosen because its height is still ahead, so the branch that waits
  for consensus participation and triggers is dead. With a plan and a ready node it returns success
  exactly when some state has passed every upgrade of the plan.
\<close>

theorem coordinator_never_triggers:
  "filter triggered (fst (snd (monitor_and_coordinate env1 env2 env3 co evs fs))) = [] \<and>
   (snd (snd (monitor_and_coordinate env1 env2 env3 co evs fs)) = Inr () \<longleftrightarrow>
      (\<exists>p env st. co_active co = Some p \<and> check_readiness (co_validator_mode co) env1 env2 = Inr () \<and>
         (\<exists>h. get_current_height env3 = Inr h) \<and> Cons_state env st \<in> set evs \<and>
         get_next_upgrade p (cs_height st) = None))"
proof (cases "co_active co")
  case None
  then show ?thesis by (simp add: monitor_and_coordinate_def)
next
  case (Some p)
  have "filter triggered (fst (snd (coord_loop co p evs fs))) = []"
    using loop_never_triggers by (simp add: filter_empty_conv)
  then show ?thesis
    using Some loop_result [of co p evs fs]
    by (cases "check_readiness (co_validator_mode co) env1 env2"; cases "get_current_height env3")
      (simp_all add: monitor_and_coordinate_def)
qed

text \<open>
  What the coordinator does instead: in a round whose next upgrade is \<open>u\<close>, it writes the upgrade
  file of \<open>u\<close> exactly when at most ten blocks are left and the file can be written, so that parsing
  the file then gives \<open>u\<close> when \<open>u\<close> is valid, and in every other round it leaves the files alone.
\<close>

theorem coordinator_prepares_next:
  assumes "get_next_upgrade p (cs_height st) = Some u" and "is_int64 (ui_height u - cs_height st)"
    and "coord_round env co p st fs = (fs', acts, finished)"
  shows "(Prepared u \<in> set acts \<longleftrightarrow> ui_height u - cs_height st \<le> 10) \<and>
    (Prepared u \<in> set acts \<longrightarrow> oe_writable env \<longrightarrow> valid_info u \<longrightarrow>
      parse_upgrade_info_file fs' (co_info_path co) = Inr u) \<and>
    (Prepared u \<notin> set acts \<or> \<not> oe_writable env \<longrightarrow> fs' = fs) \<and>
    (\<not> finished)"
  using assms next_above [OF assms(1)]
  by (auto simp: coord_round_def Let_def prepare_upgrade_def write_upgrade_info_file_def parse_Inr_iff
      split: if_splits)

theorem coordinator_prepares_next_witness:
  "parse_upgrade_info_file (fst (coord_round \<lparr>oe_writable = True, oe_now = 4, oe_participation = []\<rparr>
     \<lparr>co_validator_mode = True, co_info_path = ''f'', co_active = Some demo_plan\<rparr> demo_plan
     (zero_state\<lparr>cs_height := 12\<rparr>) (\<lambda>_. Absent))) ''f'' = Inr (ui ''b'' 20)"
proof -
  let ?env = "\<lparr>oe_writable = True, oe_now = 4, oe_participation = []\<rparr>"
  let ?co = "\<lparr>co_validator_mode = True, co_info_path = ''f'', co_active = Some demo_plan\<rparr>"
  let ?st = "zero_state\<lparr>cs_height := 12\<rparr>"
  obtain fs' acts fin where e: "coord_round ?env ?co demo_plan ?st (\<lambda>_. Absent) = (fs', acts, fin)"
    by (metis prod.exhaust)
  have n: "get_next_upgrade demo_plan (cs_height ?st) = Some (ui ''b'' 20)"
    by (simp add: get_next_upgrade_def demo_plan_def)
  have i: "is_int64 (ui_height (ui ''b'' 20) - cs_height ?st)" by (simp add: is_int64_def)
  from coordinator_prepares_next [OF n i e] e show ?thesis by (simp add: valid_info_def)
qed

end
