(* ===== verification/Backups.thy ===== *)
theory Backups
  imports ConfigModel
begin

text \<open>
  \<open>internal/backup/backup.go\<close>: archives of the data directory. The state is the file tree around the
  home directory, by absolute path, and the files of the backup directory, by name. A tar archive is
  the list of its headers with their contents, and the file it broke off in, if any. What the
  operating system answers is an argument. Names of the tree are real paths: the home directory is
  named by one without a link on the way. Hard links are not modelled.
\<close>

text \<open>What \<open>Lstat\<close> finds; a link holds the absolute path it names.\<close>

datatype tnode = Tdir | Tfile string | Tlink string | Tsocket

type_synonym tree = "(string, tnode) gomap"

fun is_link :: "tnode option \<Rightarrow> bool" where
  "is_link (Some (Tlink q)) = True"
| "is_link _ = False"

section \<open>Links\<close>

text \<open>
  Looking a path up follows a link at every component, the last one too, at most 40 of them: the
  components of the real path, which need not exist.
\<close>

definition link_budget :: nat where "link_budget = 40"

fun real_comps :: "nat \<Rightarrow> tree \<Rightarrow> string list \<Rightarrow> string list \<Rightarrow> string list option" where
  "real_comps n t ds [] = Some ds"
| "real_comps n t ds (c # cs) =
     (case map_of t (abs_path (ds @ [c])) of
        Some (Tlink q) \<Rightarrow> (case n of 0 \<Rightarrow> None | Suc m \<Rightarrow> real_comps m t [] (path_comps q @ cs))
      | _ \<Rightarrow> real_comps n t (ds @ [c]) cs)"

definition real_path :: "tree \<Rightarrow> string list \<Rightarrow> string list option" where
  "real_path t cs = real_comps link_budget t [] cs"

text \<open>What reading through a path gives, and whether \<open>os.Stat\<close> finds nothing there.\<close>

definition read_path :: "tree \<Rightarrow> string \<Rightarrow> string option" where
  "read_path t p =
     (case real_path t (path_comps p) of
        None \<Rightarrow> None
      | Some qs \<Rightarrow> (case map_of t (abs_path qs) of Some (Tfile s) \<Rightarrow> Some s | _ \<Rightarrow> None))"

definition path_missing :: "tree \<Rightarrow> string \<Rightarrow> bool" where
  "path_missing t p \<longleftrightarrow>
     (case real_path t (path_comps p) of
        None \<Rightarrow> False | Some qs \<Rightarrow> qs \<noteq> [] \<and> map_of t (abs_path qs) = None)"

definition is_dir :: "tree \<Rightarrow> string list \<Rightarrow> bool" where
  "is_dir t qs \<longleftrightarrow> qs = [] \<or> map_of t (abs_path qs) = Some Tdir"

text \<open>\<open>os.MkdirAll\<close> makes what is missing of a path, component by component, up to where it fails; a
  link to a directory is followed, and one that leads nowhere is in the way.\<close>

fun mkdir_path :: "(string \<Rightarrow> bool) \<Rightarrow> string list \<Rightarrow> string list \<Rightarrow> tree \<Rightarrow> tree \<times> bool" where
  "mkdir_path ok ds [] t = (t, True)"
| "mkdir_path ok ds (c # cs) t =
     (case (real_path t ds, real_path t (ds @ [c])) of
        (Some ps, Some qs) \<Rightarrow>
          if is_dir t qs then mkdir_path ok (ds @ [c]) cs t
          else if map_of t (abs_path qs) = None \<and> qs = ps @ [c] \<and> ok (abs_path qs)
          then mkdir_path ok (ds @ [c]) cs (gm_put (abs_path qs) Tdir t)
          else (t, False)
      | _ \<Rightarrow> (t, False))"

definition tree_mkdirs :: "(string \<Rightarrow> bool) \<Rightarrow> string \<Rightarrow> tree \<Rightarrow> tree \<times> bool" where
  "tree_mkdirs ok p t = mkdir_path ok [] (path_comps p) t"

text \<open>
  \<open>os.Create\<close>, or \<open>os.WriteFile\<close>, through a path: a file at the end of its links is written, or made
  where its directory is one.
\<close>

definition write_path :: "(string \<Rightarrow> bool) \<Rightarrow> string \<Rightarrow> string \<Rightarrow> tree \<Rightarrow> tree \<times> bool" where
  "write_path ok p content t =
     (case real_path t (path_comps p) of
        None \<Rightarrow> (t, False)
      | Some qs \<Rightarrow>
          (case map_of t (abs_path qs) of
             Some (Tfile _) \<Rightarrow>
               if ok (abs_path qs) then (gm_put (abs_path qs) (Tfile content) t, True) else (t, False)
           | None \<Rightarrow>
               if qs \<noteq> [] \<and> is_dir t (butlast qs) \<and> ok (abs_path qs)
               then (gm_put (abs_path qs) (Tfile content) t, True) else (t, False)
           | _ \<Rightarrow> (t, False)))"

section \<open>Archives\<close>

record archive =
  ar_entries :: "(string \<times> tnode) list"
  ar_cut :: "string option"

datatype bentry = Subdir | Archive_file archive time | Other_file time

record backup_state =
  bs_tree :: tree
  bs_dir :: "(string, bentry) gomap"

record backup_env =
  be_mkdir_ok :: bool
  be_stamp :: string
  be_create_ok :: bool
  be_walk_ok :: "string \<Rightarrow> bool"
  be_open_ok :: "string \<Rightarrow> bool"
  be_now :: time

datatype backup_error =
  Backup_dir_failed | Archive_create_failed | Archive_failed | Archive_open_failed | Not_an_archive
| Extract_dir_failed | Extract_file_failed | Read_dir_failed

definition has_prefix :: "string \<Rightarrow> string \<Rightarrow> bool" where
  "has_prefix p pre \<longleftrightarrow> take (length pre) p = pre"

text \<open>\<open>filepath.Walk\<close> visits the root and what is below it, the names of a directory in order.\<close>

definition below :: "string \<Rightarrow> string \<Rightarrow> bool" where
  "below root p \<longleftrightarrow> p = root \<or> has_prefix p (root @ [slash])"

definition walk_order :: "string \<Rightarrow> tree \<Rightarrow> (string \<times> tnode) list" where
  "walk_order root t = sort_key (\<lambda>(p, _). split_slash p) (filter (\<lambda>(p, _). below root p) t)"

text \<open>
  The walk function of \<open>createArchive\<close> over the visited paths: the entries written, the file broken
  off in, and whether it ended without an error. A header promises the length of a regular file and
  none for a link, so copying the content of a link is too long unless it is empty.
\<close>

fun write_entries ::
  "backup_env \<Rightarrow> tree \<Rightarrow> string \<Rightarrow> string \<Rightarrow> (string \<times> tnode) list \<Rightarrow> archive \<times> bool" where
  "write_entries env tr home skip [] = (\<lparr>ar_entries = [], ar_cut = None\<rparr>, True)"
| "write_entries env tr home skip ((p, t) # rest) =
     (let stop = \<lparr>ar_entries = [], ar_cut = None\<rparr>;
          go_on = (\<lambda>e. case write_entries env tr home skip rest of
                     (a, ok) \<Rightarrow> (a\<lparr>ar_entries := e # ar_entries a\<rparr>, ok)) in
      if \<not> be_walk_ok env p then (stop, False)
      else if has_prefix p skip then write_entries env tr home skip rest
      else if t = Tsocket then (stop, False)
      else (case path_rel home p of
              None \<Rightarrow> (stop, False)
            | Some name \<Rightarrow>
                (case t of
                   Tdir \<Rightarrow> go_on (name, Tdir)
                 | Tfile content \<Rightarrow>
                     if be_open_ok env p then go_on (name, Tfile content)
                     else if content = '''' then (stop\<lparr>ar_entries := [(name, Tfile '''')]\<rparr>, False)
                     else (stop\<lparr>ar_cut := Some name\<rparr>, False)
                 | Tlink _ \<Rightarrow>
                     if be_open_ok env p \<and> read_path tr p = Some '''' then go_on (name, t)
                     else (stop\<lparr>ar_entries := [(name, t)]\<rparr>, False)
                 | Tsocket \<Rightarrow> (stop, False))))"

definition data_dir :: "config \<Rightarrow> string" where
  "data_dir c = path_join [cf_home (c_core c), ''data'']"

definition backup_dir :: "config \<Rightarrow> string" where
  "backup_dir c = cf_data_backup_path (c_backup c)"

definition create_archive ::
  "config \<Rightarrow> backup_env \<Rightarrow> string \<Rightarrow> backup_state \<Rightarrow> (backup_state, backup_error, unit) gores" where
  "create_archive c env file s =
     (if path_missing (bs_tree s) (data_dir c) then (s, Inr ())
      else if \<not> be_create_ok env then (s, Inl Archive_create_failed)
      else (case write_entries env (bs_tree s) (cf_home (c_core c)) (backup_dir c)
                   (walk_order (data_dir c) (bs_tree s)) of
              (a, ok) \<Rightarrow>
                (s\<lparr>bs_dir := gm_put file (Archive_file a (be_now env)) (bs_dir s)\<rparr>,
                 if ok then Inr () else Inl Archive_failed)))"

definition backup_name :: "backup_env \<Rightarrow> string \<Rightarrow> string" where
  "backup_name env name = name @ ''-'' @ be_stamp env @ ''.tar.gz''"

text \<open>\<open>CreateBackup\<close> returns the path of the archive, and the empty path when backups are switched off.\<close>

definition create_backup ::
  "config \<Rightarrow> backup_env \<Rightarrow> string \<Rightarrow> backup_state \<Rightarrow> (backup_state, backup_error, string) gores" where
  "create_backup c env name s =
     (if cf_unsafe_skip_backup (c_backup c) then (s, Inr '''')
      else if \<not> be_mkdir_ok env then (s, Inl Backup_dir_failed)
      else (case create_archive c env (backup_name env name) s of
              (s1, Inl e) \<Rightarrow> (s1, Inl e)
            | (s1, Inr _) \<Rightarrow> (s1, Inr (path_join [backup_dir c, backup_name env name]))))"

text \<open>\<open>extractFile\<close>: creating a file where a link is writes what the link leads to.\<close>

definition extract_file ::
  "(string \<Rightarrow> bool) \<Rightarrow> string \<Rightarrow> string \<Rightarrow> string \<Rightarrow> tree \<Rightarrow> tree \<times> bool" where
  "extract_file ok home name content t =
     (let p = path_join [home, name] in
      case tree_mkdirs ok (path_dir p) t of
        (t1, False) \<Rightarrow> (t1, False)
      | (t1, True) \<Rightarrow> write_path ok p content t1)"

fun extract_all :: "(string \<Rightarrow> bool) \<Rightarrow> string \<Rightarrow> (string \<times> tnode) list \<Rightarrow> tree \<Rightarrow> (tree, backup_error, unit) gores" where
  "extract_all ok home [] t = (t, Inr ())"
| "extract_all ok home ((name, n) # es) t =
     (case n of
        Tdir \<Rightarrow>
          (case tree_mkdirs ok (path_join [home, name]) t of
             (t1, False) \<Rightarrow> (t1, Inl Extract_dir_failed)
           | (t1, True) \<Rightarrow> extract_all ok home es t1)
      | Tfile content \<Rightarrow>
          (case extract_file ok home name content t of
             (t1, False) \<Rightarrow> (t1, Inl Extract_file_failed)
           | (t1, True) \<Rightarrow> extract_all ok home es t1)
      | _ \<Rightarrow> extract_all ok home es t)"

definition restore_backup ::
  "config \<Rightarrow> (string \<Rightarrow> bool) \<Rightarrow> string \<Rightarrow> backup_state \<Rightarrow> (backup_state, backup_error, unit) gores" where
  "restore_backup c ok path s =
     (let home = cf_home (c_core c) in
      case find (\<lambda>(n, _). path_join [backup_dir c, n] = path) (bs_dir s) of
        None \<Rightarrow> (s, Inl Archive_open_failed)
      | Some (_, Subdir) \<Rightarrow> (s, Inl Not_an_archive)
      | Some (_, Other_file _) \<Rightarrow> (s, Inl Not_an_archive)
      | Some (_, Archive_file a _) \<Rightarrow>
          (case extract_all ok home (ar_entries a) (bs_tree s) of
             (t, Inl e) \<Rightarrow> (s\<lparr>bs_tree := t\<rparr>, Inl e)
           | (t, Inr _) \<Rightarrow>
               (case ar_cut a of
                  None \<Rightarrow> (s\<lparr>bs_tree := t\<rparr>, Inr ())
                | Some name \<Rightarrow> (s\<lparr>bs_tree := fst (extract_file ok home name '''' t)\<rparr>, Inl Extract_file_failed))))"

text \<open>The clean-up looks at the age of every file in the backup directory, whatever it is.\<close>

fun entry_time :: "bentry \<Rightarrow> time option" where
  "entry_time Subdir = None"
| "entry_time (Archive_file a t) = Some t"
| "entry_time (Other_file t) = Some t"

definition clean_old_backups ::
  "(string \<Rightarrow> bool) \<Rightarrow> time \<Rightarrow> duration \<Rightarrow> backup_state \<Rightarrow> backup_state" where
  "clean_old_backups removable now max_age s =
     s\<lparr>bs_dir := filter (\<lambda>(n, e). \<not> (case entry_time e of
          None \<Rightarrow> False | Some t \<Rightarrow> now - t > max_age \<and> removable n)) (bs_dir s)\<rparr>"

definition list_backups :: "backup_state \<Rightarrow> string list" where
  "list_backups s = map fst (filter (\<lambda>(n, e). e \<noteq> Subdir \<and> path_ext n = ''.gz'') (bs_dir s))"

section \<open>Trees below the home directory\<close>

abbreviation at_home :: "string \<Rightarrow> string list \<Rightarrow> string" where
  "at_home home es \<equiv> abs_path (path_comps home @ es)"

abbreviation plain_comps :: "string list \<Rightarrow> bool" where
  "plain_comps es \<equiv> es \<noteq> [] \<and> (\<forall>e\<in>set es. plain e)"

text \<open>
  Every path of the data directory is a clean path below the home directory, and the parent of a
  path below the home directory is a directory.
\<close>

definition tree_below :: "string \<Rightarrow> tree \<Rightarrow> bool" where
  "tree_below home t \<longleftrightarrow>
     gm_ok t \<and>
     (\<forall>p\<in>fst ` set t. below (at_home home [''data'']) p \<longrightarrow> (\<exists>es. plain_comps es \<and> p = at_home home es)) \<and>
     (\<forall>es e. plain_comps (es @ [e]) \<longrightarrow> es \<noteq> [] \<longrightarrow> map_of t (at_home home (es @ [e])) \<noteq> None \<longrightarrow>
        map_of t (at_home home es) = Some Tdir)"

text \<open>The home directory and those above it are directories, so far as the tree has them.\<close>

definition home_dirs :: "string \<Rightarrow> tree \<Rightarrow> bool" where
  "home_dirs home t \<longleftrightarrow>
     (\<forall>k\<le>length (path_comps home). map_of t (abs_path (take k (path_comps home))) \<in> {None, Some Tdir})"

text \<open>No link is met on the way along a path.\<close>

definition link_free :: "tree \<Rightarrow> string list \<Rightarrow> bool" where
  "link_free t cs \<longleftrightarrow> (\<forall>k\<le>length cs. \<not> is_link (map_of t (abs_path (take k cs))))"

lemma rel_home:
  assumes "is_abs home" and "plain_comps es"
  shows "path_rel home (at_home home es) = Some (join_slash es)"
proof -
  note h = path_comps_plain [OF assms(1)]
  have "path_rel home p = path_rel (abs_path (path_comps home)) p" if "is_abs p" for p
    using that assms(1) h by (simp add: path_rel_def comps_abs_path)
  with rel_below [of "path_comps home" es] h assms(2) show ?thesis by simp
qed

lemma join_home:
  assumes "is_abs home" and "plain_comps es"
  shows "path_join [home, join_slash es] = at_home home es"
proof -
  have "join_slash es \<noteq> ''''"
    using assms(2) by (intro join_slash_nonempty) (auto simp: plain_def)
  moreover have "split_slash (join_slash es) = es"
    using assms(2) by (simp add: split_join plain_def)
  ultimately show ?thesis using assms by (simp add: join_abs)
qed

lemma at_home_inject:
  assumes "is_abs home" and "\<forall>e\<in>set es. plain e" and "\<forall>e\<in>set fs. plain e"
  shows "at_home home es = at_home home fs \<longleftrightarrow> es = fs"
  using assms path_comps_plain [OF assms(1)] by (subst abs_path_inject) auto

lemma join_component:
  assumes "is_abs home" and "\<forall>e\<in>set es. plain e" and "plain e"
  shows "path_join [at_home home es, e] = at_home home (es @ [e])"
  using assms path_comps_plain [OF assms(1)] join_abs_path [of "path_comps home @ es" "[e]"] by auto

lemma join_first: "is_abs home \<Longrightarrow> plain e \<Longrightarrow> path_join [home, e] = at_home home [e]"
  using join_plain [of home "[e]"] by simp

section \<open>What extraction keeps\<close>

text \<open>Only links decide what a path leads to, and making directories makes no link.\<close>

lemma real_comps_cong:
  assumes "\<And>p q. map_of t' p = Some (Tlink q) \<longleftrightarrow> map_of t p = Some (Tlink q)"
  shows "real_comps n t' ds cs = real_comps n t ds cs"
  using assms
proof (induction n t ds cs rule: real_comps.induct)
  case (2 n t ds c cs)
  let ?p = "abs_path (ds @ [c])"
  show ?case
  proof (cases "\<exists>q. map_of t ?p = Some (Tlink q)")
    case True
    then obtain q where q: "map_of t ?p = Some (Tlink q)" by blast
    with "2.prems" have q': "map_of t' ?p = Some (Tlink q)" by simp
    have "real_comps m t' [] (path_comps q @ cs) = real_comps m t [] (path_comps q @ cs)" if "n = Suc m" for m
      using "2.IH" "2.prems" q that by simp
    then show ?thesis by (cases n) (simp_all add: q q')
  next
    case False
    with "2.prems" have F': "\<nexists>q. map_of t' ?p = Some (Tlink q)" by simp
    have skip: "real_comps n u ds (c # cs) = real_comps n u (ds @ [c]) cs"
      if "\<nexists>q. map_of u ?p = Some (Tlink q)" for u
      using that by (auto split: option.splits tnode.splits)
    have "real_comps n t' (ds @ [c]) cs = real_comps n t (ds @ [c]) cs"
      using "2.IH" "2.prems" False by (cases "map_of t ?p"; cases "the (map_of t ?p)") auto
    with skip [OF False] skip [OF F'] show ?thesis by simp
  qed
qed simp

lemma real_comps_free:
  assumes "\<And>k. 0 < k \<Longrightarrow> k \<le> length cs \<Longrightarrow> \<not> is_link (map_of t (abs_path (ds @ take k cs)))"
  shows "real_comps n t ds cs = Some (ds @ cs)"
  using assms
proof (induction cs arbitrary: ds)
  case (Cons c cs)
  have "\<not> is_link (map_of t (abs_path (ds @ [c])))" using Cons.prems [of 1] by simp
  moreover have "real_comps n t (ds @ [c]) cs = Some ((ds @ [c]) @ cs)"
    by (rule Cons.IH) (use Cons.prems [of "Suc _"] in simp)
  ultimately show ?case by (auto split: option.splits tnode.splits)
qed simp

lemma real_path_free: "link_free t cs \<Longrightarrow> real_path t cs = Some cs"
  using real_comps_free [of cs t "[]"] by (simp add: real_path_def link_free_def)

lemma link_free_take: "link_free t cs \<Longrightarrow> link_free t (take k cs)"
  by (auto simp: link_free_def min_def)

lemma link_free_butlast: "link_free t cs \<Longrightarrow> link_free t (butlast cs)"
  by (simp add: butlast_conv_take link_free_take)

text \<open>What making directories and writing a file do to the nodes that were there.\<close>

lemma mkdir_path_keeps: "mkdir_path ok ds cs t = (t', b) \<Longrightarrow> map_of t q \<noteq> None \<Longrightarrow> map_of t' q = map_of t q"
proof (induction ok ds cs t rule: mkdir_path.induct)
  case (2 ok ds c cs t)
  then show ?case
    by (auto split: option.splits if_splits simp del: map_of_eq_Some_iff)
qed simp

lemma mkdir_path_new:
  "mkdir_path ok ds cs t = (t', b) \<Longrightarrow> map_of t q = None \<Longrightarrow> map_of t' q \<in> {None, Some Tdir}"
proof (induction ok ds cs t rule: mkdir_path.induct)
  case (2 ok ds c cs t)
  show ?case
  proof (cases "\<exists>qs. real_path t (ds @ [c]) = Some qs \<and> real_path t ds \<noteq> None")
    case True
    then obtain ps qs where r: "real_path t ds = Some ps" "real_path t (ds @ [c]) = Some qs" by auto
    consider "is_dir t qs"
      | "\<not> is_dir t qs" "map_of t (abs_path qs) = None \<and> qs = ps @ [c] \<and> ok (abs_path qs)"
      | "\<not> is_dir t qs" "\<not> (map_of t (abs_path qs) = None \<and> qs = ps @ [c] \<and> ok (abs_path qs))" by blast
    then show ?thesis
    proof cases
      case 1
      with "2.IH"(1) [OF refl r 1] "2.prems" r show ?thesis by simp
    next
      case 2
      note m = "2.IH"(2) [OF refl r 2]
      have e: "mkdir_path ok (ds @ [c]) cs (gm_put (abs_path qs) Tdir t) = (t', b)"
        using "2.prems"(1) r 2 by auto
      show ?thesis
      proof (cases "q = abs_path qs")
        case True
        with mkdir_path_keeps [OF e, of q] show ?thesis by simp
      next
        case False
        with m [OF e] "2.prems"(2) show ?thesis by simp
      qed
    next
      case 3
      with "2.prems" r show ?thesis by auto
    qed
  next
    case False
    with "2.prems" show ?thesis by (auto split: option.splits)
  qed
qed simp

lemma mkdir_path_links:
  assumes "mkdir_path ok ds cs t = (t', b)"
  shows "map_of t' p = Some (Tlink q) \<longleftrightarrow> map_of t p = Some (Tlink q)"
  using mkdir_path_keeps [OF assms, of p] mkdir_path_new [OF assms, of p] by (cases "map_of t p") auto

lemma link_free_cong:
  "(\<And>p q. map_of t' p = Some (Tlink q) \<longleftrightarrow> map_of t p = Some (Tlink q)) \<Longrightarrow> link_free t' cs = link_free t cs"
  unfolding link_free_def by (metis is_link.elims(2) is_link.simps(1))

lemma mkdir_path_dirs:
  assumes "mkdir_path ok ds cs t = (t', True)" and "link_free t (ds @ cs)" and "is_dir t ds"
  shows "is_dir t' (ds @ cs)"
  using assms
proof (induction ok ds cs t rule: mkdir_path.induct)
  case (2 ok ds c cs t)
  have f: "link_free t (take (length ds) (ds @ c # cs))" "link_free t (take (Suc (length ds)) (ds @ c # cs))"
    using "2.prems"(2) by (blast intro: link_free_take)+
  then have r: "real_path t ds = Some ds" "real_path t (ds @ [c]) = Some (ds @ [c])"
    by (simp_all add: real_path_free)
  let ?q = "abs_path (ds @ [c])"
  show ?case
  proof (cases "is_dir t (ds @ [c])")
    case True
    with "2.IH"(1) [OF refl r True] "2.prems"(1,2) r show ?thesis by simp
  next
    case False
    with "2.prems"(1) r have n: "map_of t ?q = None \<and> ds @ [c] = ds @ [c] \<and> ok ?q"
      and e: "mkdir_path ok (ds @ [c]) cs (gm_put ?q Tdir t) = (t', True)"
      by (auto split: if_splits)
    have "link_free (gm_put ?q Tdir t) ((ds @ [c]) @ cs)"
      using "2.prems"(2) n by (subst link_free_cong [of _ t]) (auto simp del: map_of_eq_Some_iff)
    moreover have "is_dir (gm_put ?q Tdir t) (ds @ [c])" by (simp add: is_dir_def)
    ultimately show ?thesis using "2.IH"(2) [OF refl r False n e] by simp
  qed
qed simp

text \<open>Directories already there are accepted, and nothing changes.\<close>

lemma mkdir_path_present:
  assumes "link_free t (ds @ cs)" and "\<And>k. k \<le> length cs \<Longrightarrow> is_dir t (ds @ take k cs)"
  shows "mkdir_path ok ds cs t = (t, True)"
  using assms
proof (induction cs arbitrary: ds)
  case (Cons c cs)
  have f: "link_free t (take (length ds) (ds @ c # cs))" "link_free t (take (Suc (length ds)) (ds @ c # cs))"
    using Cons.prems(1) by (blast intro: link_free_take)+
  have "mkdir_path ok (ds @ [c]) cs t = (t, True)"
    by (rule Cons.IH) (use Cons.prems(1) Cons.prems(2) [of "Suc _"] in simp_all)
  moreover have "is_dir t (ds @ [c])" using Cons.prems(2) [of 1] by simp
  ultimately show ?case using f by (simp add: real_path_free)
qed simp

text \<open>Missing directories are made, over a tree in which every directory of the way is one or missing.\<close>

lemma mkdir_path_makes:
  assumes "\<forall>p. ok p" and "\<forall>c\<in>set (ds @ cs). plain c" and "is_dir t ds"
    and "\<And>k. k \<le> length (ds @ cs) \<Longrightarrow> map_of t (abs_path (take k (ds @ cs))) \<in> {None, Some Tdir}"
  shows "\<exists>t'. mkdir_path ok ds cs t = (t', True)"
  using assms(2-4)
proof (induction cs arbitrary: ds t)
  case (Cons c cs)
  let ?q = "abs_path (ds @ [c])"
  have "link_free t (ds @ c # cs)"
    unfolding link_free_def using Cons.prems(3) by force
  then have f: "link_free t (take (length ds) (ds @ c # cs))" "link_free t (take (Suc (length ds)) (ds @ c # cs))"
    by (blast intro: link_free_take)+
  then have r: "real_path t ds = Some ds" "real_path t (ds @ [c]) = Some (ds @ [c])"
    by (simp_all add: real_path_free)
  have n: "map_of t ?q \<in> {None, Some Tdir}" using Cons.prems(3) [of "Suc (length ds)"] by simp
  show ?case
  proof (cases "is_dir t (ds @ [c])")
    case True
    with Cons.IH [of "ds @ [c]" t] Cons.prems r show ?thesis by simp
  next
    case False
    with n have n': "map_of t ?q = None" by (auto simp: is_dir_def)
    have "\<exists>t'. mkdir_path ok (ds @ [c]) cs (gm_put ?q Tdir t) = (t', True)"
    proof (rule Cons.IH)
      show "map_of (gm_put ?q Tdir t) (abs_path (take k ((ds @ [c]) @ cs))) \<in> {None, Some Tdir}"
        if "k \<le> length ((ds @ [c]) @ cs)" for k
        using Cons.prems(3) [of k] that by (auto simp del: map_of_eq_Some_iff)
    qed (use Cons.prems(1) in \<open>auto simp: is_dir_def\<close>)
    with False n' r spec [OF assms(1), of ?q] show ?thesis by simp
  qed
qed simp

lemma write_path_free:
  assumes "link_free t cs" and "\<forall>c\<in>set cs. plain c"
  shows "write_path ok (abs_path cs) content t =
    (case map_of t (abs_path cs) of
       Some (Tfile _) \<Rightarrow>
         if ok (abs_path cs) then (gm_put (abs_path cs) (Tfile content) t, True) else (t, False)
     | None \<Rightarrow> if cs \<noteq> [] \<and> is_dir t (butlast cs) \<and> ok (abs_path cs)
               then (gm_put (abs_path cs) (Tfile content) t, True) else (t, False)
     | _ \<Rightarrow> (t, False))"
  using real_path_free [OF assms(1)] comps_abs_path [OF assms(2)] by (simp add: write_path_def)

text \<open>Extraction to a path without a link on the way.\<close>

lemma dir_home:
  assumes "is_abs home" and "plain_comps es"
  shows "path_dir (at_home home es) = abs_path (path_comps home @ butlast es)"
proof -
  obtain fs e where es: "es = fs @ [e]" using assms(2) by (metis append_butlast_last_id)
  with assms path_comps_plain [OF assms(1)] show ?thesis
    using dir_abs [of "path_comps home @ fs" e] by auto
qed

lemma extract_file_free:
  assumes "is_abs home" and "plain_comps es" and "link_free t (path_comps home @ es)"
    and "extract_file ok home (join_slash es) content t = (t', True)"
  shows "map_of t' (at_home home es) = Some (Tfile content)"
    and "map_of t q \<noteq> None \<Longrightarrow> q \<noteq> at_home home es \<Longrightarrow> map_of t' q = map_of t q"
    and "map_of t' p = Some (Tlink l) \<longleftrightarrow> map_of t p = Some (Tlink l)"
proof -
  let ?cs = "path_comps home @ es"
  have pl: "\<forall>c\<in>set ?cs. plain c" using path_comps_plain [OF assms(1)] assms(2) by auto
  obtain t1 where m: "tree_mkdirs ok (abs_path (path_comps home @ butlast es)) t = (t1, True)"
    and w: "write_path ok (abs_path ?cs) content t1 = (t', True)"
    using assms(4) join_home [OF assms(1,2)] dir_home [OF assms(1,2)]
    by (auto simp: extract_file_def Let_def split: prod.splits bool.splits)
  note m = m [unfolded tree_mkdirs_def]
  have "link_free t1 ?cs" using assms(3) link_free_cong [OF mkdir_path_links [OF m]] by simp
  note w = w [unfolded write_path_free [OF this pl]]
  have nl: "map_of t1 (abs_path ?cs) \<noteq> Some (Tlink l)" for l
    using w by (auto split: option.splits tnode.splits)
  from w have t': "t' = gm_put (abs_path ?cs) (Tfile content) t1"
    by (auto split: option.splits tnode.splits if_splits)
  then show "map_of t' (at_home home es) = Some (Tfile content)" by simp
  show "map_of t' q = map_of t q" if "map_of t q \<noteq> None" "q \<noteq> at_home home es"
    using t' that mkdir_path_keeps [OF m that(1)] by simp
  show "map_of t' p = Some (Tlink l) \<longleftrightarrow> map_of t p = Some (Tlink l)"
    using t' nl [of l] mkdir_path_links [OF m, of p l] by (auto simp del: map_of_eq_Some_iff)
qed

lemma link_free_home:
  assumes "home_dirs home t" and "is_abs home"
    and "\<And>k. 0 < k \<Longrightarrow> k \<le> length es \<Longrightarrow> \<not> is_link (map_of t (at_home home (take k es)))"
  shows "link_free t (path_comps home @ es)"
  unfolding link_free_def
proof (intro allI impI)
  fix k assume k: "k \<le> length (path_comps home @ es)"
  show "\<not> is_link (map_of t (abs_path (take k (path_comps home @ es))))"
  proof (cases "k \<le> length (path_comps home)")
    case True
    with assms(1) show ?thesis by (force simp: home_dirs_def)
  next
    case False
    with assms(3) [of "k - length (path_comps home)"] k show ?thesis by simp
  qed
qed

text \<open>An archive by the components of its names, and the entries that extraction makes.\<close>

abbreviation named :: "(string list \<times> tnode) list \<Rightarrow> (string \<times> tnode) list" where
  "named X \<equiv> map (\<lambda>(es, n). (join_slash es, n)) X"

fun made :: "tnode \<Rightarrow> bool" where
  "made Tdir = True"
| "made (Tfile _) = True"
| "made _ = False"

lemma extract_restores:
  assumes "is_abs home" and "\<forall>(es, n)\<in>set X. plain_comps es" and "distinct (map fst X)"
    and "\<forall>(es, n)\<in>set X. made n \<longrightarrow> link_free t (path_comps home @ es)"
    and "extract_all ok home (named X) t = (t', Inr u)"
  shows "(\<forall>es c. (es, Tfile c) \<in> set X \<longrightarrow> map_of t' (at_home home es) = Some (Tfile c)) \<and>
    (\<forall>q. map_of t q \<noteq> None \<longrightarrow> (\<forall>es\<in>fst ` set X. q \<noteq> at_home home es) \<longrightarrow> map_of t' q = map_of t q)"
  using assms(2-5)
proof (induction X arbitrary: t)
  case (Cons x X)
  obtain es n where x: "x = (es, n)" by fastforce
  from Cons.prems x have es: "plain_comps es" and X: "\<forall>(es, n)\<in>set X. plain_comps es" by auto
  from Cons.prems(2) x have d: "distinct (map fst X)" and new: "es \<notin> fst ` set X" by auto
  note jn = join_home [OF assms(1) es]
  have sep: "\<forall>fs\<in>fst ` set X. at_home home es \<noteq> at_home home fs"
  proof
    fix fs assume fs: "fs \<in> fst ` set X"
    with X have "\<forall>e\<in>set fs. plain e" by auto
    then have "at_home home es = at_home home fs \<longleftrightarrow> es = fs" using es by (intro at_home_inject [OF assms(1)]) auto
    with fs new show "at_home home es \<noteq> at_home home fs" by auto
  qed
  have IH: "(\<forall>es c. (es, Tfile c) \<in> set X \<longrightarrow> map_of t' (at_home home es) = Some (Tfile c)) \<and>
      (\<forall>q. map_of t1 q \<noteq> None \<longrightarrow> (\<forall>es\<in>fst ` set X. q \<noteq> at_home home es) \<longrightarrow> map_of t' q = map_of t1 q)"
    if "extract_all ok home (named X) t1 = (t', Inr u)"
      and l: "\<And>p l. map_of t1 p = Some (Tlink l) \<longleftrightarrow> map_of t p = Some (Tlink l)" for t1
  proof (rule Cons.IH [OF X d _ that(1)])
    show "\<forall>(es, n)\<in>set X. made n \<longrightarrow> link_free t1 (path_comps home @ es)"
      using Cons.prems(3) link_free_cong [of t1 t, OF l] by auto
  qed
  show ?case
  proof (cases n)
    case Tdir
    with Cons.prems(4) x jn obtain t1 where m: "tree_mkdirs ok (at_home home es) t = (t1, True)"
      and e: "extract_all ok home (named X) t1 = (t', Inr u)"
      by (auto split: prod.splits bool.splits)
    note m = m [unfolded tree_mkdirs_def]
    show ?thesis using IH [OF e mkdir_path_links [OF m]] mkdir_path_keeps [OF m] x Tdir by fastforce
  next
    case (Tfile c)
    with Cons.prems(4) x obtain t1 where f: "extract_file ok home (join_slash es) c t = (t1, True)"
      and e: "extract_all ok home (named X) t1 = (t', Inr u)"
      by (auto split: prod.splits bool.splits)
    have lf: "link_free t (path_comps home @ es)" using Cons.prems(3) x Tfile by auto
    note F = extract_file_free [OF assms(1) es lf f]
    from IH [OF e F(3)] sep F(1) have "map_of t' (at_home home es) = Some (Tfile c)" by auto
    with IH [OF e F(3)] F(2) x Tfile show ?thesis by fastforce
  next
    case (Tlink l)
    with Cons.prems(4) x have "extract_all ok home (named X) t = (t', Inr u)" by simp
    from IH [OF this refl] x Tlink show ?thesis by auto
  next
    case Tsocket
    with Cons.prems(4) x have "extract_all ok home (named X) t = (t', Inr u)" by simp
    from IH [OF this refl] x Tsocket show ?thesis by auto
  qed
qed simp

fun same_kind :: "tnode \<Rightarrow> tnode \<Rightarrow> bool" where
  "same_kind Tdir n \<longleftrightarrow> n = Tdir"
| "same_kind (Tfile _) n \<longleftrightarrow> (\<exists>c. n = Tfile c)"
| "same_kind (Tlink _) n \<longleftrightarrow> (\<exists>c. n = Tlink c)"
| "same_kind Tsocket n \<longleftrightarrow> n = Tsocket"

lemma mkdir_path_home_dirs:
  "mkdir_path ok ds cs t = (t', b) \<Longrightarrow> home_dirs home t \<Longrightarrow> home_dirs home t'"
  unfolding home_dirs_def by (metis insert_iff mkdir_path_keeps mkdir_path_new option.distinct(1))

lemma home_way:
  assumes "home_dirs home t" and "is_abs home"
    and "\<And>k. 0 < k \<Longrightarrow> k \<le> length es \<Longrightarrow> map_of t (at_home home (take k es)) = Some Tdir"
    and "k \<le> length (path_comps home @ es)"
  shows "map_of t (abs_path (take k (path_comps home @ es))) \<in> {None, Some Tdir}"
proof (cases "k \<le> length (path_comps home)")
  case True
  with assms(1) show ?thesis by (simp add: home_dirs_def)
next
  case False
  with assms(3) [of "k - length (path_comps home)"] assms(4) show ?thesis by simp
qed

text \<open>Over a tree of the same shape nothing stands in the way.\<close>

lemma extract_succeeds:
  assumes "is_abs home" and "\<forall>p. ok p" and "home_dirs home t" and "\<forall>(es, n)\<in>set X. plain_comps es"
    and "\<forall>(es, n)\<in>set X. \<exists>n'. map_of t (at_home home es) = Some n' \<and> same_kind n n'"
    and "\<forall>(es, n)\<in>set X. \<forall>k. 0 < k \<longrightarrow> k < length es \<longrightarrow> map_of t (at_home home (take k es)) = Some Tdir"
  shows "\<exists>t'. extract_all ok home (named X) t = (t', Inr ())"
  using assms(3-6)
proof (induction X arbitrary: t)
  case (Cons x X)
  obtain es n where x: "x = (es, n)" by fastforce
  from Cons.prems(2) x have es: "plain_comps es" and X: "\<forall>(es, n)\<in>set X. plain_comps es" by auto
  from Cons.prems(3) x obtain n' where n': "map_of t (at_home home es) = Some n'" "same_kind n n'" by auto
  note jn = join_home [OF assms(1) es]
  have hp: "\<forall>c\<in>set (path_comps home). plain c" by (rule path_comps_plain [OF assms(1)])
  have mk: "\<exists>t1. mkdir_path ok [] (path_comps home @ fs) t = (t1, True)"
    if sub: "set fs \<subseteq> set es"
      and dirs: "\<And>k. 0 < k \<Longrightarrow> k \<le> length fs \<Longrightarrow> map_of t (at_home home (take k fs)) = Some Tdir" for fs
  proof (rule mkdir_path_makes [OF assms(2)])
    show "\<forall>c\<in>set ([] @ path_comps home @ fs). plain c" using hp es sub by auto
    show "map_of t (abs_path (take k ([] @ path_comps home @ fs))) \<in> {None, Some Tdir}"
      if "k \<le> length ([] @ path_comps home @ fs)" for k
      using home_way [where es = fs and k = k, OF Cons.prems(1) assms(1) dirs] that by simp
  qed (simp add: is_dir_def)
  have IH: "\<exists>t'. extract_all ok home (named X) t1 = (t', Inr ())"
    if "home_dirs home t1"
      and keep: "\<And>q m. map_of t q = Some m \<Longrightarrow> \<exists>m'. map_of t1 q = Some m' \<and>
        (m = Tdir \<longrightarrow> m' = Tdir) \<and> (\<forall>m0. same_kind m0 m \<longrightarrow> same_kind m0 m')" for t1
  proof (rule Cons.IH [OF that(1) X])
    show "\<forall>(es, n)\<in>set X. \<exists>n'. map_of t1 (at_home home es) = Some n' \<and> same_kind n n'"
    proof clarify
      fix fs m assume "(fs, m) \<in> set X"
      with Cons.prems(3) obtain m' where "map_of t (at_home home fs) = Some m'" "same_kind m m'" by auto
      with keep show "\<exists>n'. map_of t1 (at_home home fs) = Some n' \<and> same_kind m n'" by blast
    qed
    show "\<forall>(es, n)\<in>set X. \<forall>k. 0 < k \<longrightarrow> k < length es \<longrightarrow> map_of t1 (at_home home (take k es)) = Some Tdir"
    proof clarify
      fix fs m and k :: nat assume "(fs, m) \<in> set X" and "0 < k" and "k < length fs"
      with Cons.prems(4) have "map_of t (at_home home (take k fs)) = Some Tdir" by auto
      with keep show "map_of t1 (at_home home (take k fs)) = Some Tdir" by blast
    qed
  qed
  show ?case
  proof (cases n)
    case Tdir
    have "map_of t (at_home home (take k es)) = Some Tdir" if "0 < k" "k \<le> length es" for k
      using Cons.prems(4) x n' Tdir that by (cases "k = length es") auto
    with mk [of es] obtain t1 where m: "mkdir_path ok [] (path_comps home @ es) t = (t1, True)" by auto
    have "path_comps (at_home home es) = path_comps home @ es" using hp es by (intro comps_abs_path) auto
    with m have "tree_mkdirs ok (at_home home es) t = (t1, True)" by (simp add: tree_mkdirs_def)
    moreover have "\<exists>t'. extract_all ok home (named X) t1 = (t', Inr ())"
      by (rule IH [OF mkdir_path_home_dirs [OF m Cons.prems(1)]]) (use mkdir_path_keeps [OF m] in auto)
    ultimately show ?thesis using x Tdir jn by simp
  next
    case (Tfile c)
    with n' obtain c' where c': "map_of t (at_home home es) = Some (Tfile c')" by auto
    let ?cs = "path_comps home @ es"
    have pl: "\<forall>c\<in>set ?cs. plain c" using hp es by auto
    have "map_of t (at_home home (take k (butlast es))) = Some Tdir" if "0 < k" "k \<le> length (butlast es)" for k
      using Cons.prems(4) x that by (auto simp: butlast_conv_take)
    with mk [of "butlast es"] obtain t1 where m: "mkdir_path ok [] (path_comps home @ butlast es) t = (t1, True)"
      by (auto dest: in_set_butlastD)
    have pb: "path_comps (abs_path (path_comps home @ butlast es)) = path_comps home @ butlast es"
      using hp es by (intro comps_abs_path) (auto dest: in_set_butlastD)
    have "\<not> is_link (map_of t (at_home home (take k es)))" if "0 < k" "k \<le> length es" for k
      using Cons.prems(4) x c' that by (cases "k = length es") auto
    from link_free_home [OF Cons.prems(1) assms(1) this]
    have "link_free t1 ?cs" using link_free_cong [OF mkdir_path_links [OF m]] by simp
    note w = write_path_free [OF this pl]
    have c1: "map_of t1 (abs_path ?cs) = Some (Tfile c')" using mkdir_path_keeps [OF m, of "abs_path ?cs"] c' by simp
    let ?t2 = "gm_put (at_home home es) (Tfile c) t1"
    have f: "extract_file ok home (join_slash es) c t = (?t2, True)"
      using m w c1 spec [OF assms(2), of "abs_path ?cs"]
      by (simp add: extract_file_def Let_def jn dir_home [OF assms(1) es] tree_mkdirs_def pb)
    have "home_dirs home ?t2"
      using mkdir_path_home_dirs [OF m Cons.prems(1)] c1
      unfolding home_dirs_def by (auto simp del: map_of_eq_Some_iff)
    then have "\<exists>t'. extract_all ok home (named X) ?t2 = (t', Inr ())"
      by (rule IH) (use mkdir_path_keeps [OF m] c1 c' in \<open>auto simp del: map_of_eq_Some_iff elim: same_kind.elims\<close>)
    then show ?thesis using f x Tfile by simp
  next
    case (Tlink l)
    with IH [OF Cons.prems(1)] x show ?thesis by auto
  next
    case Tsocket
    with IH [OF Cons.prems(1)] x show ?thesis by auto
  qed
qed simp

section \<open>What an archive holds\<close>

lemma write_entries_ok:
  assumes "is_abs home" and "\<forall>(p, n)\<in>set l. \<exists>es. plain_comps es \<and> p = at_home home es"
    and "write_entries env tr home skip l = (a, True)"
  shows "ar_cut a = None \<and> (\<exists>X. ar_entries a = named X \<and> (\<forall>(es, n)\<in>set X. plain_comps es) \<and>
    map (\<lambda>(es, n). (at_home home es, n)) X = filter (\<lambda>(p, _). \<not> has_prefix p skip) l)"
  using assms(2,3)
proof (induction l arbitrary: a)
  case Nil
  then show ?case by (auto intro: exI [of _ "[]"])
next
  case (Cons x l)
  obtain p n where x: "x = (p, n)" by fastforce
  from Cons.prems x obtain es where es: "plain_comps es" "p = at_home home es" by auto
  have r: "path_rel home p = Some (join_slash es)" using rel_home [OF assms(1) es(1)] es(2) by simp
  have l: "\<forall>(p, n)\<in>set l. \<exists>es. plain_comps es \<and> p = at_home home es" using Cons.prems(1) by simp
  obtain b okb where b: "write_entries env tr home skip l = (b, okb)" by fastforce
  show ?case
  proof (cases "has_prefix p skip")
    case True
    with Cons.prems(2) x have "write_entries env tr home skip l = (a, True)"
      by (simp add: Let_def split: if_splits)
    from Cons.IH [OF l this] True x show ?thesis by simp
  next
    case False
    with Cons.prems(2) x r b have "okb" and a: "a = b\<lparr>ar_entries := (join_slash es, n) # ar_entries b\<rparr>"
      by (auto simp: Let_def split: if_splits tnode.splits)
    with b have "write_entries env tr home skip l = (b, True)" by simp
    from Cons.IH [OF l this] obtain X where "ar_cut b = None" "ar_entries b = named X"
      "\<forall>(es, n)\<in>set X. plain_comps es"
      "map (\<lambda>(es, n). (at_home home es, n)) X = filter (\<lambda>(p, _). \<not> has_prefix p skip) l"
      by auto
    with a False x es show ?thesis by (intro conjI exI [of _ "(es, n) # X"]) simp_all
  qed
qed

lemma walk_order_set: "set (walk_order root t) = {(p, n) \<in> set t. below root p}"
  by (auto simp: walk_order_def)

lemma walk_order_distinct: "gm_ok t \<Longrightarrow> distinct (map fst (walk_order root t))"
proof -
  assume "gm_ok t"
  then have "distinct (map fst (filter (\<lambda>(p, _). below root p) t))" by simp
  moreover have "mset (map fst (walk_order root t)) = mset (map fst (filter (\<lambda>(p, _). below root p) t))"
    by (simp add: walk_order_def)
  ultimately show ?thesis by (metis mset_eq_imp_distinct_iff)
qed

lemma tree_belowD:
  assumes "tree_below home t"
  shows "gm_ok t" and "map_of t p = Some n \<Longrightarrow> below (at_home home [''data'']) p \<Longrightarrow> \<exists>es. plain_comps es \<and> p = at_home home es"
    and "plain_comps (es @ [e]) \<Longrightarrow> es \<noteq> [] \<Longrightarrow> map_of t (at_home home (es @ [e])) \<noteq> None \<Longrightarrow>
      map_of t (at_home home es) = Some Tdir"
  using assms by (force simp: tree_below_def dest: map_of_SomeD)+

lemma tree_ancestors:
  assumes "tree_below home t" and "plain_comps es" and "map_of t (at_home home es) \<noteq> None"
    and "0 < k" and "k < length es"
  shows "map_of t (at_home home (take k es)) = Some Tdir"
  using assms(4,5)
proof (induction "length es - k" arbitrary: k)
  case (Suc d)
  have tk: "take (Suc k) es = take k es @ [es ! k]" using Suc.prems by (simp add: take_Suc_conv_app_nth)
  have "map_of t (at_home home (take (Suc k) es)) \<noteq> None"
  proof (cases "Suc k = length es")
    case True
    then show ?thesis using assms(3) by simp
  next
    case False
    with Suc have "map_of t (at_home home (take (Suc k) es)) = Some Tdir" by simp
    then show ?thesis by simp
  qed
  moreover have "plain_comps (take k es @ [es ! k])"
    using assms(2) Suc.prems by (auto dest: in_set_takeD)
  moreover have "take k es \<noteq> []" using Suc.prems by auto
  ultimately show ?case using tree_belowD(3) [OF assms(1)] tk by metis
qed simp

lemma create_backup_ok:
  assumes "create_backup c env name s = (s1, Inr path)" and "path \<noteq> ''''"
    and "\<not> path_missing (bs_tree s) (data_dir c)"
  shows "\<exists>a. write_entries env (bs_tree s) (cf_home (c_core c)) (backup_dir c)
      (walk_order (data_dir c) (bs_tree s)) = (a, True) \<and>
    s1 = s\<lparr>bs_dir := gm_put (backup_name env name) (Archive_file a (be_now env)) (bs_dir s)\<rparr> \<and>
    path = path_join [backup_dir c, backup_name env name]"
  using assms
  by (auto simp: create_backup_def create_archive_def split: if_splits prod.splits)

lemma find_archive:
  assumes "is_abs d" and "\<forall>n\<in>fst ` set m. plain n" and "plain k"
  shows "find (\<lambda>(n, _). path_join [d, n] = path_join [d, k]) (gm_put k v m) = Some (k, v)"
  using assms(2)
proof (induction m)
  case (Cons x m)
  obtain n w where x: "x = (n, w)" by fastforce
  have "path_join [d, n] = path_join [d, k] \<longleftrightarrow> n = k"
    using Cons.prems assms x path_comps_plain [OF assms(1)]
    by (auto simp: join_plain abs_path_inject)
  with Cons x show ?case by auto
qed simp

text \<open>What \<open>CreateBackup\<close> has written, by the components of the names: every node of the data directory
  outside the backup directory, once.\<close>

lemma archive_holds:
  assumes "is_abs (cf_home (c_core c))" and "tree_below (cf_home (c_core c)) t"
    and "write_entries env t (cf_home (c_core c)) (backup_dir c) (walk_order (data_dir c) t) = (a, True)"
  obtains X where "ar_cut a = None" and "ar_entries a = named X"
    and "\<forall>(es, n)\<in>set X. plain_comps es" and "distinct (map fst X)"
    and "\<And>es n. (es, n) \<in> set X \<Longrightarrow> map_of t (at_home (cf_home (c_core c)) es) = Some n"
    and "\<And>p n. map_of t p = Some n \<Longrightarrow> below (data_dir c) p \<Longrightarrow> \<not> has_prefix p (backup_dir c) \<Longrightarrow>
      \<exists>es. (es, n) \<in> set X \<and> p = at_home (cf_home (c_core c)) es"
proof -
  let ?home = "cf_home (c_core c)" and ?l = "walk_order (data_dir c) t"
  note T = tree_belowD [OF assms(2)]
  have d: "data_dir c = at_home ?home [''data'']"
    using join_plain [OF assms(1), of "[''data'']"] by (simp add: data_dir_def)
  have lo: "(p, n) \<in> set ?l \<longleftrightarrow> map_of t p = Some n \<and> below (data_dir c) p" for p n
    using T(1) by (simp add: walk_order_set)
  have "\<forall>(p, n)\<in>set ?l. \<exists>es. plain_comps es \<and> p = at_home ?home es"
    using T(2) lo d by (auto simp del: map_of_eq_Some_iff)
  from write_entries_ok [OF assms(1) this assms(3)] obtain X where
    cut: "ar_cut a = None" and X: "ar_entries a = named X" "\<forall>(es, n)\<in>set X. plain_comps es"
    and eq: "map (\<lambda>(es, n). (at_home ?home es, n)) X = filter (\<lambda>(p, _). \<not> has_prefix p (backup_dir c)) ?l"
    by blast
  have mem: "map_of t (at_home ?home es) = Some n" if "(es, n) \<in> set X" for es n
  proof -
    have "(at_home ?home es, n) \<in> set (map (\<lambda>(es, n). (at_home ?home es, n)) X)" using that by force
    then show ?thesis unfolding eq using lo by auto
  qed
  have "distinct (map fst (map (\<lambda>(es, n). (at_home ?home es, n)) X))"
    unfolding eq using walk_order_distinct [OF T(1), of "data_dir c"] by (simp add: distinct_map_filter)
  then have dist: "distinct (map fst X)"
    by (simp add: comp_def case_prod_unfold distinct_map inj_on_def)
  have all: "\<exists>es. (es, n) \<in> set X \<and> p = at_home ?home es"
    if "map_of t p = Some n" "below (data_dir c) p" "\<not> has_prefix p (backup_dir c)" for p n
  proof -
    from that lo have "(p, n) \<in> set (filter (\<lambda>(p, _). \<not> has_prefix p (backup_dir c)) ?l)"
      by (simp del: map_of_eq_Some_iff)
    then show ?thesis unfolding eq [symmetric] by auto
  qed
  from that [OF cut X dist mem all] show thesis .
qed

text \<open>A restored archive.\<close>

lemma backup_restored:
  assumes "is_abs (cf_home (c_core c))" and "is_abs (backup_dir c)"
    and "tree_below (cf_home (c_core c)) (bs_tree s)"
    and "\<forall>n\<in>fst ` set (bs_dir s). plain n" and "plain (backup_name env name)"
    and "create_backup c env name s = (s1, Inr path)" and "path \<noteq> ''''"
    and "\<not> path_missing (bs_tree s) (data_dir c)"
    and "restore_backup c ok path (s1\<lparr>bs_tree := t\<rparr>) = (s2, r)"
  obtains X where "extract_all ok (cf_home (c_core c)) (named X) t = (bs_tree s2, r)"
    and "\<forall>(es, n)\<in>set X. plain_comps es" and "distinct (map fst X)"
    and "\<And>es n. (es, n) \<in> set X \<Longrightarrow> map_of (bs_tree s) (at_home (cf_home (c_core c)) es) = Some n"
    and "\<And>p n. map_of (bs_tree s) p = Some n \<Longrightarrow> below (data_dir c) p \<Longrightarrow> \<not> has_prefix p (backup_dir c) \<Longrightarrow>
      \<exists>es. (es, n) \<in> set X \<and> p = at_home (cf_home (c_core c)) es"
proof -
  from create_backup_ok [OF assms(6-8)] obtain a where
    w: "write_entries env (bs_tree s) (cf_home (c_core c)) (backup_dir c)
      (walk_order (data_dir c) (bs_tree s)) = (a, True)" and
    s1: "s1 = s\<lparr>bs_dir := gm_put (backup_name env name) (Archive_file a (be_now env)) (bs_dir s)\<rparr>" and
    path: "path = path_join [backup_dir c, backup_name env name]" by blast
  obtain X where X: "ar_cut a = None" "ar_entries a = named X"
    "\<forall>(es, n)\<in>set X. plain_comps es" "distinct (map fst X)"
    "\<And>es n. (es, n) \<in> set X \<Longrightarrow> map_of (bs_tree s) (at_home (cf_home (c_core c)) es) = Some n"
    "\<And>p n. map_of (bs_tree s) p = Some n \<Longrightarrow> below (data_dir c) p \<Longrightarrow> \<not> has_prefix p (backup_dir c) \<Longrightarrow>
      \<exists>es. (es, n) \<in> set X \<and> p = at_home (cf_home (c_core c)) es"
    by (rule archive_holds [OF assms(1,3) w]) blast
  have "find (\<lambda>(n, _). path_join [backup_dir c, n] = path) (bs_dir s1) =
      Some (backup_name env name, Archive_file a (be_now env))"
    unfolding path s1 using find_archive [OF assms(2) assms(4,5)] by simp
  with assms(9) X(1,2) have "extract_all ok (cf_home (c_core c)) (named X) t = (bs_tree s2, r)"
    by (auto simp: restore_backup_def Let_def split: prod.splits sum.splits)
  from that [OF this X(3-6)] show thesis .
qed

text \<open>A successful restore, and when there is one.\<close>

text \<open>Nothing that was a directory or a regular file has become a link.\<close>

definition no_new_links :: "tree \<Rightarrow> tree \<Rightarrow> bool" where
  "no_new_links t0 t \<longleftrightarrow> (\<forall>p n. map_of t0 p = Some n \<longrightarrow> made n \<longrightarrow> \<not> is_link (map_of t p))"

lemma archived_link_free:
  assumes "is_abs home" and "tree_below home t0" and "home_dirs home t" and "no_new_links t0 t"
    and "plain_comps es" and "map_of t0 (at_home home es) = Some n" and "made n"
  shows "link_free t (path_comps home @ es)"
proof (rule link_free_home [OF assms(3,1)])
  fix k assume k: "0 < k" "k \<le> length es"
  have "\<exists>m. map_of t0 (at_home home (take k es)) = Some m \<and> made m"
    using tree_ancestors [OF assms(2,5) _ k(1)] assms(6,7) k(2) by (cases "k = length es") auto
  with assms(4) show "\<not> is_link (map_of t (at_home home (take k es)))" by (auto simp: no_new_links_def)
qed

lemma restored_files:
  assumes "is_abs home" and "tree_below home t0" and "home_dirs home t" and "no_new_links t0 t"
    and "extract_all ok home (named X) t = (t', Inr u)"
    and "\<forall>(es, n)\<in>set X. plain_comps es" and "distinct (map fst X)"
    and "\<And>es n. (es, n) \<in> set X \<Longrightarrow> map_of t0 (at_home home es) = Some n"
  shows "(es, Tfile content) \<in> set X \<Longrightarrow> map_of t' (at_home home es) = Some (Tfile content)"
    and "map_of t0 q = None \<Longrightarrow> map_of t q \<noteq> None \<Longrightarrow> map_of t' q = map_of t q"
proof -
  have "\<forall>(es, n)\<in>set X. made n \<longrightarrow> link_free t (path_comps home @ es)"
    using archived_link_free [OF assms(1-4)] assms(6,8) by blast
  note R = extract_restores [OF assms(1,6,7) this assms(5)]
  show "map_of t' (at_home home es) = Some (Tfile content)" if "(es, Tfile content) \<in> set X"
    using that R by blast
  show "map_of t' q = map_of t q" if "map_of t0 q = None" "map_of t q \<noteq> None"
  proof -
    have "q \<noteq> at_home home es" if "es \<in> fst ` set X" for es
      using that assms(8) \<open>map_of t0 q = None\<close> by force
    with R that(2) show ?thesis by blast
  qed
qed

definition same_shape :: "tree \<Rightarrow> tree \<Rightarrow> bool" where
  "same_shape t0 t \<longleftrightarrow> (\<forall>p n. map_of t0 p = Some n \<longrightarrow> (\<exists>n'. map_of t p = Some n' \<and> same_kind n n'))"

lemma same_shape_no_new_links: "same_shape t0 t \<Longrightarrow> no_new_links t0 t"
  unfolding same_shape_def no_new_links_def by (metis is_link.simps(2,3,4,5) made.elims(2) same_kind.simps(1,2))

lemma restore_succeeds:
  assumes "is_abs home" and "tree_below home t0" and "\<forall>p. ok p" and "home_dirs home t"
    and "\<forall>(es, n)\<in>set X. plain_comps es"
    and "\<And>es n. (es, n) \<in> set X \<Longrightarrow> map_of t0 (at_home home es) = Some n"
    and "same_shape t0 t"
  shows "\<exists>t'. extract_all ok home (named X) t = (t', Inr ())"
proof (rule extract_succeeds [OF assms(1,3,4,5)])
  show "\<forall>(es, n)\<in>set X. \<exists>n'. map_of t (at_home home es) = Some n' \<and> same_kind n n'"
    using assms(6,7) by (auto simp: same_shape_def)
  show "\<forall>(es, n)\<in>set X. \<forall>k. 0 < k \<longrightarrow> k < length es \<longrightarrow> map_of t (at_home home (take k es)) = Some Tdir"
  proof clarify
    fix es n and k :: nat assume m: "(es, n) \<in> set X" and k: "0 < k" "k < length es"
    have "map_of t0 (at_home home (take k es)) = Some Tdir"
      by (rule tree_ancestors [OF assms(2) _ _ k]) (use assms(5) m assms(6) [OF m] in auto)
    with assms(7) show "map_of t (at_home home (take k es)) = Some Tdir" by (fastforce simp: same_shape_def)
  qed
qed

section \<open>Properties\<close>

text \<open>
  C9. A backup can be restored: over any later state of the tree in which no directory or regular
  file has become a link, a successful restore of an archive that \<open>CreateBackup\<close> made brings back
  every regular file that was below the data directory, with its content, except those whose path
  starts with the text of the backup directory's path, which are never archived (a sibling
  directory with a longer name included). What was created since the backup stays as it is. And
  when no file system call fails and the old paths are still of their kinds, the restore succeeds.
\<close>

theorem restore_brings_back_files:
  assumes "is_abs (cf_home (c_core c))" and "is_abs (backup_dir c)"
    and "tree_below (cf_home (c_core c)) (bs_tree s)" and "home_dirs (cf_home (c_core c)) t"
    and "\<forall>n\<in>fst ` set (bs_dir s). plain n" and "plain (backup_name env name)"
    and "create_backup c env name s = (s1, Inr path)" and "path \<noteq> ''''"
    and "\<not> path_missing (bs_tree s) (data_dir c)"
    and "restore_backup c ok path (s1\<lparr>bs_tree := t\<rparr>) = (s2, r)"
  shows "(r = Inr () \<longrightarrow> no_new_links (bs_tree s) t \<longrightarrow>
      (\<forall>p content. map_of (bs_tree s) p = Some (Tfile content) \<longrightarrow>
        below (data_dir c) p \<longrightarrow> \<not> has_prefix p (backup_dir c) \<longrightarrow>
        map_of (bs_tree s2) p = Some (Tfile content))) \<and>
    (r = Inr () \<longrightarrow> no_new_links (bs_tree s) t \<longrightarrow>
      (\<forall>p. map_of (bs_tree s) p = None \<longrightarrow> map_of t p \<noteq> None \<longrightarrow>
        map_of (bs_tree s2) p = map_of t p)) \<and>
    ((\<forall>p. ok p) \<longrightarrow> same_shape (bs_tree s) t \<longrightarrow> r = Inr ())"
proof -
  let ?home = "cf_home (c_core c)"
  from backup_restored [OF assms(1-3,5-10)] obtain X where
    res: "extract_all ok ?home (named X) t = (bs_tree s2, r)" and
    X: "\<forall>(es, n)\<in>set X. plain_comps es" and dist: "distinct (map fst X)" and
    mem: "\<And>es n. (es, n) \<in> set X \<Longrightarrow> map_of (bs_tree s) (at_home ?home es) = Some n" and
    all: "\<And>p n. map_of (bs_tree s) p = Some n \<Longrightarrow> below (data_dir c) p \<Longrightarrow>
      \<not> has_prefix p (backup_dir c) \<Longrightarrow> \<exists>es. (es, n) \<in> set X \<and> p = at_home ?home es"
    by blast
  show ?thesis
  proof (rule conj3I; (intro impI allI)?)
    assume "r = Inr ()" and nl: "no_new_links (bs_tree s) t"
    with res have e: "extract_all ok ?home (named X) t = (bs_tree s2, Inr ())" by simp
    note R = restored_files [OF assms(1,3,4) nl e X dist mem]
    show "map_of (bs_tree s2) p = Some (Tfile content)"
      if "map_of (bs_tree s) p = Some (Tfile content)" "below (data_dir c) p"
        "\<not> has_prefix p (backup_dir c)" for p content
      using all [OF that] R(1) by blast
    show "map_of (bs_tree s2) p = map_of t p" if "map_of (bs_tree s) p = None" "map_of t p \<noteq> None" for p
      using R(2) [of p] that by simp
  next
    assume "\<forall>p. ok p" and "same_shape (bs_tree s) t"
    then have "\<exists>t'. extract_all ok ?home (named X) t = (t', Inr ())"
      using restore_succeeds [OF assms(1,3) _ assms(4) X mem] by blast
    with res show "r = Inr ()" by auto
  qed
qed

definition demo_backup_cfg :: config where
  "demo_backup_cfg = default_config ''/w'' ''''"

definition demo_tree :: "string \<Rightarrow> tree" where
  "demo_tree content = [(''/w/data'', Tdir), (''/w/data/a'', Tfile content)]"

definition demo_backup_env :: backup_env where
  "demo_backup_env = \<lparr>be_mkdir_ok = True, be_stamp = ''t'', be_create_ok = True, be_walk_ok = \<lambda>_. True,
     be_open_ok = \<lambda>_. True, be_now = 3\<rparr>"

lemma demo_names:
  "''/w/data'' = at_home ''/w'' [''data'']" "''/w/data/a'' = at_home ''/w'' [''data'', ''a'']"
  by code_simp+

lemma demo_tree_below: "tree_below ''/w'' (demo_tree content)"
proof -
  have w: "is_abs ''/w''" by (simp add: is_abs_def)
  have pl: "plain ''data''" "plain ''a''" by (simp_all add: plain_def)
  have keys: "map_of (demo_tree content) (at_home ''/w'' es) \<noteq> None \<longleftrightarrow>
      es = [''data''] \<or> es = [''data'', ''a'']" if "\<forall>e\<in>set es. plain e" for es
    using pl at_home_inject [OF w that, of "[''data'']"] at_home_inject [OF w that, of "[''data'', ''a'']"]
    unfolding demo_tree_def demo_names by auto
  show ?thesis
    unfolding tree_below_def
  proof (intro conjI allI impI)
    show "gm_ok (demo_tree content)" by (simp add: demo_tree_def)
    show "\<forall>p\<in>fst ` set (demo_tree content). below (at_home ''/w'' [''data'']) p \<longrightarrow>
        (\<exists>es. plain_comps es \<and> p = at_home ''/w'' es)"
    proof -
      have "\<exists>es. plain_comps es \<and> ''/w/data'' = at_home ''/w'' es"
        by (rule exI [of _ "[''data'']"]) (use demo_names(1) pl in simp)
      moreover have "\<exists>es. plain_comps es \<and> ''/w/data/a'' = at_home ''/w'' es"
        by (rule exI [of _ "[''data'', ''a'']"]) (use demo_names(2) pl in simp)
      ultimately show ?thesis by (simp add: demo_tree_def)
    qed
    fix es e
    assume "plain_comps (es @ [e])" and "es \<noteq> []" and "map_of (demo_tree content) (at_home ''/w'' (es @ [e])) \<noteq> None"
    then have "es = [''data'']" using keys [of "es @ [e]"] by (auto simp: append_eq_Cons_conv)
    then show "map_of (demo_tree content) (at_home ''/w'' es) = Some Tdir"
      using demo_names(1) by (simp add: demo_tree_def)
  qed
qed

lemma demo_backup_paths:
  "cf_home (c_core demo_backup_cfg) = ''/w''" "backup_dir demo_backup_cfg = ''/w/backups''"
  "data_dir demo_backup_cfg = ''/w/data''" "cf_unsafe_skip_backup (c_backup demo_backup_cfg) = False"
  "path_join [''/w/backups'', ''pre-t.tar.gz''] = ''/w/backups/pre-t.tar.gz''"
  by code_simp+

lemma demo_create:
  "create_backup demo_backup_cfg demo_backup_env ''pre'' \<lparr>bs_tree = demo_tree ''old'', bs_dir = []\<rparr> =
     (\<lparr>bs_tree = demo_tree ''old'', bs_dir = [(''pre-t.tar.gz'', Archive_file
         \<lparr>ar_entries = [(''data'', Tdir), (''data/a'', Tfile ''old'')], ar_cut = None\<rparr> 3)]\<rparr>,
      Inr ''/w/backups/pre-t.tar.gz'')"
  by code_simp

lemma demo_home_dirs: "home_dirs ''/w'' (demo_tree content)"
proof -
  have "path_comps ''/w'' = [''w'']" by code_simp
  moreover have "abs_path [''w''] = ''/w''" "abs_path [] = ''/''" by code_simp+
  ultimately show ?thesis by (auto simp: home_dirs_def demo_tree_def le_Suc_eq)
qed

lemma demo_data_there: "\<not> path_missing (demo_tree content) ''/w/data''"
proof -
  have "path_comps ''/w/data'' = [''w'', ''data'']" "abs_path [''w'', ''data''] = ''/w/data''" "abs_path [''w''] = ''/w''"
    by code_simp+
  then show ?thesis by (simp add: path_missing_def real_path_def demo_tree_def)
qed

lemma demo_same_shape: "same_shape (demo_tree a) (demo_tree b)"
  by (simp add: same_shape_def demo_tree_def)

theorem restore_brings_back_files_witness:
  "\<exists>s2. restore_backup demo_backup_cfg (\<lambda>_. True) ''/w/backups/pre-t.tar.gz''
     ((fst (create_backup demo_backup_cfg demo_backup_env ''pre'' \<lparr>bs_tree = demo_tree ''old'', bs_dir = []\<rparr>))
       \<lparr>bs_tree := demo_tree ''new''\<rparr>) = (s2, Inr ()) \<and>
   map_of (bs_tree s2) ''/w/data/a'' = Some (Tfile ''old'')"
proof -
  let ?s = "\<lparr>bs_tree = demo_tree ''old'', bs_dir = []\<rparr>"
  obtain s1 r1 where c: "create_backup demo_backup_cfg demo_backup_env ''pre'' ?s = (s1, r1)" by fastforce
  have r1: "r1 = Inr ''/w/backups/pre-t.tar.gz''" using demo_create c by simp
  obtain s2 r where e: "restore_backup demo_backup_cfg (\<lambda>_. True) ''/w/backups/pre-t.tar.gz''
      (s1\<lparr>bs_tree := demo_tree ''new''\<rparr>) = (s2, r)" by fastforce
  have h: "is_abs (cf_home (c_core demo_backup_cfg))" "is_abs (backup_dir demo_backup_cfg)"
    "tree_below (cf_home (c_core demo_backup_cfg)) (bs_tree ?s)"
    "home_dirs (cf_home (c_core demo_backup_cfg)) (demo_tree ''new'')"
    "\<forall>n\<in>fst ` set (bs_dir ?s). plain n"
    "plain (backup_name demo_backup_env ''pre'')"
    "\<not> path_missing (bs_tree ?s) (data_dir demo_backup_cfg)" "''/w/backups/pre-t.tar.gz'' \<noteq> ''''"
    using demo_tree_below demo_home_dirs demo_data_there
    by (simp_all add: demo_backup_paths is_abs_def backup_name_def demo_backup_env_def plain_def)
  note R = restore_brings_back_files [OF h(1-6) c [unfolded r1] h(8,7) e]
  have shape: "same_shape (bs_tree ?s) (demo_tree ''new'')" by (simp add: demo_same_shape)
  from R [THEN conjunct2, THEN conjunct2] shape have ok: "r = Inr ()" by simp
  have "map_of (bs_tree ?s) ''/w/data/a'' = Some (Tfile ''old'')" by (simp add: demo_tree_def)
  moreover have "below (data_dir demo_backup_cfg) ''/w/data/a''" "\<not> has_prefix ''/w/data/a'' (backup_dir demo_backup_cfg)"
    by (simp_all add: demo_backup_paths below_def has_prefix_def)
  ultimately show ?thesis using R [THEN conjunct1] ok same_shape_no_new_links [OF shape] c e by auto
qed

text \<open>
  A link that has taken the place of a file is followed: the restore writes the old content to what
  the link leads to, here a file made since the backup, and the link stays.
\<close>

definition linked_tree :: tree where
  "linked_tree = [(''/w/data'', Tdir), (''/w/data/a'', Tlink ''/w/data/b''), (''/w/data/b'', Tfile ''new'')]"

theorem restore_writes_through_link:
  "map_of (bs_tree (fst (restore_backup demo_backup_cfg (\<lambda>_. True) ''/w/backups/pre-t.tar.gz''
     ((fst (create_backup demo_backup_cfg demo_backup_env ''pre'' \<lparr>bs_tree = demo_tree ''old'', bs_dir = []\<rparr>))
       \<lparr>bs_tree := linked_tree\<rparr>)))) ''/w/data/b'' = Some (Tfile ''old'')"
  by code_simp

text \<open>
  A failed backup does not clean up: when \<open>CreateBackup\<close> fails while it walks the tree, a file of
  the archive's name is left in the backup directory, which \<open>ListBackups\<close> lists like any other; and
  the clean-up after an upgrade removes every file older than its limit from that directory, archives
  or not, and nothing else.
\<close>

theorem failed_backup_is_listed:
  assumes "create_backup c env name s = (s1, Inl Archive_failed)" and "max_age \<ge> 0"
  shows "backup_name env name \<in> set (list_backups s1) \<and>
    (\<exists>a. map_of (bs_dir s1) (backup_name env name) = Some (Archive_file a (be_now env))) \<and>
    bs_tree s1 = bs_tree s \<and>
    (gm_ok (bs_dir s) \<longrightarrow> (\<forall>n e. map_of (bs_dir (clean_old_backups removable now max_age s1)) n = Some e \<longleftrightarrow>
       map_of (bs_dir s1) n = Some e \<and>
       \<not> (\<exists>t. entry_time e = Some t \<and> max_age < now - t \<and> removable n)))"
proof -
  from assms obtain a where
    s1: "s1 = s\<lparr>bs_dir := gm_put (backup_name env name) (Archive_file a (be_now env)) (bs_dir s)\<rparr>"
    by (auto simp: create_backup_def create_archive_def split: if_splits prod.splits)
  have gz: "path_ext (backup_name env name) = ''.gz''"
    by (simp add: path_ext_def backup_name_def Let_def takeWhile_append)
  have put: "map_of (bs_dir s1) (backup_name env name) = Some (Archive_file a (be_now env))"
    by (simp add: s1)
  have "(backup_name env name, Archive_file a (be_now env)) \<in> set (bs_dir s1)"
    using map_of_SomeD [OF put] .
  then have l: "backup_name env name \<in> set (list_backups s1)"
    using gz by (force simp: list_backups_def)
  have c: "map_of (bs_dir (clean_old_backups removable now max_age s1)) n = Some e \<longleftrightarrow>
       map_of (bs_dir s1) n = Some e \<and> \<not> (\<exists>t. entry_time e = Some t \<and> max_age < now - t \<and> removable n)"
    if "gm_ok (bs_dir s)" for n e
  proof -
    have "gm_ok (bs_dir s1)" using that by (simp add: s1)
    then show ?thesis by (auto simp: clean_old_backups_def split: option.splits)
  qed
  show ?thesis using l put c s1 by simp
qed

theorem failed_backup_is_listed_witness:
  "\<exists>s1. create_backup demo_backup_cfg (demo_backup_env\<lparr>be_open_ok := \<lambda>_. False\<rparr>) ''pre''
      \<lparr>bs_tree = demo_tree ''old'', bs_dir = []\<rparr> = (s1, Inl Archive_failed) \<and>
    ''pre-t.tar.gz'' \<in> set (list_backups s1)"
proof -
  let ?env = "demo_backup_env\<lparr>be_open_ok := \<lambda>_. False\<rparr>" and ?s = "\<lparr>bs_tree = demo_tree ''old'', bs_dir = []\<rparr>"
  obtain s1 r where c: "create_backup demo_backup_cfg ?env ''pre'' ?s = (s1, r)" by fastforce
  have "snd (create_backup demo_backup_cfg ?env ''pre'' ?s) = Inl Archive_failed" by code_simp
  with c have r: "create_backup demo_backup_cfg ?env ''pre'' ?s = (s1, Inl Archive_failed)" by simp
  have "backup_name ?env ''pre'' = ''pre-t.tar.gz''" by (simp add: backup_name_def demo_backup_env_def)
  with failed_backup_is_listed [OF r, of 0, THEN conjunct1] r show ?thesis by auto
qed


end
