(* ===== verification/Downloads.thy ===== *)
theory Downloads
  imports ConfigModel BatchPlans
begin

text \<open>
  \<open>internal/download/downloader.go\<close>: fetching and checking the binary of an upgrade. The world is the
  files (content and executable bit) and, for each call of \<open>EnsureUpgradeBinary\<close>, what the network and
  the operating system answer. The two hash functions of the library are parameters; a digest is its
  hexadecimal text.
\<close>

record crypto =
  cr_sha256 :: "string \<Rightarrow> string"
  cr_sha512 :: "string \<Rightarrow> string"

type_synonym files = "string \<Rightarrow> (string \<times> bool) option"

text \<open>
  One run of \<open>DownloadBinary\<close>: the answer to each attempt is a failed request or a status, the bytes
  that arrive and whether the copy ends without an error.
\<close>

record dl_env =
  de_answer :: "string \<Rightarrow> nat \<Rightarrow> (nat \<times> string \<times> bool) option"
  de_create_ok :: "nat \<Rightarrow> bool"
  de_rename_ok :: bool
  de_chmod_ok :: bool
  de_remove_ok :: bool

datatype dl_error =
  Request_failed | Bad_status nat | Create_failed | Copy_failed | Attempts_failed dl_error
| Rename_failed | Chmod_failed | Checksum_fetch_failed | Checksum_bad_status nat
| Checksum_length nat | Checksum_open_failed | Checksum_mismatch | No_urls | No_url_for string
| Downloads_disabled | Upgrade_mkdir_failed

definition attempt_download ::
  "dl_env \<Rightarrow> nat \<Rightarrow> string \<Rightarrow> string \<Rightarrow> files \<Rightarrow> (files, dl_error, unit) gores" where
  "attempt_download env k url dest fs =
     (case de_answer env url k of
        None \<Rightarrow> (fs, Inl Request_failed)
      | Some (status, body, whole) \<Rightarrow>
          if status \<noteq> 200 then (fs, Inl (Bad_status status))
          else if \<not> de_create_ok env k then (fs, Inl Create_failed)
          else (fs(dest \<mapsto> (body, case fs dest of Some (_, x) \<Rightarrow> x | None \<Rightarrow> False)),
                if whole then Inr () else Inl Copy_failed))"

fun download_attempts ::
  "nat \<Rightarrow> dl_env \<Rightarrow> nat \<Rightarrow> string \<Rightarrow> string \<Rightarrow> dl_error \<Rightarrow> files \<Rightarrow> (files, dl_error, unit) gores" where
  "download_attempts 0 env k url dest prev_err fs = (fs, Inl (Attempts_failed prev_err))"
| "download_attempts (Suc n) env k url dest prev_err fs =
     (case attempt_download env k url dest fs of
        (fs', Inr _) \<Rightarrow> (fs', Inr ())
      | (fs', Inl e) \<Rightarrow> download_attempts n env (Suc k) url dest e fs')"

definition max_retries :: nat where "max_retries = 3"

definition download_file ::
  "dl_env \<Rightarrow> string \<Rightarrow> string \<Rightarrow> files \<Rightarrow> (files, dl_error, unit) gores" where
  "download_file env url dest fs = download_attempts max_retries env 0 url dest Request_failed fs"

definition os_remove :: "bool \<Rightarrow> string \<Rightarrow> files \<Rightarrow> files" where
  "os_remove ok p fs = (if ok then fs(p := None) else fs)"

definition download_binary ::
  "dl_env \<Rightarrow> string \<Rightarrow> string \<Rightarrow> files \<Rightarrow> (files, dl_error, unit) gores" where
  "download_binary env url dest fs =
     (let temp = dest @ ''.tmp'' in
      case download_file env url temp fs of
        (fs1, Inl e) \<Rightarrow> (os_remove (de_remove_ok env) temp fs1, Inl e)
      | (fs1, Inr _) \<Rightarrow>
          if \<not> de_rename_ok env then (os_remove (de_remove_ok env) temp fs1, Inl Rename_failed)
          else
            let fs2 = fs1(dest := fs1 temp, temp := None) in
            if \<not> de_chmod_ok env then (fs2, Inl Chmod_failed)
            else (fs2(dest := map_option (\<lambda>(content, _). (content, True)) (fs2 dest)), Inr ()))"

text \<open>\<open>strings.TrimSpace\<close> and \<open>strings.Fields\<close> on ASCII text.\<close>

definition is_space :: "char \<Rightarrow> bool" where
  "is_space c \<longleftrightarrow> (of_char c :: nat) \<in> {9, 10, 11, 12, 13, 32}"

definition trim_space :: "string \<Rightarrow> string" where
  "trim_space s = rev (dropWhile is_space (rev (dropWhile is_space s)))"

function go_fields :: "string \<Rightarrow> string list" where
  "go_fields s =
     (case dropWhile is_space s of
        [] \<Rightarrow> []
      | t \<Rightarrow> takeWhile (\<lambda>c. \<not> is_space c) t # go_fields (dropWhile (\<lambda>c. \<not> is_space c) t))"
  by pat_completeness auto
termination
proof (relation "measure length", goal_cases)
  case 1
  then show ?case by simp
next
  case (2 s c t)
  then have "\<not> is_space c" and "length (c # t) \<le> length s"
    using hd_dropWhile [of is_space s] length_dropWhile_le [of is_space s] by auto
  then show ?case
    using length_dropWhile_le [of "\<lambda>c. \<not> is_space c" t] by simp
qed

declare go_fields.simps [simp del]

definition fetch_checksum :: "(nat \<times> string option) option \<Rightarrow> dl_error + string" where
  "fetch_checksum answer =
     (case answer of
        None \<Rightarrow> Inl Checksum_fetch_failed
      | Some (status, body) \<Rightarrow>
          if status \<noteq> 200 then Inl (Checksum_bad_status status)
          else (case body of
                  None \<Rightarrow> Inl Checksum_fetch_failed
                | Some data \<Rightarrow>
                    (case go_fields (trim_space data) of
                       part # _ \<Rightarrow> Inr part
                     | [] \<Rightarrow> Inr (trim_space data))))"

definition verify_checksum :: "crypto \<Rightarrow> bool \<Rightarrow> string \<Rightarrow> string \<Rightarrow> files \<Rightarrow> dl_error + unit" where
  "verify_checksum cr open_ok path expected fs =
     (if length expected \<noteq> 64 \<and> length expected \<noteq> 128 then Inl (Checksum_length (length expected))
      else (case fs path of
              None \<Rightarrow> Inl Checksum_open_failed
            | Some (content, _) \<Rightarrow>
                if \<not> open_ok then Inl Checksum_open_failed
                else if (if length expected = 64 then cr_sha256 cr content else cr_sha512 cr content) \<noteq> expected
                then Inl Checksum_mismatch else Inr ()))"

record ensure_env =
  ee_mkdir_ok :: bool
  ee_head_ok :: "string \<Rightarrow> bool"
  ee_checksum :: "string \<Rightarrow> (nat \<times> string option) option"
  ee_first :: dl_env
  ee_open_ok :: bool
  ee_second :: dl_env

definition download_and_verify ::
  "crypto \<Rightarrow> ensure_env \<Rightarrow> string \<Rightarrow> string \<Rightarrow> string \<Rightarrow> files \<Rightarrow> (files, dl_error, unit) gores" where
  "download_and_verify cr env url dest checksum_url fs =
     (case fetch_checksum (ee_checksum env checksum_url) of
        Inl e \<Rightarrow> (fs, Inl e)
      | Inr expected \<Rightarrow>
          (case download_binary (ee_first env) url dest fs of
             (fs1, Inl e) \<Rightarrow> (fs1, Inl e)
           | (fs1, Inr _) \<Rightarrow>
               (case verify_checksum cr (ee_open_ok env) dest expected fs1 of
                  Inl e \<Rightarrow> (os_remove (de_remove_ok (ee_first env)) dest fs1, Inl e)
                | Inr _ \<Rightarrow> (fs1, Inr ()))))"

text \<open>\<open>strings.ReplaceAll\<close> with a non-empty pattern.\<close>

function replace_all :: "string \<Rightarrow> string \<Rightarrow> string \<Rightarrow> string" where
  "replace_all old new s =
     (case s of
        [] \<Rightarrow> []
      | c # cs \<Rightarrow>
          if old \<noteq> '''' \<and> take (length old) s = old
          then new @ replace_all old new (drop (length old) s)
          else c # replace_all old new cs)"
  by pat_completeness auto
termination
  by (relation "measure (\<lambda>(_, _, s). length s)") auto

declare replace_all.simps [simp del]

definition get_binary_url :: "config \<Rightarrow> string \<Rightarrow> dl_error + string" where
  "get_binary_url c name =
     (case cf_download_urls (c_download c) of
        None \<Rightarrow> Inl No_urls
      | Some urls \<Rightarrow>
          if length urls = 0 then Inl No_urls
          else (case map_of urls name of
                  Some url \<Rightarrow> Inr url
                | None \<Rightarrow>
                    (case map_of urls ''default'' of
                       Some template \<Rightarrow>
                         Inr (replace_all ''{version}'' name (replace_all ''{name}'' name template))
                     | None \<Rightarrow> Inl (No_url_for name))))"

definition get_checksum_url :: "(string \<Rightarrow> bool) \<Rightarrow> string \<Rightarrow> string" where
  "get_checksum_url head_ok url =
     (case find (\<lambda>ext. head_ok (url @ ext)) [''.sha256'', ''.sha512'', ''.checksum''] of
        Some ext \<Rightarrow> url @ ext
      | None \<Rightarrow> url @ ''.sha256'')"

definition ensure_upgrade_binary ::
  "config \<Rightarrow> crypto \<Rightarrow> ensure_env \<Rightarrow> string \<Rightarrow> files \<Rightarrow> (files, dl_error, unit) gores" where
  "ensure_upgrade_binary c cr env name fs =
     (let dest = upgrade_bin (paths_of c) name in
      if fs dest \<noteq> None then (fs, Inr ())
      else if \<not> cf_allow_download_binaries (c_upgrade c) then (fs, Inl Downloads_disabled)
      else (case get_binary_url c name of
              Inl e \<Rightarrow> (fs, Inl e)
            | Inr url \<Rightarrow>
                if \<not> ee_mkdir_ok env then (fs, Inl Upgrade_mkdir_failed)
                else (case download_and_verify cr env url dest (get_checksum_url (ee_head_ok env) url) fs of
                        (fs1, Inr _) \<Rightarrow> (fs1, Inr ())
                      | (fs1, Inl e) \<Rightarrow>
                          if cf_unsafe_skip_checksum (c_download c)
                          then download_binary (ee_second env) url dest fs1
                          else (fs1, Inl e))))"

section \<open>Lemmas\<close>

lemma download_attempts_frame:
  "p \<noteq> dest \<Longrightarrow> fst (download_attempts n env k url dest e fs) p = fs p"
  by (induction n env k url dest e fs rule: download_attempts.induct)
    (auto simp: attempt_download_def split: option.splits prod.splits sum.splits if_splits)

lemma download_attempts_ok:
  "snd (download_attempts n env k url dest e fs) = Inr u \<Longrightarrow>
     fst (download_attempts n env k url dest e fs) dest \<noteq> None"
  by (induction n env k url dest e fs rule: download_attempts.induct)
    (auto simp: attempt_download_def split: option.splits prod.splits sum.splits if_splits)

lemma tmp_neq [simp]: "dest @ ''.tmp'' \<noteq> dest" "dest \<noteq> dest @ ''.tmp''"
  by simp_all

lemma download_binary_frame:
  assumes "p \<noteq> dest" and "p \<noteq> dest @ ''.tmp''"
  shows "fst (download_binary env url dest fs) p = fs p"
proof -
  obtain fs1 r1 where d: "download_attempts max_retries env 0 url (dest @ ''.tmp'') Request_failed fs = (fs1, r1)"
    by fastforce
  have "fs1 p = fs p"
    using download_attempts_frame [OF assms(2), of max_retries env 0 url Request_failed fs] d by simp
  with d assms show ?thesis
    by (cases r1) (simp_all add: download_binary_def download_file_def os_remove_def Let_def)
qed

text \<open>How a download ends.\<close>

lemma download_binary_cases:
  assumes "download_binary env url dest fs = (fs', r)"
  shows "r = Inr u \<Longrightarrow> \<exists>content. fs' dest = Some (content, True)"
    and "r = Inl e \<Longrightarrow> e \<noteq> Chmod_failed \<Longrightarrow> fs' dest = fs dest"
    and "r = Inl Chmod_failed \<Longrightarrow> \<not> de_chmod_ok env \<and> fs' dest \<noteq> None"
proof -
  let ?t = "dest @ ''.tmp''"
  obtain fs1 r1 where d: "download_attempts max_retries env 0 url ?t Request_failed fs = (fs1, r1)"
    by fastforce
  have frame: "fs1 dest = fs dest"
    using download_attempts_frame [of dest ?t max_retries env 0 url Request_failed fs] d by simp
  have ok: "fs1 ?t \<noteq> None" if "r1 = Inr v" for v
    using download_attempts_ok [of max_retries env 0 url ?t Request_failed fs v] d that by simp
  have not_chmod: "r1 \<noteq> Inl Chmod_failed"
  proof -
    have "snd (download_attempts n env k url ?t e fs) \<noteq> Inl Chmod_failed" for n k e fs
      by (induction n env k url ?t e fs rule: download_attempts.induct)
        (auto split: prod.splits sum.splits)
    with d show ?thesis by (metis snd_conv)
  qed
  show "\<exists>content. fs' dest = Some (content, True)" if "r = Inr u"
    using assms d ok that
    by (cases r1) (auto simp: download_binary_def download_file_def Let_def split: if_splits)
  show "fs' dest = fs dest" if "r = Inl e" "e \<noteq> Chmod_failed"
    using assms d frame that
    by (cases r1) (auto simp: download_binary_def download_file_def Let_def os_remove_def split: if_splits)
  show "\<not> de_chmod_ok env \<and> fs' dest \<noteq> None" if "r = Inl Chmod_failed"
    using assms d ok not_chmod that
    by (cases r1) (auto simp: download_binary_def download_file_def Let_def os_remove_def split: if_splits)
qed

lemma verify_Inr_iff:
  "verify_checksum cr ok path x fs = Inr u \<longleftrightarrow>
     ok \<and> (\<exists>content b. fs path = Some (content, b) \<and>
       (length x = 64 \<and> cr_sha256 cr content = x \<or> length x = 128 \<and> cr_sha512 cr content = x))"
  by (auto simp: verify_checksum_def split: option.splits prod.splits if_splits)

definition checksum_matches :: "crypto \<Rightarrow> string \<Rightarrow> string \<Rightarrow> bool" where
  "checksum_matches cr x content \<longleftrightarrow>
     length x = 64 \<and> cr_sha256 cr content = x \<or> length x = 128 \<and> cr_sha512 cr content = x"

lemma download_and_verify_ok:
  assumes "download_and_verify cr env url dest su fs = (fs', Inr u)"
  shows "\<exists>x content. fetch_checksum (ee_checksum env su) = Inr x \<and>
    fs' dest = Some (content, True) \<and> checksum_matches cr x content"
proof -
  from assms obtain x fs1 v where x: "fetch_checksum (ee_checksum env su) = Inr x"
    and d: "download_binary (ee_first env) url dest fs = (fs1, Inr v)"
    and v: "verify_checksum cr (ee_open_ok env) dest x fs1 = Inr ()" and "fs' = fs1"
    by (auto simp: download_and_verify_def split: sum.splits prod.splits)
  moreover from download_binary_cases(1) [OF d] obtain content where "fs1 dest = Some (content, True)"
    by blast
  ultimately show ?thesis by (auto simp: verify_Inr_iff checksum_matches_def)
qed

lemma download_and_verify_fails:
  assumes "download_and_verify cr env url dest su fs = (fs', Inl e)" and "fs dest = None"
    and "de_chmod_ok (ee_first env)" and "de_remove_ok (ee_first env)"
  shows "fs' dest = None"
proof (cases "fetch_checksum (ee_checksum env su)")
  case (Inl a)
  with assms show ?thesis by (auto simp: download_and_verify_def)
next
  case (Inr x)
  obtain fs1 r1 where d: "download_binary (ee_first env) url dest fs = (fs1, r1)" by fastforce
  show ?thesis
  proof (cases r1)
    case (Inl e1)
    with download_binary_cases(2,3) [OF d] assms d \<open>fetch_checksum _ = Inr x\<close> show ?thesis
      by (cases "e1 = Chmod_failed") (auto simp: download_and_verify_def)
  next
    case (Inr v)
    with assms d \<open>fetch_checksum _ = Inr x\<close> show ?thesis
      by (auto simp: download_and_verify_def os_remove_def split: sum.splits)
  qed
qed

lemma download_and_verify_frame:
  assumes "p \<noteq> dest" and "p \<noteq> dest @ ''.tmp''"
  shows "fst (download_and_verify cr env url dest su fs) p = fs p"
  using assms download_binary_frame [OF assms, of "ee_first env" url fs]
  by (auto simp: download_and_verify_def os_remove_def split: sum.splits prod.splits)

lemma ensure_frame:
  assumes "p \<noteq> upgrade_bin (paths_of c) n" and "p \<noteq> upgrade_bin (paths_of c) n @ ''.tmp''"
  shows "fst (ensure_upgrade_binary c cr env n fs) p = fs p"
proof -
  let ?d = "upgrade_bin (paths_of c) n"
  have v: "f p = fs p" if "download_and_verify cr env url (upgrade_bin (paths_of c) n) su fs = (f, r)"
    for url su f r
    using download_and_verify_frame [OF assms, of cr env url su fs] that by simp
  show ?thesis
    by (auto simp: ensure_upgrade_binary_def Let_def download_binary_frame [OF assms]
        split: sum.split prod.split dest: v)
qed

section \<open>The interface of the batch manager\<close>

record dl_world =
  dw_files :: files
  dw_envs :: "nat \<Rightarrow> ensure_env"
  dw_calls :: nat

definition ensure_binary :: "config \<Rightarrow> crypto \<Rightarrow> string \<Rightarrow> dl_world \<Rightarrow> dl_world \<times> bool" where
  "ensure_binary c cr n w =
     (case ensure_upgrade_binary c cr (dw_envs w (dw_calls w)) n (dw_files w) of
        (fs, Inr _) \<Rightarrow> (w\<lparr>dw_files := fs, dw_calls := Suc (dw_calls w)\<rparr>, True)
      | (fs, Inl _) \<Rightarrow> (w\<lparr>dw_files := fs, dw_calls := Suc (dw_calls w)\<rparr>, False))"

definition has_binary :: "config \<Rightarrow> dl_world \<Rightarrow> string \<Rightarrow> bool" where
  "has_binary c w n \<longleftrightarrow> dw_files w (upgrade_bin (paths_of c) n) \<noteq> None"

definition good_name :: "config \<Rightarrow> string \<Rightarrow> bool" where
  "good_name c n \<longleftrightarrow> is_abs (cf_home (c_core c)) \<and> plain (cf_name (c_core c)) \<and> plain n"

lemma ensure_ok_present:
  assumes "ensure_upgrade_binary c cr env n fs = (fs', Inr u)"
  shows "fs' (upgrade_bin (paths_of c) n) \<noteq> None"
  using assms
  by (auto simp: ensure_upgrade_binary_def Let_def split: sum.splits prod.splits if_splits
      dest!: download_and_verify_ok download_binary_cases(1))

lemma ensure_keeps_present:
  assumes "good_name c n" and "good_name c m" and "fs (upgrade_bin (paths_of c) m) \<noteq> None"
  shows "fst (ensure_upgrade_binary c cr env n fs) (upgrade_bin (paths_of c) m) \<noteq> None"
proof (cases "m = n")
  case True
  with assms show ?thesis by (simp add: ensure_upgrade_binary_def Let_def)
next
  case False
  have "is_abs (pc_home (paths_of c))" "plain (pc_name (paths_of c))" "plain n" "plain m"
    using assms by (simp_all add: good_name_def paths_of_def)
  note sep = upgrade_bin_separate [OF this]
  have "upgrade_bin (paths_of c) m \<noteq> upgrade_bin (paths_of c) n"
    and "upgrade_bin (paths_of c) m \<noteq> upgrade_bin (paths_of c) n @ ''.tmp''"
    using sep(1,3) False by metis+
  from ensure_frame [OF this] assms(3) show ?thesis by simp
qed

interpretation dlsrc: binary_source "ensure_binary c cr" "has_binary c" "good_name c"
  for c :: config and cr :: crypto
proof unfold_locales
  show "has_binary c d' n" if "ensure_binary c cr n d = (d', True)" for n d d'
    using that ensure_ok_present [of c cr "dw_envs d (dw_calls d)" n "dw_files d"]
    by (auto simp: ensure_binary_def has_binary_def split: prod.splits sum.splits)
  show "has_binary c d' m"
    if "good_name c n" "good_name c m" "has_binary c d m" "ensure_binary c cr n d = (d', b)" for n m d d' b
    using that ensure_keeps_present [of c n m "dw_files d" cr "dw_envs d (dw_calls d)"]
    by (auto simp: ensure_binary_def has_binary_def split: prod.splits sum.splits)
qed

section \<open>Properties\<close>

text \<open>
  C28. Unless checksums may be skipped, a binary that \<open>EnsureUpgradeBinary\<close> had to fetch is verified:
  when it was not there and the call succeeds, downloads are enabled, the binary is executable, and
  its SHA-256 or SHA-512 digest is the text fetched from its checksum address.
\<close>

theorem ensured_binary_is_verified:
  assumes "ensure_upgrade_binary c cr env n fs = (fs', Inr ())"
    and "fs (upgrade_bin (paths_of c) n) = None"
    and "\<not> cf_unsafe_skip_checksum (c_download c)"
  shows "(cf_allow_download_binaries (c_upgrade c)) \<and>
    (\<exists>url x content. get_binary_url c n = Inr url \<and>
      fetch_checksum (ee_checksum env (get_checksum_url (ee_head_ok env) url)) = Inr x \<and>
      fs' (upgrade_bin (paths_of c) n) = Some (content, True) \<and> checksum_matches cr x content)"
proof (rule conj2I; (intro impI)?)
  from assms obtain url fs1 where "cf_allow_download_binaries (c_upgrade c)"
    and "get_binary_url c n = Inr url"
    and d: "download_and_verify cr env url (upgrade_bin (paths_of c) n)
      (get_checksum_url (ee_head_ok env) url) fs = (fs1, Inr ())" and "fs' = fs1"
    by (auto simp: ensure_upgrade_binary_def Let_def split: if_splits sum.splits prod.splits)
  with download_and_verify_ok [OF d]
  show "cf_allow_download_binaries (c_upgrade c)"
    and "\<exists>url x content. get_binary_url c n = Inr url \<and>
      fetch_checksum (ee_checksum env (get_checksum_url (ee_head_ok env) url)) = Inr x \<and>
      fs' (upgrade_bin (paths_of c) n) = Some (content, True) \<and> checksum_matches cr x content"
    by auto
qed

definition demo_crypto :: crypto where
  "demo_crypto = \<lparr>cr_sha256 = \<lambda>s. replicate 64 (if s = ''bin'' then CHR ''a'' else CHR ''b''),
     cr_sha512 = \<lambda>s. replicate 128 CHR ''c''\<rparr>"

definition demo_dl_env :: "bool \<Rightarrow> string \<Rightarrow> dl_env" where
  "demo_dl_env chmod body = \<lparr>de_answer = \<lambda>_ k. if k = 0 then None else Some (200, body, True),
     de_create_ok = \<lambda>_. True, de_rename_ok = True, de_chmod_ok = chmod, de_remove_ok = True\<rparr>"

definition demo_ensure_env :: "bool \<Rightarrow> string \<Rightarrow> ensure_env" where
  "demo_ensure_env chmod body = \<lparr>ee_mkdir_ok = True, ee_head_ok = \<lambda>_. False,
     ee_checksum = \<lambda>_. Some (200, Some (replicate 64 CHR ''a'' @ ''  bin'')),
     ee_first = demo_dl_env chmod body, ee_open_ok = True, ee_second = demo_dl_env chmod body\<rparr>"

definition demo_dl_cfg :: config where
  "demo_dl_cfg = (default_config ''/w'' '''')\<lparr>
     c_upgrade := \<lparr>cf_allow_download_binaries = True, cf_download_must_have_checksum = True,
       cf_restart_after_upgrade = True, cf_restart_delay = 0\<rparr>,
     c_download := \<lparr>cf_download_urls = Some [(''v2'', ''u'')], cf_unsafe_skip_checksum = False\<rparr>\<rparr>"

lemma demo_fields:
  "go_fields (trim_space (replicate 64 CHR ''a'' @ ''  bin'')) = [replicate 64 CHR ''a'', ''bin'']"
  by code_simp

lemmas demo_dl_simps = ensure_upgrade_binary_def download_and_verify_def download_binary_def
  download_file_def max_retries_def attempt_download_def fetch_checksum_def verify_checksum_def
  demo_crypto_def demo_dl_env_def demo_ensure_env_def demo_dl_cfg_def get_binary_url_def
  os_remove_def Let_def numeral_3_eq_3 demo_fields

theorem ensured_binary_is_verified_witness:
  "\<exists>fs' content. ensure_upgrade_binary demo_dl_cfg demo_crypto (demo_ensure_env True ''bin'') ''v2'' (\<lambda>_. None)
      = (fs', Inr ()) \<and>
    fs' (upgrade_bin (paths_of demo_dl_cfg) ''v2'') = Some (content, True)"
proof -
  obtain fs' r where e: "ensure_upgrade_binary demo_dl_cfg demo_crypto (demo_ensure_env True ''bin'') ''v2''
      (\<lambda>_. None) = (fs', r)" by fastforce
  have r: "r = Inr ()" using arg_cong [OF e, of snd] by (simp add: demo_dl_simps)
  have "\<not> cf_unsafe_skip_checksum (c_download demo_dl_cfg)" by (simp add: demo_dl_cfg_def)
  from ensured_binary_is_verified [OF e [unfolded r] refl this, THEN conjunct2] e r show ?thesis by blast
qed

text \<open>
  A failed call leaves no unverified binary behind as long as the final \<open>chmod\<close> and the removal of
  a rejected file succeed. The proviso on \<open>chmod\<close> is needed: when it fails, the downloaded file stays
  at the binary's path although it was never checked, and every later call accepts it as present.
\<close>

theorem failed_ensure_leaves_no_binary:
  assumes "ensure_upgrade_binary c cr env n fs = (fs', Inl e)"
    and "fs (upgrade_bin (paths_of c) n) = None"
    and "de_chmod_ok (ee_first env)" and "de_remove_ok (ee_first env)" and "de_chmod_ok (ee_second env)"
  shows "fs' (upgrade_bin (paths_of c) n) = None"
proof -
  let ?d = "upgrade_bin (paths_of c) n"
  have a: "fs1 ?d = None" if "download_and_verify cr env url ?d su fs = (fs1, Inl e1)" for url su fs1 e1
    using download_and_verify_fails [OF that assms(2,3,4)] .
  have b: "fs2 ?d = None" if "download_binary (ee_second env) url ?d fs1 = (fs2, Inl e2)" "fs1 ?d = None"
    for url fs1 fs2 e2
    using download_binary_cases(2,3) [OF that(1)] that(2) assms(5) by (cases "e2 = Chmod_failed") auto
  show ?thesis
    using assms(1,2) a b
    by (auto simp: ensure_upgrade_binary_def Let_def split: if_splits sum.splits prod.splits)
qed

theorem failed_ensure_leaves_no_binary_witness:
  "fst (ensure_upgrade_binary demo_dl_cfg demo_crypto (demo_ensure_env True ''x'') ''v2'' (\<lambda>_. None))
     (upgrade_bin (paths_of demo_dl_cfg) ''v2'') = None"
proof -
  obtain fs' r where e: "ensure_upgrade_binary demo_dl_cfg demo_crypto (demo_ensure_env True ''x'') ''v2''
      (\<lambda>_. None) = (fs', r)" by fastforce
  have r: "r = Inl Checksum_mismatch" using arg_cong [OF e, of snd]
    by (simp add: demo_dl_simps)
  have "fs' (upgrade_bin (paths_of demo_dl_cfg) ''v2'') = None"
    by (rule failed_ensure_leaves_no_binary [OF e [unfolded r] refl])
      (simp_all add: demo_ensure_env_def demo_dl_env_def)
  with e show ?thesis by simp
qed

text \<open>
  A binary whose \<open>chmod\<close> failed is accepted later without any check: the first call fails, and the
  next one, with whatever the network then says, succeeds and changes nothing.
\<close>

theorem chmod_failure_accepts_unverified:
  assumes "ensure_upgrade_binary c cr env n fs = (fs', Inl Chmod_failed)"
  shows "ensure_upgrade_binary c cr env' n fs' = (fs', Inr ())"
proof -
  let ?d = "upgrade_bin (paths_of c) n"
  have b: "fs1 ?d \<noteq> None" if "download_binary e url ?d fs = (fs1, Inl Chmod_failed)" for e url fs fs1
    using download_binary_cases(3) [OF that] by simp
  have v: "verify_checksum cr ok p x f \<noteq> Inl Chmod_failed" for ok p x f
    by (auto simp: verify_checksum_def split: option.splits)
  have k: "fetch_checksum a \<noteq> Inl Chmod_failed" for a
    by (auto simp: fetch_checksum_def split: option.splits list.splits)
  have u: "get_binary_url c n \<noteq> Inl Chmod_failed"
    by (auto simp: get_binary_url_def split: option.splits)
  have a: "fs1 ?d \<noteq> None" if "download_and_verify cr env url ?d su fs = (fs1, Inl Chmod_failed)" for url su fs fs1
    using that b v k by (auto simp: download_and_verify_def split: sum.splits prod.splits)
  have "fs' ?d \<noteq> None"
    using assms a b u
    by (auto simp: ensure_upgrade_binary_def Let_def split: if_splits sum.splits prod.splits)
  then show ?thesis by (simp add: ensure_upgrade_binary_def Let_def)
qed

theorem chmod_failure_accepts_unverified_witness:
  "snd (ensure_upgrade_binary demo_dl_cfg demo_crypto (demo_ensure_env True ''bin'') ''v2''
     (fst (ensure_upgrade_binary demo_dl_cfg demo_crypto (demo_ensure_env False ''evil'') ''v2'' (\<lambda>_. None))))
   = Inr ()"
proof -
  obtain fs' r where e: "ensure_upgrade_binary demo_dl_cfg demo_crypto (demo_ensure_env False ''evil'') ''v2''
      (\<lambda>_. None) = (fs', r)" by fastforce
  have "r = Inl Chmod_failed" using arg_cong [OF e, of snd] by (simp add: demo_dl_simps)
  from chmod_failure_accepts_unverified [OF e [unfolded this]] e show ?thesis by simp
qed

text \<open>
  Preparing a batch upgrade: when \<open>PrepareBatchUpgrade\<close> succeeds with the downloader, the binary
  of every upgrade of the plan is in place, as long as the names are plain path components.
\<close>

theorem prepared_plan_has_binaries:
  assumes "prepare_batch_upgrade (ensure_binary c cr) p w = (w', Inr ())"
    and "\<forall>u\<in>set (up_upgrades p). good_name c (ui_name u)"
  shows "\<forall>u\<in>set (up_upgrades p). dw_files w' (upgrade_bin (paths_of c) (ui_name u)) \<noteq> None"
  using dlsrc.ensure_all_has [of "map ui_name (up_upgrades p)" c cr w w' "()"] assms
  by (simp add: prepare_batch_upgrade_def has_binary_def)

theorem prepared_plan_has_binaries_witness:
  "\<exists>w'. prepare_batch_upgrade (ensure_binary demo_dl_cfg demo_crypto)
      (demo_plan\<lparr>up_upgrades := [ui ''v2'' 5]\<rparr>)
      \<lparr>dw_files = \<lambda>_. None, dw_envs = \<lambda>_. demo_ensure_env True ''bin'', dw_calls = 0\<rparr> = (w', Inr ()) \<and>
    dw_files w' (upgrade_bin (paths_of demo_dl_cfg) ''v2'') \<noteq> None"
proof -
  let ?p = "demo_plan\<lparr>up_upgrades := [ui ''v2'' 5]\<rparr>"
  let ?w = "\<lparr>dw_files = \<lambda>_. None, dw_envs = \<lambda>_. demo_ensure_env True ''bin'', dw_calls = 0\<rparr>"
  obtain w' r where e: "prepare_batch_upgrade (ensure_binary demo_dl_cfg demo_crypto) ?p ?w = (w', r)"
    by fastforce
  have r: "r = Inr ()" using arg_cong [OF e, of snd]
    by (simp add: prepare_batch_upgrade_def ensure_binary_def demo_dl_simps)
  have "\<forall>u\<in>set (up_upgrades ?p). good_name demo_dl_cfg (ui_name u)"
    by (simp add: good_name_def demo_dl_cfg_def default_config_def default_home_def Let_def is_abs_def plain_def)
  from prepared_plan_has_binaries [OF e [unfolded r] this] e r show ?thesis by simp
qed

end
