(* ===== verification/Hooks.thy ===== *)
theory Hooks
  imports Downloads FileWatcher
begin

text \<open>
  \<open>internal/hooks/preupgrade.go\<close>: the pre-upgrade script and the check of an upgrade's binary. A
  script is what its \<open>k\<close>-th run does to the world it can reach and whether it succeeds; the world's
  type is a parameter. A run that exceeds five minutes is a run that fails.
\<close>

record 'w hook_env =
  hk_exists :: "string \<Rightarrow> bool"
  hk_chmod_ok :: bool
  hk_run :: "string \<Rightarrow> string list \<Rightarrow> nat \<Rightarrow> 'w \<Rightarrow> 'w \<times> bool"

datatype hook_error = Script_chmod_failed | Script_failed int | Binary_missing string
| Binary_stat_failed | Binary_not_executable string

text \<open>The variables added to the environment of the script; the marshaller is the library's.\<close>

definition script_environment :: "(json \<Rightarrow> string) \<Rightarrow> config \<Rightarrow> upgrade_info \<Rightarrow> string list" where
  "script_environment marshal c u =
     [''DAEMON_HOME='' @ cf_home (c_core c), ''DAEMON_NAME='' @ cf_name (c_core c),
      ''UPGRADE_NAME='' @ ui_name u, ''UPGRADE_HEIGHT='' @ int_str (ui_height u)] @
     (if length (ui_info u) > 0 then [''UPGRADE_INFO='' @ marshal (JObj (ui_info u))] else [])"

text \<open>The retry loop with \<open>n\<close> retries left; the count is the number of runs so far.\<close>

fun run_attempts :: "(nat \<Rightarrow> 'w \<Rightarrow> 'w \<times> bool) \<Rightarrow> nat \<Rightarrow> nat \<Rightarrow> 'w \<Rightarrow> 'w \<times> nat \<times> bool" where
  "run_attempts run 0 k w = (case run k w of (w', ok) \<Rightarrow> (w', Suc k, ok))"
| "run_attempts run (Suc n) k w =
     (case run k w of
        (w', True) \<Rightarrow> (w', Suc k, True)
      | (w', False) \<Rightarrow> run_attempts run n (Suc k) w')"

definition run_script ::
  "(json \<Rightarrow> string) \<Rightarrow> config \<Rightarrow> 'w hook_env \<Rightarrow> string \<Rightarrow> upgrade_info \<Rightarrow> 'w \<Rightarrow> ('w, hook_error, unit) gores" where
  "run_script marshal c env path u w =
     (if \<not> hk_chmod_ok env then (w, Inl Script_chmod_failed)
      else (case run_attempts (hk_run env path (script_environment marshal c u))
                   (nat (cf_preupgrade_max_retries (c_backup c))) 0 w of
              (w', _, True) \<Rightarrow> (w', Inr ())
            | (w', _, False) \<Rightarrow> (w', Inl (Script_failed (cf_preupgrade_max_retries (c_backup c))))))"

definition hook_execute ::
  "(json \<Rightarrow> string) \<Rightarrow> config \<Rightarrow> 'w hook_env \<Rightarrow> upgrade_info \<Rightarrow> 'w \<Rightarrow> ('w, hook_error, unit) gores" where
  "hook_execute marshal c env u w =
     (let custom = cf_custom_preupgrade (c_backup c);
          path = (if custom \<noteq> '''' then custom
                  else path_join [upgrade_dir (paths_of c) (ui_name u), ''pre-upgrade'']) in
      if \<not> hk_exists env path then (w, Inr ()) else run_script marshal c env path u w)"

text \<open>\<open>ValidateUpgrade\<close>; the environment says whether the second \<open>Stat\<close> works.\<close>

definition hook_validate :: "config \<Rightarrow> bool \<Rightarrow> upgrade_info \<Rightarrow> files \<Rightarrow> hook_error + unit" where
  "hook_validate c stat_ok u fs =
     (let b = upgrade_bin (paths_of c) (ui_name u) in
      case fs b of
        None \<Rightarrow> Inl (Binary_missing b)
      | Some (_, executable) \<Rightarrow>
          if \<not> stat_ok then Inl Binary_stat_failed
          else if \<not> executable then Inl (Binary_not_executable b) else Inr ())"

section \<open>Lemmas\<close>

text \<open>The loop as the first success among the allowed runs.\<close>

primrec world_after :: "(nat \<Rightarrow> 'w \<Rightarrow> 'w \<times> bool) \<Rightarrow> nat \<Rightarrow> 'w \<Rightarrow> 'w" where
  "world_after run 0 w = w"
| "world_after run (Suc k) w = fst (run k (world_after run k w))"

definition run_ok :: "(nat \<Rightarrow> 'w \<Rightarrow> 'w \<times> bool) \<Rightarrow> nat \<Rightarrow> 'w \<Rightarrow> bool" where
  "run_ok run k w \<longleftrightarrow> snd (run k (world_after run k w))"

lemma run_attempts_result:
  assumes "run_attempts run n k (world_after run k w) = (w', m, ok)"
  shows "k < m \<and> m \<le> Suc (k + n) \<and> w' = world_after run m w \<and>
    (\<forall>j. k \<le> j \<longrightarrow> Suc j < m \<longrightarrow> \<not> run_ok run j w) \<and> (ok \<longleftrightarrow> run_ok run (m - 1) w) \<and>
    (\<not> ok \<longrightarrow> m = Suc (k + n))"
  using assms
proof (induction n arbitrary: k)
  case 0
  then show ?case by (auto simp: run_ok_def split: prod.splits)
next
  case (Suc n)
  obtain w1 b where r: "run k (world_after run k w) = (w1, b)" by fastforce
  show ?case
  proof (cases b)
    case True
    with Suc.prems r show ?thesis by (auto simp: run_ok_def)
  next
    case False
    with r Suc.prems have "run_attempts run n (Suc k) (world_after run (Suc k) w) = (w', m, ok)" by simp
    note I = Suc.IH [OF this]
    have "\<not> run_ok run k w" using False r by (simp add: run_ok_def)
    then have first: "\<forall>j. k \<le> j \<longrightarrow> Suc j < m \<longrightarrow> \<not> run_ok run j w"
      using I by (metis Suc_leI le_neq_implies_less)
    from I have i: "Suc k < m" "m \<le> Suc (Suc k + n)" "w' = world_after run m w"
      "ok \<longleftrightarrow> run_ok run (m - 1) w" "\<not> ok \<longrightarrow> m = Suc (Suc k + n)" by blast+
    show ?thesis
    proof (intro conjI)
      show "k < m" and "m \<le> Suc (k + Suc n)" using i(1,2) by linarith+
      show "\<not> ok \<longrightarrow> m = Suc (k + Suc n)" using i(5) by simp
    qed (fact first i)+
  qed
qed

lemma hook_execute_world:
  assumes "hook_execute marshal c env u w = (w', r)"
  shows "\<exists>p m. w' = world_after (hk_run env p (script_environment marshal c u)) m w"
proof -
  let ?run = "\<lambda>p. hk_run env p (script_environment marshal c u)"
  let ?n = "nat (cf_preupgrade_max_retries (c_backup c))"
  have run: "fst (run_attempts (?run p) ?n 0 w) = world_after (?run p) (fst (snd (run_attempts (?run p) ?n 0 w))) w" for p
  proof -
    obtain w1 m ok where e: "run_attempts (?run p) ?n 0 (world_after (?run p) 0 w) = (w1, m, ok)"
      by (metis prod.exhaust)
    from run_attempts_result [OF e] have "w1 = world_after (?run p) m w" by blast
    with e show ?thesis by simp
  qed
  have "w' = w \<or> (\<exists>p. w' = fst (run_attempts (?run p) ?n 0 w))"
    using assms
    by (auto simp: hook_execute_def run_script_def Let_def split: if_splits prod.splits bool.splits)
      (metis fst_conv)+
  moreover have "w = world_after (?run p) 0 w" for p by simp
  ultimately show ?thesis using run by metis
qed

section \<open>Properties\<close>

text \<open>
  C14. The pre-upgrade script is run until its first success, at most the configured number of retries
  and once more (a negative number counts as none): the hook succeeds exactly when one of those runs
  does, each run starts from what the one before left, and none follows the first success.
\<close>

theorem hook_stops_at_first_success:
  assumes "hk_exists env path" and "hk_chmod_ok env"
    and "path = (if cf_custom_preupgrade (c_backup c) \<noteq> '''' then cf_custom_preupgrade (c_backup c)
      else path_join [upgrade_dir (paths_of c) (ui_name u), ''pre-upgrade''])"
    and "run = hk_run env path (script_environment marshal c u)"
    and "n = nat (cf_preupgrade_max_retries (c_backup c))"
    and "hook_execute marshal c env u w = (w', r)"
  shows "(r = Inr () \<longleftrightarrow> (\<exists>k\<le>n. run_ok run k w)) \<and>
    (\<exists>m. 0 < m \<and> m \<le> Suc n \<and> w' = world_after run m w \<and> (\<forall>j. Suc j < m \<longrightarrow> \<not> run_ok run j w) \<and>
      (r \<noteq> Inr () \<longrightarrow> m = Suc n))"
proof -
  obtain w1 m ok where e: "run_attempts run n 0 (world_after run 0 w) = (w1, m, ok)"
    by (metis prod.exhaust)
  note R = run_attempts_result [OF e]
  have x: "hook_execute marshal c env u w = (w1, if ok then Inr () else Inl (Script_failed
      (cf_preupgrade_max_retries (c_backup c))))"
    using assms(1-3) e by (auto simp: hook_execute_def run_script_def Let_def assms(4,5) split: bool.splits)
  then have r: "r = Inr () \<longleftrightarrow> ok" and w': "w' = w1" using assms(6) by auto
  have "ok \<longleftrightarrow> (\<exists>k\<le>n. run_ok run k w)"
  proof
    assume ok
    with R show "\<exists>k\<le>n. run_ok run k w" by (intro exI [of _ "m - 1"]) auto
  next
    assume "\<exists>k\<le>n. run_ok run k w"
    then obtain k where k: "k \<le> n" "run_ok run k w" by blast
    show ok
    proof (rule ccontr)
      assume "\<not> ok"
      with R have "m = Suc (0 + n)" and "\<not> run_ok run (m - 1) w" by blast+
      then have m: "m = Suc n" "\<not> run_ok run n w" by simp_all
      from R m(1) have "\<forall>j. Suc j < Suc n \<longrightarrow> \<not> run_ok run j w" by simp
      with k m(2) show False by (metis Suc_less_eq le_neq_implies_less)
    qed
  qed
  moreover from R have "0 < m \<and> m \<le> Suc n \<and> w1 = world_after run m w \<and>
      (\<forall>j. Suc j < m \<longrightarrow> \<not> run_ok run j w) \<and> (\<not> ok \<longrightarrow> m = Suc n)"
    unfolding add_0 by blast
  ultimately show ?thesis unfolding r w' by (rule conjI [OF _ exI [of _ m]])
qed

definition demo_script :: "nat \<Rightarrow> nat \<Rightarrow> nat \<times> bool" where
  "demo_script k w = (w + 1, k = 1)"

theorem hook_stops_at_first_success_witness:
  "hook_execute (\<lambda>_. '''') (demo_dl_cfg\<lparr>c_backup := (c_backup demo_dl_cfg)\<lparr>cf_preupgrade_max_retries := 3\<rparr>\<rparr>)
     \<lparr>hk_exists = \<lambda>_. True, hk_chmod_ok = True, hk_run = \<lambda>_ _. demo_script\<rparr> demo_info 0 = (2, Inr ())"
proof -
  let ?c = "demo_dl_cfg\<lparr>c_backup := (c_backup demo_dl_cfg)\<lparr>cf_preupgrade_max_retries := 3\<rparr>\<rparr>"
  let ?env = "\<lparr>hk_exists = \<lambda>_. True, hk_chmod_ok = True, hk_run = \<lambda>_ _. demo_script\<rparr>"
  obtain w' r where e: "hook_execute (\<lambda>_. '''') ?c ?env demo_info 0 = (w', r)" by fastforce
  have h: "hk_exists ?env x" "hk_chmod_ok ?env" for x by simp_all
  note R = hook_stops_at_first_success [OF h refl refl refl e]
  have ok: "run_ok demo_script 1 0" "\<not> run_ok demo_script 0 0" by (simp_all add: run_ok_def demo_script_def)
  then have "\<exists>k\<le>nat 3. run_ok demo_script k 0" by (intro exI [of _ 1]) simp
  with R have r: "r = Inr ()" by simp
  have "w' = 2" using arg_cong [OF e, of fst]
    by (simp add: hook_execute_def run_script_def Let_def demo_script_def numeral_3_eq_3 split: if_splits)
  with r e show ?thesis by simp
qed

end
