(* ===== verification/ProcessManager.thy ===== *)
theory ProcessManager
  imports Backups Hooks
begin

text \<open>
  \<open>internal/process/manager.go\<close>: the manager behind \<open>wemixvisor run\<close>. It runs the current binary, watches
  for an upgrade file, and performs upgrades: check, backup, hook, download, link. Its state is the
  binaries, the \<open>current\<close> link, the data tree with its backups, the file watcher and the process. The
  events of a run (ticks, polls of the watcher's goroutine, the end of the process) are arguments.
\<close>

record pm_state =
  pm_files :: files
  pm_current :: cur_entry
  pm_store :: backup_state
  pm_watcher :: watcher
  pm_running :: bool
  pm_cmd :: "bool option"
  pm_stopped :: bool
  pm_started :: "string list"

text \<open>
  The command is \<open>None\<close> when there is no process, and otherwise says whether it is alive. The last
  field records the binaries started so far, the latest first.
\<close>

record pu_env =
  ue_stat_ok :: bool
  ue_backup :: backup_env
  ue_restorable :: "string \<Rightarrow> bool"
  ue_hook :: "(files \<times> tree) hook_env"
  ue_crypto :: crypto
  ue_ensure :: ensure_env
  ue_link :: link_env
  ue_removable :: "string \<Rightarrow> bool"
  ue_now :: time

datatype pm_error =
  Validation_error hook_error | Backup_error backup_error | Hook_error hook_error
| Download_error dl_error | Link_error link_error | Current_binary_missing | Process_start_failed
| Process_failed | Process_kill_failed | Already_running | Genesis_missing | Watcher_failed

definition backup_retention :: duration where
  "backup_retention = 7 * 24 * 60 * minute"

definition create_pre_upgrade_backup ::
  "config \<Rightarrow> backup_env \<Rightarrow> string \<Rightarrow> backup_state \<Rightarrow> (backup_state, pm_error, string) gores" where
  "create_pre_upgrade_backup c env name s =
     (case create_backup c env (''pre-upgrade-'' @ name) s of
        (s1, Inl e) \<Rightarrow>
          if \<not> cf_unsafe_skip_backup (c_backup c) then (s1, Inl (Backup_error e)) else (s1, Inr '''')
      | (s1, Inr path) \<Rightarrow> (s1, Inr path))"

definition restore_on_failure :: "config \<Rightarrow> (string \<Rightarrow> bool) \<Rightarrow> string \<Rightarrow> backup_state \<Rightarrow> backup_state" where
  "restore_on_failure c ok path s = (if path = '''' then s else fst (restore_backup c ok path s))"

text \<open>The script runs on the files and the data tree.\<close>

definition execute_upgrade_steps ::
  "(json \<Rightarrow> string) \<Rightarrow> config \<Rightarrow> pu_env \<Rightarrow> upgrade_info \<Rightarrow> string \<Rightarrow> pm_state \<Rightarrow> (pm_state, pm_error, unit) gores" where
  "execute_upgrade_steps marshal c env u path s =
     (let back = (\<lambda>s. s\<lparr>pm_store := restore_on_failure c (ue_restorable env) path (pm_store s)\<rparr>) in
      case hook_execute marshal c (ue_hook env) u (pm_files s, bs_tree (pm_store s)) of
        ((fs, t), r) \<Rightarrow>
          let s1 = s\<lparr>pm_files := fs, pm_store := (pm_store s)\<lparr>bs_tree := t\<rparr>\<rparr> in
          (case r of
             Inl e \<Rightarrow> (back s1, Inl (Hook_error e))
           | Inr _ \<Rightarrow>
               (case ensure_upgrade_binary c (ue_crypto env) (ue_ensure env) (ui_name u) (pm_files s1) of
                  (fs2, Inl e) \<Rightarrow> (back (s1\<lparr>pm_files := fs2\<rparr>), Inl (Download_error e))
                | (fs2, Inr _) \<Rightarrow>
                    (case link_to_upgrade (paths_of c) (ue_link env) (ui_name u) (pm_current s1) of
                       (cur, Inl e) \<Rightarrow>
                         (back (s1\<lparr>pm_files := fs2, pm_current := cur\<rparr>), Inl (Link_error e))
                     | (cur, Inr _) \<Rightarrow> (s1\<lparr>pm_files := fs2, pm_current := cur\<rparr>, Inr ())))))"

definition perform_upgrade ::
  "(json \<Rightarrow> string) \<Rightarrow> config \<Rightarrow> pu_env \<Rightarrow> upgrade_info \<Rightarrow> pm_state \<Rightarrow> (pm_state, pm_error, unit) gores" where
  "perform_upgrade marshal c env u s =
     (case hook_validate c (ue_stat_ok env) u (pm_files s) of
        Inl e \<Rightarrow> (s, Inl (Validation_error e))
      | Inr _ \<Rightarrow>
          (case create_pre_upgrade_backup c (ue_backup env) (ui_name u) (pm_store s) of
             (st, Inl e) \<Rightarrow> (s\<lparr>pm_store := st\<rparr>, Inl e)
           | (st, Inr path) \<Rightarrow>
               (case execute_upgrade_steps marshal c env u path (s\<lparr>pm_store := st\<rparr>) of
                  (s1, Inl e) \<Rightarrow> (s1, Inl e)
                | (s1, Inr _) \<Rightarrow>
                    (s1\<lparr>pm_store := clean_old_backups (ue_removable env) (ue_now env) backup_retention
                          (pm_store s1)\<rparr>, Inr ()))))"

section \<open>The process\<close>

record pm_stop_env =
  se_term_ok :: bool
  se_in_time :: bool
  se_kill_ok :: bool

text \<open>A dead process can be neither signalled nor killed; without a grace period the wait has no limit.\<close>

definition pm_stop_process :: "config \<Rightarrow> pm_stop_env \<Rightarrow> pm_state \<Rightarrow> (pm_state, pm_error, unit) gores" where
  "pm_stop_process c env s =
     (let dead = s\<lparr>pm_cmd := Some False\<rparr> in
      case pm_cmd s of
        None \<Rightarrow> (s, Inr ())
      | Some False \<Rightarrow> (s, Inl Process_kill_failed)
      | Some True \<Rightarrow>
          if \<not> se_term_ok env then (if se_kill_ok env then (dead, Inr ()) else (s, Inl Process_kill_failed))
          else if cf_shutdown_grace (c_process c) \<le> 0 \<or> se_in_time env then (dead, Inr ())
          else if se_kill_ok env then (dead, Inr ()) else (s, Inl Process_kill_failed))"

datatype wait_event = Watcher_poll ufs | Upgrade_tick | Process_exit bool | Context_done

datatype wait_end = Exited bool | Upgrade_seen | Cancelled

text \<open>
  The \<open>select\<close> loop of \<open>waitForProcessOrUpgrade\<close>; between its events the watcher's goroutine polls the
  upgrade file. \<open>None\<close> is still waiting.
\<close>

fun wait_loop :: "wait_event list \<Rightarrow> watcher \<Rightarrow> watcher \<times> wait_end option" where
  "wait_loop [] w = (w, None)"
| "wait_loop (Watcher_poll fs # es) w = wait_loop es (fst (check_for_update fs w))"
| "wait_loop (Upgrade_tick # es) w = (if needs_update w then (w, Some Upgrade_seen) else wait_loop es w)"
| "wait_loop (Process_exit ok # es) w = (w, Some (Exited ok))"
| "wait_loop (Context_done # es) w = (w, Some Cancelled)"

record cycle_env =
  ce_start_ok :: bool
  ce_events :: "wait_event list"
  ce_stop :: pm_stop_env
  ce_upgrade :: pu_env

text \<open>\<open>runProcess\<close>: the outer \<open>None\<close> is a process that is still being waited for.\<close>

definition run_process ::
  "config \<Rightarrow> cycle_env \<Rightarrow> pm_state \<Rightarrow> pm_state \<times> (pm_error + unit) option" where
  "run_process c env s =
     (case resolve_current (paths_of c) (pm_current s) [''bin'', cf_name (c_core c)] of
        None \<Rightarrow> (s, Some (Inl Current_binary_missing))
      | Some b \<Rightarrow>
          if pm_files s b = None then (s, Some (Inl Current_binary_missing))
          else if \<not> ce_start_ok env then (s\<lparr>pm_cmd := None\<rparr>, Some (Inl Process_start_failed))
          else
            let s0 = s\<lparr>pm_cmd := Some True, pm_started := b # pm_started s\<rparr> in
            (case wait_loop (ce_events env) (pm_watcher s) of
               (w, None) \<Rightarrow> (s0\<lparr>pm_watcher := w\<rparr>, None)
             | (w, Some (Exited ok)) \<Rightarrow>
                 (s0\<lparr>pm_watcher := w, pm_cmd := Some False\<rparr>,
                  Some (if ok then Inr () else Inl Process_failed))
             | (w, Some _) \<Rightarrow>
                 (case pm_stop_process c (ce_stop env) (s0\<lparr>pm_watcher := w\<rparr>) of
                    (s1, r) \<Rightarrow> (s1, Some r))))"

definition run_cycle ::
  "(json \<Rightarrow> string) \<Rightarrow> config \<Rightarrow> cycle_env \<Rightarrow> pm_state \<Rightarrow> pm_state \<times> (pm_error + unit) option" where
  "run_cycle marshal c env s =
     (case run_process c env s of
        (s1, None) \<Rightarrow> (s1, None)
      | (s1, Some (Inr _)) \<Rightarrow> (s1, Some (Inr ()))
      | (s1, Some (Inl e)) \<Rightarrow>
          if \<not> cf_restart_after_upgrade (c_upgrade c) then (s1, Some (Inl e))
          else (case get_current_upgrade (pm_watcher s1) of
                  None \<Rightarrow> (s1, Some (Inl e))
                | Some u \<Rightarrow>
                    (case perform_upgrade marshal c (ce_upgrade env) u s1 of (s2, r) \<Rightarrow> (s2, Some r))))"

datatype signal = SIGTERM | SIGINT | SIGQUIT

definition handle_signal ::
  "config \<Rightarrow> pm_stop_env \<Rightarrow> signal \<Rightarrow> pm_state \<Rightarrow> (pm_state, pm_error, unit) gores" where
  "handle_signal c env sig s =
     (if sig = SIGTERM \<or> sig = SIGINT then pm_stop_process c env s
      else (case pm_cmd s of
              Some True \<Rightarrow> if se_kill_ok env then (s\<lparr>pm_cmd := Some False\<rparr>, Inr ()) else (s, Inl Process_kill_failed)
            | Some False \<Rightarrow> (s, Inl Process_kill_failed)
            | None \<Rightarrow> (s, Inr ())))"

text \<open>What each iteration of \<open>mainLoop\<close> finds; \<open>None\<close> is a loop that has not returned.\<close>

datatype loop_event = Ctx_cancel pm_stop_env | Got_signal signal pm_stop_env | Run_cycle cycle_env

fun main_loop ::
  "(json \<Rightarrow> string) \<Rightarrow> config \<Rightarrow> loop_event list \<Rightarrow> pm_state \<Rightarrow> pm_state \<times> (pm_error + unit) option" where
  "main_loop marshal c [] s = (s, None)"
| "main_loop marshal c (Ctx_cancel env # es) s =
     (case pm_stop_process c env s of (s1, r) \<Rightarrow> (s1, Some r))"
| "main_loop marshal c (Got_signal sig env # es) s =
     (case handle_signal c env sig s of (s1, r) \<Rightarrow> (s1, Some r))"
| "main_loop marshal c (Run_cycle env # es) s =
     (case run_cycle marshal c env s of
        (s1, None) \<Rightarrow> (s1, None)
      | (s1, Some (Inl e)) \<Rightarrow> (s1, Some (Inl e))
      | (s1, Some (Inr _)) \<Rightarrow> main_loop marshal c es s1)"

definition ensure_current_link ::
  "config \<Rightarrow> link_env \<Rightarrow> pm_state \<Rightarrow> (pm_state, pm_error, unit) gores" where
  "ensure_current_link c env s =
     (let bin = (\<lambda>cur. case resolve_current (paths_of c) cur [''bin'', cf_name (c_core c)] of
                   None \<Rightarrow> False | Some b \<Rightarrow> pm_files s b \<noteq> None) in
      if le_stat_ok env (current_dir (paths_of c)) \<and> bin (pm_current s) then (s, Inr ())
      else (case link_to_genesis (paths_of c) env (pm_current s) of
              (cur, Inl e) \<Rightarrow> (s\<lparr>pm_current := cur\<rparr>, Inl (Link_error e))
            | (cur, Inr _) \<Rightarrow>
                if pm_files s (genesis_bin (paths_of c)) = None
                then (s\<lparr>pm_current := cur\<rparr>, Inl Genesis_missing)
                else (s\<lparr>pm_current := cur\<rparr>, Inr ())))"

text \<open>
  \<open>Run\<close>: the inner \<open>None\<close> is a run that has not returned, the outer one a panic: the deferred call
  closes \<open>stoppedChan\<close>, which a second run finds closed. The watcher's own \<open>Stop\<close> may panic as well.
\<close>

definition clear_running :: "pm_state \<Rightarrow> pm_state option" where
  "clear_running s = (if pm_stopped s then None else Some (s\<lparr>pm_running := False, pm_stopped := True\<rparr>))"

definition pm_run ::
  "(json \<Rightarrow> string) \<Rightarrow> config \<Rightarrow> link_env \<Rightarrow> ufs \<Rightarrow> loop_event list \<Rightarrow> pm_state \<Rightarrow>
     (pm_state \<times> (pm_error + unit) option) option" where
  "pm_run marshal c env fs es s =
     (if pm_running s then Some (s, Some (Inl Already_running))
      else (case ensure_current_link c env (s\<lparr>pm_running := True\<rparr>) of
              (s1, Inl e) \<Rightarrow> map_option (\<lambda>s'. (s', Some (Inl e))) (clear_running s1)
            | (s1, Inr _) \<Rightarrow>
                (case watcher_start fs (pm_watcher s1) of
                   (w, Inl _) \<Rightarrow>
                     map_option (\<lambda>s'. (s', Some (Inl Watcher_failed))) (clear_running (s1\<lparr>pm_watcher := w\<rparr>))
                 | (w, Inr _) \<Rightarrow>
                     (case main_loop marshal c es (s1\<lparr>pm_watcher := w\<rparr>) of
                        (s2, None) \<Rightarrow> Some (s2, None)
                      | (s2, Some r) \<Rightarrow>
                          Option.bind (watcher_stop (pm_watcher s2)) (\<lambda>w2.
                          map_option (\<lambda>s'. (s', Some r)) (clear_running (s2\<lparr>pm_watcher := w2\<rparr>)))))))"

section \<open>Lemmas\<close>

text \<open>What one cycle of the process does to the rest of the state.\<close>

lemma wait_loop_flag: "fw_needs w \<Longrightarrow> fw_needs (fst (wait_loop es w))"
proof (induction es w rule: wait_loop.induct)
  case (2 fs es w)
  have "fw_needs (fst (check_for_update fs w))"
    using "2.prems" by (cases rule: check_file_cases [of fs w]) (auto simp: check_for_update_def split: option.splits)
  with "2.IH" show ?case by simp
qed (simp_all add: needs_update_def)

lemma wait_loop_exit: "snd (wait_loop es w) = Some (Exited ok) \<Longrightarrow> Process_exit ok \<in> set es"
  by (induction es w rule: wait_loop.induct) (auto split: if_splits)

lemma stop_process_result:
  assumes "pm_stop_process c env s = (s', r)"
  shows "pm_files s' = pm_files s \<and> pm_current s' = pm_current s \<and> pm_store s' = pm_store s \<and>
    pm_watcher s' = pm_watcher s \<and> pm_started s' = pm_started s" and "se_kill_ok env \<Longrightarrow> pm_cmd s = Some True \<Longrightarrow> r = Inr () \<and> pm_cmd s' = Some False"
    and "pm_cmd s \<noteq> Some True \<Longrightarrow> s' = s \<and> (r = Inr () \<longleftrightarrow> pm_cmd s = None)"
  using assms by (auto simp: pm_stop_process_def Let_def split: option.splits bool.splits if_splits)

lemma run_process_frame:
  assumes "run_process c env s = (s', r)"
  shows "pm_files s' = pm_files s \<and> pm_current s' = pm_current s \<and> pm_store s' = pm_store s \<and>
    (fw_needs (pm_watcher s) \<longrightarrow> fw_needs (pm_watcher s')) \<and>
    pm_watcher s' \<in> {pm_watcher s, fst (wait_loop (ce_events env) (pm_watcher s))}"
  using assms wait_loop_flag [of "pm_watcher s" "ce_events env"]
  by (auto simp: run_process_def Let_def dest!: stop_process_result(1) split: option.splits if_splits prod.splits wait_end.splits)

lemma run_process_orderly:
  assumes "run_process c env s = (s', Some (Inl e))"
    and "resolve_current (paths_of c) (pm_current s) [''bin'', cf_name (c_core c)] = Some b"
    and "pm_files s b \<noteq> None" and "ce_start_ok env" and "se_kill_ok (ce_stop env)"
  shows "Process_exit False \<in> set (ce_events env)"
  using assms wait_loop_exit [of "ce_events env" "pm_watcher s" False]
  by (auto simp: run_process_def Let_def dest: stop_process_result(2) split: option.splits if_splits prod.splits wait_end.splits)

lemma run_process_ended:
  assumes "run_process c env s = (s', Some r)" and "se_kill_ok (ce_stop env)" and "pm_cmd s \<noteq> Some True"
  shows "pm_cmd s' \<noteq> Some True"
  using assms
  by (auto simp: run_process_def Let_def dest: stop_process_result(2) split: option.splits if_splits prod.splits wait_end.splits)

lemma perform_upgrade_frame:
  assumes "perform_upgrade marshal c env u s = (s', r)"
  shows "pm_watcher s' = pm_watcher s \<and> pm_cmd s' = pm_cmd s \<and> pm_started s' = pm_started s"
  using assms
  by (auto simp: perform_upgrade_def execute_upgrade_steps_def Let_def
      split: sum.splits prod.splits)

lemma run_cycle_ended:
  assumes "run_cycle marshal c env s = (s', Some r)" and "se_kill_ok (ce_stop env)" and "pm_cmd s \<noteq> Some True"
  shows "pm_cmd s' \<noteq> Some True"
proof -
  obtain s1 r1 where p: "run_process c env s = (s1, Some r1)"
    using assms(1) by (auto simp: run_cycle_def split: prod.splits option.splits)
  have "pm_cmd s1 \<noteq> Some True" by (rule run_process_ended [OF p assms(2,3)])
  moreover have "pm_cmd s' = pm_cmd s1"
    using assms(1) p perform_upgrade_frame [of marshal c "ce_upgrade env" _ s1 s']
    by (auto simp: run_cycle_def split: prod.splits option.splits sum.splits if_splits)
  ultimately show ?thesis by simp
qed

section \<open>Properties\<close>

text \<open>How a process in place is run: the events alone decide how its wait ends.\<close>

lemma run_process_started:
  assumes "resolve_current (paths_of c) (pm_current s) [''bin'', cf_name (c_core c)] = Some b"
    and "pm_files s b \<noteq> None" and "ce_start_ok env" and "se_kill_ok (ce_stop env)"
    and "wait_loop (ce_events env) (pm_watcher s) = (w, e)"
  shows "run_process c env s =
    (s\<lparr>pm_watcher := w, pm_started := b # pm_started s, pm_cmd := Some (e = None)\<rparr>,
     map_option (\<lambda>x. if x = Exited False then Inl Process_failed else Inr ()) e)"
  using assms
  by (auto simp: run_process_def Let_def pm_stop_process_def split: option.splits wait_end.splits)

text \<open>The number of cycles that the main loop runs before it returns, is signalled or still waits.\<close>

fun cycles_run :: "loop_event list \<Rightarrow> watcher \<Rightarrow> nat" where
  "cycles_run (Run_cycle env # es) w =
     Suc (case wait_loop (ce_events env) w of (w', None) \<Rightarrow> 0 | (w', Some _) \<Rightarrow> cycles_run es w')"
| "cycles_run _ w = 0"

text \<open>
  C12. Detecting an upgrade does not perform it. Over any run of the main loop in which the process can be
  started and killed and never exits with an error, whatever the watcher sees, the binaries, the
  \<open>current\<close> link, the data tree and the backups stay as they are, and every cycle starts the same
  binary, the one that \<open>current\<close> leads to. A cycle in which the upgrade is seen starts that binary, stops it and
  ends without an error, so that the next cycle starts it again; the watcher's flag, once raised, is
  never cleared.
\<close>

theorem detected_upgrade_only_restarts:
  assumes "resolve_current (paths_of c) (pm_current s) [''bin'', cf_name (c_core c)] = Some b"
    and "pm_files s b \<noteq> None"
    and "\<And>env. Run_cycle env \<in> set es \<Longrightarrow> ce_start_ok env \<and> se_kill_ok (ce_stop env) \<and>
      Process_exit False \<notin> set (ce_events env)"
    and "main_loop marshal c es s = (s', r)"
  shows "(pm_files s' = pm_files s \<and> pm_current s' = pm_current s \<and> pm_store s' = pm_store s) \<and>
    (fw_needs (pm_watcher s) \<longrightarrow> fw_needs (pm_watcher s')) \<and>
    (pm_started s' = replicate (cycles_run es (pm_watcher s)) b @ pm_started s) \<and>
    (\<forall>env w es'. es = Run_cycle env # es' \<longrightarrow>
      wait_loop (ce_events env) (pm_watcher s) = (w, Some Upgrade_seen) \<longrightarrow>
      run_cycle marshal c env s =
        (s\<lparr>pm_watcher := w, pm_started := b # pm_started s, pm_cmd := Some False\<rparr>, Some (Inr ())) \<and>
      main_loop marshal c es s =
        main_loop marshal c es' (s\<lparr>pm_watcher := w, pm_started := b # pm_started s, pm_cmd := Some False\<rparr>))"
  using assms
proof (induction marshal c es s rule: main_loop.induct)
  case (2 marshal c env es s)
  then show ?case by (auto dest: stop_process_result(1) split: prod.splits)
next
  case (3 marshal c sig env es s)
  then show ?case
    by (auto simp: handle_signal_def dest: stop_process_result(1) split: prod.splits if_splits option.splits bool.splits)
next
  case (4 marshal c env es s)
  have ce: "ce_start_ok env" "se_kill_ok (ce_stop env)" "Process_exit False \<notin> set (ce_events env)"
    using "4.prems"(3) [of env] by simp_all
  obtain w e where w: "wait_loop (ce_events env) (pm_watcher s) = (w, e)" by fastforce
  note rp = run_process_started [OF "4.prems"(1,2) ce(1,2) w]
  have flag: "fw_needs (pm_watcher s) \<longrightarrow> fw_needs w"
    using wait_loop_flag [of "pm_watcher s" "ce_events env"] w by simp
  have no: "e \<noteq> Some (Exited False)"
    using wait_loop_exit [of "ce_events env" "pm_watcher s" False] w ce(3) by auto
  show ?case
  proof (cases e)
    case None
    with "4.prems"(4) rp w flag show ?thesis by (auto simp: run_cycle_def)
  next
    case (Some q)
    let ?s1 = "s\<lparr>pm_watcher := w, pm_started := b # pm_started s, pm_cmd := Some False\<rparr>"
    from Some no rp have rc: "run_cycle marshal c env s = (?s1, Some (Inr ()))" by (simp add: run_cycle_def)
    with "4.prems"(4) have m: "main_loop marshal c es ?s1 = (s', r)" by simp
    have "(pm_files s' = pm_files ?s1 \<and> pm_current s' = pm_current ?s1 \<and> pm_store s' = pm_store ?s1) \<and>
        (fw_needs (pm_watcher ?s1) \<longrightarrow> fw_needs (pm_watcher s')) \<and>
        pm_started s' = replicate (cycles_run es (pm_watcher ?s1)) b @ pm_started ?s1"
      using "4.IH" [OF rc [symmetric] refl refl _ _ _ m] "4.prems"(1-3) by simp
    with flag rc w Some show ?thesis by (auto simp: replicate_app_Cons_same)
  qed
qed simp

definition demo_pm :: pm_state where
  "demo_pm = \<lparr>pm_files = (\<lambda>p. if p = ''/w/wemixvisor/genesis/bin/wemixd'' then Some (''g'', True)
       else if p = ''/w/wemixvisor/upgrades/v2/bin/wemixd'' then Some (''b'', True) else None),
     pm_current = Link_to ''genesis'', pm_store = \<lparr>bs_tree = demo_tree ''old'', bs_dir = []\<rparr>,
     pm_watcher = new_file_watcher ''f'' 1, pm_running = False, pm_cmd = None, pm_stopped = False,
     pm_started = []\<rparr>"

definition demo_pu :: pu_env where
  "demo_pu = \<lparr>ue_stat_ok = True, ue_backup = demo_backup_env, ue_restorable = \<lambda>_. True,
     ue_hook = \<lparr>hk_exists = \<lambda>_. False, hk_chmod_ok = True, hk_run = \<lambda>_ _ _ w. (w, False)\<rparr>,
     ue_crypto = demo_crypto, ue_ensure = demo_ensure_env True ''bin'',
     ue_link = \<lparr>le_stat_ok = \<lambda>_. True, le_remove_ok = True, le_symlink_ok = True\<rparr>,
     ue_removable = \<lambda>_. True, ue_now = 4\<rparr>"

definition good_stop :: pm_stop_env where
  "good_stop = \<lparr>se_term_ok = True, se_in_time = True, se_kill_ok = True\<rparr>"

definition demo_cycle :: "wait_event list \<Rightarrow> cycle_env" where
  "demo_cycle es = \<lparr>ce_start_ok = True, ce_events = es, ce_stop = good_stop, ce_upgrade = demo_pu\<rparr>"

lemma demo_bins:
  "resolve_current (paths_of demo_backup_cfg) (Link_to ''genesis'') [''bin'', cf_name (c_core demo_backup_cfg)] =
     Some ''/w/wemixvisor/genesis/bin/wemixd''"
  "upgrade_bin (paths_of demo_backup_cfg) ''v2'' = ''/w/wemixvisor/upgrades/v2/bin/wemixd''"
  by code_simp+

lemma demo_pm_simps:
  "pm_started demo_pm = []" "pm_current demo_pm = Link_to ''genesis''" "pm_watcher demo_pm = new_file_watcher ''f'' 1" "pm_cmd demo_pm = None"
  "pm_files demo_pm ''/w/wemixvisor/genesis/bin/wemixd'' = Some (''g'', True)"
  "pm_files demo_pm ''/w/wemixvisor/upgrades/v2/bin/wemixd'' = Some (''b'', True)"
  by (simp_all add: demo_pm_def)

theorem detected_upgrade_only_restarts_witness:
  "\<exists>s'. main_loop (\<lambda>_. '''') demo_backup_cfg
      [Run_cycle (demo_cycle [Watcher_poll demo_fs, Upgrade_tick]), Run_cycle (demo_cycle [Upgrade_tick])]
      demo_pm = (s', None) \<and> pm_current s' = Link_to ''genesis'' \<and> needs_update (pm_watcher s') \<and>
    pm_started s' = [''/w/wemixvisor/genesis/bin/wemixd'', ''/w/wemixvisor/genesis/bin/wemixd'']"
proof -
  let ?es = "[Run_cycle (demo_cycle [Watcher_poll demo_fs, Upgrade_tick]), Run_cycle (demo_cycle [Upgrade_tick])]"
  obtain s' r where m: "main_loop (\<lambda>_. '''') demo_backup_cfg ?es demo_pm = (s', r)" by fastforce
  have b: "resolve_current (paths_of demo_backup_cfg) (pm_current demo_pm) [''bin'', cf_name (c_core demo_backup_cfg)]
      = Some ''/w/wemixvisor/genesis/bin/wemixd''" "pm_files demo_pm ''/w/wemixvisor/genesis/bin/wemixd'' \<noteq> None"
    by (simp_all add: demo_pm_simps demo_bins)
  have ok: "ce_start_ok env \<and> se_kill_ok (ce_stop env) \<and> Process_exit False \<notin> set (ce_events env)"
    if "Run_cycle env \<in> set ?es" for env
    using that by (auto simp: demo_cycle_def good_stop_def)
  have w: "check_for_update demo_fs (new_file_watcher ''f'' 1) =
      ((new_file_watcher ''f'' 1)\<lparr>fw_last_mod := 5, fw_current := Some demo_info, fw_needs := True\<rparr>, True)"
    by (simp add: check_for_update_def check_file_def new_file_watcher_def demo_parse demo_file)
  have n: "cycles_run ?es (pm_watcher demo_pm) = 2"
    by (simp add: demo_cycle_def demo_pm_simps w needs_update_def)
  have "r = None \<and> needs_update (pm_watcher s')"
    using m b by (simp add: run_cycle_def run_process_def demo_cycle_def good_stop_def demo_pm_simps demo_bins w
        needs_update_def pm_stop_process_def Let_def split: if_splits) (auto simp: needs_update_def)
  with detected_upgrade_only_restarts [OF b ok m] m n show ?thesis
    by (simp add: demo_pm_simps numeral_2_eq_2)
qed

text \<open>The steps of an upgrade whose binary is there.\<close>

definition steps_with_binary ::
  "(json \<Rightarrow> string) \<Rightarrow> config \<Rightarrow> pu_env \<Rightarrow> upgrade_info \<Rightarrow> string \<Rightarrow> pm_state \<Rightarrow> (pm_state, pm_error, unit) gores" where
  "steps_with_binary marshal c env u path s =
     (let back = (\<lambda>s. s\<lparr>pm_store := restore_on_failure c (ue_restorable env) path (pm_store s)\<rparr>) in
      case hook_execute marshal c (ue_hook env) u (pm_files s, bs_tree (pm_store s)) of
        ((fs, t), r) \<Rightarrow>
          let s2 = s\<lparr>pm_files := fs, pm_store := (pm_store s)\<lparr>bs_tree := t\<rparr>\<rparr> in
          (case r of
             Inl e \<Rightarrow> (back s2, Inl (Hook_error e))
           | Inr _ \<Rightarrow>
               (case link_to_upgrade (paths_of c) (ue_link env) (ui_name u) (pm_current s) of
                  (cur, Inl e) \<Rightarrow> (back (s2\<lparr>pm_current := cur\<rparr>), Inl (Link_error e))
                | (cur, Inr _) \<Rightarrow> (s2\<lparr>pm_current := cur\<rparr>, Inr ()))))"

lemma steps_ignore_download:
  assumes "\<forall>p args k w. fst (fst (hk_run (ue_hook env) p args k w)) (upgrade_bin (paths_of c) (ui_name u)) =
      fst w (upgrade_bin (paths_of c) (ui_name u))"
    and "pm_files s (upgrade_bin (paths_of c) (ui_name u)) \<noteq> None"
  shows "execute_upgrade_steps marshal c (env\<lparr>ue_ensure := ee, ue_crypto := cr\<rparr>) u path s =
    steps_with_binary marshal c env u path s"
proof -
  let ?b = "upgrade_bin (paths_of c) (ui_name u)"
  have wa: "fst (world_after (hk_run (ue_hook env) p args) k w) ?b = fst w ?b" for p args k w
    by (induction k) (simp_all add: assms(1))
  obtain fs t r where h: "hook_execute marshal c (ue_hook env) u (pm_files s, bs_tree (pm_store s)) = ((fs, t), r)"
    by (metis prod.exhaust)
  from hook_execute_world [OF h] obtain p m where
    "(fs, t) = world_after (hk_run (ue_hook env) p (script_environment marshal c u)) m (pm_files s, bs_tree (pm_store s))"
    by blast
  then have "fs ?b = pm_files s ?b" using wa by (metis fst_conv)
  with assms(2) have "ensure_upgrade_binary c cr ee (ui_name u) fs = (fs, Inr ())"
    by (simp add: ensure_upgrade_binary_def Let_def)
  with h show ?thesis
    by (cases r) (simp_all add: execute_upgrade_steps_def steps_with_binary_def Let_def split: prod.splits sum.splits)
qed

text \<open>
  An upgrade never downloads anything: as long as the pre-upgrade script leaves the binary of the
  upgrade alone, \<open>performUpgrade\<close> gives the same result whatever the network, the checksums and the
  download settings' environment say. It checks that the binary is there before it asks for the
  download, so a missing binary ends it at once, with nothing changed, even with downloads allowed.
\<close>

theorem upgrade_never_downloads:
  assumes "\<And>p args k w. fst (fst (hk_run (ue_hook env) p args k w)) (upgrade_bin (paths_of c) (ui_name u)) =
      fst w (upgrade_bin (paths_of c) (ui_name u))"
  shows "perform_upgrade marshal c (env\<lparr>ue_ensure := ee, ue_crypto := cr\<rparr>) u s = perform_upgrade marshal c env u s \<and>
    snd (perform_upgrade marshal c env u s) \<noteq> Inl (Download_error e) \<and>
    (pm_files s (upgrade_bin (paths_of c) (ui_name u)) = None \<longrightarrow>
      perform_upgrade marshal c env u s =
        (s, Inl (Validation_error (Binary_missing (upgrade_bin (paths_of c) (ui_name u))))))"
proof -
  let ?b = "upgrade_bin (paths_of c) (ui_name u)"
  have hyp: "\<forall>p args k w. fst (fst (hk_run (ue_hook env) p args k w)) ?b = fst w ?b" using assms by blast
  have id: "env = env\<lparr>ue_ensure := ue_ensure env, ue_crypto := ue_crypto env\<rparr>" by simp
  show ?thesis
  proof (cases "pm_files s ?b")
    case None
    then show ?thesis by (simp add: perform_upgrade_def hook_validate_def)
  next
    case (Some x)
    have steps: "execute_upgrade_steps marshal c (env\<lparr>ue_ensure := ee', ue_crypto := cr'\<rparr>) u path (s\<lparr>pm_store := st\<rparr>) =
        steps_with_binary marshal c env u path (s\<lparr>pm_store := st\<rparr>)" for ee' cr' path st
      by (rule steps_ignore_download [OF hyp]) (simp add: Some)
    have same: "execute_upgrade_steps marshal c env u path (s\<lparr>pm_store := st\<rparr>) =
        steps_with_binary marshal c env u path (s\<lparr>pm_store := st\<rparr>)" for path st
      using steps [where ee' = "ue_ensure env" and cr' = "ue_crypto env"] by (simp add: id [symmetric])
    have nb: "snd (create_pre_upgrade_backup c be n st) \<noteq> Inl (Download_error e)" for be n st
      by (auto simp: create_pre_upgrade_backup_def split: prod.splits sum.splits)
    have "snd (perform_upgrade marshal c env u s) \<noteq> Inl (Download_error e)"
      using nb [of "ue_backup env" "ui_name u" "pm_store s"]
      by (auto simp: perform_upgrade_def same steps_with_binary_def Let_def split: prod.splits sum.splits)
    with Some steps same show ?thesis by (simp add: perform_upgrade_def cong: sum.case_cong prod.case_cong)
  qed
qed

theorem upgrade_never_downloads_witness:
  "perform_upgrade (\<lambda>_. '''') demo_backup_cfg (demo_pu\<lparr>ue_ensure := demo_ensure_env False ''worse'', ue_crypto := demo_crypto\<rparr>)
      demo_info demo_pm = perform_upgrade (\<lambda>_. '''') demo_backup_cfg demo_pu demo_info demo_pm \<and>
   perform_upgrade (\<lambda>_. '''') demo_backup_cfg demo_pu demo_info (demo_pm\<lparr>pm_files := (\<lambda>_. None)\<rparr>) =
     (demo_pm\<lparr>pm_files := (\<lambda>_. None)\<rparr>,
      Inl (Validation_error (Binary_missing (upgrade_bin (paths_of demo_backup_cfg) (ui_name demo_info)))))"
proof -
  have h: "fst (fst (hk_run (ue_hook demo_pu) p args k w)) b = fst w b" for p args k w b
    by (simp add: demo_pu_def)
  show ?thesis
    using upgrade_never_downloads [OF h, where s = demo_pm and u = demo_info and c = demo_backup_cfg
        and marshal = "\<lambda>_. ''''" and ee = "demo_ensure_env False ''worse''" and cr = demo_crypto]
      upgrade_never_downloads [OF h, where s = "demo_pm\<lparr>pm_files := (\<lambda>_. None)\<rparr>" and u = demo_info
        and c = demo_backup_cfg and marshal = "\<lambda>_. ''''"]
    by simp
qed

end
