(* ===== verification/ProcessRuns.thy ===== *)
theory ProcessRuns
  imports ProcessManager
begin

text \<open>
  What the process manager's upgrades and runs amount to: the result of a successful and of a failed
  \<open>performUpgrade\<close>, and the cycles of \<open>mainLoop\<close>.
\<close>

section \<open>Upgrades\<close>












section \<open>Cycles of the main loop\<close>







lemma run_cycle_waiting: "run_cycle marshal c env s = (s1, None) \<Longrightarrow> pm_cmd s1 = Some True"
  by (auto simp: run_cycle_def run_process_def Let_def split: prod.splits option.splits sum.splits if_splits wait_end.splits)

text \<open>
  A signal never stops the node: signals, and the cancellation of the context between two cycles,
  are read only when no cycle is under way. Over any cycles whose stopped processes can be killed, a
  signal that follows them changes nothing: either a process is still being waited for and the signal
  is not read, or there is no live process, and then \<open>mainLoop\<close> returns an error if there ever was one.
\<close>

theorem signal_stops_nothing:
  assumes "\<And>env. env \<in> set envs \<Longrightarrow> se_kill_ok (ce_stop env)" and "pm_cmd s \<noteq> Some True"
    and "main_loop marshal c (map Run_cycle envs) s = (s1, r1)"
    and "ev \<in> {Got_signal sig senv, Ctx_cancel senv}"
    and "main_loop marshal c (map Run_cycle envs @ [ev]) s = (s2, r2)"
  shows "s2 = s1 \<and> r2 = (case r1 of
      Some r \<Rightarrow> Some r
    | None \<Rightarrow> if pm_cmd s1 = Some True then None
        else Some (if pm_cmd s1 = None then Inr () else Inl Process_kill_failed))"
  using assms
proof (induction envs arbitrary: s)
  case Nil
  then have "pm_cmd s1 = None \<or> pm_cmd s1 = Some False" by (cases "pm_cmd s1") auto
  with Nil show ?case
    by (cases sig) (auto simp: handle_signal_def pm_stop_process_def)
next
  case (Cons env envs)
  obtain s3 r3 where rc: "run_cycle marshal c env s = (s3, r3)" by fastforce
  show ?case
  proof (cases r3)
    case None
    with Cons.prems(3,5) rc run_cycle_waiting [of marshal c env s s3] show ?thesis by auto
  next
    case (Some r)
    show ?thesis
    proof (cases r)
      case (Inl e)
      with Some Cons.prems(3,5) rc show ?thesis by auto
    next
      case (Inr v)
      have "pm_cmd s3 \<noteq> Some True"
        using run_cycle_ended [OF rc [unfolded Some]] Cons.prems(1) [of env] Cons.prems(2) by simp
      moreover from Inr Some rc Cons.prems(3,5) have
        "main_loop marshal c (map Run_cycle envs) s3 = (s1, r1)"
        "main_loop marshal c (map Run_cycle envs @ [ev]) s3 = (s2, r2)" by simp_all
      ultimately show ?thesis using Cons.IH [of s3] Cons.prems(1,4) by simp
    qed
  qed
qed

theorem signal_stops_nothing_witness:
  "\<exists>s'. main_loop (\<lambda>_. '''') demo_backup_cfg
      ([Run_cycle (demo_cycle [Process_exit True])] @ [Got_signal SIGTERM good_stop]) demo_pm =
    (s', Some (Inl Process_kill_failed))"
proof -
  let ?es = "map Run_cycle [demo_cycle [Process_exit True]]"
  obtain s1 r1 where m: "main_loop (\<lambda>_. '''') demo_backup_cfg ?es demo_pm = (s1, r1)" by fastforce
  obtain s2 r2 where m2: "main_loop (\<lambda>_. '''') demo_backup_cfg (?es @ [Got_signal SIGTERM good_stop]) demo_pm = (s2, r2)"
    by fastforce
  have h: "se_kill_ok (ce_stop env)" if "env \<in> set [demo_cycle [Process_exit True]]" for env
    using that by (simp add: demo_cycle_def good_stop_def)
  have "r1 = None \<and> pm_cmd s1 = Some False"
    using m by (auto simp: run_cycle_def run_process_def Let_def demo_cycle_def demo_pm_simps demo_bins)
  with signal_stops_nothing [OF h _ m insertI1 m2] m2 show ?thesis by (simp add: demo_pm_simps)
qed

end
