(* ===== verification/Refinements.thy ===== *)
theory Refinements
  imports Prelude
begin

text \<open>
  Refinement of a component by its specification: both take the same operations, and the specification
  answers each of them as the component does. The contract is stated once for all components.
\<close>

fun run_ops :: "('op \<Rightarrow> 's \<Rightarrow> 's \<times> 'o) \<Rightarrow> 'op list \<Rightarrow> 's \<Rightarrow> 's \<times> 'o list" where
  "run_ops step [] s = (s, [])"
| "run_ops step (op # ops) s =
     (case step op s of (s1, out) \<Rightarrow> case run_ops step ops s1 of (s2, outs) \<Rightarrow> (s2, out # outs))"

lemma run_ops_append:
  "run_ops step (xs @ ys) s =
     (case run_ops step xs s of (s1, as) \<Rightarrow> case run_ops step ys s1 of (s2, bs) \<Rightarrow> (s2, as @ bs))"
  by (induction xs arbitrary: s) (simp_all split: prod.splits)

lemma run_ops_inv:
  assumes "\<And>op s. I s \<Longrightarrow> op \<in> set ops \<Longrightarrow> I (fst (step op s))" and "I s"
  shows "I (fst (run_ops step ops s))"
  using assms
proof (induction ops arbitrary: s)
  case (Cons op ops)
  have "I (fst (run_ops step ops (fst (step op s))))"
    by (rule Cons.IH) (use Cons.prems in auto)
  then show ?case by (auto split: prod.splits) 
qed simp

locale simulation =
  fixes cstep :: "'op \<Rightarrow> 'c \<Rightarrow> 'c \<times> 'o"
    and astep :: "'op \<Rightarrow> 'a \<Rightarrow> 'a \<times> 'o"
    and view :: "'c \<Rightarrow> 'a"
    and ok :: "'c \<Rightarrow> bool"
  assumes step_ok: "ok c \<Longrightarrow> ok (fst (cstep op c))"
    and step_view: "ok c \<Longrightarrow> astep op (view c) = (view (fst (cstep op c)), snd (cstep op c))"
begin

lemma runs_ok: "ok c \<Longrightarrow> ok (fst (run_ops cstep ops c))"
  by (rule run_ops_inv) (simp_all add: step_ok)

text \<open>A run of the component is the run of its specification.\<close>

lemma runs_agree:
  "ok c \<Longrightarrow> run_ops astep ops (view c) = (view (fst (run_ops cstep ops c)), snd (run_ops cstep ops c))"
proof (induction ops arbitrary: c)
  case (Cons op ops)
  then show ?case
    using step_ok [of c op] by (simp add: step_view split: prod.splits)
qed simp

lemma outputs_agree: "ok c \<Longrightarrow> snd (run_ops cstep ops c) = snd (run_ops astep ops (view c))"
  by (simp add: runs_agree)

end

end
