(* ===== verification/LruCache.thy ===== *)
theory LruCache
  imports Refinements
begin

text \<open>
  \<open>internal/performance/cache.go\<close>: the LRU cache with a time to live. The state is the map of items,
  the list of keys from the most to the least recently used, and the counters; the list elements that
  the items point to are the places of their keys. The specification is a single list of items in
  order of use, cut to the size of the cache.
\<close>

record 'v cache_item =
  it_value :: 'v
  it_size :: int
  it_expires :: time

record 'v cache =
  ca_max :: int
  ca_ttl :: duration
  ca_items :: "(string, 'v cache_item) gomap"
  ca_lru :: "string list"
  ca_hits :: nat
  ca_misses :: nat
  ca_evictions :: nat
  ca_stopped :: bool

definition new_cache :: "int \<Rightarrow> duration \<Rightarrow> 'v cache" where
  "new_cache mx ttl = \<lparr>ca_max = mx, ca_ttl = ttl, ca_items = [], ca_lru = [], ca_hits = 0, ca_misses = 0,
     ca_evictions = 0, ca_stopped = False\<rparr>"

definition record_hit :: "'v cache \<Rightarrow> 'v cache" where
  "record_hit c = c\<lparr>ca_hits := ca_hits c + 1\<rparr>"

definition record_miss :: "'v cache \<Rightarrow> 'v cache" where
  "record_miss c = c\<lparr>ca_misses := ca_misses c + 1\<rparr>"

definition record_eviction :: "'v cache \<Rightarrow> 'v cache" where
  "record_eviction c = c\<lparr>ca_evictions := ca_evictions c + 1\<rparr>"

definition cache_delete :: "string \<Rightarrow> 'v cache \<Rightarrow> 'v cache" where
  "cache_delete k c =
     (if map_of (ca_items c) k \<noteq> None
      then c\<lparr>ca_lru := remove1 k (ca_lru c), ca_items := gm_del k (ca_items c)\<rparr> else c)"

definition expired :: "time \<Rightarrow> 'v cache_item \<Rightarrow> bool" where
  "expired now it \<longleftrightarrow> now > it_expires it"

definition cache_get :: "time \<Rightarrow> string \<Rightarrow> 'v cache \<Rightarrow> 'v cache \<times> 'v option" where
  "cache_get now k c =
     (case map_of (ca_items c) k of
        None \<Rightarrow> (record_miss c, None)
      | Some it \<Rightarrow>
          if expired now it then (record_miss (cache_delete k c), None)
          else (record_hit (c\<lparr>ca_lru := k # remove1 k (ca_lru c)\<rparr>), Some (it_value it)))"

definition evict_oldest :: "'v cache \<Rightarrow> 'v cache" where
  "evict_oldest c =
     (if ca_lru c = [] then c
      else record_eviction (c\<lparr>ca_lru := butlast (ca_lru c), ca_items := gm_del (last (ca_lru c)) (ca_items c)\<rparr>))"

definition cache_set :: "time \<Rightarrow> string \<Rightarrow> 'v \<Rightarrow> int \<Rightarrow> 'v cache \<Rightarrow> 'v cache" where
  "cache_set now k v sz c =
     (let it = \<lparr>it_value = v, it_size = sz, it_expires = now + ca_ttl c\<rparr> in
      if map_of (ca_items c) k \<noteq> None
      then c\<lparr>ca_items := gm_put k it (ca_items c), ca_lru := k # remove1 k (ca_lru c)\<rparr>
      else
        let c1 = c\<lparr>ca_lru := k # ca_lru c, ca_items := gm_put k it (ca_items c)\<rparr> in
        if int (length (ca_lru c1)) > ca_max c1 then evict_oldest c1 else c1)"

definition cache_clear :: "'v cache \<Rightarrow> 'v cache" where
  "cache_clear c = c\<lparr>ca_items := [], ca_lru := []\<rparr>"

definition cache_cleanup :: "time \<Rightarrow> 'v cache \<Rightarrow> 'v cache" where
  "cache_cleanup now c =
     foldl (\<lambda>c k. cache_delete k c) c (map fst (filter (\<lambda>(k, it). expired now it) (ca_items c)))"

text \<open>\<open>Stop\<close> closes a channel; a second call panics, the value \<open>None\<close>.\<close>

definition cache_stop :: "'v cache \<Rightarrow> 'v cache option" where
  "cache_stop c = (if ca_stopped c then None else Some (cache_clear (c\<lparr>ca_stopped := True\<rparr>)))"

record cache_stats =
  cs_hits :: nat
  cs_misses :: nat
  cs_evictions :: nat
  cs_size :: nat
  cs_rate :: "(nat \<times> nat) option"

text \<open>The hit rate, a quotient in floating point, is kept as its two numbers.\<close>

definition get_stats :: "'v cache \<Rightarrow> cache_stats" where
  "get_stats c =
     (let total = ca_hits c + ca_misses c in
      \<lparr>cs_hits = ca_hits c, cs_misses = ca_misses c, cs_evictions = ca_evictions c,
       cs_size = length (ca_items c), cs_rate = (if total > 0 then Some (ca_hits c, total) else None)\<rparr>)"

text \<open>\<open>Optimize\<close> cleans up; the answer is whether it warns of a low hit rate.\<close>

definition cache_optimize :: "time \<Rightarrow> 'v cache \<Rightarrow> 'v cache \<times> bool" where
  "cache_optimize now c =
     (let c1 = cache_cleanup now c; st = get_stats c1 in
      (c1, (case cs_rate st of None \<Rightarrow> True | Some (h, t) \<Rightarrow> 2 * h < t) \<and> cs_hits st + cs_misses st > 100))"

datatype 'v cache_op =
  Op_get time string | Op_set time string 'v int | Op_delete string | Op_clear | Op_cleanup time

fun cache_step :: "'v cache_op \<Rightarrow> 'v cache \<Rightarrow> 'v cache \<times> 'v option" where
  "cache_step (Op_get now k) c = cache_get now k c"
| "cache_step (Op_set now k v sz) c = (cache_set now k v sz c, None)"
| "cache_step (Op_delete k) c = (cache_delete k c, None)"
| "cache_step Op_clear c = (cache_clear c, None)"
| "cache_step (Op_cleanup now) c = (cache_cleanup now c, None)"

section \<open>The specification\<close>

type_synonym 'v lru = "(string \<times> 'v cache_item) list"

definition without :: "string \<Rightarrow> 'v lru \<Rightarrow> 'v lru" where
  "without k l = filter (\<lambda>(j, _). j \<noteq> k) l"

fun lru_step :: "int \<Rightarrow> duration \<Rightarrow> 'v cache_op \<Rightarrow> 'v lru \<Rightarrow> 'v lru \<times> 'v option" where
  "lru_step mx ttl (Op_get now k) l =
     (case map_of l k of
        None \<Rightarrow> (l, None)
      | Some it \<Rightarrow> if expired now it then (without k l, None) else ((k, it) # without k l, Some (it_value it)))"
| "lru_step mx ttl (Op_set now k v sz) l =
     (take (nat mx) ((k, \<lparr>it_value = v, it_size = sz, it_expires = now + ttl\<rparr>) # without k l), None)"
| "lru_step mx ttl (Op_delete k) l = (without k l, None)"
| "lru_step mx ttl Op_clear l = ([], None)"
| "lru_step mx ttl (Op_cleanup now) l = (filter (\<lambda>(k, it). \<not> expired now it) l, None)"

section \<open>The invariant\<close>

definition cache_ok :: "int \<Rightarrow> duration \<Rightarrow> 'v cache \<Rightarrow> bool" where
  "cache_ok mx ttl c \<longleftrightarrow>
     ca_max c = mx \<and> ca_ttl c = ttl \<and> gm_ok (ca_items c) \<and> distinct (ca_lru c) \<and>
     set (ca_lru c) = fst ` set (ca_items c) \<and> length (ca_lru c) \<le> nat mx"

definition lru_view :: "'v cache \<Rightarrow> 'v lru" where
  "lru_view c = map (\<lambda>k. (k, the (map_of (ca_items c) k))) (ca_lru c)"

lemmas record_simps = record_hit_def record_miss_def record_eviction_def

lemma ok_dom: "cache_ok mx ttl c \<Longrightarrow> k \<in> set (ca_lru c) \<longleftrightarrow> map_of (ca_items c) k \<noteq> None"
  by (auto simp: cache_ok_def map_of_eq_None_iff)

lemma view_lookup: "cache_ok mx ttl c \<Longrightarrow> map_of (lru_view c) k = map_of (ca_items c) k"
  using ok_dom [of mx ttl c k]
  by (auto simp: lru_view_def map_of_map_restrict restrict_map_def)

lemma without_view:
  "distinct l \<Longrightarrow> without k (map (\<lambda>j. (j, f j)) l) = map (\<lambda>j. (j, f j)) (remove1 k l)"
  by (induction l) (auto simp: without_def filter_id_conv remove1_idem)

lemma length_items: "cache_ok mx ttl c \<Longrightarrow> length (ca_items c) = length (ca_lru c)"
  by (metis cache_ok_def distinct_card length_map list.set_map)

lemma ok_records [simp]:
  "cache_ok mx ttl (record_hit c) = cache_ok mx ttl c" "cache_ok mx ttl (record_miss c) = cache_ok mx ttl c"
  "cache_ok mx ttl (record_eviction c) = cache_ok mx ttl c"
  by (simp_all add: cache_ok_def record_simps)

lemma view_records [simp]:
  "lru_view (record_hit c) = lru_view c" "lru_view (record_miss c) = lru_view c"
  "lru_view (record_eviction c) = lru_view c"
  by (simp_all add: lru_view_def record_simps)

lemma ok_delete [go_inv]: "cache_ok mx ttl c \<Longrightarrow> cache_ok mx ttl (cache_delete k c)"
  by (auto simp: cache_ok_def cache_delete_def length_remove1)

lemma view_delete: "cache_ok mx ttl c \<Longrightarrow> lru_view (cache_delete k c) = without k (lru_view c)"
proof -
  assume ok: "cache_ok mx ttl c"
  then have d: "distinct (ca_lru c)" by (simp add: cache_ok_def)
  have w: "without k (lru_view c) = map (\<lambda>j. (j, the (map_of (ca_items c) j))) (remove1 k (ca_lru c))"
    unfolding lru_view_def by (rule without_view [OF d])
  show ?thesis
  proof (cases "map_of (ca_items c) k")
    case None
    with ok_dom [OF ok, of k] have "k \<notin> set (ca_lru c)" by simp
    with None w show ?thesis by (simp add: cache_delete_def lru_view_def remove1_idem)
  next
    case (Some it)
    with w d show ?thesis by (auto simp: cache_delete_def lru_view_def set_remove1_eq)
  qed
qed

lemma ok_use: "cache_ok mx ttl c \<Longrightarrow> map_of (ca_items c) k \<noteq> None \<Longrightarrow>
    cache_ok mx ttl (c\<lparr>ca_lru := k # remove1 k (ca_lru c)\<rparr>)"
proof -
  assume ok: "cache_ok mx ttl c" and "map_of (ca_items c) k \<noteq> None"
  then have k: "k \<in> set (ca_lru c)" using ok_dom [OF ok] by simp
  then have "length (k # remove1 k (ca_lru c)) = length (ca_lru c)"
    using length_pos_if_in_set [OF k] by (simp add: length_remove1)
  then show ?thesis
    using ok k by (auto simp: cache_ok_def set_remove1_eq)
qed

lemma view_use: "cache_ok mx ttl c \<Longrightarrow>
    lru_view (c\<lparr>ca_lru := k # remove1 k (ca_lru c)\<rparr>) = (k, the (map_of (ca_items c) k)) # without k (lru_view c)"
  by (simp add: cache_ok_def lru_view_def without_view)

lemma ok_get [go_inv]: "cache_ok mx ttl c \<Longrightarrow> cache_ok mx ttl (fst (cache_get now k c))"
  by (auto simp: cache_get_def ok_delete ok_use split: option.splits)

lemma view_get:
  assumes "cache_ok mx ttl c"
  shows "lru_step mx ttl (Op_get now k) (lru_view c) = (lru_view (fst (cache_get now k c)), snd (cache_get now k c))"
  using assms by (simp add: cache_get_def view_lookup [OF assms] view_delete view_use split: option.splits)

lemma ok_put: "cache_ok mx ttl c \<Longrightarrow> map_of (ca_items c) k \<noteq> None \<Longrightarrow>
    cache_ok mx ttl (c\<lparr>ca_items := gm_put k it (ca_items c)\<rparr>)"
  by (auto simp: cache_ok_def map_of_eq_None_iff)

lemma without_put: "without k (lru_view (c\<lparr>ca_items := gm_put k it (ca_items c)\<rparr>)) = without k (lru_view c)"
  by (auto simp: lru_view_def without_def filter_map o_def)

lemma set_cases:
  assumes "cache_ok mx ttl c" and "it = \<lparr>it_value = v, it_size = sz, it_expires = now + ttl\<rparr>"
  obtains
    (old) "map_of (ca_items c) k \<noteq> None"
      "cache_set now k v sz c = c\<lparr>ca_items := gm_put k it (ca_items c), ca_lru := k # remove1 k (ca_lru c)\<rparr>"
  | (new) "k \<notin> set (ca_lru c)" "length (ca_lru c) < nat mx"
      "cache_set now k v sz c = c\<lparr>ca_lru := k # ca_lru c, ca_items := gm_put k it (ca_items c)\<rparr>"
  | (full) "k \<notin> set (ca_lru c)" "length (ca_lru c) = nat mx"
      "cache_set now k v sz c = record_eviction (c\<lparr>ca_lru := butlast (k # ca_lru c),
         ca_items := gm_del (last (k # ca_lru c)) (gm_put k it (ca_items c))\<rparr>)"
proof (cases "map_of (ca_items c) k")
  case None
  with ok_dom [OF assms(1), of k] have k: "k \<notin> set (ca_lru c)" by simp
  have l: "length (ca_lru c) \<le> nat mx" and mx: "ca_max c = mx" and ttl: "ca_ttl c = ttl"
    using assms(1) by (simp_all add: cache_ok_def)
  show thesis
  proof (cases "length (ca_lru c) < nat mx")
    case True
    then have "\<not> int (length (k # ca_lru c)) > mx" by (simp; linarith)
    with None mx ttl assms(2) new [OF k True] show thesis by (simp add: cache_set_def Let_def)
  next
    case False
    with l have e: "length (ca_lru c) = nat mx" by simp
    then have "int (length (k # ca_lru c)) > mx" by (simp; linarith)
    with None mx ttl assms(2) full [OF k e] show thesis by (simp add: cache_set_def Let_def evict_oldest_def)
  qed
next
  case (Some it')
  with assms old show thesis by (simp add: cache_set_def Let_def cache_ok_def)
qed

lemma set_butlast: "distinct l \<Longrightarrow> l \<noteq> [] \<Longrightarrow> set (butlast l) = set l - {last l}"
  by (cases l rule: rev_cases) auto

lemma ok_set [go_inv]:
  assumes "cache_ok mx ttl c"
  shows "cache_ok mx ttl (cache_set now k v sz c)"
proof -
  define it where "it = \<lparr>it_value = v, it_size = sz, it_expires = now + ttl\<rparr>"
  from assms it_def show ?thesis
  proof (cases rule: set_cases [where now = now and k = k])
    case old
    then have "cache_ok mx ttl (c\<lparr>ca_items := gm_put k it (ca_items c)\<rparr>)" by (intro ok_put assms)
    from ok_use [OF this, of k] old show ?thesis by simp
  next
    case new
    with assms show ?thesis by (auto simp: cache_ok_def)
  next
    case full
    let ?l = "k # ca_lru c"
    have d: "distinct ?l" using full(1) assms by (simp add: cache_ok_def)
    then have "set (butlast ?l) = set ?l - {last ?l}" and "distinct (butlast ?l)"
      by (rule set_butlast, simp) (rule distinct_butlast [OF d])
    moreover have "length (butlast ?l) = nat mx" unfolding length_butlast using full(2) by simp
    ultimately show ?thesis
      using assms unfolding full(3) ok_records
      by (simp add: cache_ok_def del: butlast.simps last.simps)
  qed
qed

lemma view_set:
  assumes "cache_ok mx ttl c"
  shows "lru_view (cache_set now k v sz c) = fst (lru_step mx ttl (Op_set now k v sz) (lru_view c))"
proof -
  define it where "it = \<lparr>it_value = v, it_size = sz, it_expires = now + ttl\<rparr>"
  let ?c = "c\<lparr>ca_items := gm_put k it (ca_items c)\<rparr>"
  have len: "length (ca_lru c) \<le> nat mx" using assms by (simp add: cache_ok_def)
  have other: "lru_view (c\<lparr>ca_lru := k # l, ca_items := gm_put k it (ca_items c)\<rparr>) = (k, it) # lru_view (c\<lparr>ca_lru := l\<rparr>)"
    if "k \<notin> set l" for l
    using that by (auto simp: lru_view_def)
  from assms it_def show ?thesis
  proof (cases rule: set_cases [where now = now and k = k])
    case old
    then have ok: "cache_ok mx ttl ?c" by (intro ok_put assms)
    have "k \<in> set (ca_lru c)" using old(1) ok_dom [OF assms] by simp
    then have "length (without k (lru_view c)) < length (ca_lru c)"
      using assms length_pos_if_in_set [of k "ca_lru c"]
      by (simp add: cache_ok_def lru_view_def without_view length_remove1)
    with len have "length ((k, it) # without k (lru_view c)) \<le> nat mx" by simp
    moreover have "lru_view (cache_set now k v sz c) = (k, it) # without k (lru_view c)"
      using view_use [OF ok, of k] old by (simp add: without_put)
    ultimately show ?thesis unfolding lru_step.simps fst_conv it_def [symmetric] by simp
  next
    case new
    have "without k (lru_view c) = lru_view c"
      using new(1) by (auto simp: without_def lru_view_def filter_id_conv)
    with new other [OF new(1)] show ?thesis
      unfolding lru_step.simps fst_conv it_def [symmetric] by (simp add: lru_view_def)
  next
    case full
    have w: "without k (lru_view c) = lru_view c"
      using full(1) by (auto simp: without_def lru_view_def filter_id_conv)
    let ?l = "k # ca_lru c"
    have d: "distinct ?l" using full(1) assms by (simp add: cache_ok_def)
    then have nl: "last ?l \<notin> set (butlast ?l)"
      by (metis append_butlast_last_id distinct_append disjoint_iff list.distinct(1) list.set_intros(1))
    have "lru_view (cache_set now k v sz c) = map (\<lambda>j. (j, the (map_of (gm_put k it (ca_items c)) j))) (butlast ?l)"
      unfolding full(3) view_records using nl by (auto simp: lru_view_def simp del: butlast.simps last.simps)
    also have "\<dots> = butlast (map (\<lambda>j. (j, the (map_of (gm_put k it (ca_items c)) j))) ?l)"
      by (rule map_butlast)
    also have "map (\<lambda>j. (j, the (map_of (gm_put k it (ca_items c)) j))) ?l = (k, it) # lru_view c"
      using full(1) by (auto simp: lru_view_def)
    also have "butlast ((k, it) # lru_view c) = take (nat mx) ((k, it) # lru_view c)"
      using full(2) by (simp add: butlast_conv_take lru_view_def)
    finally show ?thesis unfolding lru_step.simps fst_conv it_def [symmetric] w .
  qed
qed

lemma cleanup_fold:
  assumes "cache_ok mx ttl c"
  shows "cache_ok mx ttl (foldl (\<lambda>c k. cache_delete k c) c ks) \<and>
    lru_view (foldl (\<lambda>c k. cache_delete k c) c ks) = filter (\<lambda>(j, _). j \<notin> set ks) (lru_view c)"
  using assms
proof (induction ks arbitrary: c)
  case Nil
  then show ?case by (simp add: case_prod_unfold)
next
  case (Cons k ks)
  from Cons.IH [OF ok_delete [OF Cons.prems, of k]] Cons.prems show ?case
    by (auto simp: view_delete without_def intro!: filter_cong)
qed

lemma ok_cleanup [go_inv]: "cache_ok mx ttl c \<Longrightarrow> cache_ok mx ttl (cache_cleanup now c)"
  unfolding cache_cleanup_def by (rule conjunct1 [OF cleanup_fold])

lemma view_cleanup:
  assumes "cache_ok mx ttl c"
  shows "lru_view (cache_cleanup now c) = filter (\<lambda>(k, it). \<not> expired now it) (lru_view c)"
proof -
  let ?ks = "map fst (filter (\<lambda>(k, it). expired now it) (ca_items c))"
  have "k \<in> set ?ks \<longleftrightarrow> expired now (the (map_of (ca_items c) k))" if "k \<in> set (ca_lru c)" for k
  proof -
    from that ok_dom [OF assms, of k] obtain it where it: "map_of (ca_items c) k = Some it" by auto
    have ok: "gm_ok (ca_items c)" using assms by (simp add: cache_ok_def)
    with it have "(k, it') \<in> set (ca_items c) \<longleftrightarrow> it' = it" for it'
      by (metis map_of_eq_Some_iff option.inject)
    then show ?thesis using it by force
  qed
  then have "filter (\<lambda>(j, _). j \<notin> set ?ks) (lru_view c) = filter (\<lambda>(k, it). \<not> expired now it) (lru_view c)"
    by (intro filter_cong) (auto simp: lru_view_def)
  then show ?thesis using cleanup_fold [OF assms, of ?ks] unfolding cache_cleanup_def by simp
qed

lemma ok_step: "cache_ok mx ttl c \<Longrightarrow> cache_ok mx ttl (fst (cache_step op c))"
  by (cases op) (simp_all add: go_inv, simp add: cache_ok_def cache_clear_def)

lemma view_step:
  assumes "cache_ok mx ttl c"
  shows "lru_step mx ttl op (lru_view c) = (lru_view (fst (cache_step op c)), snd (cache_step op c))"
proof (cases op)
  case (Op_get now k)
  then show ?thesis using view_get [OF assms] by simp
next
  case (Op_set now k v sz)
  then show ?thesis using view_set [OF assms] by (simp add: prod_eq_iff)
next
  case (Op_cleanup now)
  then show ?thesis using view_cleanup [OF assms] by simp
qed (simp_all add: view_delete [OF assms], simp add: lru_view_def cache_clear_def)

interpretation lru: simulation cache_step "lru_step mx ttl" lru_view "cache_ok mx ttl" for mx ttl
  by unfold_locales (rule ok_step, assumption, rule view_step)

lemma new_cache_ok: "cache_ok mx ttl (new_cache mx ttl)"
  by (simp add: cache_ok_def new_cache_def)

section \<open>What the specification keeps\<close>

fun touched :: "'v cache_op \<Rightarrow> string set" where
  "touched (Op_get now k) = {k}"
| "touched (Op_set now k v sz) = {k}"
| "touched _ = {}"

text \<open>An operation that leaves the item of a key alone: it neither writes nor deletes it, nor comes too late.\<close>

fun spares :: "string \<Rightarrow> time \<Rightarrow> 'v cache_op \<Rightarrow> bool" where
  "spares k until (Op_get now j) \<longleftrightarrow> j = k \<longrightarrow> now \<le> until"
| "spares k until (Op_set now j v sz) \<longleftrightarrow> j \<noteq> k"
| "spares k until (Op_delete j) \<longleftrightarrow> j \<noteq> k"
| "spares k until Op_clear \<longleftrightarrow> False"
| "spares k until (Op_cleanup now) \<longleftrightarrow> now \<le> until"

text \<open>The keys before it in the list are among those used since.\<close>

definition ahead :: "string \<Rightarrow> 'v cache_item \<Rightarrow> string set \<Rightarrow> 'v lru \<Rightarrow> bool" where
  "ahead k it U l \<longleftrightarrow> distinct (map fst l) \<and>
     (\<exists>xs ys. l = xs @ (k, it) # ys \<and> fst ` set xs \<subseteq> U)"

lemma without_keys: "fst ` set (without k l) = fst ` set l - {k}"
  by (auto simp: without_def)

lemma distinct_without: "distinct (map fst l) \<Longrightarrow> distinct (map fst (without k l))"
  by (simp add: without_def distinct_map_filter)

lemma aheadI: "distinct (map fst l) \<Longrightarrow> l = xs @ (k, it) # ys \<Longrightarrow> fst ` set xs \<subseteq> U \<Longrightarrow> ahead k it U l"
  unfolding ahead_def by blast

lemma aheadE:
  assumes "ahead k it U l"
  obtains xs ys where "l = xs @ (k, it) # ys" and "fst ` set xs \<subseteq> U" and "distinct (map fst l)"
  using assms unfolding ahead_def by blast

lemma finite_touched: "finite (touched op)"
  by (cases op) simp_all

lemma view_new [simp]: "lru_view (new_cache mx ttl) = []"
  by (simp add: lru_view_def new_cache_def)

lemma ahead_filter:
  assumes "ahead k it U l" and "P (k, it)"
  shows "ahead k it U (filter P l)"
proof -
  from assms(1) obtain xs ys where l: "l = xs @ (k, it) # ys" "fst ` set xs \<subseteq> U" and d: "distinct (map fst l)"
    by (rule aheadE)
  show ?thesis
  proof (rule aheadI)
    show "filter P l = filter P xs @ (k, it) # filter P ys" using l(1) assms(2) by simp
    show "fst ` set (filter P xs) \<subseteq> U" using l(2) by auto
    show "distinct (map fst (filter P l))" using d by (rule distinct_map_filter)
  qed
qed

lemma ahead_cons:
  assumes "ahead k it U l" and "j \<notin> fst ` set l" and "j \<in> U"
  shows "ahead k it U ((j, i) # l)"
proof -
  from assms(1) obtain xs ys where l: "l = xs @ (k, it) # ys" "fst ` set xs \<subseteq> U" and d: "distinct (map fst l)"
    by (rule aheadE)
  show ?thesis
  proof (rule aheadI)
    show "(j, i) # l = ((j, i) # xs) @ (k, it) # ys" using l(1) by simp
    show "fst ` set ((j, i) # xs) \<subseteq> U" using l(2) assms(3) by simp
    show "distinct (map fst ((j, i) # l))" using d assms(2) by simp
  qed
qed

lemma ahead_take:
  assumes "ahead k it U l" and "finite U" and "card U < n"
  shows "ahead k it U (take n l)"
proof -
  from assms(1) obtain xs ys where l: "l = xs @ (k, it) # ys" "fst ` set xs \<subseteq> U" and d: "distinct (map fst l)"
    by (rule aheadE)
  have "length xs = card (fst ` set xs)" using d l(1) by (metis distinct_append distinct_card length_map list.set_map map_append)
  also have "\<dots> \<le> card U" by (rule card_mono [OF assms(2) l(2)])
  finally have "take n l = xs @ (k, it) # take (n - length xs - 1) ys"
    using l(1) assms(3) by (simp add: take_Cons')
  moreover have "distinct (map fst (take n l))" using d by (metis distinct_take take_map)
  ultimately show ?thesis using l(2) by (blast intro: aheadI)
qed

lemma ahead_without: "ahead k it U l \<Longrightarrow> j \<noteq> k \<Longrightarrow> ahead k it U (without j l)"
  unfolding without_def by (rule ahead_filter) auto

lemma ahead_lookup: "ahead k it U l \<Longrightarrow> map_of l k = Some it"
  by (auto simp: ahead_def map_add_def map_of_eq_None_iff split: option.splits)

lemma ahead_first: "distinct (map fst l) \<Longrightarrow> ahead k it U ((k, it) # without k l)"
  by (rule aheadI [where xs = "[]"]) (simp_all add: distinct_without without_keys)

lemma ahead_step:
  assumes "ahead k it U l" and "spares k (it_expires it) op" and "touched op - {k} \<subseteq> U"
    and "finite U" and "card U < nat mx"
  shows "ahead k it U (fst (lru_step mx ttl op l))"
proof (cases op)
  case (Op_get now j)
  show ?thesis
  proof (cases "j = k")
    case True
    with Op_get assms(2) have "\<not> expired now it" by (simp add: expired_def)
    moreover have "distinct (map fst l)" using assms(1) by (simp add: ahead_def)
    ultimately show ?thesis
      using Op_get True ahead_lookup [OF assms(1)] ahead_first [of l k it U] by simp
  next
    case False
    with Op_get assms(3) have "j \<in> U" by auto
    with Op_get assms(1) False ahead_without [OF assms(1) False] show ?thesis
      by (auto split: option.splits intro!: ahead_cons simp: without_def)
  qed
next
  case (Op_set now j v sz)
  with assms(2,3) have j: "j \<noteq> k" "j \<in> U" by auto
  then have "ahead k it U ((j, i) # without j l)" for i
    using ahead_without [OF assms(1)] by (intro ahead_cons) (auto simp: without_keys)
  from ahead_take [OF this assms(4,5)] Op_set show ?thesis by simp
next
  case (Op_delete j)
  with assms(1,2) ahead_without show ?thesis by simp
next
  case Op_clear
  with assms(2) show ?thesis by simp
next
  case (Op_cleanup now)
  with assms(2) have "\<not> expired now it" by (simp add: expired_def)
  then show ?thesis using Op_cleanup ahead_filter [OF assms(1)] by simp
qed

lemma ahead_run:
  assumes "ahead k it U l" and "\<forall>op\<in>set ops. spares k (it_expires it) op \<and> touched op - {k} \<subseteq> U"
    and "finite U" and "card U < nat mx"
  shows "ahead k it U (fst (run_ops (lru_step mx ttl) ops l))"
  by (rule run_ops_inv) (use assms in \<open>auto intro: ahead_step\<close>)

section \<open>Properties\<close>

text \<open>
  C10. The cache is an LRU cache: over any sequence of operations, expired items and clean-ups included,
  a new cache answers every \<open>Get\<close> as the specification does, which keeps one list in order of use and
  cuts it to the size after every write; and it never holds more items than its size, nor its list a
  key that is not in its map.
\<close>

theorem cache_refines_lru:
  "snd (run_ops cache_step ops (new_cache mx ttl)) = snd (run_ops (lru_step mx ttl) ops []) \<and>
   length (ca_items (fst (run_ops cache_step ops (new_cache mx ttl)))) \<le> nat mx \<and>
   set (ca_lru (fst (run_ops cache_step ops (new_cache mx ttl)))) =
     fst ` set (ca_items (fst (run_ops cache_step ops (new_cache mx ttl))))"
proof -
  from lru.outputs_agree [OF new_cache_ok, where ops = ops]
  have "snd (run_ops cache_step ops (new_cache mx ttl)) = snd (run_ops (lru_step mx ttl) ops [])" by simp
  moreover note ok = lru.runs_ok [OF new_cache_ok, of mx ttl ops]
  ultimately show ?thesis using length_items [OF ok] ok by (auto simp: cache_ok_def)
qed

text \<open>
  A recent value is found: after a \<open>Set\<close>, a \<open>Get\<close> of the same key within the time to live returns
  the value, whatever happened before, as long as fewer other keys than the size of the cache have been
  read or written in between and the item was neither deleted nor written.
\<close>

theorem recent_value_is_found:
  assumes "\<forall>op\<in>set ops. spares k (now + ttl) op" and "card ((\<Union>op\<in>set ops. touched op) - {k}) < nat mx"
    and "t \<le> now + ttl"
  shows "snd (cache_get t k (fst (run_ops cache_step (before @ Op_set now k v sz # ops) (new_cache mx ttl)))) = Some v"
proof -
  let ?U = "(\<Union>op\<in>set ops. touched op) - {k}" and ?it = "\<lparr>it_value = v, it_size = sz, it_expires = now + ttl\<rparr>"
  define l where "l = fst (run_ops (lru_step mx ttl) before [])"
  define c where "c = fst (run_ops cache_step (before @ Op_set now k v sz # ops) (new_cache mx ttl))"
  have fin: "finite ?U" by (simp add: finite_touched)
  have "distinct (map fst (lru_view d))" if "cache_ok mx ttl d" for d :: "'a cache"
    using that by (simp add: lru_view_def cache_ok_def o_def)
  from this [OF lru.runs_ok [OF new_cache_ok, of mx ttl before]] lru.runs_agree [OF new_cache_ok, of mx ttl before]
  have d: "distinct (map fst l)" by (simp add: l_def)
  have "ahead k ?it ?U (fst (lru_step mx ttl (Op_set now k v sz) l))"
    using ahead_take [OF ahead_first [OF d] fin assms(2)] by simp
  from ahead_run [OF this _ fin assms(2)] assms(1)
  have a: "ahead k ?it ?U (fst (run_ops (lru_step mx ttl) ops (fst (lru_step mx ttl (Op_set now k v sz) l))))" by auto
  have ok: "cache_ok mx ttl c" unfolding c_def by (rule lru.runs_ok [OF new_cache_ok])
  have "lru_view c = fst (run_ops (lru_step mx ttl) (before @ Op_set now k v sz # ops) [])"
    using lru.runs_agree [OF new_cache_ok, of mx ttl "before @ Op_set now k v sz # ops"] by (simp add: c_def)
  also have "\<dots> = fst (run_ops (lru_step mx ttl) ops (fst (lru_step mx ttl (Op_set now k v sz) l)))"
    by (simp add: run_ops_append l_def split: prod.splits)
  finally have "map_of (ca_items c) k = Some ?it" using ahead_lookup [OF a] view_lookup [OF ok] by metis
  with assms(3) show ?thesis by (simp add: cache_get_def expired_def c_def [symmetric])
qed

theorem recent_value_is_found_witness:
  "snd (cache_get 8 ''a'' (fst (run_ops cache_step
      ([] @ Op_set 0 ''a'' (1::nat) 1 # [Op_set 1 ''b'' 2 1, Op_get 2 ''b'', Op_cleanup 5]) (new_cache 2 10)))) = Some 1"
  by (rule recent_value_is_found) (simp_all add: insert_Diff_if)

end
