(* ===== verification/WorkerPool.thy ===== *)
theory WorkerPool
  imports Channels
begin

text \<open>
  \<open>internal/performance/worker.go\<close>: the worker pool and the priority queue. The goroutines are a
  dispatcher per start, the workers, and the submitters; each of their steps is an event, and the order
  of the events is an argument. Channels are those of the theory Channels.
\<close>

section \<open>Tasks\<close>

text \<open>What running a task gives: no error, an error, or a panic.\<close>

datatype outcome = Task_ok | Task_err | Task_panic

record simple_task =
  tk_id :: string
  tk_priority :: int
  tk_func :: "outcome option"

definition task_execute :: "simple_task \<Rightarrow> outcome" where
  "task_execute t = (case tk_func t of Some f \<Rightarrow> f | None \<Rightarrow> Task_ok)"

section \<open>The pool\<close>

record worker =
  wk_chan :: "simple_task chan"
  wk_running :: "simple_task option"
  wk_quit :: bool
  wk_done :: bool

text \<open>A dispatcher waits, holds a task and looks at the worker of a number, or has returned.\<close>

datatype dispatcher = Disp_waiting | Disp_holding simple_task nat | Disp_gone

text \<open>A nil task is \<open>None\<close>. The submitters are those that have passed the check of \<open>Submit\<close>.\<close>

record wpool =
  wp_max :: nat
  wp_queue :: "simple_task option chan"
  wp_workers :: "worker list"
  wp_disps :: "dispatcher list"
  wp_submitters :: "simple_task option list"
  wp_started :: bool
  wp_stopping :: bool
  wp_ctx_done :: bool
  wp_queued :: int
  wp_active :: int
  wp_idle :: int
  wp_processed :: nat
  wp_failed :: nat
  wp_total_ms :: int

definition new_worker_pool :: "nat \<Rightarrow> wpool" where
  "new_worker_pool n = \<lparr>wp_max = n, wp_queue = make_chan (n * 10), wp_workers = [], wp_disps = [],
     wp_submitters = [], wp_started = False, wp_stopping = False, wp_ctx_done = False, wp_queued = 0,
     wp_active = 0, wp_idle = 0, wp_processed = 0, wp_failed = 0, wp_total_ms = 0\<rparr>"

definition new_worker :: worker where
  "new_worker = \<lparr>wk_chan = make_chan 1, wk_running = None, wk_quit = False, wk_done = False\<rparr>"

datatype wp_event =
  Start_call | Stop_call | Stop_done
| Submit_call "simple_task option" | Submit_send nat | Submit_timeout nat
| Disp_take nat | Disp_try nat bool | Disp_requeue nat | Disp_give_up nat | Disp_return nat
| Worker_take nat | Worker_finish nat int | Worker_quit nat

datatype wp_note = Accepted "simple_task option" | Refused | Ran simple_task outcome | Dropped simple_task

text \<open>A step that would wait is \<open>Blocked\<close>.\<close>

datatype wp_result = Next wpool "wp_note list" | Blocked | Panics

text \<open>\<open>Start\<close> and \<open>Stop\<close> hold the pool's lock; \<open>Stop\<close> holds it until all workers have returned.\<close>

definition pool_start :: "wpool \<Rightarrow> wp_result" where
  "pool_start s =
     (if wp_stopping s then Blocked
      else if wp_started s then Next s [Refused]
      else Next (s\<lparr>wp_ctx_done := False, wp_workers := wp_workers s @ replicate (wp_max s) new_worker,
        wp_disps := wp_disps s @ [Disp_waiting], wp_started := True\<rparr>) [])"

definition pool_stop :: "wpool \<Rightarrow> wp_result" where
  "pool_stop s =
     (if wp_stopping s then Blocked
      else if \<not> wp_started s then Next s []
      else if \<exists>w\<in>set (wp_workers s). wk_quit w then Panics
      else Next (s\<lparr>wp_ctx_done := True, wp_workers := map (\<lambda>w. w\<lparr>wk_quit := True\<rparr>) (wp_workers s),
        wp_stopping := True\<rparr>) [])"

definition pool_stop_end :: "wpool \<Rightarrow> wp_result" where
  "pool_stop_end s =
     (if \<not> wp_stopping s \<or> (\<exists>w\<in>set (wp_workers s). \<not> wk_done w) then Blocked
      else (case ch_close (wp_queue s) of
              None \<Rightarrow> Panics
            | Some q \<Rightarrow> Next (s\<lparr>wp_queue := q, wp_started := False, wp_stopping := False\<rparr>) []))"

definition submit_check :: "simple_task option \<Rightarrow> wpool \<Rightarrow> wp_result" where
  "submit_check t s =
     (if wp_stopping s then Blocked
      else if \<not> wp_started s then Next s [Refused]
      else Next (s\<lparr>wp_submitters := wp_submitters s @ [t]\<rparr>) [])"

abbreviation drop_at :: "nat \<Rightarrow> 'a list \<Rightarrow> 'a list" where
  "drop_at i xs \<equiv> take i xs @ drop (Suc i) xs"

definition submit_send :: "nat \<Rightarrow> wpool \<Rightarrow> wp_result" where
  "submit_send i s =
     (if length (wp_submitters s) \<le> i then Blocked
      else (case ch_send (wp_submitters s ! i) (wp_queue s) of
              Send_panics \<Rightarrow> Panics
            | Send_blocks \<Rightarrow> Blocked
            | Sent q \<Rightarrow> Next (s\<lparr>wp_queue := q, wp_queued := wp_queued s + 1,
                wp_submitters := drop_at i (wp_submitters s)\<rparr>) [Accepted (wp_submitters s ! i)]))"

text \<open>After five seconds in front of a full queue.\<close>

definition submit_timeout :: "nat \<Rightarrow> wpool \<Rightarrow> wp_result" where
  "submit_timeout i s =
     (if i < length (wp_submitters s) \<and> ch_send (wp_submitters s ! i) (wp_queue s) = Send_blocks
      then Next (s\<lparr>wp_submitters := drop_at i (wp_submitters s)\<rparr>) [Refused] else Blocked)"

text \<open>\<open>dispatch\<close>: take a task, offer it to the workers in turn, and put it back or drop it.\<close>

definition disp_take :: "nat \<Rightarrow> wpool \<Rightarrow> wp_result" where
  "disp_take d s =
     (if d < length (wp_disps s) \<and> wp_disps s ! d = Disp_waiting
      then (case ch_recv (wp_queue s) of
              Recv_blocks \<Rightarrow> Blocked
            | Closed_zero \<Rightarrow> Next s []
            | Received None q \<Rightarrow> Next (s\<lparr>wp_queue := q\<rparr>) []
            | Received (Some t) q \<Rightarrow> Next (s\<lparr>wp_queue := q, wp_queued := wp_queued s - 1,
                wp_disps := (wp_disps s)[d := Disp_holding t 0]\<rparr>) [])
      else Blocked)"

text \<open>The flag of a worker may be read before the worker takes its next task: \<open>stale\<close>.\<close>

definition disp_try :: "nat \<Rightarrow> bool \<Rightarrow> wpool \<Rightarrow> wp_result" where
  "disp_try d stale s =
     (if d < length (wp_disps s)
      then (case wp_disps s ! d of
              Disp_holding t i \<Rightarrow>
                if i < length (wp_workers s)
                then let w = wp_workers s ! i; on = s\<lparr>wp_disps := (wp_disps s)[d := Disp_holding t (Suc i)]\<rparr> in
                  if wk_running w = None \<or> stale
                  then (case ch_send t (wk_chan w) of
                          Sent ch \<Rightarrow> Next (s\<lparr>wp_workers := (wp_workers s)[i := w\<lparr>wk_chan := ch\<rparr>],
                            wp_disps := (wp_disps s)[d := Disp_waiting]\<rparr>) []
                        | _ \<Rightarrow> Next on [])
                  else Next on []
                else Blocked
            | _ \<Rightarrow> Blocked)
      else Blocked)"

definition disp_requeue :: "bool \<Rightarrow> nat \<Rightarrow> wpool \<Rightarrow> wp_result" where
  "disp_requeue give_up d s =
     (if d < length (wp_disps s)
      then (case wp_disps s ! d of
              Disp_holding t i \<Rightarrow>
                if i < length (wp_workers s) then Blocked
                else (case ch_send (Some t) (wp_queue s) of
                        Send_panics \<Rightarrow> Panics
                      | Sent q \<Rightarrow>
                          if give_up then Blocked
                          else Next (s\<lparr>wp_queue := q, wp_queued := wp_queued s + 1,
                            wp_disps := (wp_disps s)[d := Disp_waiting]\<rparr>) []
                      | Send_blocks \<Rightarrow>
                          if give_up then Next (s\<lparr>wp_disps := (wp_disps s)[d := Disp_waiting]\<rparr>) [Dropped t]
                          else Blocked)
            | _ \<Rightarrow> Blocked)
      else Blocked)"

definition disp_return :: "nat \<Rightarrow> wpool \<Rightarrow> wp_result" where
  "disp_return d s =
     (if d < length (wp_disps s) \<and> wp_disps s ! d = Disp_waiting \<and> wp_ctx_done s
      then Next (s\<lparr>wp_disps := (wp_disps s)[d := Disp_gone]\<rparr>) [] else Blocked)"

text \<open>\<open>run\<close>, with \<open>executeTask\<close> and \<open>recordTaskCompletion\<close>: a recovered panic returns no error.\<close>

definition update_active :: "int \<Rightarrow> wpool \<Rightarrow> wpool" where
  "update_active d s = s\<lparr>wp_active := wp_active s + d, wp_idle := wp_idle s + (if d > 0 then -1 else 1)\<rparr>"

definition worker_take :: "nat \<Rightarrow> wpool \<Rightarrow> wp_result" where
  "worker_take i s =
     (if i < length (wp_workers s) \<and> \<not> wk_done (wp_workers s ! i) \<and> wk_running (wp_workers s ! i) = None
      then (case ch_recv (wk_chan (wp_workers s ! i)) of
              Received t ch \<Rightarrow> Next (update_active 1 (s\<lparr>wp_workers :=
                (wp_workers s)[i := (wp_workers s ! i)\<lparr>wk_chan := ch, wk_running := Some t\<rparr>]\<rparr>)) []
            | _ \<Rightarrow> Blocked)
      else Blocked)"

definition execute_task :: "simple_task \<Rightarrow> bool" where
  "execute_task t \<longleftrightarrow> task_execute t = Task_err"

definition record_completion :: "int \<Rightarrow> bool \<Rightarrow> wpool \<Rightarrow> wpool" where
  "record_completion ms err s = s\<lparr>wp_processed := wp_processed s + 1,
     wp_failed := (if err then wp_failed s + 1 else wp_failed s), wp_total_ms := wp_total_ms s + ms\<rparr>"

definition worker_finish :: "nat \<Rightarrow> int \<Rightarrow> wpool \<Rightarrow> wp_result" where
  "worker_finish i ms s =
     (if i < length (wp_workers s)
      then (case wk_running (wp_workers s ! i) of
              None \<Rightarrow> Blocked
            | Some t \<Rightarrow> Next (update_active (-1) (record_completion ms (execute_task t)
                (s\<lparr>wp_workers := (wp_workers s)[i := (wp_workers s ! i)\<lparr>wk_running := None\<rparr>]\<rparr>)))
                [Ran t (task_execute t)])
      else Blocked)"

definition worker_quit :: "nat \<Rightarrow> wpool \<Rightarrow> wp_result" where
  "worker_quit i s =
     (if i < length (wp_workers s) \<and> wk_quit (wp_workers s ! i) \<and> wk_running (wp_workers s ! i) = None \<and>
         \<not> wk_done (wp_workers s ! i)
      then Next (s\<lparr>wp_workers := (wp_workers s)[i := (wp_workers s ! i)\<lparr>wk_done := True\<rparr>]\<rparr>) []
      else Blocked)"

fun wp_step :: "wp_event \<Rightarrow> wpool \<Rightarrow> wp_result" where
  "wp_step Start_call s = pool_start s"
| "wp_step Stop_call s = pool_stop s"
| "wp_step Stop_done s = pool_stop_end s"
| "wp_step (Submit_call t) s = submit_check t s"
| "wp_step (Submit_send i) s = submit_send i s"
| "wp_step (Submit_timeout i) s = submit_timeout i s"
| "wp_step (Disp_take d) s = disp_take d s"
| "wp_step (Disp_try d stale) s = disp_try d stale s"
| "wp_step (Disp_requeue d) s = disp_requeue False d s"
| "wp_step (Disp_give_up d) s = disp_requeue True d s"
| "wp_step (Disp_return d) s = disp_return d s"
| "wp_step (Worker_take i) s = worker_take i s"
| "wp_step (Worker_finish i ms) s = worker_finish i ms s"
| "wp_step (Worker_quit i) s = worker_quit i s"

fun wp_run :: "wp_event list \<Rightarrow> wpool \<Rightarrow> wp_result" where
  "wp_run [] s = Next s []"
| "wp_run (e # es) s =
     (case wp_step e s of
        Next s1 ns \<Rightarrow> (case wp_run es s1 of Next s2 ms \<Rightarrow> Next s2 (ns @ ms) | r \<Rightarrow> r)
      | r \<Rightarrow> r)"

record worker_stats =
  ws_active :: int
  ws_idle :: int
  ws_total :: int
  ws_queued :: int
  ws_processed :: nat
  ws_failed :: nat
  ws_avg_time :: int

definition worker_stats_of :: "wpool \<Rightarrow> worker_stats" where
  "worker_stats_of s =
     (let active = int (length (filter (\<lambda>w. wk_running w \<noteq> None) (wp_workers s))) in
      \<lparr>ws_active = active, ws_idle = int (length (wp_workers s)) - active,
       ws_total = int (length (wp_workers s)), ws_queued = int (length (ch_buf (wp_queue s))),
       ws_processed = wp_processed s, ws_failed = wp_failed s,
       ws_avg_time = (if wp_processed s > 0 then wp_total_ms s div int (wp_processed s) else 0)\<rparr>)"

text \<open>The two warnings of \<open>Optimize\<close>, and what \<open>WaitForCompletion\<close> waits for.\<close>

definition pool_saturated :: "wpool \<Rightarrow> bool" where
  "pool_saturated s \<longleftrightarrow> ws_queued (worker_stats_of s) > int (wp_max s) * 2 \<and>
     ws_active (worker_stats_of s) = int (wp_max s)"

definition pool_slow :: "wpool \<Rightarrow> bool" where
  "pool_slow s \<longleftrightarrow> ws_avg_time (worker_stats_of s) > 1000"

definition pool_completed :: "wpool \<Rightarrow> bool" where
  "pool_completed s \<longleftrightarrow> ws_queued (worker_stats_of s) = 0 \<and> ws_active (worker_stats_of s) = 0"

section \<open>The priority queue\<close>

type_synonym pqueue = "(simple_task \<times> int) list"

fun insert_before_less :: "simple_task \<times> int \<Rightarrow> pqueue \<Rightarrow> pqueue option" where
  "insert_before_less pt [] = None"
| "insert_before_less pt (x # xs) =
     (if snd pt > snd x then Some (pt # x # xs) else map_option ((#) x) (insert_before_less pt xs))"

definition pq_push :: "simple_task \<Rightarrow> pqueue \<Rightarrow> pqueue" where
  "pq_push t q =
     (let pt = (t, tk_priority t) in
      case insert_before_less pt q of Some q1 \<Rightarrow> q1 | None \<Rightarrow> q @ [pt])"

definition pq_pop :: "pqueue \<Rightarrow> pqueue \<times> simple_task option" where
  "pq_pop q = (case q of [] \<Rightarrow> (q, None) | x # xs \<Rightarrow> (xs, Some (fst x)))"

fun pq_drain :: "nat \<Rightarrow> pqueue \<Rightarrow> simple_task list" where
  "pq_drain 0 q = []"
| "pq_drain (Suc n) q = (case pq_pop q of (_, None) \<Rightarrow> [] | (q1, Some t) \<Rightarrow> t # pq_drain n q1)"

section \<open>Accounting\<close>

fun opt_mset :: "'a option \<Rightarrow> 'a multiset" where
  "opt_mset None = {#}"
| "opt_mset (Some x) = {#x#}"

fun disp_tasks :: "dispatcher \<Rightarrow> simple_task multiset" where
  "disp_tasks (Disp_holding t i) = {#t#}"
| "disp_tasks _ = {#}"

definition worker_tasks :: "worker \<Rightarrow> simple_task multiset" where
  "worker_tasks w = mset (ch_buf (wk_chan w)) + opt_mset (wk_running w)"

text \<open>The tasks that are anywhere in the pool.\<close>

definition wp_tasks :: "wpool \<Rightarrow> simple_task multiset" where
  "wp_tasks s = sum_list (map opt_mset (ch_buf (wp_queue s))) + sum_list (map disp_tasks (wp_disps s)) +
     sum_list (map worker_tasks (wp_workers s))"

definition running_count :: "wpool \<Rightarrow> nat" where
  "running_count s = length (filter (\<lambda>w. wk_running w \<noteq> None) (wp_workers s))"

fun accepted :: "wp_note \<Rightarrow> simple_task multiset" where
  "accepted (Accepted t) = opt_mset t"
| "accepted _ = {#}"

fun ran :: "wp_note \<Rightarrow> simple_task multiset" where
  "ran (Ran t r) = {#t#}"
| "ran _ = {#}"

fun dropped :: "wp_note \<Rightarrow> simple_task multiset" where
  "dropped (Dropped t) = {#t#}"
| "dropped _ = {#}"

abbreviation total :: "(wp_note \<Rightarrow> simple_task multiset) \<Rightarrow> wp_note list \<Rightarrow> simple_task multiset" where
  "total f ns \<equiv> sum_list (map f ns)"

lemma sum_list_replace:
  "i < length xs \<Longrightarrow> sum_list (map f (xs[i := x])) + f (xs ! i) = sum_list (map f xs) + (f x :: 'a multiset)"
proof (induction xs arbitrary: i)
  case (Cons a xs)
  then show ?case by (cases i) (simp_all add: ac_simps)
qed simp

lemma count_replace:
  "i < length xs \<Longrightarrow> int (length (filter P (xs[i := x]))) =
     int (length (filter P xs)) + (if P x then 1 else 0) - (if P (xs ! i) then 1 else 0)"
proof (induction xs arbitrary: i)
  case (Cons a xs)
  show ?case
  proof (cases i)
    case (Suc j)
    with Cons.IH [of j] Cons.prems show ?thesis by (auto split: if_splits)
  qed simp
qed simp

lemma sum_list_none [simp]: "sum_list (replicate n ({#} :: 'a multiset)) = {#}"
  by (induction n) auto

lemma ch_send_cases:
  "ch_send x c = Sent c' \<Longrightarrow> ch_buf c' = ch_buf c @ [x] \<and> ch_closed c' = ch_closed c \<and> ch_cap c' = ch_cap c"
  "ch_send x c = Send_panics \<longleftrightarrow> ch_closed c"
  by (auto simp: ch_send_def split: if_splits)

lemma ch_recv_cases: "ch_recv c = Received x c' \<Longrightarrow> ch_buf c = x # ch_buf c' \<and> ch_closed c' = ch_closed c"
  by (auto simp: ch_recv_def split: list.splits if_splits)

lemma try_accounts:
  assumes "disp_try d stale s = Next s' ns"
  shows "wp_tasks s' = wp_tasks s" and "ns = []"
proof -
  from assms obtain t i where d: "d < length (wp_disps s)" "wp_disps s ! d = Disp_holding t i"
    and i: "i < length (wp_workers s)"
    by (auto simp: disp_try_def split: if_splits dispatcher.splits)
  let ?w = "wp_workers s ! i"
  have D: "sum_list (map disp_tasks ((wp_disps s)[d := x])) + {#t#} = sum_list (map disp_tasks (wp_disps s)) + disp_tasks x"
    for x using sum_list_replace [OF d(1), of disp_tasks x] d(2) by simp
  consider "s' = s\<lparr>wp_disps := (wp_disps s)[d := Disp_holding t (Suc i)]\<rparr>"
    | ch where "ch_send t (wk_chan ?w) = Sent ch"
      "s' = s\<lparr>wp_workers := (wp_workers s)[i := ?w\<lparr>wk_chan := ch\<rparr>], wp_disps := (wp_disps s)[d := Disp_waiting]\<rparr>"
    using assms d i by (auto simp: disp_try_def Let_def split: if_splits send_result.splits)
  then show "wp_tasks s' = wp_tasks s"
  proof cases
    case 1
    have "sum_list (map disp_tasks ((wp_disps s)[d := Disp_holding t (Suc i)])) = sum_list (map disp_tasks (wp_disps s))"
      using D [of "Disp_holding t (Suc i)"] by simp
    with 1 show ?thesis by (simp add: wp_tasks_def)
  next
    case (2 ch)
    have w: "worker_tasks (?w\<lparr>wk_chan := ch\<rparr>) = worker_tasks ?w + {#t#}"
      using ch_send_cases(1) [OF 2(1)] by (simp add: worker_tasks_def)
    have W: "sum_list (map worker_tasks ((wp_workers s)[i := ?w\<lparr>wk_chan := ch\<rparr>])) =
        sum_list (map worker_tasks (wp_workers s)) + {#t#}"
      using sum_list_replace [OF i, of worker_tasks "?w\<lparr>wk_chan := ch\<rparr>"] unfolding w by (simp add: ac_simps)
    have "sum_list (map disp_tasks (wp_disps s)) = sum_list (map disp_tasks ((wp_disps s)[d := Disp_waiting])) + {#t#}"
      using D [of Disp_waiting] by simp
    with W 2(2) show ?thesis by (simp add: wp_tasks_def ac_simps)
  qed
  show "ns = []" using assms d i by (auto simp: disp_try_def Let_def split: if_splits send_result.splits)
qed

text \<open>What a step changes, by the state components that matter.\<close>

lemma step_accounts:
  assumes "wp_step e s = Next s' ns"
  shows "wp_tasks s' + total ran ns + total dropped ns = wp_tasks s + total accepted ns"
proof (cases e)
  case Start_call
  with assms show ?thesis
    by (auto simp: pool_start_def wp_tasks_def worker_tasks_def new_worker_def split: if_splits)
next
  case Stop_call
  with assms show ?thesis
    by (auto simp: pool_stop_def wp_tasks_def worker_tasks_def [abs_def] o_def split: if_splits)
next
  case Stop_done
  with assms show ?thesis
    by (auto simp: pool_stop_end_def wp_tasks_def ch_close_def split: if_splits option.splits)
next
  case (Submit_call t)
  with assms show ?thesis by (auto simp: submit_check_def wp_tasks_def split: if_splits)
next
  case (Submit_send i)
  with assms show ?thesis
    by (auto simp: submit_send_def wp_tasks_def ac_simps dest!: ch_send_cases(1) split: if_splits send_result.splits)
next
  case (Submit_timeout i)
  with assms show ?thesis by (auto simp: submit_timeout_def wp_tasks_def split: if_splits)
next
  case (Disp_take d)
  with assms sum_list_replace [of d "wp_disps s" disp_tasks] show ?thesis
    by (auto simp: disp_take_def wp_tasks_def ac_simps dest!: ch_recv_cases split: if_splits recv_result.splits option.splits)
next
  case (Disp_try d stale)
  with assms try_accounts [of d stale s s' ns] show ?thesis by simp
next
  case (Disp_requeue d)
  with assms sum_list_replace [of d "wp_disps s" disp_tasks] show ?thesis
    by (auto simp: disp_requeue_def wp_tasks_def ac_simps dest!: ch_send_cases(1)
        split: if_splits dispatcher.splits send_result.splits)
next
  case (Disp_give_up d)
  with assms sum_list_replace [of d "wp_disps s" disp_tasks] show ?thesis
    by (auto simp: disp_requeue_def wp_tasks_def ac_simps split: if_splits dispatcher.splits send_result.splits)
next
  case (Disp_return d)
  with assms sum_list_replace [of d "wp_disps s" disp_tasks] show ?thesis
    by (auto simp: disp_return_def wp_tasks_def split: if_splits)
next
  case (Worker_take i)
  let ?w = "wp_workers s ! i"
  from Worker_take assms obtain t ch where i: "i < length (wp_workers s)" "wk_running ?w = None"
    and ch: "ch_recv (wk_chan ?w) = Received t ch" and ns: "ns = []"
    and s': "s' = update_active 1 (s\<lparr>wp_workers := (wp_workers s)[i := ?w\<lparr>wk_chan := ch, wk_running := Some t\<rparr>]\<rparr>)"
    by (auto simp: worker_take_def split: if_splits recv_result.splits)
  have "worker_tasks (?w\<lparr>wk_chan := ch, wk_running := Some t\<rparr>) = worker_tasks ?w"
    using ch_recv_cases [OF ch] i(2) by (simp add: worker_tasks_def)
  with sum_list_replace [OF i(1), of worker_tasks "?w\<lparr>wk_chan := ch, wk_running := Some t\<rparr>"] ns s'
  show ?thesis by (simp add: wp_tasks_def update_active_def)
next
  case (Worker_finish i ms)
  with assms sum_list_replace [of i "wp_workers s" worker_tasks "(wp_workers s ! i)\<lparr>wk_running := None\<rparr>"] show ?thesis
    by (auto simp: worker_finish_def wp_tasks_def update_active_def record_completion_def worker_tasks_def ac_simps
        split: if_splits option.splits)
next
  case (Worker_quit i)
  with assms sum_list_replace [of i "wp_workers s" worker_tasks "(wp_workers s ! i)\<lparr>wk_done := True\<rparr>"] show ?thesis
    by (auto simp: worker_quit_def wp_tasks_def worker_tasks_def split: if_splits)
qed

lemma active_replace:
  assumes "i < length ws"
  shows "int (length (filter (\<lambda>w. wk_running w \<noteq> None) (ws[i := w]))) =
    int (length (filter (\<lambda>w. wk_running w \<noteq> None) ws)) + (if wk_running w \<noteq> None then 1 else 0) -
    (if wk_running (ws ! i) \<noteq> None then 1 else 0)"
  by (rule count_replace [OF assms])

text \<open>The counters, by what a step notes.\<close>

definition counted :: "wpool \<Rightarrow> wpool \<Rightarrow> wp_note list \<Rightarrow> bool" where
  "counted s s' ns \<longleftrightarrow>
     wp_processed s' = wp_processed s + size (total ran ns) \<and>
     wp_failed s' = wp_failed s + size (filter_mset execute_task (total ran ns)) \<and>
     int (running_count s') - wp_active s' = int (running_count s) - wp_active s \<and>
     wp_active s' + wp_idle s' = wp_active s + wp_idle s"

lemma step_counts:
  assumes "wp_step e s = Next s' ns"
  shows "counted s s' ns"
proof (cases e)
  case Start_call
  with assms show ?thesis
    by (auto simp: counted_def pool_start_def running_count_def new_worker_def split: if_splits)
next
  case Stop_call
  with assms show ?thesis
    by (auto simp: counted_def pool_stop_def running_count_def filter_map o_def split: if_splits)
next
  case Stop_done
  with assms show ?thesis
    by (auto simp: counted_def pool_stop_end_def running_count_def ch_close_def split: if_splits option.splits)
next
  case (Submit_call t)
  with assms show ?thesis by (auto simp: counted_def submit_check_def running_count_def split: if_splits)
next
  case (Submit_send i)
  with assms show ?thesis
    by (auto simp: counted_def submit_send_def running_count_def split: if_splits send_result.splits)
next
  case (Submit_timeout i)
  with assms show ?thesis by (auto simp: counted_def submit_timeout_def running_count_def split: if_splits)
next
  case (Disp_take d)
  with assms show ?thesis
    by (auto simp: counted_def disp_take_def running_count_def split: if_splits recv_result.splits option.splits)
next
  case (Disp_try d stale)
  with assms active_replace [of _ "wp_workers s"] show ?thesis
    by (auto simp: counted_def disp_try_def running_count_def Let_def
        split: if_splits dispatcher.splits send_result.splits)
next
  case (Disp_requeue d)
  with assms show ?thesis
    by (auto simp: counted_def disp_requeue_def running_count_def split: if_splits dispatcher.splits send_result.splits)
next
  case (Disp_give_up d)
  with assms show ?thesis
    by (auto simp: counted_def disp_requeue_def running_count_def split: if_splits dispatcher.splits send_result.splits)
next
  case (Disp_return d)
  with assms show ?thesis by (auto simp: counted_def disp_return_def running_count_def split: if_splits)
next
  case (Worker_take i)
  with assms active_replace [of i "wp_workers s"] show ?thesis
    by (auto simp: counted_def worker_take_def running_count_def update_active_def split: if_splits recv_result.splits)
next
  case (Worker_finish i ms)
  with assms active_replace [of i "wp_workers s"] show ?thesis
    by (auto simp: counted_def worker_finish_def running_count_def update_active_def record_completion_def
        split: if_splits option.splits)
next
  case (Worker_quit i)
  with assms active_replace [of i "wp_workers s"] show ?thesis
    by (auto simp: counted_def worker_quit_def running_count_def split: if_splits)
qed

lemma counted_refl: "counted s s []"
  by (simp add: counted_def)

lemma counted_trans: "counted s s1 ns \<Longrightarrow> counted s1 s2 ms \<Longrightarrow> counted s s2 (ns @ ms)"
  by (simp add: counted_def)

lemma wp_run_cons:
  assumes "wp_run (e # es) s = Next s' ns"
  obtains s1 n1 n2 where "wp_step e s = Next s1 n1" and "wp_run es s1 = Next s' n2" and "ns = n1 @ n2"
  using assms by (auto split: wp_result.splits)

lemma wp_run_append:
  "wp_run (es @ fs) s =
     (case wp_run es s of
        Next s1 n1 \<Rightarrow> (case wp_run fs s1 of Next s2 n2 \<Rightarrow> Next s2 (n1 @ n2) | r \<Rightarrow> r)
      | r \<Rightarrow> r)"
  by (induction es arbitrary: s) (simp_all split: wp_result.splits)

lemma run_accounts:
  assumes "wp_run es s = Next s' ns"
  shows "wp_tasks s' + total ran ns + total dropped ns = wp_tasks s + total accepted ns \<and> counted s s' ns"
  using assms
proof (induction es arbitrary: s ns)
  case Nil
  then show ?case by (simp add: counted_refl)
next
  case (Cons e es)
  from Cons.prems obtain s1 n1 n2 where e: "wp_step e s = Next s1 n1" and r: "wp_run es s1 = Next s' n2"
    and ns: "ns = n1 @ n2" by (rule wp_run_cons)
  note I = Cons.IH [OF r, THEN conjunct1]
  have "wp_tasks s' + total ran ns + total dropped ns =
      (wp_tasks s' + total ran n2 + total dropped n2) + total ran n1 + total dropped n1"
    by (simp add: ns ac_simps)
  also have "\<dots> = (wp_tasks s1 + total ran n1 + total dropped n1) + total accepted n2"
    unfolding I by (simp add: ac_simps)
  also have "\<dots> = wp_tasks s + total accepted ns"
    unfolding step_accounts [OF e] by (simp add: ns ac_simps)
  finally have "wp_tasks s' + total ran ns + total dropped ns = wp_tasks s + total accepted ns" .
  moreover have "counted s s' ns"
    unfolding ns by (rule counted_trans [OF step_counts [OF e] Cons.IH [OF r, THEN conjunct2]])
  ultimately show ?case by (rule conjI)
qed

text \<open>What a stopped pool keeps.\<close>

definition pool_inv :: "wpool \<Rightarrow> bool" where
  "pool_inv s \<longleftrightarrow>
     (wp_stopping s \<longrightarrow> wp_started s \<and> (\<forall>w\<in>set (wp_workers s). wk_quit w)) \<and>
     (wp_started s \<longrightarrow> wp_max s \<le> length (wp_workers s)) \<and>
     (ch_closed (wp_queue s) \<longrightarrow> wp_max s > 0 \<longrightarrow> \<not> wp_stopping s \<and> (\<exists>w\<in>set (wp_workers s). wk_quit w))"

lemma quit_replace:
  assumes "i < length ws" and "wk_quit w = wk_quit (ws ! i)"
  shows "(\<forall>v\<in>set (ws[i := w]). wk_quit v) \<longleftrightarrow> (\<forall>v\<in>set ws. wk_quit v)"
    and "(\<exists>v\<in>set (ws[i := w]). wk_quit v) \<longleftrightarrow> (\<exists>v\<in>set ws. wk_quit v)"
proof -
  have "map wk_quit (ws[i := w]) = map wk_quit ws"
    using assms by (simp add: map_update list_update_same_conv)
  then have "set (map wk_quit (ws[i := w])) = set (map wk_quit ws)" by (rule arg_cong)
  then have eq: "wk_quit ` set (ws[i := w]) = wk_quit ` set ws" unfolding set_map .
  have all: "(\<forall>v\<in>A. wk_quit v) \<longleftrightarrow> False \<notin> wk_quit ` A" and ex: "(\<exists>v\<in>A. wk_quit v) \<longleftrightarrow> True \<in> wk_quit ` A" for A
    by (auto simp: image_iff)
  show "(\<forall>v\<in>set (ws[i := w]). wk_quit v) \<longleftrightarrow> (\<forall>v\<in>set ws. wk_quit v)" unfolding all eq ..
  show "(\<exists>v\<in>set (ws[i := w]). wk_quit v) \<longleftrightarrow> (\<exists>v\<in>set ws. wk_quit v)" unfolding ex eq ..
qed

lemma pool_inv_workers:
  assumes "pool_inv s" and "i < length (wp_workers s)" and "wk_quit w = wk_quit (wp_workers s ! i)"
  shows "pool_inv (s\<lparr>wp_workers := (wp_workers s)[i := w]\<rparr>)"
  using assms(1) quit_replace [OF assms(2,3)] by (simp add: pool_inv_def)

lemma pool_inv_same:
  assumes "pool_inv s" and "wp_workers s' = wp_workers s" and "wp_stopping s' = wp_stopping s"
    and "wp_started s' = wp_started s" and "wp_max s' = wp_max s" and "ch_closed (wp_queue s') = ch_closed (wp_queue s)"
  shows "pool_inv s'"
  using assms by (simp add: pool_inv_def)

lemma pool_inv_step:
  assumes "pool_inv s" and "wp_step e s = Next s' ns"
  shows "pool_inv s' \<and> wp_max s' = wp_max s \<and> (ch_closed (wp_queue s) \<longrightarrow> ch_closed (wp_queue s'))"
proof (cases e)
  case Start_call
  with assms show ?thesis by (auto simp: pool_start_def pool_inv_def split: if_splits)
next
  case Stop_call
  with assms show ?thesis by (auto simp: pool_stop_def pool_inv_def split: if_splits)
next
  case Stop_done
  define q where "q = (wp_queue s)\<lparr>ch_closed := True\<rparr>"
  from Stop_done assms(2) have st: "wp_stopping s" and q: "ch_closed q"
    and s': "s' = s\<lparr>wp_queue := q, wp_started := False, wp_stopping := False\<rparr>"
    by (auto simp: q_def pool_stop_end_def ch_close_def split: if_splits option.splits)
  have "\<exists>w\<in>set (wp_workers s). wk_quit w" if "wp_max s > 0"
  proof -
    from assms(1) st that have "wp_workers s \<noteq> []" by (auto simp: pool_inv_def)
    with assms(1) st show ?thesis by (cases "wp_workers s") (auto simp: pool_inv_def)
  qed
  with s' q show ?thesis by (simp add: pool_inv_def)
next
  case (Submit_call t)
  with assms show ?thesis by (auto simp: submit_check_def intro!: pool_inv_same [OF assms(1)] split: if_splits)
next
  case (Submit_send i)
  with assms show ?thesis
    by (auto simp: submit_send_def intro!: pool_inv_same [OF assms(1)] dest!: ch_send_cases(1) split: if_splits send_result.splits)
next
  case (Submit_timeout i)
  with assms show ?thesis by (auto simp: submit_timeout_def intro!: pool_inv_same [OF assms(1)] split: if_splits)
next
  case (Disp_take d)
  with assms show ?thesis
    by (auto simp: disp_take_def intro!: pool_inv_same [OF assms(1)] dest!: ch_recv_cases split: if_splits recv_result.splits option.splits)
next
  case (Disp_try d stale)
  with assms(2) consider (on) ds where "s' = s\<lparr>wp_disps := ds\<rparr>"
    | (sent) i ch ds where "i < length (wp_workers s)"
      "s' = s\<lparr>wp_workers := (wp_workers s)[i := (wp_workers s ! i)\<lparr>wk_chan := ch\<rparr>], wp_disps := ds\<rparr>"
    by (auto simp: disp_try_def Let_def split: if_splits dispatcher.splits send_result.splits)
  then show ?thesis
  proof cases
    case on
    with assms(1) show ?thesis by (simp add: pool_inv_def)
  next
    case sent
    have "pool_inv (s\<lparr>wp_workers := (wp_workers s)[i := (wp_workers s ! i)\<lparr>wk_chan := ch\<rparr>]\<rparr>)"
      by (rule pool_inv_workers [OF assms(1) sent(1)]) simp
    from pool_inv_same [OF this, of s'] sent(2) show ?thesis by simp
  qed
next
  case (Disp_requeue d)
  with assms show ?thesis
    by (auto simp: disp_requeue_def intro!: pool_inv_same [OF assms(1)] dest!: ch_send_cases(1) split: if_splits dispatcher.splits send_result.splits)
next
  case (Disp_give_up d)
  with assms show ?thesis
    by (auto simp: disp_requeue_def intro!: pool_inv_same [OF assms(1)] split: if_splits dispatcher.splits send_result.splits)
next
  case (Disp_return d)
  with assms show ?thesis by (auto simp: disp_return_def intro!: pool_inv_same [OF assms(1)] split: if_splits)
next
  case (Worker_take i)
  with assms(2) obtain t ch where i: "i < length (wp_workers s)" and
    s': "s' = update_active 1 (s\<lparr>wp_workers := (wp_workers s)[i := (wp_workers s ! i)\<lparr>wk_chan := ch, wk_running := Some t\<rparr>]\<rparr>)"
    by (auto simp: worker_take_def split: if_splits recv_result.splits)
  have "pool_inv (s\<lparr>wp_workers := (wp_workers s)[i := (wp_workers s ! i)\<lparr>wk_chan := ch, wk_running := Some t\<rparr>]\<rparr>)"
    by (rule pool_inv_workers [OF assms(1) i]) simp
  from pool_inv_same [OF this, of s'] s' show ?thesis by (simp add: update_active_def)
next
  case (Worker_finish i ms)
  with assms(2) obtain err where i: "i < length (wp_workers s)" and
    s': "s' = update_active (-1) (record_completion ms err
      (s\<lparr>wp_workers := (wp_workers s)[i := (wp_workers s ! i)\<lparr>wk_running := None\<rparr>]\<rparr>))"
    by (auto simp: worker_finish_def split: if_splits option.splits)
  have "pool_inv (s\<lparr>wp_workers := (wp_workers s)[i := (wp_workers s ! i)\<lparr>wk_running := None\<rparr>]\<rparr>)"
    by (rule pool_inv_workers [OF assms(1) i]) simp
  from pool_inv_same [OF this, of s'] s' show ?thesis by (simp add: update_active_def record_completion_def)
next
  case (Worker_quit i)
  with assms(2) have i: "i < length (wp_workers s)" and
    s': "s' = s\<lparr>wp_workers := (wp_workers s)[i := (wp_workers s ! i)\<lparr>wk_done := True\<rparr>]\<rparr>"
    by (auto simp: worker_quit_def split: if_splits)
  have "pool_inv (s\<lparr>wp_workers := (wp_workers s)[i := (wp_workers s ! i)\<lparr>wk_done := True\<rparr>]\<rparr>)"
    by (rule pool_inv_workers [OF assms(1) i]) simp
  with s' show ?thesis by simp
qed

lemma pool_inv_run:
  assumes "wp_run es s = Next s' ns" and "pool_inv s"
  shows "pool_inv s' \<and> wp_max s' = wp_max s \<and> (ch_closed (wp_queue s) \<longrightarrow> ch_closed (wp_queue s'))"
  using assms
proof (induction es arbitrary: s ns)
  case (Cons e es)
  from Cons.prems(1) obtain s1 n1 n2 where e: "wp_step e s = Next s1 n1" and r: "wp_run es s1 = Next s' n2"
    by (rule wp_run_cons)
  from pool_inv_step [OF Cons.prems(2) e] Cons.IH [OF r] show ?case by auto
qed simp

lemma pool_inv_new: "pool_inv (new_worker_pool n)"
  by (simp add: pool_inv_def new_worker_pool_def)

section \<open>Properties\<close>

text \<open>
  C11. No task is lost in silence or run twice: in every run of the pool's goroutines, in any order, the
  tasks accepted by \<open>Submit\<close> are exactly those still in the pool (in the queue, with a dispatcher, in a
  worker's channel, or running), those that ran, and those that a dispatcher dropped after a second in
  front of a full queue. The counters agree: processed tasks are those that ran, failed ones those that
  returned an error, so that a task that panicked counts as processed and not as failed, and the number
  of active workers is right between steps.
\<close>

theorem tasks_are_accounted:
  assumes "wp_run es (new_worker_pool n) = Next s ns"
  shows "total accepted ns = wp_tasks s + total ran ns + total dropped ns \<and>
    wp_processed s = size (total ran ns) \<and>
    wp_failed s = size (filter_mset (\<lambda>t. task_execute t = Task_err) (total ran ns)) \<and>
    wp_active s = int (running_count s) \<and> wp_idle s = - wp_active s"
proof -
  have "wp_tasks (new_worker_pool n) = {#}" "running_count (new_worker_pool n) = 0"
    by (simp_all add: wp_tasks_def running_count_def new_worker_pool_def)
  with run_accounts [OF assms] show ?thesis
    by (simp add: counted_def new_worker_pool_def execute_task_def [abs_def])
qed

definition demo_task :: "outcome \<Rightarrow> simple_task" where
  "demo_task r = \<lparr>tk_id = ''t'', tk_priority = 0, tk_func = Some r\<rparr>"

definition demo_run :: "outcome \<Rightarrow> wp_event list" where
  "demo_run r = [Start_call, Submit_call (Some (demo_task r)), Submit_send 0, Disp_take 0, Disp_try 0 False,
     Worker_take 0, Worker_finish 0 7]"

theorem tasks_are_accounted_witness:
  "\<exists>s ns. wp_run (demo_run Task_panic) (new_worker_pool 1) = Next s ns \<and> wp_processed s = 1 \<and> wp_failed s = 0"
proof -
  let ?r = "wp_run (demo_run Task_panic) (new_worker_pool 1)"
  have "case ?r of Next s ns \<Rightarrow> ns = [Accepted (Some (demo_task Task_panic)), Ran (demo_task Task_panic) Task_panic]
      | _ \<Rightarrow> False" by code_simp
  then obtain s where r: "?r = Next s [Accepted (Some (demo_task Task_panic)), Ran (demo_task Task_panic) Task_panic]"
    by (auto split: wp_result.splits)
  from tasks_are_accounted [OF r] r show ?thesis by (auto simp: demo_task_def task_execute_def)
qed

text \<open>
  A pool can be started once: after a \<open>Stop\<close> has returned, \<open>Start\<close> succeeds again, but the queue is
  closed for ever. Whenever such a pool is started, a \<open>Submit\<close> passes its check and then panics in the
  send, another \<open>Stop\<close> panics because it closes the first workers' channels again, and a dispatcher never
  waits for a task but spins.
\<close>

theorem restarted_pool_panics:
  assumes "wp_run (before @ Stop_done # after) (new_worker_pool n) = Next s ns" and "wp_started s" and "0 < n"
  shows "wp_step Stop_call s = Panics \<and>
    (\<exists>s1. wp_step (Submit_call t) s = Next s1 [] \<and> wp_step (Submit_send (length (wp_submitters s))) s1 = Panics) \<and>
    (d < length (wp_disps s) \<longrightarrow> wp_disps s ! d = Disp_waiting \<longrightarrow> ch_buf (wp_queue s) = [] \<longrightarrow>
      wp_step (Disp_take d) s = Next s [])"
proof -
  from assms(1) obtain s1 n1 s2 n2 n3 where b: "wp_run before (new_worker_pool n) = Next s1 n1" and
    st: "wp_step Stop_done s1 = Next s2 n2" and a: "wp_run after s2 = Next s n3"
    by (auto simp: wp_run_append simp del: wp_step.simps split: wp_result.splits)
  note B = pool_inv_run [OF b pool_inv_new]
  note S = pool_inv_step [OF conjunct1 [OF B] st]
  note A = pool_inv_run [OF a conjunct1 [OF S]]
  have "ch_closed (wp_queue s2)"
    using st by (auto simp: pool_stop_end_def ch_close_def split: if_splits option.splits)
  with A have c: "ch_closed (wp_queue s)" by simp
  have "wp_max s = n" using A B S by (simp add: new_worker_pool_def)
  with A c assms(3) have i: "\<not> wp_stopping s" "\<exists>w\<in>set (wp_workers s). wk_quit w" by (simp_all add: pool_inv_def)
  have "wp_step Stop_call s = Panics" using i assms(2) by (simp add: pool_stop_def)
  moreover have "wp_step (Submit_call t) s = Next (s\<lparr>wp_submitters := wp_submitters s @ [t]\<rparr>) []"
    using i assms(2) by (simp add: submit_check_def)
  moreover have "wp_step (Submit_send (length (wp_submitters s))) (s\<lparr>wp_submitters := wp_submitters s @ [t]\<rparr>) = Panics"
    using c by (simp add: submit_send_def ch_send_def)
  ultimately show ?thesis using c by (simp add: disp_take_def ch_recv_def)
qed

theorem restarted_pool_panics_witness:
  "\<exists>s ns. wp_run ([Start_call, Stop_call, Worker_quit 0] @ Stop_done # [Start_call]) (new_worker_pool 1) = Next s ns \<and>
     wp_step Stop_call s = Panics"
proof -
  let ?r = "wp_run ([Start_call, Stop_call, Worker_quit 0] @ Stop_done # [Start_call]) (new_worker_pool 1)"
  have "case ?r of Next s ns \<Rightarrow> wp_started s | _ \<Rightarrow> False" by code_simp
  then obtain s ns where r: "?r = Next s ns" "wp_started s" by (auto split: wp_result.splits)
  from restarted_pool_panics [OF r zero_less_one] r show ?thesis by blast
qed

text \<open>
  \<open>WaitForCompletion\<close> can return too early: it looks at the queue and at the active workers, but a
  task that a dispatcher holds, or that waits in a worker's channel, is in neither. For every task
  there is a run in which it was accepted and has not run, and all is reported complete.
\<close>

theorem completion_too_early:
  "\<exists>es s. wp_run es (new_worker_pool 1) = Next s [Accepted (Some t)] \<and> pool_completed s \<and> wp_tasks s = {#t#}"
proof -
  let ?es = "[Start_call, Submit_call (Some t), Submit_send 0, Disp_take 0]"
  have "\<exists>s. wp_run ?es (new_worker_pool 1) = Next s [Accepted (Some t)] \<and> pool_completed s \<and> wp_tasks s = {#t#}"
    by (simp add: new_worker_pool_def pool_start_def submit_check_def submit_send_def disp_take_def make_chan_def
        ch_send_def ch_recv_def pool_completed_def worker_stats_of_def wp_tasks_def worker_tasks_def new_worker_def Let_def)
  then show ?thesis by blast
qed

section \<open>The priority queue\<close>

definition pq_ok :: "pqueue \<Rightarrow> bool" where
  "pq_ok q \<longleftrightarrow> (\<forall>(t, p)\<in>set q. p = tk_priority t) \<and> sorted (map (\<lambda>(t, p). - p) q)"

lemma insert_before_less_cases:
  "insert_before_less pt q = None \<Longrightarrow> \<forall>x\<in>set q. snd pt \<le> snd x"
  "insert_before_less pt q = Some q1 \<Longrightarrow> \<exists>xs x ys. q = xs @ x # ys \<and> q1 = xs @ pt # x # ys \<and>
     (\<forall>y\<in>set xs. snd pt \<le> snd y) \<and> snd x < snd pt"
proof -
  show "insert_before_less pt q = None \<Longrightarrow> \<forall>x\<in>set q. snd pt \<le> snd x"
    by (induction q) (auto split: if_splits)
  show "insert_before_less pt q = Some q1 \<Longrightarrow> \<exists>xs x ys. q = xs @ x # ys \<and> q1 = xs @ pt # x # ys \<and>
     (\<forall>y\<in>set xs. snd pt \<le> snd y) \<and> snd x < snd pt"
  proof (induction q arbitrary: q1)
    case (Cons a q)
    show ?case
    proof (cases "snd pt > snd a")
      case True
      with Cons.prems show ?thesis by (intro exI [of _ "[]"]) auto
    next
      case False
      with Cons.prems obtain q2 where q2: "insert_before_less pt q = Some q2" "q1 = a # q2" by auto
      from Cons.IH [OF q2(1)] obtain xs x ys where "q = xs @ x # ys" "q2 = xs @ pt # x # ys"
        "\<forall>y\<in>set xs. snd pt \<le> snd y" "snd x < snd pt" by blast
      with False q2(2) show ?thesis by (intro exI [of _ "a # xs"]) auto
    qed
  qed simp
qed

text \<open>A push puts the task behind those of its priority.\<close>

lemma push_split:
  assumes "pq_ok q"
  obtains xs ys where "q = xs @ ys" and "pq_push t q = xs @ (t, tk_priority t) # ys"
    and "\<forall>y\<in>set xs. tk_priority t \<le> snd y" and "\<forall>y\<in>set ys. snd y < tk_priority t"
proof (cases "insert_before_less (t, tk_priority t) q")
  case None
  with insert_before_less_cases(1) [OF None] that [of q "[]"] show thesis by (simp add: pq_push_def)
next
  case (Some q1)
  from insert_before_less_cases(2) [OF Some] obtain xs x ys where
    e: "q = xs @ x # ys" "q1 = xs @ (t, tk_priority t) # x # ys" "\<forall>y\<in>set xs. tk_priority t \<le> snd y"
    "snd x < tk_priority t" by auto
  have "\<forall>y\<in>set (x # ys). snd y < tk_priority t"
    using assms e(1,4) by (fastforce simp: pq_ok_def sorted_append case_prod_unfold)
  with that [of xs "x # ys"] e Some show thesis by (simp add: pq_push_def)
qed

lemma pq_ok_push:
  assumes "pq_ok q"
  shows "pq_ok (pq_push t q)"
proof -
  from assms obtain xs ys where p: "q = xs @ ys" "pq_push t q = xs @ (t, tk_priority t) # ys"
    "\<forall>y\<in>set xs. tk_priority t \<le> snd y" "\<forall>y\<in>set ys. snd y < tk_priority t" by (rule push_split)
  have "\<forall>x\<in>set xs. \<forall>y\<in>set ys. - snd x \<le> - snd y" using p(3,4) by fastforce
  with assms p show ?thesis
    by (auto simp: pq_ok_def sorted_append case_prod_unfold)
qed

lemma pq_push_filter:
  assumes "pq_ok q"
  shows "filter (\<lambda>x. snd x = k) (pq_push t q) =
    filter (\<lambda>x. snd x = k) q @ (if tk_priority t = k then [(t, tk_priority t)] else [])"
proof -
  from assms obtain xs ys where p: "q = xs @ ys" "pq_push t q = xs @ (t, tk_priority t) # ys"
    "\<forall>y\<in>set ys. snd y < tk_priority t" by (rule push_split)
  have "filter (\<lambda>x. snd x = k) ys = []" if "tk_priority t = k" using p(3) that by (auto simp: filter_empty_conv)
  with p show ?thesis by auto
qed

lemma pushes_ok: "pq_ok q \<Longrightarrow> pq_ok (foldl (\<lambda>q t. pq_push t q) q ts)"
  by (induction ts arbitrary: q) (auto simp: pq_ok_push)

lemma pushes_filter:
  "pq_ok q \<Longrightarrow> filter (\<lambda>x. snd x = k) (foldl (\<lambda>q t. pq_push t q) q ts) =
     filter (\<lambda>x. snd x = k) q @ map (\<lambda>t. (t, tk_priority t)) (filter (\<lambda>t. tk_priority t = k) ts)"
  by (induction ts arbitrary: q) (auto simp: pq_ok_push pq_push_filter)

lemma pushes_tasks:
  "pq_ok q \<Longrightarrow> mset (map fst (foldl (\<lambda>q t. pq_push t q) q ts)) = mset (map fst q) + mset ts"
proof (induction ts arbitrary: q)
  case (Cons t ts)
  from Cons.prems obtain xs ys where p: "q = xs @ ys" "pq_push t q = xs @ (t, tk_priority t) # ys"
    by (rule push_split)
  from Cons.IH [OF pq_ok_push [OF Cons.prems, of t]] p show ?case by simp
qed simp

lemma drain_all: "pq_drain (length q) q = map fst q"
  by (induction q) (simp_all add: pq_pop_def)

text \<open>
  C22. The priority queue is a stable sort: whatever tasks are pushed into an empty queue, popping them
  all gives them in descending order of priority, and those of the same priority in the order in which
  they were pushed.
\<close>

theorem priority_queue_sorts:
  "pq_drain (length ts) (foldl (\<lambda>q t. pq_push t q) [] ts) = sort_key (\<lambda>t. - tk_priority t) ts"
proof -
  let ?q = "foldl (\<lambda>q t. pq_push t q) [] ts"
  have em: "pq_ok []" by (simp add: pq_ok_def)
  then have ok: "pq_ok ?q" by (rule pushes_ok)
  have "mset (map fst ?q) = mset ts" using pushes_tasks [OF em] by simp
  then have m: "mset (map fst ?q) = mset ts" and len: "length ?q = length ts"
    by (simp, metis length_map mset_eq_length)
  have pr: "snd x = tk_priority (fst x)" if "x \<in> set ?q" for x using ok that by (auto simp: pq_ok_def)
  have "map fst ?q = sort_key (\<lambda>t. - tk_priority t) ts"
  proof (rule properties_for_sort_key [symmetric])
    show "mset (map fst ?q) = mset ts" by (rule m)
    have "map (\<lambda>t. - tk_priority t) (map fst ?q) = map (\<lambda>(t, p). - p) ?q"
      using pr by (auto simp: case_prod_unfold)
    then show "sorted (map (\<lambda>t. - tk_priority t) (map fst ?q))" using ok by (simp only: pq_ok_def)
    fix k assume "k \<in> set (map fst ?q)"
    let ?f = "\<lambda>x. - tk_priority k = - tk_priority x"
    have "filter ?f (map fst ?q) = map fst (filter (\<lambda>x. snd x = tk_priority k) ?q)"
      unfolding filter_map by (rule arg_cong [of _ _ "map fst"], rule filter_cong) (auto simp: pr)
    also have "\<dots> = filter (\<lambda>t. tk_priority t = tk_priority k) ts"
      by (simp add: pushes_filter [OF em] o_def)
    also have "\<dots> = filter ?f ts" by (rule filter_cong) auto
    finally show "filter ?f (map fst ?q) = filter ?f ts" .
  qed
  then show ?thesis using drain_all [of ?q] len by simp
qed

end
