(* ===== verification/ConnPool.thy ===== *)
theory ConnPool
  imports Channels
begin

text \<open>
  \<open>internal/performance/pool.go\<close>: the pool of network connections. A connection is a record with the
  number of its socket; the sockets that were closed are kept in the order of the calls. \<open>Get\<close> is the
  composition of its steps, which other goroutines may come between: the poll of the channel, the check
  of the limit, the dial, and the wait.
\<close>

record pconn =
  pc_sock :: "nat option"
  pc_created :: time
  pc_last_used :: time
  pc_in_use :: bool

record cpool =
  cp_max :: nat
  cp_idle_timeout :: duration
  cp_conns :: "pconn chan"
  cp_factory :: bool
  cp_closed :: bool
  cp_active :: int
  cp_idle :: int
  cp_created :: nat
  cp_destroyed :: nat
  cp_timeouts :: nat
  cp_socks_closed :: "nat list"

definition new_conn_pool :: "nat \<Rightarrow> cpool" where
  "new_conn_pool n = \<lparr>cp_max = n, cp_idle_timeout = 5 * minute, cp_conns = make_chan n, cp_factory = False,
     cp_closed = False, cp_active = 0, cp_idle = 0, cp_created = 0, cp_destroyed = 0, cp_timeouts = 0,
     cp_socks_closed = []\<rparr>"

definition conn_pool_start :: "cpool \<Rightarrow> bool" where
  "conn_pool_start p \<longleftrightarrow> cp_factory p"

datatype conn_error = Pool_closed | Ctx_error | Factory_failed | Wait_timeout

datatype got = Got pconn | Get_failed conn_error | Go_on | Must_wait | Try_again

definition update_stats :: "int \<Rightarrow> int \<Rightarrow> cpool \<Rightarrow> cpool" where
  "update_stats a i p = p\<lparr>cp_active := cp_active p + a, cp_idle := cp_idle p + i\<rparr>"

text \<open>Closing the socket of a connection, and counting it where the code does.\<close>

definition close_sock :: "pconn \<Rightarrow> cpool \<Rightarrow> cpool" where
  "close_sock c p =
     (case pc_sock c of None \<Rightarrow> p | Some k \<Rightarrow> p\<lparr>cp_socks_closed := cp_socks_closed p @ [k]\<rparr>)"

definition destroy :: "pconn \<Rightarrow> cpool \<Rightarrow> cpool" where
  "destroy c p = (case pc_sock c of None \<Rightarrow> p
     | Some k \<Rightarrow> (close_sock c p)\<lparr>cp_destroyed := cp_destroyed p + 1\<rparr>)"

text \<open>The socket is alive when a deadline can be set on it.\<close>

definition conn_valid :: "time \<Rightarrow> (nat \<Rightarrow> bool) \<Rightarrow> cpool \<Rightarrow> pconn \<Rightarrow> bool" where
  "conn_valid now alive p c \<longleftrightarrow>
     (case pc_sock c of None \<Rightarrow> False
      | Some k \<Rightarrow> \<not> now - pc_last_used c > cp_idle_timeout p \<and> alive k)"

text \<open>The first \<open>select\<close>: a cancelled context may win over a connection that is there.\<close>

definition get_poll :: "time \<Rightarrow> (nat \<Rightarrow> bool) \<Rightarrow> bool \<Rightarrow> cpool \<Rightarrow> cpool \<times> got" where
  "get_poll now alive cancelled p =
     (if cp_closed p then (p, Get_failed Pool_closed)
      else if cancelled then (p, Get_failed Ctx_error)
      else (case ch_recv (cp_conns p) of
              Received c q \<Rightarrow>
                let p1 = p\<lparr>cp_conns := q\<rparr> in
                if conn_valid now alive p c
                then (update_stats 1 (-1) p1, Got (c\<lparr>pc_in_use := True, pc_last_used := now\<rparr>))
                else (destroy c p1, Go_on)
            | _ \<Rightarrow> (p, Go_on)))"

definition may_create :: "cpool \<Rightarrow> bool" where
  "may_create p \<longleftrightarrow> cp_active p < int (cp_max p)"

definition get_dial :: "time \<Rightarrow> nat option option \<Rightarrow> cpool \<Rightarrow> cpool \<times> got" where
  "get_dial now dialed p =
     (case dialed of
        None \<Rightarrow> (p, Get_failed Factory_failed)
      | Some k \<Rightarrow>
          ((update_stats 1 0 p)\<lparr>cp_created := cp_created p + 1\<rparr>,
           Got \<lparr>pc_sock = k, pc_created = now, pc_last_used = now, pc_in_use = True\<rparr>))"

datatype wake = Conn_ready time "nat \<Rightarrow> bool" | Ctx_done | Timed_out

text \<open>The second \<open>select\<close>; after a connection that is not valid it starts again.\<close>

fun get_wake :: "wake \<Rightarrow> cpool \<Rightarrow> cpool \<times> got" where
  "get_wake (Conn_ready now alive) p =
     (case ch_recv (cp_conns p) of
        Received c q \<Rightarrow>
          let p1 = p\<lparr>cp_conns := q\<rparr> in
          if conn_valid now alive p c
          then (update_stats 1 (-1) p1, Got (c\<lparr>pc_in_use := True, pc_last_used := now\<rparr>))
          else (p1, Try_again)
      | Closed_zero \<Rightarrow> (p, Try_again)
      | Recv_blocks \<Rightarrow> (p, Must_wait))"
| "get_wake Ctx_done p = (p, Get_failed Ctx_error)"
| "get_wake Timed_out p = (p\<lparr>cp_timeouts := cp_timeouts p + 1\<rparr>, Get_failed Wait_timeout)"

definition pool_get :: "time \<Rightarrow> (nat \<Rightarrow> bool) \<Rightarrow> bool \<Rightarrow> nat option option \<Rightarrow> cpool \<Rightarrow> cpool \<times> got" where
  "pool_get now alive cancelled dialed p =
     (case get_poll now alive cancelled p of
        (p1, Go_on) \<Rightarrow> if may_create p1 then get_dial now dialed p1 else (p1, Must_wait)
      | r \<Rightarrow> r)"

text \<open>\<open>Put\<close>; it panics when the channel is closed between its check and its send.\<close>

definition put_checked :: "time \<Rightarrow> pconn \<Rightarrow> cpool \<Rightarrow> cpool option" where
  "put_checked now c p =
     (let c1 = c\<lparr>pc_in_use := False, pc_last_used := now\<rparr> in
      case ch_send c1 (cp_conns p) of
        Send_panics \<Rightarrow> None
      | Sent q \<Rightarrow> Some (update_stats (-1) 1 (p\<lparr>cp_conns := q\<rparr>))
      | Send_blocks \<Rightarrow> Some (update_stats (-1) 0 (destroy c1 p)))"

definition pool_put :: "time \<Rightarrow> pconn option \<Rightarrow> cpool \<Rightarrow> cpool option" where
  "pool_put now conn p =
     (case conn of
        None \<Rightarrow> Some p
      | Some c \<Rightarrow> if cp_closed p then Some (close_sock c p) else put_checked now c p)"

text \<open>\<open>Stop\<close> closes the channel and then the connections that were in it.\<close>

definition conn_pool_stop :: "cpool \<Rightarrow> cpool" where
  "conn_pool_stop p =
     (if cp_closed p then p
      else foldl (\<lambda>p c. close_sock c p)
        (p\<lparr>cp_closed := True, cp_conns := (cp_conns p)\<lparr>ch_buf := [], ch_closed := True\<rparr>\<rparr>) (ch_buf (cp_conns p)))"

text \<open>The clean-up drains the channel and offers the connections still young enough to it again.\<close>

definition pool_cleanup :: "time \<Rightarrow> cpool \<Rightarrow> cpool" where
  "pool_cleanup now p =
     (let conns = ch_buf (cp_conns p);
          young = (\<lambda>c. now - pc_last_used c < cp_idle_timeout p);
          p1 = foldl (\<lambda>p c. if young c then p else destroy c p) (p\<lparr>cp_conns := (cp_conns p)\<lparr>ch_buf := []\<rparr>\<rparr>) conns in
      foldl (\<lambda>p c. case offer ch_send c (cp_conns p) of
               (q, True) \<Rightarrow> p\<lparr>cp_conns := q\<rparr> | (_, False) \<Rightarrow> destroy c p) p1 (filter young conns))"

record cpool_stats =
  st_active :: int
  st_idle :: int
  st_total :: int
  st_created :: nat
  st_destroyed :: nat
  st_timeouts :: nat

definition pool_stats :: "cpool \<Rightarrow> cpool_stats" where
  "pool_stats p =
     (let idle = int (length (ch_buf (cp_conns p))) in
      \<lparr>st_active = cp_active p, st_idle = idle, st_total = cp_active p + idle, st_created = cp_created p,
       st_destroyed = cp_destroyed p, st_timeouts = cp_timeouts p\<rparr>)"

text \<open>\<open>Optimize\<close> cleans up; the answer is its warning.\<close>

definition pool_optimize :: "time \<Rightarrow> cpool \<Rightarrow> cpool \<times> bool" where
  "pool_optimize now p =
     (let p1 = pool_cleanup now p in (p1, cp_active p1 > int (cp_max p * 8 div 10)))"

section \<open>Runs\<close>

text \<open>
  The calls of a client that returns a connection it holds, one call after the other; the held
  connections are kept beside the pool.
\<close>

datatype pool_op =
  Op_get time "nat \<Rightarrow> bool" bool "nat option option" | Op_wake wake | Op_return time nat | Op_cleanup time

definition hold :: "cpool \<times> got \<Rightarrow> pconn list \<Rightarrow> cpool \<times> pconn list" where
  "hold r held = (fst r, case snd r of Got c \<Rightarrow> held @ [c] | _ \<Rightarrow> held)"

fun client_step :: "pool_op \<Rightarrow> cpool \<times> pconn list \<Rightarrow> cpool \<times> pconn list" where
  "client_step (Op_get now alive cancelled dialed) (p, held) = hold (pool_get now alive cancelled dialed p) held"
| "client_step (Op_wake w) (p, held) = hold (get_wake w p) held"
| "client_step (Op_return now i) (p, held) =
     (if i < length held
      then (case pool_put now (Some (held ! i)) p of
              None \<Rightarrow> (p, held) | Some p1 \<Rightarrow> (p1, take i held @ drop (Suc i) held))
      else (p, held))"
| "client_step (Op_cleanup now) (p, held) = (pool_cleanup now p, held)"

definition client_run :: "pool_op list \<Rightarrow> cpool \<Rightarrow> cpool \<times> pconn list" where
  "client_run ops p = foldl (\<lambda>s op. client_step op s) (p, []) ops"

section \<open>Lemmas\<close>

definition cp_ok :: "nat \<Rightarrow> cpool \<times> pconn list \<Rightarrow> bool" where
  "cp_ok n s \<longleftrightarrow>
     (case s of (p, held) \<Rightarrow>
        cp_max p = n \<and> ch_cap (cp_conns p) = n \<and> \<not> ch_closed (cp_conns p) \<and> \<not> cp_closed p \<and>
        cp_active p = int (length held) \<and> length held + length (ch_buf (cp_conns p)) \<le> n)"

lemma destroy_frame [simp]:
  "cp_max (destroy c p) = cp_max p" "cp_conns (destroy c p) = cp_conns p" "cp_closed (destroy c p) = cp_closed p"
  "cp_active (destroy c p) = cp_active p" "cp_idle_timeout (destroy c p) = cp_idle_timeout p"
  by (simp_all add: destroy_def close_sock_def split: option.splits)

lemma recv_item: "ch_recv q = Received c q' \<Longrightarrow>
    ch_buf q = c # ch_buf q' \<and> ch_closed q' = ch_closed q \<and> ch_cap q' = ch_cap q"
  by (auto simp: ch_recv_def split: list.splits if_splits)

lemma get_ok: "cp_ok n (p, held) \<Longrightarrow> cp_ok n (hold (pool_get now alive cancelled dialed p) held)"
  by (auto simp: cp_ok_def pool_get_def get_poll_def get_dial_def may_create_def hold_def update_stats_def Let_def
      dest!: recv_item split: if_splits recv_result.splits option.splits) (auto simp: ch_recv_def split: list.splits if_splits)

lemma wake_ok: "cp_ok n (p, held) \<Longrightarrow> cp_ok n (hold (get_wake w p) held)"
  by (cases w) (auto simp: cp_ok_def hold_def update_stats_def Let_def dest!: recv_item split: recv_result.splits)

lemma return_ok: "cp_ok n s \<Longrightarrow> cp_ok n (client_step (Op_return now i) s)"
  by (cases s) (auto simp: cp_ok_def pool_put_def put_checked_def ch_send_def update_stats_def Let_def split: option.splits)

lemma destroy_fold [simp]:
  "cp_max (foldl (\<lambda>p c. if P c then p else destroy c p) p cs) = cp_max p"
  "cp_conns (foldl (\<lambda>p c. if P c then p else destroy c p) p cs) = cp_conns p"
  "cp_closed (foldl (\<lambda>p c. if P c then p else destroy c p) p cs) = cp_closed p"
  "cp_active (foldl (\<lambda>p c. if P c then p else destroy c p) p cs) = cp_active p"
  by (induction cs arbitrary: p) simp_all

lemma refill:
  assumes "length (ch_buf (cp_conns p)) + length cs \<le> ch_cap (cp_conns p)" and "\<not> ch_closed (cp_conns p)"
  shows "foldl (\<lambda>p c. case offer ch_send c (cp_conns p) of
           (q, True) \<Rightarrow> p\<lparr>cp_conns := q\<rparr> | (_, False) \<Rightarrow> destroy c p) p cs =
         p\<lparr>cp_conns := (cp_conns p)\<lparr>ch_buf := ch_buf (cp_conns p) @ cs\<rparr>\<rparr>"
  using assms by (induction cs arbitrary: p) (simp_all add: offer_def ch_send_def)

lemma cleanup_result:
  assumes "length (ch_buf (cp_conns p)) \<le> ch_cap (cp_conns p)" and "\<not> ch_closed (cp_conns p)"
  shows "ch_buf (cp_conns (pool_cleanup now p)) =
      filter (\<lambda>c. now - pc_last_used c < cp_idle_timeout p) (ch_buf (cp_conns p)) \<and>
    cp_max (pool_cleanup now p) = cp_max p \<and> cp_active (pool_cleanup now p) = cp_active p \<and>
    cp_closed (pool_cleanup now p) = cp_closed p \<and> ch_cap (cp_conns (pool_cleanup now p)) = ch_cap (cp_conns p) \<and>
    ch_closed (cp_conns (pool_cleanup now p)) = ch_closed (cp_conns p)"
proof -
  let ?young = "\<lambda>c. now - pc_last_used c < cp_idle_timeout p"
  have "length (filter ?young (ch_buf (cp_conns p))) \<le> ch_cap (cp_conns p)"
    using assms(1) le_trans length_filter_le by blast
  then show ?thesis using assms(2) by (simp add: pool_cleanup_def Let_def refill)
qed

lemma pool_cleanup_ok: "cp_ok n (p, held) \<Longrightarrow> cp_ok n (pool_cleanup now p, held)"
proof -
  assume ok: "cp_ok n (p, held)"
  then have h: "length (ch_buf (cp_conns p)) \<le> ch_cap (cp_conns p)" "\<not> ch_closed (cp_conns p)"
    by (auto simp: cp_ok_def)
  have "length (filter P (ch_buf (cp_conns p))) \<le> length (ch_buf (cp_conns p))" for P by simp
  with ok have "length held + length (filter P (ch_buf (cp_conns p))) \<le> n" for P
    unfolding cp_ok_def prod.case by (meson add_left_mono le_trans)
  then show ?thesis using ok cleanup_result [OF h, of now] by (auto simp: cp_ok_def)
qed

lemma client_ok: "cp_ok n s \<Longrightarrow> cp_ok n (client_step op s)"
  using return_ok [of n s]
  by (cases s; cases op) (simp_all add: get_ok wake_ok pool_cleanup_ok del: get_wake.simps client_step.simps(3))

lemma run_ok: "cp_ok n s \<Longrightarrow> cp_ok n (foldl (\<lambda>s op. client_step op s) s ops)"
  by (induction ops arbitrary: s) (simp_all add: client_ok)

section \<open>Properties\<close>

text \<open>
  C23. One call at a time, the pool keeps its limit: after any sequence of calls of a client that returns
  only connections it holds, the active counter is the number of held connections, held and idle ones
  together are at most the limit, and a \<open>Get\<close> that has to wait finds the limit held and none idle.
\<close>

theorem pool_limit_holds:
  assumes "client_run ops (new_conn_pool n) = (p, held)"
  shows "cp_active p = int (length held) \<and> st_total (pool_stats p) \<le> int n \<and>
    (snd (pool_get now alive cancelled dialed p) = Must_wait \<longrightarrow>
       length held = n \<and> ch_buf (cp_conns p) = [])"
proof -
  have "cp_ok n (new_conn_pool n, [])" by (simp add: cp_ok_def new_conn_pool_def make_chan_def)
  from run_ok [OF this, of ops] assms have ok: "cp_ok n (p, held)" by (simp add: client_run_def)
  have "length held = n \<and> ch_buf (cp_conns p) = []" if w: "snd (pool_get now alive cancelled dialed p) = Must_wait"
  proof -
    obtain p1 where p: "get_poll now alive cancelled p = (p1, Go_on)" and "\<not> may_create p1"
      using w by (auto simp: pool_get_def get_dial_def get_poll_def Let_def
          split: prod.splits got.splits if_splits option.splits recv_result.splits)
    moreover have "cp_active p1 = cp_active p \<and> cp_max p1 = cp_max p"
      using p by (auto simp: get_poll_def Let_def split: if_splits recv_result.splits)
    ultimately have "\<not> length held < n" using ok by (simp add: may_create_def cp_ok_def)
    with ok have "length held = n \<and> length (ch_buf (cp_conns p)) = 0" unfolding cp_ok_def prod.case by linarith
    then show ?thesis by simp
  qed
  with ok show ?thesis by (auto simp: cp_ok_def pool_stats_def Let_def)
qed

theorem pool_limit_holds_witness:
  "\<exists>p held. client_run [Op_get 0 (\<lambda>_. True) False (Some (Some 1)), Op_return 1 0,
      Op_get 2 (\<lambda>_. False) False (Some (Some 2))] (new_conn_pool 1) = (p, held) \<and> cp_active p = 1 \<and> st_total (pool_stats p) \<le> 1"
proof -
  let ?ops = "[Op_get 0 (\<lambda>_. True) False (Some (Some 1)), Op_return 1 0, Op_get 2 (\<lambda>_. False) False (Some (Some 2))]"
  obtain p held where r: "client_run ?ops (new_conn_pool 1) = (p, held)" by fastforce
  have "length held = 1"
    using r by (auto simp: client_run_def hold_def pool_get_def get_poll_def get_dial_def new_conn_pool_def make_chan_def
        ch_recv_def ch_send_def may_create_def update_stats_def pool_put_def put_checked_def conn_valid_def destroy_def
        close_sock_def Let_def)
  with pool_limit_holds [OF r] r show ?thesis by auto
qed

text \<open>
  Concurrent calls do not keep the limit: the check and the count are two steps, so any number of callers
  can pass the check of a new pool before the first of them is counted.
\<close>

lemma limit_not_enforced:
  assumes "0 < n" and "p = new_conn_pool n"
  shows "get_poll now alive False p = (p, Go_on) \<and> may_create p \<and>
    cp_active (((\<lambda>q. fst (get_dial now (Some (Some k)) q)) ^^ m) p) = int m"
proof -
  have "cp_active (((\<lambda>q. fst (get_dial now (Some (Some k)) q)) ^^ m) p) = cp_active p + int m" for p
    by (induction m) (simp_all add: get_dial_def update_stats_def)
  then show ?thesis
    using assms by (simp add: get_poll_def new_conn_pool_def make_chan_def ch_recv_def may_create_def)
qed

text \<open>A connection that is found invalid while waiting is forgotten, with its socket open.\<close>

lemma waiting_leaks:
  assumes "ch_buf (cp_conns p) = c # rest" and "\<not> conn_valid now alive p c"
  shows "snd (get_wake (Conn_ready now alive) p) = Try_again \<and>
    ch_buf (cp_conns (fst (get_wake (Conn_ready now alive) p))) = rest \<and>
    cp_socks_closed (fst (get_wake (Conn_ready now alive) p)) = cp_socks_closed p \<and>
    cp_destroyed (fst (get_wake (Conn_ready now alive) p)) = cp_destroyed p"
  using assms by (simp add: ch_recv_def conn_valid_def Let_def split: option.splits)

end
