(* ===== verification/Metrics.thy ===== *)
theory Metrics
  imports Prelude Complex_Main
begin

text \<open>
  \<open>internal/metrics/types.go\<close> and \<open>collector.go\<close>: the snapshot types and the collector. Prometheus is a
  library: what the collector does to its gauges, counters and histograms is a list of calls. What the
  system and the callbacks answer at a collection is an argument. A \<open>float64\<close> is a rational number, an
  infinity or no number, with the comparisons of the language.
\<close>

section \<open>Floating point\<close>

datatype f64 = Finite rat | Pos_inf | Neg_inf | Not_a_number

fun f64_less :: "f64 \<Rightarrow> f64 \<Rightarrow> bool" where
  "f64_less (Finite a) (Finite b) \<longleftrightarrow> a < b"
| "f64_less (Finite a) Pos_inf \<longleftrightarrow> True"
| "f64_less Neg_inf (Finite b) \<longleftrightarrow> True"
| "f64_less Neg_inf Pos_inf \<longleftrightarrow> True"
| "f64_less _ _ \<longleftrightarrow> False"

definition f64_eq :: "f64 \<Rightarrow> f64 \<Rightarrow> bool" where
  "f64_eq a b \<longleftrightarrow> a \<noteq> Not_a_number \<and> a = b"

text \<open>The conversion of an integer rounds to 53 bits, ties to even.\<close>

fun excess_bits :: "nat \<Rightarrow> nat" where
  "excess_bits n = (if n < 2 ^ 53 then 0 else Suc (excess_bits (n div 2)))"

declare excess_bits.simps [simp del]

definition round53 :: "nat \<Rightarrow> nat" where
  "round53 n =
     (let u = 2 ^ excess_bits n; q = n div u; r = n mod u in
      if 2 * r > u \<or> (2 * r = u \<and> odd q) then (q + 1) * u else q * u)"

definition f64_of_int :: "int \<Rightarrow> f64" where
  "f64_of_int i = Finite (if i < 0 then - of_nat (round53 (nat (- i))) else of_nat (round53 (nat i)))"

lemma round53_exact [simp]: "n < 2 ^ 53 \<Longrightarrow> round53 n = n"
  by (simp add: round53_def excess_bits.simps [of n])

lemma f64_of_int_exact: "\<bar>i\<bar> < 2 ^ 53 \<Longrightarrow> f64_of_int i = Finite (of_int i)"
  by (auto simp: f64_of_int_def)

section \<open>The types\<close>

record system_metrics =
  sy_cpu_usage :: f64
  sy_memory_usage :: f64
  sy_memory_total :: nat
  sy_memory_available :: nat
  sy_disk_usage :: f64
  sy_disk_total :: nat
  sy_disk_available :: nat
  sy_rx_bytes :: nat
  sy_tx_bytes :: nat
  sy_rx_packets :: nat
  sy_tx_packets :: nat
  sy_goroutines :: int
  sy_uptime :: int
  sy_timestamp :: time

record application_metrics =
  ap_upgrade_total :: int
  ap_upgrade_success :: int
  ap_upgrade_failed :: int
  ap_upgrade_pending :: int
  ap_last_upgrade_time :: int
  ap_last_upgrade_height :: int
  ap_process_restarts :: int
  ap_process_uptime :: int
  ap_process_status :: string
  ap_process_pid :: int
  ap_node_syncing :: bool
  ap_node_height :: int
  ap_node_peers :: int
  ap_node_version :: string
  ap_node_latest_version :: string
  ap_timestamp :: time

record governance_metrics =
  gv_proposal_total :: int
  gv_proposal_voting :: int
  gv_proposal_passed :: int
  gv_proposal_rejected :: int
  gv_proposal_executed :: int
  gv_voting_power :: f64
  gv_voting_turnout :: f64
  gv_votes_total :: int
  gv_votes_participated :: int
  gv_validator_active :: int
  gv_validator_jailed :: int
  gv_validator_tombstoned :: int
  gv_validator_bonded :: int
  gv_timestamp :: time

record performance_metrics =
  pf_rpc_latency :: f64
  pf_api_latency :: f64
  pf_database_latency :: f64
  pf_network_latency :: f64
  pf_tps :: f64
  pf_bps :: f64
  pf_rps :: f64
  pf_cpu_efficiency :: f64
  pf_memory_efficiency :: f64
  pf_cache_hit_rate :: f64
  pf_cache_miss_rate :: f64
  pf_timestamp :: time

record metrics_snapshot =
  sn_system :: "system_metrics option"
  sn_application :: "application_metrics option"
  sn_governance :: "governance_metrics option"
  sn_performance :: "performance_metrics option"
  sn_timestamp :: time

datatype alert_level = Level_info | Level_warning | Level_error | Level_critical

record alert =
  al_id :: string
  al_name :: string
  al_level :: alert_level
  al_message :: string
  al_description :: string
  al_source :: string
  al_metric :: string
  al_value :: f64
  al_threshold :: f64
  al_labels :: "(string, string) gomap"
  al_timestamp :: time
  al_resolved_at :: "time option"

record collector_config =
  cc_enabled :: bool
  cc_interval :: duration
  cc_retention :: duration
  cc_system :: bool
  cc_app :: bool
  cc_gov :: bool
  cc_perf :: bool
  cc_port :: int
  cc_path :: string

section \<open>The collector\<close>

datatype prom_call =
  Gauge_set string f64 | Counter_add string f64 | Counter_inc string | Observe string f64

datatype metric_kind = Gauge | Counter | Histogram

datatype metric_group = System_group | App_group | Gov_group | Perf_group

text \<open>\<open>initPrometheusMetrics\<close> and \<open>registerMetrics\<close>: the names, their kinds and the switch that registers them.\<close>

definition prometheus_metrics :: "(string \<times> metric_kind \<times> metric_group) list" where
  "prometheus_metrics =
     [(''wemixvisor_cpu_usage_percent'', Gauge, System_group),
      (''wemixvisor_memory_usage_percent'', Gauge, System_group),
      (''wemixvisor_disk_usage_percent'', Gauge, System_group),
      (''wemixvisor_goroutines'', Gauge, System_group),
      (''wemixvisor_network_rx_bytes_total'', Counter, System_group),
      (''wemixvisor_network_tx_bytes_total'', Counter, System_group),
      (''wemixvisor_upgrades_total'', Counter, App_group),
      (''wemixvisor_upgrades_success_total'', Counter, App_group),
      (''wemixvisor_upgrades_failed_total'', Counter, App_group),
      (''wemixvisor_upgrades_pending'', Gauge, App_group),
      (''wemixvisor_process_restarts_total'', Counter, App_group),
      (''wemixvisor_process_uptime_seconds'', Gauge, App_group),
      (''wemixvisor_node_height'', Gauge, App_group),
      (''wemixvisor_node_peers'', Gauge, App_group),
      (''wemixvisor_node_syncing'', Gauge, App_group),
      (''wemixvisor_proposals_total'', Gauge, Gov_group),
      (''wemixvisor_proposals_voting'', Gauge, Gov_group),
      (''wemixvisor_proposals_passed_total'', Counter, Gov_group),
      (''wemixvisor_proposals_rejected_total'', Counter, Gov_group),
      (''wemixvisor_voting_power'', Gauge, Gov_group),
      (''wemixvisor_voting_turnout_percent'', Gauge, Gov_group),
      (''wemixvisor_validators_active'', Gauge, Gov_group),
      (''wemixvisor_validators_jailed'', Gauge, Gov_group),
      (''wemixvisor_rpc_latency_milliseconds'', Histogram, Perf_group),
      (''wemixvisor_api_latency_milliseconds'', Histogram, Perf_group),
      (''wemixvisor_transactions_per_second'', Gauge, Perf_group)]"

fun group_enabled :: "collector_config \<Rightarrow> metric_group \<Rightarrow> bool" where
  "group_enabled c System_group = cc_system c"
| "group_enabled c App_group = cc_app c"
| "group_enabled c Gov_group = cc_gov c"
| "group_enabled c Perf_group = cc_perf c"

definition registered_metrics :: "collector_config \<Rightarrow> string list" where
  "registered_metrics c = map fst (filter (\<lambda>(_, _, g). group_enabled c g) prometheus_metrics)"

record collector =
  cl_config :: collector_config
  cl_started :: time
  cl_running :: bool
  cl_last :: "metrics_snapshot option"
  cl_calls :: "prom_call list"

definition new_collector :: "collector_config \<Rightarrow> time \<Rightarrow> collector" where
  "new_collector c now = \<lparr>cl_config = c, cl_started = now, cl_running = False, cl_last = None, cl_calls = []\<rparr>"

definition collector_start :: "collector \<Rightarrow> collector" where
  "collector_start c = (if \<not> cc_enabled (cl_config c) then c else c\<lparr>cl_running := True\<rparr>)"

definition collector_stop :: "collector \<Rightarrow> collector" where
  "collector_stop c = c\<lparr>cl_running := False\<rparr>"

text \<open>
  What a collection finds. A system call gives \<open>None\<close> when it fails or has nothing; a callback is \<open>None\<close>
  when it is not set, and \<open>Some None\<close> when it returns an error. The statistics callback may return nil.
\<close>

record collect_env =
  en_now :: time
  en_cpu :: "f64 option"
  en_memory :: "(f64 \<times> nat \<times> nat) option"
  en_disk :: "(f64 \<times> nat \<times> nat) option"
  en_net :: "(nat \<times> nat \<times> nat \<times> nat) option"
  en_goroutines :: int
  en_height :: "int option option"
  en_peers :: "int option option"
  en_syncing :: "bool option option"
  en_proposals :: "governance_metrics option option option"

abbreviation f64_zero :: f64 where "f64_zero \<equiv> Finite 0"

definition whole_seconds :: "duration \<Rightarrow> int" where
  "whole_seconds d = (if d < 0 then - (- d div second) else d div second)"

definition collect_system :: "collect_env \<Rightarrow> collector \<Rightarrow> system_metrics" where
  "collect_system env c =
     \<lparr>sy_cpu_usage = (case en_cpu env of Some v \<Rightarrow> v | None \<Rightarrow> f64_zero),
      sy_memory_usage = (case en_memory env of Some (u, _, _) \<Rightarrow> u | None \<Rightarrow> f64_zero),
      sy_memory_total = (case en_memory env of Some (_, t, _) \<Rightarrow> t | None \<Rightarrow> 0),
      sy_memory_available = (case en_memory env of Some (_, _, a) \<Rightarrow> a | None \<Rightarrow> 0),
      sy_disk_usage = (case en_disk env of Some (u, _, _) \<Rightarrow> u | None \<Rightarrow> f64_zero),
      sy_disk_total = (case en_disk env of Some (_, t, _) \<Rightarrow> t | None \<Rightarrow> 0),
      sy_disk_available = (case en_disk env of Some (_, _, a) \<Rightarrow> a | None \<Rightarrow> 0),
      sy_rx_bytes = (case en_net env of Some (r, _, _, _) \<Rightarrow> r | None \<Rightarrow> 0),
      sy_tx_bytes = (case en_net env of Some (_, t, _, _) \<Rightarrow> t | None \<Rightarrow> 0),
      sy_rx_packets = (case en_net env of Some (_, _, r, _) \<Rightarrow> r | None \<Rightarrow> 0),
      sy_tx_packets = (case en_net env of Some (_, _, _, t) \<Rightarrow> t | None \<Rightarrow> 0),
      sy_goroutines = en_goroutines env,
      sy_uptime = whole_seconds (en_now env - cl_started c),
      sy_timestamp = en_now env\<rparr>"

text \<open>A callback's value, or the zero value of its type.\<close>

definition callback :: "'a \<Rightarrow> 'a option option \<Rightarrow> 'a" where
  "callback z r = (case r of Some (Some v) \<Rightarrow> v | _ \<Rightarrow> z)"

definition collect_application :: "collect_env \<Rightarrow> collector \<Rightarrow> application_metrics" where
  "collect_application env c =
     \<lparr>ap_upgrade_total = 0, ap_upgrade_success = 0, ap_upgrade_failed = 0, ap_upgrade_pending = 0,
      ap_last_upgrade_time = 0, ap_last_upgrade_height = 0, ap_process_restarts = 0,
      ap_process_uptime = whole_seconds (en_now env - cl_started c), ap_process_status = '''',
      ap_process_pid = 0, ap_node_syncing = callback False (en_syncing env),
      ap_node_height = callback 0 (en_height env), ap_node_peers = callback 0 (en_peers env),
      ap_node_version = '''', ap_node_latest_version = '''', ap_timestamp = en_now env\<rparr>"

definition zero_governance :: "time \<Rightarrow> governance_metrics" where
  "zero_governance now =
     \<lparr>gv_proposal_total = 0, gv_proposal_voting = 0, gv_proposal_passed = 0, gv_proposal_rejected = 0,
      gv_proposal_executed = 0, gv_voting_power = f64_zero, gv_voting_turnout = f64_zero, gv_votes_total = 0,
      gv_votes_participated = 0, gv_validator_active = 0, gv_validator_jailed = 0,
      gv_validator_tombstoned = 0, gv_validator_bonded = 0, gv_timestamp = now\<rparr>"

definition collect_governance :: "collect_env \<Rightarrow> governance_metrics option" where
  "collect_governance env = callback (Some (zero_governance (en_now env))) (en_proposals env)"

definition collect_performance :: "collect_env \<Rightarrow> performance_metrics" where
  "collect_performance env =
     \<lparr>pf_rpc_latency = f64_zero, pf_api_latency = f64_zero, pf_database_latency = f64_zero,
      pf_network_latency = f64_zero, pf_tps = f64_zero, pf_bps = f64_zero, pf_rps = f64_zero,
      pf_cpu_efficiency = f64_zero, pf_memory_efficiency = f64_zero, pf_cache_hit_rate = f64_zero,
      pf_cache_miss_rate = f64_zero, pf_timestamp = en_now env\<rparr>"

definition update_system :: "system_metrics \<Rightarrow> prom_call list" where
  "update_system m =
     [Gauge_set ''wemixvisor_cpu_usage_percent'' (sy_cpu_usage m),
      Gauge_set ''wemixvisor_memory_usage_percent'' (sy_memory_usage m),
      Gauge_set ''wemixvisor_disk_usage_percent'' (sy_disk_usage m),
      Gauge_set ''wemixvisor_goroutines'' (f64_of_int (sy_goroutines m)),
      Counter_add ''wemixvisor_network_rx_bytes_total'' (f64_of_int (int (sy_rx_bytes m))),
      Counter_add ''wemixvisor_network_tx_bytes_total'' (f64_of_int (int (sy_tx_bytes m)))]"

definition update_application :: "application_metrics \<Rightarrow> prom_call list" where
  "update_application m =
     [Gauge_set ''wemixvisor_process_uptime_seconds'' (f64_of_int (ap_process_uptime m)),
      Gauge_set ''wemixvisor_node_height'' (f64_of_int (ap_node_height m)),
      Gauge_set ''wemixvisor_node_peers'' (f64_of_int (ap_node_peers m)),
      Gauge_set ''wemixvisor_node_syncing'' (Finite (if ap_node_syncing m then 1 else 0))]"

definition update_governance :: "governance_metrics option \<Rightarrow> prom_call list" where
  "update_governance r =
     (case r of None \<Rightarrow> [] | Some m \<Rightarrow>
     [Gauge_set ''wemixvisor_proposals_total'' (f64_of_int (gv_proposal_total m)),
      Gauge_set ''wemixvisor_proposals_voting'' (f64_of_int (gv_proposal_voting m)),
      Gauge_set ''wemixvisor_voting_power'' (gv_voting_power m),
      Gauge_set ''wemixvisor_voting_turnout_percent'' (gv_voting_turnout m),
      Gauge_set ''wemixvisor_validators_active'' (f64_of_int (gv_validator_active m)),
      Gauge_set ''wemixvisor_validators_jailed'' (f64_of_int (gv_validator_jailed m))])"

definition update_performance :: "performance_metrics \<Rightarrow> prom_call list" where
  "update_performance m = [Gauge_set ''wemixvisor_transactions_per_second'' (pf_tps m)]"

definition collect :: "collect_env \<Rightarrow> collector \<Rightarrow> collector" where
  "collect env c =
     (let cfg = cl_config c;
          sys = (if cc_system cfg then Some (collect_system env c) else None);
          app = (if cc_app cfg then Some (collect_application env c) else None);
          gov = (if cc_gov cfg then collect_governance env else None);
          perf = (if cc_perf cfg then Some (collect_performance env) else None) in
      c\<lparr>cl_calls := cl_calls c @ (case sys of Some m \<Rightarrow> update_system m | None \<Rightarrow> []) @
          (case app of Some m \<Rightarrow> update_application m | None \<Rightarrow> []) @
          update_governance gov @ (case perf of Some m \<Rightarrow> update_performance m | None \<Rightarrow> []),
        cl_last := Some \<lparr>sn_system = sys, sn_application = app, sn_governance = gov,
          sn_performance = perf, sn_timestamp = en_now env\<rparr>\<rparr>)"

text \<open>The collection loop collects once at its start and then at each tick.\<close>

definition collection_loop :: "collect_env list \<Rightarrow> collector \<Rightarrow> collector" where
  "collection_loop envs c = foldl (\<lambda>c env. collect env c) c envs"

definition increment_upgrade_total :: "collector \<Rightarrow> collector" where
  "increment_upgrade_total c = c\<lparr>cl_calls := cl_calls c @ [Counter_inc ''wemixvisor_upgrades_total'']\<rparr>"

definition increment_upgrade_success :: "collector \<Rightarrow> collector" where
  "increment_upgrade_success c = c\<lparr>cl_calls := cl_calls c @ [Counter_inc ''wemixvisor_upgrades_success_total'']\<rparr>"

definition increment_upgrade_failed :: "collector \<Rightarrow> collector" where
  "increment_upgrade_failed c = c\<lparr>cl_calls := cl_calls c @ [Counter_inc ''wemixvisor_upgrades_failed_total'']\<rparr>"

definition set_upgrade_pending :: "int \<Rightarrow> collector \<Rightarrow> collector" where
  "set_upgrade_pending n c = c\<lparr>cl_calls := cl_calls c @ [Gauge_set ''wemixvisor_upgrades_pending'' (f64_of_int n)]\<rparr>"

definition increment_process_restarts :: "collector \<Rightarrow> collector" where
  "increment_process_restarts c = c\<lparr>cl_calls := cl_calls c @ [Counter_inc ''wemixvisor_process_restarts_total'']\<rparr>"

definition observe_rpc_latency :: "f64 \<Rightarrow> collector \<Rightarrow> collector" where
  "observe_rpc_latency v c = c\<lparr>cl_calls := cl_calls c @ [Observe ''wemixvisor_rpc_latency_milliseconds'' v]\<rparr>"

definition observe_api_latency :: "f64 \<Rightarrow> collector \<Rightarrow> collector" where
  "observe_api_latency v c = c\<lparr>cl_calls := cl_calls c @ [Observe ''wemixvisor_api_latency_milliseconds'' v]\<rparr>"

section \<open>Lemmas\<close>

text \<open>What the calls add up to in a counter, as the library documents it for finite values.\<close>

fun counter_total :: "string \<Rightarrow> prom_call list \<Rightarrow> rat" where
  "counter_total n [] = 0"
| "counter_total n (Counter_add m (Finite v) # cs) = (if m = n then v else 0) + counter_total n cs"
| "counter_total n (Counter_inc m # cs) = (if m = n then 1 else 0) + counter_total n cs"
| "counter_total n (_ # cs) = counter_total n cs"

lemma counter_total_append: "counter_total n (xs @ ys) = counter_total n xs + counter_total n ys"
  by (induction n xs rule: counter_total.induct) auto

lemma collect_frame [simp]:
  "cl_config (collect env c) = cl_config c" "cl_started (collect env c) = cl_started c"
  "cl_running (collect env c) = cl_running c"
  by (simp_all add: collect_def Let_def)

section \<open>Properties\<close>

text \<open>
  The network counters of the collector are not the bytes of the machine: every collection adds the
  total since boot to them again, so that after collections that all saw the same total they hold its
  multiple by their number.
\<close>

lemma network_counter_repeats:
  assumes "cc_system (cl_config c)" and "\<forall>env\<in>set envs. \<exists>t p q. en_net env = Some (rx, t, p, q)" and "rx < 2 ^ 53"
  shows "counter_total ''wemixvisor_network_rx_bytes_total'' (cl_calls (collection_loop envs c)) =
    counter_total ''wemixvisor_network_rx_bytes_total'' (cl_calls c) + of_nat (length envs * rx)"
  using assms(1,2)
proof (induction envs arbitrary: c)
  case Nil
  then show ?case by (simp add: collection_loop_def)
next
  case (Cons env envs)
  from Cons.prems(2) obtain t p q where net: "en_net env = Some (rx, t, p, q)" by auto
  have f: "f64_of_int (int rx) = Finite (of_nat rx)" using assms(3) by (simp add: f64_of_int_def)
  have "counter_total ''wemixvisor_network_rx_bytes_total'' (cl_calls (collect env c)) =
      counter_total ''wemixvisor_network_rx_bytes_total'' (cl_calls c) + of_nat rx"
    using Cons.prems(1) net f
    by (auto simp: collect_def Let_def counter_total_append update_system_def update_application_def
        update_governance_def update_performance_def collect_system_def f64_of_int_def split: option.splits)
  with Cons.IH [of "collect env c"] Cons.prems show ?case
    by (simp add: collection_loop_def algebra_simps)
qed

text \<open>A failing callback is a zero: the snapshot does not tell it from a node at height zero.\<close>

lemma failed_callback_is_zero:
  assumes "en_height env = Some None" and "cc_app (cl_config c)"
  shows "cl_last (collect env c) = cl_last (collect (env\<lparr>en_height := Some (Some 0)\<rparr>) c)"
  using assms by (simp add: collect_def Let_def collect_system_def collect_application_def collect_governance_def
      collect_performance_def callback_def)

end
