(* ===== verification/AlertChannels.thy ===== *)
theory AlertChannels
  imports Metrics UpgradeTypes
begin

text \<open>
  \<open>internal/alerting/channels.go\<close>: the notification channels, made from a configuration object and asked
  to send an alert. What a channel sends is a request with a JSON body, or a mail; the network answers
  with a status, or not at all. The formatting of numbers and times, the conversion of a float to an
  integer, the canonical form of a header and the clock are arguments, because they are the library's.
\<close>

datatype cval = C_str string | C_num f64 | C_list "cval list" | C_map "(string \<times> cval) list" | C_other

type_synonym cobject = "(string \<times> cval) list"

record email_channel =
  em_name :: string
  em_enabled :: bool
  em_host :: string
  em_port :: int
  em_username :: string
  em_password :: string
  em_from :: string
  em_to :: "string list"

record slack_channel =
  sl_name :: string
  sl_enabled :: bool
  sl_url :: string
  sl_channel :: string
  sl_username :: string
  sl_icon :: string

record webhook_channel =
  wh_name :: string
  wh_enabled :: bool
  wh_url :: string
  wh_method :: string
  wh_headers :: "(string, string) gomap"
  wh_timeout :: duration

record discord_channel =
  dc_name :: string
  dc_enabled :: bool
  dc_url :: string
  dc_username :: string
  dc_avatar :: string

datatype channel_error = Url_required | Unknown_channel_type

definition str_field :: "string \<Rightarrow> cobject \<Rightarrow> string option" where
  "str_field k cfg = (case map_of cfg k of Some (C_str s) \<Rightarrow> Some s | _ \<Rightarrow> None)"

definition num_field :: "string \<Rightarrow> cobject \<Rightarrow> f64 option" where
  "num_field k cfg = (case map_of cfg k of Some (C_num v) \<Rightarrow> Some v | _ \<Rightarrow> None)"

definition str_or :: "string \<Rightarrow> string \<Rightarrow> cobject \<Rightarrow> string" where
  "str_or d k cfg = (case str_field k cfg of Some s \<Rightarrow> s | None \<Rightarrow> d)"

fun c_strings :: "cval list \<Rightarrow> string list" where
  "c_strings [] = []"
| "c_strings (C_str s # vs) = s # c_strings vs"
| "c_strings (_ # vs) = c_strings vs"

definition new_email_channel :: "(f64 \<Rightarrow> int) \<Rightarrow> string \<Rightarrow> cobject \<Rightarrow> email_channel" where
  "new_email_channel to_int name cfg =
     \<lparr>em_name = name, em_enabled = True, em_host = str_or '''' ''smtp_host'' cfg,
      em_port = (case num_field ''smtp_port'' cfg of Some v \<Rightarrow> to_int v | None \<Rightarrow> 0),
      em_username = str_or '''' ''username'' cfg, em_password = str_or '''' ''password'' cfg,
      em_from = str_or '''' ''from'' cfg,
      em_to = (case map_of cfg ''to'' of Some (C_list vs) \<Rightarrow> c_strings vs | _ \<Rightarrow> [])\<rparr>"

definition new_slack_channel :: "string \<Rightarrow> cobject \<Rightarrow> channel_error + slack_channel" where
  "new_slack_channel name cfg =
     (case str_field ''webhook_url'' cfg of
        None \<Rightarrow> Inl Url_required
      | Some url \<Rightarrow> Inr \<lparr>sl_name = name, sl_enabled = True, sl_url = url, sl_channel = str_or '''' ''channel'' cfg,
          sl_username = str_or ''Wemixvisor'' ''username'' cfg, sl_icon = str_or '':robot_face:'' ''icon_emoji'' cfg\<rparr>)"

definition new_webhook_channel :: "(f64 \<Rightarrow> int) \<Rightarrow> string \<Rightarrow> cobject \<Rightarrow> channel_error + webhook_channel" where
  "new_webhook_channel to_int name cfg =
     (case str_field ''url'' cfg of
        None \<Rightarrow> Inl Url_required
      | Some url \<Rightarrow> Inr \<lparr>wh_name = name, wh_enabled = True, wh_url = url, wh_method = str_or ''POST'' ''method'' cfg,
          wh_headers = (case map_of cfg ''headers'' of
              Some (C_map hs) \<Rightarrow> foldl (\<lambda>m (k, v). case v of C_str s \<Rightarrow> gm_put k s m | _ \<Rightarrow> m) [] hs | _ \<Rightarrow> []),
          wh_timeout = (case num_field ''timeout'' cfg of
              Some v \<Rightarrow> wrap64 (to_int v * second) | None \<Rightarrow> 10 * second)\<rparr>)"

definition new_discord_channel :: "string \<Rightarrow> cobject \<Rightarrow> channel_error + discord_channel" where
  "new_discord_channel name cfg =
     (case str_field ''webhook_url'' cfg of
        None \<Rightarrow> Inl Url_required
      | Some url \<Rightarrow> Inr \<lparr>dc_name = name, dc_enabled = True, dc_url = url,
          dc_username = str_or ''Wemixvisor Bot'' ''username'' cfg, dc_avatar = str_or '''' ''avatar_url'' cfg\<rparr>)"

section \<open>Sending\<close>

record format_env =
  fm_two :: "f64 \<Rightarrow> string"
  fm_rfc3339 :: "time \<Rightarrow> string"
  fm_number :: "f64 \<Rightarrow> string"
  fm_now :: time
  fm_header :: "string \<Rightarrow> string"

text \<open>The Unix time of an instant; instants count from the year one.\<close>

definition unix_time :: "time \<Rightarrow> int" where
  "unix_time t = t div second - 62135596800"

fun level_text :: "alert_level \<Rightarrow> string" where
  "level_text Level_info = ''info''"
| "level_text Level_warning = ''warning''"
| "level_text Level_error = ''error''"
| "level_text Level_critical = ''critical''"

record mail =
  ml_addr :: string
  ml_from :: string
  ml_to :: "string list"
  ml_body :: string

fun join_with :: "string \<Rightarrow> string list \<Rightarrow> string" where
  "join_with sep [] = ''''"
| "join_with sep [s] = s"
| "join_with sep (s # t # ss) = s @ sep @ join_with sep (t # ss)"

abbreviation nl :: string where "nl \<equiv> [CHR 0x0A]"
abbreviation crlf :: string where "crlf \<equiv> [CHR 0x0D, CHR 0x0A]"

definition email_body :: "format_env \<Rightarrow> alert \<Rightarrow> string" where
  "email_body f a =
     nl @ ''Alert Details:'' @ nl @ ''--------------'' @ nl @
     ''Name: '' @ al_name a @ nl @ ''Level: '' @ level_text (al_level a) @ nl @
     ''Message: '' @ al_message a @ nl @ ''Description: '' @ al_description a @ nl @
     ''Metric: '' @ al_metric a @ nl @ ''Value: '' @ fm_two f (al_value a) @ nl @
     ''Threshold: '' @ fm_two f (al_threshold a) @ nl @ ''Time: '' @ fm_rfc3339 f (al_timestamp a) @ nl @ nl @
     ''This is an automated alert from Wemixvisor monitoring system.'' @ nl @ [CHR 0x09]"

definition email_mail :: "format_env \<Rightarrow> email_channel \<Rightarrow> alert \<Rightarrow> mail" where
  "email_mail f ch a =
     \<lparr>ml_addr = em_host ch @ '':'' @ int_str (em_port ch), ml_from = em_from ch, ml_to = em_to ch,
      ml_body = ''From: '' @ em_from ch @ crlf @ ''To: '' @ join_with '', '' (em_to ch) @ crlf @
        ''Subject: ['' @ level_text (al_level a) @ ''] Alert: '' @ al_name a @ crlf @ crlf @ email_body f a\<rparr>"

record http_request =
  rq_method :: string
  rq_url :: string
  rq_headers :: "(string, string) gomap"
  rq_body :: json

definition json_field :: "string \<Rightarrow> string \<Rightarrow> bool \<Rightarrow> string \<times> string \<Rightarrow> json" where
  "json_field title value_key short tv =
     JObj [(title, JStr (fst tv)), (value_key, JStr (snd tv)), (if title = ''title'' then ''short'' else ''inline'', JBool short)]"

definition slack_color :: "alert_level \<Rightarrow> string" where
  "slack_color l = (case l of Level_warning \<Rightarrow> ''#FFA500'' | Level_error \<Rightarrow> ''#FF0000''
     | Level_critical \<Rightarrow> ''#8B0000'' | _ \<Rightarrow> ''#808080'')"

definition slack_payload :: "format_env \<Rightarrow> slack_channel \<Rightarrow> alert \<Rightarrow> json" where
  "slack_payload f ch a =
     (let field = json_field ''title'' ''value'' in
      JObj ([(''username'', JStr (sl_username ch)), (''icon_emoji'', JStr (sl_icon ch)),
        (''attachments'', JArr [JObj
          [(''color'', JStr (slack_color (al_level a))),
           (''title'', JStr (level_text (al_level a) @ '' Alert: '' @ al_name a)),
           (''text'', JStr (al_message a)), (''fallback'', JStr (al_message a)),
           (''fields'', JArr
             [field False (''Description'', al_description a), field True (''Metric'', al_metric a),
              field True (''Value'', fm_two f (al_value a)), field True (''Threshold'', fm_two f (al_threshold a)),
              field True (''Time'', fm_rfc3339 f (al_timestamp a))]),
           (''footer'', JStr ''Wemixvisor Alert System''),
           (''footer_icon'', JStr ''https://platform.slack-edge.com/img/default_application_icon.png''),
           (''ts'', JNum (int_str (unix_time (al_timestamp a))))]])] @
        (if sl_channel ch \<noteq> '''' then [(''channel'', JStr (sl_channel ch))] else [])))"

text \<open>A number that is not finite cannot be marshalled.\<close>

definition finite_number :: "f64 \<Rightarrow> bool" where
  "finite_number v \<longleftrightarrow> (case v of Finite _ \<Rightarrow> True | _ \<Rightarrow> False)"

definition webhook_payload :: "format_env \<Rightarrow> alert \<Rightarrow> json option" where
  "webhook_payload f a =
     (if \<not> finite_number (al_value a) \<or> \<not> finite_number (al_threshold a) then None
      else Some (JObj
        [(''alert'', JObj
           [(''id'', JStr (al_id a)), (''name'', JStr (al_name a)), (''level'', JStr (level_text (al_level a))),
            (''message'', JStr (al_message a)), (''description'', JStr (al_description a)),
            (''metric'', JStr (al_metric a)), (''value'', JNum (fm_number f (al_value a))),
            (''threshold'', JNum (fm_number f (al_threshold a))),
            (''timestamp'', JStr (fm_rfc3339 f (al_timestamp a))),
            (''labels'', JObj (map (\<lambda>(k, v). (k, JStr v)) (al_labels a)))]),
         (''source'', JStr ''wemixvisor''), (''time'', JStr (fm_rfc3339 f (fm_now f)))]))"

definition discord_color :: "alert_level \<Rightarrow> int" where
  "discord_color l = (case l of Level_info \<Rightarrow> 0x808080 | Level_warning \<Rightarrow> 0xFFA500 | Level_error \<Rightarrow> 0xFF0000
     | Level_critical \<Rightarrow> 0x8B0000)"

definition discord_payload :: "format_env \<Rightarrow> discord_channel \<Rightarrow> alert \<Rightarrow> json" where
  "discord_payload f ch a =
     (let field = json_field ''name'' ''value'' in
      JObj ([(''username'', JStr (dc_username ch)),
        (''embeds'', JArr [JObj
          [(''title'', JStr (level_text (al_level a) @ '' Alert: '' @ al_name a)),
           (''description'', JStr (al_message a)), (''color'', JNum (int_str (discord_color (al_level a)))),
           (''fields'', JArr
             [field False (''Description'', al_description a), field True (''Metric'', al_metric a),
              field True (''Value'', fm_two f (al_value a)), field True (''Threshold'', fm_two f (al_threshold a))]),
           (''footer'', JObj [(''text'', JStr ''Wemixvisor Alert System'')]),
           (''timestamp'', JStr (fm_rfc3339 f (al_timestamp a)))]])] @
        (if dc_avatar ch \<noteq> '''' then [(''avatar_url'', JStr (dc_avatar ch))] else [])))"

datatype send_error = Mail_failed | Marshal_failed | Request_failed | Post_failed | Bad_status int

datatype message = Mail_sent mail | Request_sent http_request

text \<open>The network answers a request with a status, and a mail with success.\<close>

record net_env =
  ne_mail_ok :: bool
  ne_request_ok :: bool
  ne_status :: "int option"

definition json_headers :: "(string, string) gomap" where
  "json_headers = [(''Content-Type'', ''application/json'')]"

definition check_status :: "(int \<Rightarrow> bool) \<Rightarrow> int option \<Rightarrow> send_error + unit" where
  "check_status good st =
     (case st of None \<Rightarrow> Inl Post_failed | Some code \<Rightarrow> if good code then Inr () else Inl (Bad_status code))"

definition send_email :: "format_env \<Rightarrow> net_env \<Rightarrow> email_channel \<Rightarrow> alert \<Rightarrow> message list \<times> (send_error + unit)" where
  "send_email f n ch a = ([Mail_sent (email_mail f ch a)], if ne_mail_ok n then Inr () else Inl Mail_failed)"

definition send_slack :: "format_env \<Rightarrow> net_env \<Rightarrow> slack_channel \<Rightarrow> alert \<Rightarrow> message list \<times> (send_error + unit)" where
  "send_slack f n ch a =
     ([Request_sent \<lparr>rq_method = ''POST'', rq_url = sl_url ch, rq_headers = json_headers, rq_body = slack_payload f ch a\<rparr>],
      check_status (\<lambda>c. c = 200) (ne_status n))"

definition send_webhook :: "format_env \<Rightarrow> net_env \<Rightarrow> webhook_channel \<Rightarrow> alert \<Rightarrow> message list \<times> (send_error + unit)" where
  "send_webhook f n ch a =
     (case webhook_payload f a of
        None \<Rightarrow> ([], Inl Marshal_failed)
      | Some body \<Rightarrow>
          if \<not> ne_request_ok n then ([], Inl Request_failed)
          else ([Request_sent \<lparr>rq_method = wh_method ch, rq_url = wh_url ch,
                   rq_headers = foldl (\<lambda>m (k, v). gm_put (fm_header f k) v m) json_headers (wh_headers ch), rq_body = body\<rparr>],
                check_status (\<lambda>c. c < 400) (ne_status n)))"

definition send_discord :: "format_env \<Rightarrow> net_env \<Rightarrow> discord_channel \<Rightarrow> alert \<Rightarrow> message list \<times> (send_error + unit)" where
  "send_discord f n ch a =
     ([Request_sent \<lparr>rq_method = ''POST'', rq_url = dc_url ch, rq_headers = json_headers, rq_body = discord_payload f ch a\<rparr>],
      check_status (\<lambda>c. c = 200 \<or> c = 204) (ne_status n))"

section \<open>The interface\<close>

datatype channel =
  Email_channel email_channel | Slack_channel slack_channel | Webhook_channel webhook_channel
| Discord_channel discord_channel

fun channel_send :: "format_env \<Rightarrow> net_env \<Rightarrow> channel \<Rightarrow> alert \<Rightarrow> message list \<times> (send_error + unit)" where
  "channel_send f n (Email_channel ch) a = send_email f n ch a"
| "channel_send f n (Slack_channel ch) a = send_slack f n ch a"
| "channel_send f n (Webhook_channel ch) a = send_webhook f n ch a"
| "channel_send f n (Discord_channel ch) a = send_discord f n ch a"

fun channel_enabled :: "channel \<Rightarrow> bool" where
  "channel_enabled (Email_channel ch) = em_enabled ch"
| "channel_enabled (Slack_channel ch) = sl_enabled ch"
| "channel_enabled (Webhook_channel ch) = wh_enabled ch"
| "channel_enabled (Discord_channel ch) = dc_enabled ch"

fun channel_name :: "channel \<Rightarrow> string" where
  "channel_name (Email_channel ch) = em_name ch"
| "channel_name (Slack_channel ch) = sl_name ch"
| "channel_name (Webhook_channel ch) = wh_name ch"
| "channel_name (Discord_channel ch) = dc_name ch"

fun channel_type :: "channel \<Rightarrow> string" where
  "channel_type (Email_channel ch) = ''email''"
| "channel_type (Slack_channel ch) = ''slack''"
| "channel_type (Webhook_channel ch) = ''webhook''"
| "channel_type (Discord_channel ch) = ''discord''"

definition create_channel :: "(f64 \<Rightarrow> int) \<Rightarrow> string \<Rightarrow> string \<Rightarrow> cobject \<Rightarrow> channel_error + channel" where
  "create_channel to_int ty name cfg =
     (if ty = ''email'' then Inr (Email_channel (new_email_channel to_int name cfg))
      else if ty = ''slack'' then map_sum id Slack_channel (new_slack_channel name cfg)
      else if ty = ''webhook'' then map_sum id Webhook_channel (new_webhook_channel to_int name cfg)
      else if ty = ''discord'' then map_sum id Discord_channel (new_discord_channel name cfg)
      else Inl Unknown_channel_type)"

lemma create_channel_simps:
  assumes "create_channel to_int ty name cfg = Inr ch"
  shows "channel_enabled ch" and "channel_name ch = name" and "channel_type ch = ty"
  using assms
  by (auto simp: create_channel_def new_email_channel_def new_slack_channel_def new_webhook_channel_def
      new_discord_channel_def split: if_splits option.splits)

end
