(* ===== verification/Alerting.thy ===== *)
theory Alerting
  imports AlertChannels
begin

text \<open>
  \<open>internal/alerting/manager.go\<close>: the alert rules and the alerts they raise. The state is the rules, the
  channels by name and the alerts by the name of their rule. Each notification is sent by a goroutine of
  its own; the state keeps them in the order in which they were started.
\<close>

record channel_config =
  ck_type :: string
  ck_name :: string
  ck_enabled :: bool
  ck_config :: cobject

record alert_config =
  ac_enabled :: bool
  ac_interval :: duration
  ac_retention :: duration
  ac_channels :: "channel_config list"

record alert_rule =
  ru_name :: string
  ru_metric :: string
  ru_condition :: string
  ru_threshold :: f64
  ru_duration :: duration
  ru_level :: alert_level
  ru_message :: string
  ru_description :: string
  ru_channels :: "string list"
  ru_labels :: "(string, string) gomap"
  ru_enabled :: bool
  ru_last_eval :: "time option"
  ru_last_fired :: "time option"

record alert_manager =
  am_config :: alert_config
  am_rules :: "alert_rule list"
  am_channels :: "(string, channel) gomap"
  am_alerts :: "(string, alert) gomap"
  am_started :: bool
  am_sends :: "(channel \<times> alert) list"

definition new_alert_manager :: "alert_config \<Rightarrow> alert_manager" where
  "new_alert_manager c = \<lparr>am_config = c, am_rules = [], am_channels = [], am_alerts = [], am_started = False, am_sends = []\<rparr>"

definition init_channels :: "(f64 \<Rightarrow> int) \<Rightarrow> alert_manager \<Rightarrow> alert_manager" where
  "init_channels to_int m =
     m\<lparr>am_channels := foldl (\<lambda>cs k.
         if \<not> ck_enabled k then cs
         else (case create_channel to_int (ck_type k) (ck_name k) (ck_config k) of
                 Inl _ \<Rightarrow> cs | Inr ch \<Rightarrow> gm_put (ck_name k) ch cs))
       (am_channels m) (ac_channels (am_config m))\<rparr>"

definition alerts_start :: "(f64 \<Rightarrow> int) \<Rightarrow> alert_manager \<Rightarrow> alert_manager" where
  "alerts_start to_int m = (if \<not> ac_enabled (am_config m) then m else (init_channels to_int m)\<lparr>am_started := True\<rparr>)"

definition alerts_stop :: "alert_manager \<Rightarrow> alert_manager" where
  "alerts_stop m = m\<lparr>am_started := False\<rparr>"

definition add_rule :: "alert_rule \<Rightarrow> alert_manager \<Rightarrow> alert_manager" where
  "add_rule r m = m\<lparr>am_rules := am_rules m @ [r]\<rparr>"

definition remove_rule :: "string \<Rightarrow> alert_manager \<Rightarrow> (alert_manager, string, unit) gores" where
  "remove_rule name m =
     (if \<exists>r\<in>set (am_rules m). ru_name r = name
      then (m\<lparr>am_rules := remove_first (\<lambda>r. ru_name r = name) (am_rules m)\<rparr>, Inr ())
      else (m, Inl (''rule not found: '' @ name)))"

definition metric_value :: "string \<Rightarrow> metrics_snapshot \<Rightarrow> f64" where
  "metric_value k s =
     (let sys = (\<lambda>f. case sn_system s of Some m \<Rightarrow> f m | None \<Rightarrow> f64_zero) in
      if k = ''cpu_usage'' then sys sy_cpu_usage
      else if k = ''memory_usage'' then sys sy_memory_usage
      else if k = ''disk_usage'' then sys sy_disk_usage
      else if k = ''node_height'' then
        (case sn_application s of Some m \<Rightarrow> f64_of_int (ap_node_height m) | None \<Rightarrow> f64_zero)
      else if k = ''proposals_voting'' then
        (case sn_governance s of Some m \<Rightarrow> f64_of_int (gv_proposal_voting m) | None \<Rightarrow> f64_zero)
      else f64_zero)"

definition check_condition :: "string \<Rightarrow> f64 \<Rightarrow> f64 \<Rightarrow> bool" where
  "check_condition c v t =
     (if c = ''>'' \<or> c = ''gt'' then f64_less t v
      else if c = ''>='' \<or> c = ''gte'' then f64_less t v \<or> f64_eq v t
      else if c = ''<'' \<or> c = ''lt'' then f64_less v t
      else if c = ''<='' \<or> c = ''lte'' then f64_less v t \<or> f64_eq v t
      else if c = ''=='' \<or> c = ''eq'' then f64_eq v t
      else if c = ''!='' \<or> c = ''ne'' then \<not> f64_eq v t
      else False)"

definition send_notifications :: "alert \<Rightarrow> string list \<Rightarrow> alert_manager \<Rightarrow> alert_manager" where
  "send_notifications a names m =
     m\<lparr>am_sends := am_sends m @ concat (map (\<lambda>n. case map_of (am_channels m) n of
          None \<Rightarrow> [] | Some ch \<Rightarrow> if channel_enabled ch then [(ch, a)] else []) names)\<rparr>"

definition send_resolution :: "alert \<Rightarrow> string list \<Rightarrow> alert_manager \<Rightarrow> alert_manager" where
  "send_resolution a = send_notifications (a\<lparr>al_message := ''[RESOLVED] '' @ al_message a\<rparr>)"

definition new_alert :: "time \<Rightarrow> alert_rule \<Rightarrow> f64 \<Rightarrow> alert" where
  "new_alert now r v =
     \<lparr>al_id = ru_name r @ ''_'' @ int_str (unix_time now), al_name = ru_name r, al_level = ru_level r,
      al_message = ru_message r, al_description = ru_description r, al_source = ''alert_manager'',
      al_metric = ru_metric r, al_value = v, al_threshold = ru_threshold r, al_labels = ru_labels r,
      al_timestamp = now, al_resolved_at = None\<rparr>"

definition should_alert :: "metrics_snapshot \<Rightarrow> alert_rule \<Rightarrow> bool" where
  "should_alert s r \<longleftrightarrow> check_condition (ru_condition r) (metric_value (ru_metric r) s) (ru_threshold r)"

text \<open>\<open>evaluateRule\<close> on a rule: the rule with its two times, and the manager.\<close>

definition evaluate_rule ::
  "time \<Rightarrow> metrics_snapshot \<Rightarrow> alert_rule \<Rightarrow> alert_manager \<Rightarrow> alert_manager \<times> alert_rule" where
  "evaluate_rule now s rule m =
     (let r = rule\<lparr>ru_last_eval := Some now\<rparr> in
      if should_alert s r
      then (if map_of (am_alerts m) (ru_name r) \<noteq> None then (m, r)
            else
              let a = new_alert now r (metric_value (ru_metric r) s) in
              (send_notifications a (ru_channels r) (m\<lparr>am_alerts := gm_put (ru_name r) a (am_alerts m)\<rparr>),
               r\<lparr>ru_last_fired := Some now\<rparr>))
      else (case map_of (am_alerts m) (ru_name r) of
              None \<Rightarrow> (m, r)
            | Some a \<Rightarrow>
                (send_resolution (a\<lparr>al_resolved_at := Some now\<rparr>) (ru_channels r)
                   (m\<lparr>am_alerts := gm_del (ru_name r) (am_alerts m)\<rparr>), r)))"

definition cleanup_alerts :: "time \<Rightarrow> alert_manager \<Rightarrow> alert_manager" where
  "cleanup_alerts now m =
     m\<lparr>am_alerts := filter (\<lambda>(_, a). case al_resolved_at a of None \<Rightarrow> True
         | Some t \<Rightarrow> \<not> now - t > ac_retention (am_config m)) (am_alerts m)\<rparr>"

text \<open>The rules are evaluated in place, each at the clock's time for it.\<close>

fun evaluate_each ::
  "(nat \<Rightarrow> time) \<Rightarrow> metrics_snapshot \<Rightarrow> nat \<Rightarrow> alert_rule list \<Rightarrow> alert_manager \<Rightarrow> alert_manager \<times> alert_rule list" where
  "evaluate_each clock s i [] m = (m, [])"
| "evaluate_each clock s i (r # rs) m =
     (case (if ru_enabled r then evaluate_rule (clock i) s r m else (m, r)) of
        (m1, r1) \<Rightarrow> (case evaluate_each clock s (Suc i) rs m1 of (m2, rs2) \<Rightarrow> (m2, r1 # rs2)))"

definition evaluate_rules :: "(nat \<Rightarrow> time) \<Rightarrow> metrics_snapshot option \<Rightarrow> alert_manager \<Rightarrow> alert_manager" where
  "evaluate_rules clock snap m =
     (case snap of
        None \<Rightarrow> m
      | Some s \<Rightarrow>
          (case evaluate_each clock s 0 (am_rules m) m of
             (m1, rs) \<Rightarrow> cleanup_alerts (clock (length (am_rules m))) (m1\<lparr>am_rules := rs\<rparr>)))"

definition active_alerts :: "alert_manager \<Rightarrow> alert list" where
  "active_alerts m = filter (\<lambda>a. al_resolved_at a = None) (map snd (am_alerts m))"

definition alert_history :: "int \<Rightarrow> alert_manager \<Rightarrow> alert list" where
  "alert_history limit m =
     (let as = map snd (am_alerts m) in
      if limit > 0 \<and> int (length as) > limit then take (nat limit) as else as)"

definition default_rule ::
  "string \<Rightarrow> string \<Rightarrow> string \<Rightarrow> rat \<Rightarrow> duration \<Rightarrow> alert_level \<Rightarrow> string \<Rightarrow> string \<Rightarrow> string list \<Rightarrow> alert_rule" where
  "default_rule name metric cond threshold dur level msg descr chans =
     \<lparr>ru_name = name, ru_metric = metric, ru_condition = cond, ru_threshold = Finite threshold,
      ru_duration = dur, ru_level = level, ru_message = msg, ru_description = descr, ru_channels = chans,
      ru_labels = [], ru_enabled = True, ru_last_eval = None, ru_last_fired = None\<rparr>"

definition default_rules :: "alert_rule list" where
  "default_rules =
     [default_rule ''high_cpu_usage'' ''cpu_usage'' ''>'' 80 (5 * minute) Level_warning ''CPU usage is above 80%''
        ''System CPU usage has exceeded the warning threshold'' [''slack''],
      default_rule ''high_memory_usage'' ''memory_usage'' ''>'' 90 (5 * minute) Level_warning
        ''Memory usage is above 90%'' ''System memory usage has exceeded the warning threshold'' [''slack''],
      default_rule ''disk_space_low'' ''disk_usage'' ''>'' 85 (10 * minute) Level_warning ''Disk usage is above 85%''
        ''Disk space is running low'' [''email'', ''slack''],
      default_rule ''node_not_syncing'' ''node_syncing'' ''=='' 0 (15 * minute) Level_error ''Node is not syncing''
        ''The node has stopped syncing with the network'' [''slack'', ''email'']]"

definition initialize_default_rules :: "alert_manager \<Rightarrow> alert_manager" where
  "initialize_default_rules m = foldl (\<lambda>m r. add_rule r m) m default_rules"

section \<open>Lemmas\<close>

lemma send_frame [simp]:
  "am_alerts (send_notifications a ns m) = am_alerts m" "am_channels (send_notifications a ns m) = am_channels m"
  "am_config (send_notifications a ns m) = am_config m" "am_rules (send_notifications a ns m) = am_rules m"
  "am_alerts (send_resolution a ns m) = am_alerts m" "am_channels (send_resolution a ns m) = am_channels m"
  "am_config (send_resolution a ns m) = am_config m" "am_rules (send_resolution a ns m) = am_rules m"
  by (simp_all add: send_notifications_def send_resolution_def)

lemma should_alert_eval [simp]: "should_alert s (r\<lparr>ru_last_eval := t\<rparr>) = should_alert s r"
  by (simp add: should_alert_def)

text \<open>What is sent to a list of channels.\<close>

definition recipients :: "(string, channel) gomap \<Rightarrow> string list \<Rightarrow> channel list" where
  "recipients chans ns = concat (map (\<lambda>n. case map_of chans n of
     None \<Rightarrow> [] | Some ch \<Rightarrow> if channel_enabled ch then [ch] else []) ns)"

lemma sends_recipients:
  "am_sends (send_notifications a ns m) = am_sends m @ map (\<lambda>ch. (ch, a)) (recipients (am_channels m) ns)"
  by (auto simp: send_notifications_def recipients_def map_concat o_def split: option.splits
      intro!: arg_cong [of _ _ concat] map_cong)

text \<open>Every alert that is kept is unresolved and carries the name of its key.\<close>

definition alerts_ok :: "alert_manager \<Rightarrow> bool" where
  "alerts_ok m \<longleftrightarrow> gm_ok (am_alerts m) \<and> (\<forall>(k, a)\<in>set (am_alerts m). al_name a = k \<and> al_resolved_at a = None)"

lemma set_alert_put: "gm_ok m \<Longrightarrow> set (gm_put k v m) = {(j, w) \<in> set m. j \<noteq> k} \<union> {(k, v)}"
proof (induction m)
  case (Cons x m)
  then show ?case by (cases x) (auto simp: image_iff)
qed simp

lemma set_alert_del: "set (gm_del k m) = {(j, w) \<in> set m. j \<noteq> k}"
  by (auto simp: AList.delete_eq)

lemma rule_ok [go_inv]: "alerts_ok m \<Longrightarrow> alerts_ok (fst (evaluate_rule now s r m))"
  by (auto simp: alerts_ok_def evaluate_rule_def Let_def set_alert_put set_alert_del new_alert_def split: option.splits)

lemma rule_frame:
  "am_channels (fst (evaluate_rule now s r m)) = am_channels m \<and> am_config (fst (evaluate_rule now s r m)) = am_config m \<and>
   ru_name (snd (evaluate_rule now s r m)) = ru_name r"
  by (auto simp: evaluate_rule_def Let_def split: option.splits)

lemma rule_other:
  "ru_name r \<noteq> k \<Longrightarrow> map_of (am_alerts (fst (evaluate_rule now s r m))) k = map_of (am_alerts m) k"
  by (auto simp: evaluate_rule_def Let_def split: option.splits)

lemma rule_active:
  "map_of (am_alerts (fst (evaluate_rule now s r m))) (ru_name r) \<noteq> None \<longleftrightarrow> should_alert s r"
  by (auto simp: evaluate_rule_def Let_def split: option.splits)

lemma rule_sends:
  assumes "alerts_ok m"
  shows "\<exists>a. am_sends (fst (evaluate_rule now s r m)) = am_sends m @
      (if (map_of (am_alerts m) (ru_name r) \<noteq> None) = should_alert s r then []
       else map (\<lambda>ch. (ch, a)) (recipients (am_channels m) (ru_channels r))) \<and> al_name a = ru_name r"
proof (cases "should_alert s r")
  case True
  then show ?thesis
    by (intro exI [of _ "new_alert now r (metric_value (ru_metric r) s)"])
      (simp add: evaluate_rule_def Let_def sends_recipients new_alert_def)
next
  case False
  show ?thesis
  proof (cases "map_of (am_alerts m) (ru_name r)")
    case None
    with False show ?thesis
      by (intro exI [of _ "new_alert now r (metric_value (ru_metric r) s)"])
        (simp add: evaluate_rule_def Let_def new_alert_def)
  next
    case (Some a)
    with assms have "al_name a = ru_name r" by (auto simp: alerts_ok_def dest: map_of_SomeD)
    with False Some show ?thesis
      by (intro exI [of _ "a\<lparr>al_resolved_at := Some now, al_message := ''[RESOLVED] '' @ al_message a\<rparr>"])
        (simp add: evaluate_rule_def Let_def sends_recipients send_resolution_def)
  qed
qed

lemma cleanup_nothing: "alerts_ok m \<Longrightarrow> cleanup_alerts now m = m"
proof -
  assume ok: "alerts_ok m"
  have "filter (\<lambda>(_, a). case al_resolved_at a of None \<Rightarrow> True
      | Some t \<Rightarrow> \<not> now - t > ac_retention (am_config m)) (am_alerts m) = am_alerts m"
    using ok by (auto simp: alerts_ok_def filter_id_conv split: option.splits)
  then show ?thesis by (simp add: cleanup_alerts_def)
qed

text \<open>What an evaluation does for one rule: its alert, and the channels that were told of it.\<close>

definition alert_active :: "alert_manager \<Rightarrow> string \<Rightarrow> bool" where
  "alert_active m k \<longleftrightarrow> map_of (am_alerts m) k \<noteq> None"

definition rule_effect :: "metrics_snapshot \<Rightarrow> alert_manager \<Rightarrow> alert_manager \<Rightarrow> (channel \<times> alert) list \<Rightarrow> alert_rule \<Rightarrow> bool" where
  "rule_effect s m m' sent r \<longleftrightarrow>
     (alert_active m' (ru_name r) \<longleftrightarrow> (if ru_enabled r then should_alert s r else alert_active m (ru_name r))) \<and>
     map fst (filter (\<lambda>(_, a). al_name a = ru_name r) sent) =
       (if ru_enabled r \<and> alert_active m (ru_name r) \<noteq> should_alert s r
        then recipients (am_channels m) (ru_channels r) else [])"

lemma sent_by_name:
  "\<forall>(_, a)\<in>set sent. al_name a \<noteq> k \<Longrightarrow> filter (\<lambda>(_, a). al_name a = k) sent = []"
  by (auto simp: filter_empty_conv)

lemma evaluate_each_effect:
  assumes "alerts_ok m" and "distinct (map ru_name rs)" and "evaluate_each clock s i rs m = (m', rs')"
  shows "alerts_ok m' \<and> am_channels m' = am_channels m \<and> am_config m' = am_config m \<and> map ru_name rs' = map ru_name rs \<and>
    (\<exists>sent. am_sends m' = am_sends m @ sent \<and> (\<forall>(_, a)\<in>set sent. al_name a \<in> ru_name ` set rs) \<and>
      (\<forall>r\<in>set rs. rule_effect s m m' sent r)) \<and>
    (\<forall>k. k \<notin> ru_name ` set rs \<longrightarrow> alert_active m' k = alert_active m k)"
  using assms
proof (induction rs arbitrary: i m m' rs')
  case Nil
  then show ?case by (auto simp: intro: exI [of _ "[]"])
next
  case (Cons r rs)
  obtain m1 r1 where e1: "(if ru_enabled r then evaluate_rule (clock i) s r m else (m, r)) = (m1, r1)" by fastforce
  obtain rs2 where e2: "evaluate_each clock s (Suc i) rs m1 = (m', rs2)" and rs': "rs' = r1 # rs2"
    using Cons.prems(3) e1 by (auto split: prod.splits)
  have ok1: "alerts_ok m1" and fr: "am_channels m1 = am_channels m" "am_config m1 = am_config m" "ru_name r1 = ru_name r"
    and oth: "\<And>k. k \<noteq> ru_name r \<Longrightarrow> alert_active m1 k = alert_active m k"
    using e1 rule_ok [OF Cons.prems(1), of "clock i" s r] rule_frame [of "clock i" s r m] rule_other [of r _ "clock i" s m] Cons.prems(1)
    by (auto simp: alert_active_def split: if_splits)
  have act1: "alert_active m1 (ru_name r) \<longleftrightarrow> (if ru_enabled r then should_alert s r else alert_active m (ru_name r))"
    using e1 rule_active [of "clock i" s r m] by (auto simp: alert_active_def split: if_splits)
  have "\<exists>a. am_sends m1 = am_sends m @
      (if ru_enabled r \<and> alert_active m (ru_name r) \<noteq> should_alert s r
       then map (\<lambda>ch. (ch, a)) (recipients (am_channels m) (ru_channels r)) else []) \<and> al_name a = ru_name r"
  proof (cases "ru_enabled r")
    case True
    with e1 have "evaluate_rule (clock i) s r m = (m1, r1)" by simp
    with rule_sends [OF Cons.prems(1), of "clock i" s r] obtain a where a: "am_sends m1 = am_sends m @
        (if alert_active m (ru_name r) = should_alert s r then []
         else map (\<lambda>ch. (ch, a)) (recipients (am_channels m) (ru_channels r)))" "al_name a = ru_name r"
      by (auto simp: alert_active_def)
    then show ?thesis using True by (intro exI [of _ a]) simp
  next
    case False
    with e1 show ?thesis by (intro exI [of _ "new_alert 0 r f64_zero"]) (simp add: new_alert_def)
  qed
  then obtain a where s1: "am_sends m1 = am_sends m @
      (if ru_enabled r \<and> alert_active m (ru_name r) \<noteq> should_alert s r
       then map (\<lambda>ch. (ch, a)) (recipients (am_channels m) (ru_channels r)) else [])" and an: "al_name a = ru_name r"
    by blast
  define sent1 where "sent1 = (if ru_enabled r \<and> alert_active m (ru_name r) \<noteq> should_alert s r
       then map (\<lambda>ch. (ch, a)) (recipients (am_channels m) (ru_channels r)) else [])"
  from Cons.prems(2) have d: "distinct (map ru_name rs)" and nin: "ru_name r \<notin> ru_name ` set rs" by auto
  from Cons.IH [OF ok1 d e2] obtain sent2 where
    ok2: "alerts_ok m'" and fr2: "am_channels m' = am_channels m1" "am_config m' = am_config m1" "map ru_name rs2 = map ru_name rs"
    and s2: "am_sends m' = am_sends m1 @ sent2" and n2: "\<forall>(_, a)\<in>set sent2. al_name a \<in> ru_name ` set rs"
    and ef2: "\<forall>q\<in>set rs. rule_effect s m1 m' sent2 q"
    and oth2: "\<forall>k. k \<notin> ru_name ` set rs \<longrightarrow> alert_active m' k = alert_active m1 k" by blast
  have f1: "map fst (filter (\<lambda>(_, a). al_name a = ru_name r) sent1) =
      (if ru_enabled r \<and> alert_active m (ru_name r) \<noteq> should_alert s r
       then recipients (am_channels m) (ru_channels r) else [])"
    by (simp add: sent1_def filter_map o_def an)
  have f2: "filter (\<lambda>(_, a). al_name a = ru_name r) sent2 = []"
  proof (rule sent_by_name, clarify)
    fix c b assume "(c, b) \<in> set sent2" and "al_name b = ru_name r"
    with n2 have "ru_name r \<in> ru_name ` set rs" by (metis (mono_tags, lifting) case_prodD)
    with nin show False by contradiction
  qed
  have head: "rule_effect s m m' (sent1 @ sent2) r"
    using act1 oth2 nin f1 f2 by (simp add: rule_effect_def)
  have tail: "rule_effect s m m' (sent1 @ sent2) q" if "q \<in> set rs" for q
  proof -
    have ne: "ru_name q \<noteq> ru_name r" using nin that by (metis imageI)
    have "filter (\<lambda>(_, a). al_name a = ru_name q) sent1 = []"
      using ne an by (intro sent_by_name) (auto simp: sent1_def)
    with ef2 that oth [OF ne] fr(1) show ?thesis by (simp add: rule_effect_def)
  qed
  have "\<exists>sent. am_sends m' = am_sends m @ sent \<and> (\<forall>(_, a)\<in>set sent. al_name a \<in> ru_name ` set (r # rs)) \<and>
      (\<forall>q\<in>set (r # rs). rule_effect s m m' sent q)"
  proof (intro exI conjI)
    show "am_sends m' = am_sends m @ sent1 @ sent2" using s1 s2 sent1_def by simp
    show "\<forall>(_, a)\<in>set (sent1 @ sent2). al_name a \<in> ru_name ` set (r # rs)"
      using n2 an by (auto simp: sent1_def)
    show "\<forall>q\<in>set (r # rs). rule_effect s m m' (sent1 @ sent2) q" using head tail by simp
  qed
  moreover have "\<forall>k. k \<notin> ru_name ` set (r # rs) \<longrightarrow> alert_active m' k = alert_active m k"
    using oth oth2 by simp
  ultimately show ?case using ok2 fr fr2 rs' by simp
qed

datatype am_op = Add_rule alert_rule | Remove_rule string | Evaluate "nat \<Rightarrow> time" "metrics_snapshot option"
| Alerts_start "f64 \<Rightarrow> int" | Alerts_stop

fun am_step :: "am_op \<Rightarrow> alert_manager \<Rightarrow> alert_manager" where
  "am_step (Add_rule r) m = add_rule r m"
| "am_step (Remove_rule k) m = fst (remove_rule k m)"
| "am_step (Evaluate clock snap) m = evaluate_rules clock snap m"
| "am_step (Alerts_start to_int) m = alerts_start to_int m"
| "am_step Alerts_stop m = alerts_stop m"

definition am_run :: "am_op list \<Rightarrow> alert_manager \<Rightarrow> alert_manager" where
  "am_run ops m = foldl (\<lambda>m op. am_step op m) m ops"

lemma each_ok: "alerts_ok m \<Longrightarrow> evaluate_each clock s i rs m = (m', rs') \<Longrightarrow> alerts_ok m'"
proof (induction rs arbitrary: i m rs')
  case (Cons r rs)
  obtain m1 r1 where e1: "(if ru_enabled r then evaluate_rule (clock i) s r m else (m, r)) = (m1, r1)" by fastforce
  with Cons.prems(1) rule_ok [of m "clock i" s r] have "alerts_ok m1" by (auto split: if_splits)
  with Cons.IH [of m1 "Suc i"] Cons.prems(2) e1 show ?case by (auto split: prod.splits)
qed simp

lemma cleanup_ok: "alerts_ok m \<Longrightarrow> alerts_ok (m\<lparr>am_rules := rs\<rparr>)"
  by (simp add: alerts_ok_def)

lemma evaluate_ok: "alerts_ok m \<Longrightarrow> alerts_ok (evaluate_rules clock snap m)"
  by (auto simp: evaluate_rules_def cleanup_nothing cleanup_ok dest: each_ok split: option.splits prod.splits)

lemma am_step_ok: "alerts_ok m \<Longrightarrow> alerts_ok (am_step op m)"
proof (cases op)
  case (Evaluate clock snap)
  then show "alerts_ok m \<Longrightarrow> ?thesis" by (simp add: evaluate_ok)
qed (auto simp: add_rule_def remove_rule_def alerts_start_def init_channels_def alerts_stop_def alerts_ok_def)

lemma am_run_ok: "alerts_ok m \<Longrightarrow> alerts_ok (am_run ops m)"
  unfolding am_run_def by (induction ops arbitrary: m) (simp_all add: am_step_ok)

lemma new_manager_ok: "alerts_ok (new_alert_manager c)"
  by (simp add: alerts_ok_def new_alert_manager_def)

section \<open>Properties\<close>

text \<open>
  C24. The alerts follow the last evaluation: in any state the manager can reach, with rules of distinct
  names, an evaluation leaves an enabled rule's alert active exactly when its condition holds on the
  snapshot, and a disabled rule's as it was; it starts one notification to each channel of the rule that
  exists and is enabled when the alert appears or goes, and none otherwise. The rule's duration plays no
  part.
\<close>

theorem alerts_follow_conditions:
  assumes "m = am_run ops (new_alert_manager c)" and "distinct (map ru_name (am_rules m))" and "r \<in> set (am_rules m)"
  shows "\<exists>sent. am_sends (evaluate_rules clock (Some s) m) = am_sends m @ sent \<and>
    (alert_active (evaluate_rules clock (Some s) m) (ru_name r) \<longleftrightarrow>
       (if ru_enabled r then should_alert s r else alert_active m (ru_name r))) \<and>
    map fst (filter (\<lambda>(_, a). al_name a = ru_name r) sent) =
      (if ru_enabled r \<and> alert_active m (ru_name r) \<noteq> should_alert s r
       then recipients (am_channels m) (ru_channels r) else [])"
proof -
  have ok: "alerts_ok m" using assms(1) am_run_ok [OF new_manager_ok] by simp
  obtain m1 rs where e: "evaluate_each clock s 0 (am_rules m) m = (m1, rs)" by fastforce
  note E = evaluate_each_effect [OF ok assms(2) e]
  then obtain sent where s: "am_sends m1 = am_sends m @ sent" "rule_effect s m m1 sent r" using assms(3) by blast
  have "evaluate_rules clock (Some s) m = m1\<lparr>am_rules := rs\<rparr>"
    using e cleanup_nothing [OF cleanup_ok [OF conjunct1 [OF E], of rs]] by (simp add: evaluate_rules_def)
  with s show ?thesis by (auto simp: rule_effect_def alert_active_def)
qed

text \<open>
  Resolved alerts are not kept: in any state the manager can reach, every alert it holds is
  unresolved, so that the clean-up never removes one, the history is the list of active alerts cut to
  its limit, and the retention of the configuration has no effect. An alert whose rule was removed stays.
\<close>

theorem no_alert_history:
  assumes "m = am_run ops (new_alert_manager c)"
  shows "cleanup_alerts now m = m \<and>
    alert_history limit m = (if limit > 0 then take (nat limit) (active_alerts m) else active_alerts m) \<and>
    am_alerts (fst (remove_rule k m)) = am_alerts m"
proof -
  have ok: "alerts_ok m" using assms am_run_ok [OF new_manager_ok] by simp
  have "active_alerts m = map snd (am_alerts m)"
    using ok by (auto simp: active_alerts_def alerts_ok_def filter_id_conv)
  then show ?thesis using cleanup_nothing [OF ok]
    by (auto simp: alert_history_def Let_def remove_rule_def)
qed

text \<open>
  A rule on a metric the manager does not know compares zero: the condition of the default rule for a
  node that is not syncing holds on every snapshot.
\<close>

lemma not_syncing_always_fires:
  "\<exists>r\<in>set default_rules. ru_name r = ''node_not_syncing'' \<and> ru_enabled r \<and> (\<forall>s. should_alert s r)"
  by (simp add: default_rules_def default_rule_def should_alert_def metric_value_def check_condition_def Let_def f64_eq_def)

definition demo_alert_config :: alert_config where
  "demo_alert_config = \<lparr>ac_enabled = True, ac_interval = second, ac_retention = minute,
     ac_channels = [\<lparr>ck_type = ''slack'', ck_name = ''slack'', ck_enabled = True,
       ck_config = [(''webhook_url'', C_str ''u'')]\<rparr>]\<rparr>"

definition demo_snapshot :: metrics_snapshot where
  "demo_snapshot = \<lparr>sn_system = None, sn_application = None, sn_governance = None, sn_performance = None, sn_timestamp = 0\<rparr>"

theorem alerts_follow_conditions_witness:
  "alert_active (evaluate_rules (\<lambda>_. 7) (Some demo_snapshot)
     (am_run (Alerts_start (\<lambda>_. 0) # map Add_rule default_rules) (new_alert_manager demo_alert_config)))
     ''node_not_syncing''"
proof -
  let ?m = "am_run (Alerts_start (\<lambda>_. 0) # map Add_rule default_rules) (new_alert_manager demo_alert_config)"
  have rules: "am_rules (foldl (\<lambda>m op. am_step op m) m (map Add_rule rs)) = am_rules m @ rs" for m rs
    by (induction rs arbitrary: m) (simp_all add: add_rule_def)
  have r: "am_rules ?m = default_rules"
    by (simp add: am_run_def rules alerts_start_def init_channels_def new_alert_manager_def)
  obtain q where q: "q \<in> set default_rules" "ru_name q = ''node_not_syncing''" "ru_enabled q" "should_alert demo_snapshot q"
    using not_syncing_always_fires by blast
  have d: "distinct (map ru_name (am_rules ?m))" unfolding r by (simp add: default_rules_def default_rule_def)
  from q(1) have "q \<in> set (am_rules ?m)" unfolding r .
  from alerts_follow_conditions [OF refl d this, of "\<lambda>_. 7" demo_snapshot] q(3,4)
  have "alert_active (evaluate_rules (\<lambda>_. 7) (Some demo_snapshot) ?m) (ru_name q)" by auto
  with q(2) show ?thesis by simp
qed

theorem no_alert_history_witness:
  "alert_history 5 (am_run [Add_rule (hd default_rules), Evaluate (\<lambda>_. 7) (Some demo_snapshot)] (new_alert_manager demo_alert_config)) =
     take (nat 5) (active_alerts (am_run [Add_rule (hd default_rules), Evaluate (\<lambda>_. 7) (Some demo_snapshot)]
       (new_alert_manager demo_alert_config)))"
  using no_alert_history [OF refl, THEN conjunct2, THEN conjunct1, of 5] by simp

end
