(* ===== verification/CliParser.thy ===== *)
theory CliParser
  imports Prelude
begin

text \<open>
  \<open>internal/cli/parser.go\<close>: the split of the command line into wemixvisor's own options and the arguments
  passed through to the node, and the arguments the node is started with.
\<close>

definition wemixvisor_flags :: "string list" where
  "wemixvisor_flags = [''--home'', ''--name'', ''--network'', ''--debug'', ''--json'', ''--quiet'']"

definition valid_commands :: "string list" where
  "valid_commands = [''start'', ''stop'', ''restart'', ''status'', ''logs'', ''version'', ''init'', ''run'']"

definition is_valid_command :: "string \<Rightarrow> bool" where
  "is_valid_command c \<longleftrightarrow> c \<in> set valid_commands"

text \<open>The part before the first equals sign, and the part after it.\<close>

definition before_eq :: "string \<Rightarrow> string" where
  "before_eq a = takeWhile (\<lambda>c. c \<noteq> CHR ''='') a"

definition has_eq :: "string \<Rightarrow> bool" where
  "has_eq a \<longleftrightarrow> CHR ''='' \<in> set a"

definition after_eq :: "string \<Rightarrow> string" where
  "after_eq a = tl (dropWhile (\<lambda>c. c \<noteq> CHR ''='') a)"

definition is_wemixvisor_flag :: "string \<Rightarrow> bool" where
  "is_wemixvisor_flag a \<longleftrightarrow> before_eq a \<in> set wemixvisor_flags"

definition dashed :: "string \<Rightarrow> bool" where
  "dashed a \<longleftrightarrow> (case a of c # _ \<Rightarrow> c = CHR ''-'' | [] \<Rightarrow> False)"

record parsed_args =
  pa_command :: string
  pa_opts :: "(string, string) gomap"
  pa_node_args :: "string list"

datatype parse_error = No_command | Unknown_command string | Node_args_refused string | Invalid_command string

fun parse_rest :: "string list \<Rightarrow> parsed_args \<Rightarrow> parsed_args" where
  "parse_rest [] p = p"
| "parse_rest (a # as) p =
     (if is_wemixvisor_flag a then
        (if has_eq a then parse_rest as (p\<lparr>pa_opts := gm_put (before_eq a) (after_eq a) (pa_opts p)\<rparr>)
         else (case as of
                 v # rest \<Rightarrow>
                   if \<not> dashed v then parse_rest rest (p\<lparr>pa_opts := gm_put a v (pa_opts p)\<rparr>)
                   else parse_rest as (p\<lparr>pa_opts := gm_put a ''true'' (pa_opts p)\<rparr>)
               | [] \<Rightarrow> p\<lparr>pa_opts := gm_put a ''true'' (pa_opts p)\<rparr>))
      else parse_rest as (p\<lparr>pa_node_args := pa_node_args p @ [a]\<rparr>))"

definition validate_args :: "parsed_args \<Rightarrow> parse_error + unit" where
  "validate_args p =
     (let c = pa_command p in
      if c \<in> {''stop'', ''status''} then
        (if pa_node_args p \<noteq> [] then Inl (Node_args_refused c) else Inr ())
      else if c \<in> {''start'', ''restart'', ''logs'', ''version'', ''init'', ''run''} then Inr ()
      else Inl (Invalid_command c))"

definition parse :: "string list \<Rightarrow> parse_error + parsed_args" where
  "parse args =
     (case args of
        [] \<Rightarrow> Inl No_command
      | c # rest \<Rightarrow>
          if \<not> is_valid_command c then Inl (Unknown_command c)
          else
            let p = parse_rest rest \<lparr>pa_command = c, pa_opts = [], pa_node_args = []\<rparr> in
            (case validate_args p of Inl e \<Rightarrow> Inl e | Inr _ \<Rightarrow> Inr p))"

fun extract_geth_args :: "string list \<Rightarrow> string list" where
  "extract_geth_args [] = []"
| "extract_geth_args (a # as) =
     (if is_valid_command a then extract_geth_args as
      else if is_wemixvisor_flag a then
        (case as of
           v # rest \<Rightarrow> if \<not> has_eq a \<and> \<not> dashed v then extract_geth_args rest else extract_geth_args as
         | [] \<Rightarrow> [])
      else a # extract_geth_args as)"

definition contains_flag :: "string list \<Rightarrow> string \<Rightarrow> bool" where
  "contains_flag args flag \<longleftrightarrow> (\<exists>a\<in>set args. a = flag \<or> take (length flag + 1) a = flag @ ''='')"

text \<open>\<open>sort.Strings\<close>, by the contract of \<open>sort.Slice\<close>; the strings are compared by their bytes.\<close>

definition build_node_args :: "parsed_args \<Rightarrow> (string, string) gomap \<Rightarrow> string list" where
  "build_node_args p defaults =
     (let keys = filter (\<lambda>k. \<not> contains_flag (pa_node_args p) k) (map fst defaults);
          sorted_keys = sort_slice (\<lambda>a b. a < b) keys in
      pa_node_args p @ concat (map (\<lambda>k. let v = the (map_of defaults k) in if v \<noteq> '''' then [k, v] else [k]) sorted_keys))"

section \<open>Lemmas\<close>

text \<open>
  The places of the arguments that are wemixvisor's: a flag, or the value after a flag without an equals
  sign.
\<close>

fun own_args :: "string list \<Rightarrow> bool list" where
  "own_args [] = []"
| "own_args (a # as) =
     (if is_wemixvisor_flag a then
        (case as of
           v # rest \<Rightarrow> if \<not> has_eq a \<and> \<not> dashed v then True # True # own_args rest else True # own_args as
         | [] \<Rightarrow> [True])
      else False # own_args as)"

lemma own_args_length [simp]: "length (own_args as) = length as"
  by (induction as rule: own_args.induct) (auto split: list.splits)

definition passed_on :: "string list \<Rightarrow> string list" where
  "passed_on as = map fst (filter (\<lambda>(a, own). \<not> own) (zip as (own_args as)))"

lemma passed_on_simps:
  "passed_on [] = []"
  "passed_on (a # as) =
     (if is_wemixvisor_flag a then
        (case as of
           v # rest \<Rightarrow> if \<not> has_eq a \<and> \<not> dashed v then passed_on rest else passed_on as
         | [] \<Rightarrow> [])
      else a # passed_on as)"
proof -
  show "passed_on [] = []" by (simp add: passed_on_def)
  show "passed_on (a # as) =
     (if is_wemixvisor_flag a then
        (case as of
           v # rest \<Rightarrow> if \<not> has_eq a \<and> \<not> dashed v then passed_on rest else passed_on as
         | [] \<Rightarrow> [])
      else a # passed_on as)"
    by (cases as) (simp_all add: passed_on_def)
qed

lemma parse_rest_node: "pa_node_args (parse_rest as p) = pa_node_args p @ passed_on as"
  by (induction as p rule: parse_rest.induct) (auto simp: passed_on_simps split: list.splits)

lemma parse_rest_command: "pa_command (parse_rest as p) = pa_command p"
  by (induction as p rule: parse_rest.induct) (auto split: list.splits)

lemma passed_on_set: "set (passed_on as) \<subseteq> set as"
  by (auto simp: passed_on_def dest: set_zip_leftD)

lemma extract_passed:
  "\<forall>a\<in>set as. \<not> is_valid_command a \<Longrightarrow> extract_geth_args as = passed_on as"
  by (induction as rule: extract_geth_args.induct) (auto simp: passed_on_simps split: list.splits)

text \<open>Every option is recorded under the name of a flag.\<close>

lemma parse_rest_opts:
  "fst ` set (pa_opts (parse_rest as p)) \<subseteq> fst ` set (pa_opts p) \<union> set wemixvisor_flags"
proof (induction as p rule: parse_rest.induct)
  case (2 a as p)
  have b: "before_eq a = a" if "\<not> has_eq a"
    unfolding before_eq_def by (rule takeWhile_eq_all_conv [THEN iffD2]) (use that in \<open>auto simp: has_eq_def\<close>)
  show ?case
  proof (cases "is_wemixvisor_flag a")
    case True
    then have f: "before_eq a \<in> set wemixvisor_flags" by (simp add: is_wemixvisor_flag_def)
    have g: "has_eq a \<or> a \<in> set wemixvisor_flags" using f b by metis
    have close: "fst ` set (pa_opts q) \<subseteq> fst ` set (pa_opts p) \<union> set wemixvisor_flags"
      if "fst ` set (pa_opts q) \<subseteq> fst ` set (gm_put k v (pa_opts p)) \<union> set wemixvisor_flags"
        "k \<in> set wemixvisor_flags" for q k v
      using that by auto
    consider (eq) "has_eq a" | (at_end) "\<not> has_eq a" "as = []" | (with_value) v rest where "\<not> has_eq a" "as = v # rest" "\<not> dashed v"
      | (boolean) v rest where "\<not> has_eq a" "as = v # rest" "dashed v" by (cases as) auto
    then show ?thesis
    proof cases
      case eq
      then show ?thesis
        using True close [OF _ f] "2.IH"(1) by (simp add: parse_rest.simps(2) [of a] del: parse_rest.simps(2))
    next
      case at_end
      then show ?thesis using True g by simp
    next
      case with_value
      then show ?thesis using True g close [of _ a] "2.IH"(2) [OF True with_value(1,2,3)]
        by (simp add: parse_rest.simps(2) [of a] del: parse_rest.simps(2))
    next
      case boolean
      then show ?thesis using True g close [of _ a] "2.IH"(3) [OF True boolean(1,2)]
        by (simp add: parse_rest.simps(2) [of a] del: parse_rest.simps(2))
    qed
  next
    case False
    with "2.IH"(4) show ?thesis by simp
  qed
qed simp

section \<open>Properties\<close>

text \<open>
  C26. Every argument is accounted for: when the command line is accepted, its first argument is a valid
  command, the node arguments are, in their order, exactly the arguments that are neither a flag of
  wemixvisor nor the value of one (so a boolean flag takes the next argument without a dash with it), the
  options are named by flags, and \<open>stop\<close> and \<open>status\<close> are accepted only without node arguments. As
  long as no argument is the name of a command, \<open>ExtractGethCompatibleArgs\<close> gives the same arguments.
\<close>

theorem parse_splits_arguments:
  assumes "parse (c # as) = Inr p"
  shows "is_valid_command c \<and> pa_command p = c \<and> pa_node_args p = passed_on as \<and>
    fst ` set (pa_opts p) \<subseteq> set wemixvisor_flags \<and>
    (c = ''stop'' \<or> c = ''status'' \<longrightarrow> pa_node_args p = []) \<and>
    ((\<forall>a\<in>set as. \<not> is_valid_command a) \<longrightarrow> extract_geth_args (c # as) = pa_node_args p)"
proof -
  let ?p = "parse_rest as \<lparr>pa_command = c, pa_opts = [], pa_node_args = []\<rparr>"
  from assms have c: "is_valid_command c" and v: "validate_args ?p = Inr ()" and p: "p = ?p"
    by (auto simp: parse_def Let_def split: if_splits sum.splits)
  have n: "pa_command p = c" "pa_node_args p = passed_on as" by (simp_all add: p parse_rest_node parse_rest_command)
  have "fst ` set (pa_opts p) \<subseteq> set wemixvisor_flags"
    using parse_rest_opts [of as "\<lparr>pa_command = c, pa_opts = [], pa_node_args = []\<rparr>"] by (simp add: p)
  moreover have "c = ''stop'' \<or> c = ''status'' \<longrightarrow> pa_node_args p = []"
    using v n by (auto simp: p [symmetric] validate_args_def Let_def split: if_splits)
  moreover have "extract_geth_args (c # as) = pa_node_args p" if "\<forall>a\<in>set as. \<not> is_valid_command a"
    using c extract_passed [OF that] n by simp
  ultimately show ?thesis using c n by blast
qed

theorem parse_splits_arguments_witness:
  "\<exists>p. parse [''start'', ''--debug'', ''console'', ''--syncmode=full'', ''--home=x''] = Inr p \<and>
     pa_node_args p = [''--syncmode=full'']"
proof -
  let ?as = "[''--debug'', ''console'', ''--syncmode=full'', ''--home=x'']"
  have "case parse (''start'' # ?as) of Inr p \<Rightarrow> True | Inl _ \<Rightarrow> False" by code_simp
  then obtain p where p: "parse (''start'' # ?as) = Inr p" by (auto split: sum.splits)
  have "passed_on ?as = [''--syncmode=full'']" by code_simp
  with parse_splits_arguments [OF p] p show ?thesis by auto
qed

text \<open>
  The node's defaults: an argument given on the command line is kept, and each default whose flag it does
  not contain follows once, in the order of the keys.
\<close>

lemma build_node_args_defaults:
  assumes "gm_ok defaults"
  shows "\<exists>keys. build_node_args p defaults = pa_node_args p @
      concat (map (\<lambda>k. if the (map_of defaults k) \<noteq> '''' then [k, the (map_of defaults k)] else [k]) keys) \<and>
    sorted keys \<and> distinct keys \<and> set keys = {k \<in> fst ` set defaults. \<not> contains_flag (pa_node_args p) k}"
proof (intro exI conjI)
  let ?keys = "filter (\<lambda>k. \<not> contains_flag (pa_node_args p) k) (map fst defaults)"
  let ?s = "sort_slice (\<lambda>a b. a < b) ?keys"
  show "build_node_args p defaults = pa_node_args p @
      concat (map (\<lambda>k. if the (map_of defaults k) \<noteq> '''' then [k, the (map_of defaults k)] else [k]) ?s)"
    by (simp add: build_node_args_def Let_def)
  show "sorted ?s" using gosort.srt_sorted_key [of "\<lambda>k. k" ?keys] by simp
  show "distinct ?s" using assms gosort.srt_distinct_map [of "\<lambda>k. k" _ ?keys] by simp
  show "set ?s = {k \<in> fst ` set defaults. \<not> contains_flag (pa_node_args p) k}" by auto
qed

end
