(* ===== verification/Health.thy ===== *)
theory Health
  imports Channels ConfigModel UpgradeTypes
begin

text \<open>
  \<open>internal/monitor/health.go\<close> and \<open>checks.go\<close>: the health checks of the node and the checker that runs
  them. What the files, the processes, the RPC endpoint and the file system answer is an argument.
\<close>

section \<open>The checks\<close>

text \<open>
  What a POST to the endpoint gives: no answer, or a status with the decoded JSON object, \<open>None\<close> when the
  body cannot be read or is not an object.
\<close>

datatype rpc_reply = Unreachable | Replied int "(string \<times> json) list option"

record check_env =
  ce_pid_file :: "string \<Rightarrow> string option"
  ce_pid_alive :: "int \<Rightarrow> bool"
  ce_rpc :: "string \<Rightarrow> string \<Rightarrow> rpc_reply"
  ce_statfs :: "string \<Rightarrow> (nat \<times> nat) option"

datatype check_error =
  Pid_file_unreadable | Pid_invalid | Process_not_responding | Rpc_unreachable | Rpc_status int | Rpc_bad_body
| Rpc_error json | Peer_count_format | Peer_count_unparsed | Insufficient_peers int int | No_peer_count
| Node_syncing "json option" "json option" | Syncing_no_details | Sync_unknown | Statfs_failed
| Insufficient_disk int int

text \<open>
  \<open>Sscanf\<close> of one number: leading spaces, a sign, then the longest run of digits of the base; an error when
  there is no digit or the number does not fit.
\<close>

definition hex_val :: "char \<Rightarrow> nat option" where
  "hex_val c =
     (let n = of_char c :: nat in
      if 48 \<le> n \<and> n \<le> 57 then Some (n - 48) else if 97 \<le> n \<and> n \<le> 102 then Some (n - 87)
      else if 65 \<le> n \<and> n \<le> 70 then Some (n - 55) else None)"

definition base_val :: "nat \<Rightarrow> char \<Rightarrow> nat option" where
  "base_val b c = (case hex_val c of Some d \<Rightarrow> if d < b then Some d else None | None \<Rightarrow> None)"

definition scan_number :: "nat \<Rightarrow> string \<Rightarrow> int option" where
  "scan_number b s =
     (let s1 = dropWhile (\<lambda>c. c = CHR '' '') s;
          neg = (case s1 of c # _ \<Rightarrow> c = CHR ''-'' | [] \<Rightarrow> False);
          s2 = (case s1 of c # r \<Rightarrow> if c = CHR ''-'' \<or> c = CHR ''+'' then r else s1 | [] \<Rightarrow> []);
          ds = takeWhile (\<lambda>c. base_val b c \<noteq> None) s2;
          v = int (foldl (\<lambda>acc c. acc * b + the (base_val b c)) 0 ds);
          n = (if neg then - v else v) in
      if ds = [] \<or> \<not> is_int64 n then None else Some n)"

definition scan_hex_count :: "string \<Rightarrow> int option" where
  "scan_hex_count s =
     (case (if take 2 s = ''0x'' then scan_number 16 (drop 2 s) else None) of
        Some n \<Rightarrow> Some n
      | None \<Rightarrow> scan_number 16 s)"

definition process_check :: "check_env \<Rightarrow> string \<Rightarrow> check_error + unit" where
  "process_check env pid_file =
     (if pid_file = '''' then Inr ()
      else (case ce_pid_file env pid_file of
              None \<Rightarrow> Inl Pid_file_unreadable
            | Some text \<Rightarrow>
                (case scan_number 10 text of
                   None \<Rightarrow> Inl Pid_invalid
                 | Some pid \<Rightarrow> if ce_pid_alive env pid then Inr () else Inl Process_not_responding)))"

definition rpc_health_check :: "check_env \<Rightarrow> string \<Rightarrow> check_error + unit" where
  "rpc_health_check env url =
     (case ce_rpc env url ''web3_clientVersion'' of
        Unreachable \<Rightarrow> Inl Rpc_unreachable
      | Replied status body \<Rightarrow>
          if status \<noteq> 200 then Inl (Rpc_status status)
          else (case body of
                  None \<Rightarrow> Inl Rpc_bad_body
                | Some obj \<Rightarrow> (case map_of obj ''error'' of Some e \<Rightarrow> Inl (Rpc_error e) | None \<Rightarrow> Inr ())))"

definition peer_count_check :: "check_env \<Rightarrow> int \<Rightarrow> string \<Rightarrow> check_error + unit" where
  "peer_count_check env min_peers url =
     (case ce_rpc env url ''net_peerCount'' of
        Unreachable \<Rightarrow> Inl Rpc_unreachable
      | Replied _ None \<Rightarrow> Inl Rpc_bad_body
      | Replied _ (Some obj) \<Rightarrow>
          (case map_of obj ''result'' of
             None \<Rightarrow> Inl No_peer_count
           | Some (JStr hex) \<Rightarrow>
               (case scan_hex_count hex of
                  None \<Rightarrow> Inl Peer_count_unparsed
                | Some n \<Rightarrow> if n < min_peers then Inl (Insufficient_peers n min_peers) else Inr ())
           | Some _ \<Rightarrow> Inl Peer_count_format))"

definition syncing_check :: "check_env \<Rightarrow> string \<Rightarrow> check_error + unit" where
  "syncing_check env url =
     (case ce_rpc env url ''eth_syncing'' of
        Unreachable \<Rightarrow> Inl Rpc_unreachable
      | Replied _ None \<Rightarrow> Inl Rpc_bad_body
      | Replied _ (Some obj) \<Rightarrow>
          (case map_of obj ''result'' of
             None \<Rightarrow> Inl Sync_unknown
           | Some (JBool False) \<Rightarrow> Inr ()
           | Some (JObj d) \<Rightarrow> Inl (Node_syncing (map_of d ''currentBlock'') (map_of d ''highestBlock''))
           | Some _ \<Rightarrow> Inl Syncing_no_details))"

definition memory_check :: "check_error + unit" where
  "memory_check = Inr ()"

text \<open>Blocks times block size is a 64-bit product.\<close>

definition disk_space_check :: "check_env \<Rightarrow> int \<Rightarrow> string \<Rightarrow> check_error + unit" where
  "disk_space_check env min_gb dir =
     (case ce_statfs env dir of
        None \<Rightarrow> Inl Statfs_failed
      | Some (bavail, bsize) \<Rightarrow>
          let gb = int ((bavail * bsize) mod 2 ^ 64 div (1024 * 1024 * 1024)) in
          if gb < min_gb then Inl (Insufficient_disk gb min_gb) else Inr ())"

datatype health_check =
  Process_check string | Rpc_check string | Peer_check int string | Sync_check string | Memory_check
| Disk_check int string

fun check_name :: "health_check \<Rightarrow> string" where
  "check_name (Process_check f) = ''process''"
| "check_name (Rpc_check u) = ''rpc_endpoint''"
| "check_name (Peer_check n u) = ''peer_count''"
| "check_name (Sync_check u) = ''syncing''"
| "check_name Memory_check = ''memory''"
| "check_name (Disk_check n d) = ''disk_space''"

fun run_check :: "check_env \<Rightarrow> health_check \<Rightarrow> check_error + unit" where
  "run_check env (Process_check f) = process_check env f"
| "run_check env (Rpc_check u) = rpc_health_check env u"
| "run_check env (Peer_check n u) = peer_count_check env n u"
| "run_check env (Sync_check u) = syncing_check env u"
| "run_check env Memory_check = memory_check"
| "run_check env (Disk_check n d) = disk_space_check env n d"

section \<open>The checker\<close>

record check_result =
  cr_name :: string
  cr_healthy :: bool
  cr_error :: "check_error option"

record health_status =
  hs_healthy :: bool
  hs_timestamp :: time
  hs_checks :: "(string, check_result) gomap"

record health_checker =
  hc_rpc_url :: string
  hc_interval :: duration
  hc_checks :: "health_check list"
  hc_last :: health_status
  hc_chan :: "health_status chan"
  hc_stopped :: bool
  hc_cancelled :: bool
  hc_loops :: nat

definition create_default_checks :: "string \<Rightarrow> health_check list" where
  "create_default_checks url = [Process_check '''', Rpc_check url, Peer_check 1 url, Sync_check url]"

definition new_health_checker :: "config \<Rightarrow> health_checker" where
  "new_health_checker c =
     (let interval = (if cf_health_check_interval (c_health c) > 0 then cf_health_check_interval (c_health c) else 30 * second);
          port = (if cf_rpc_port (c_health c) > 0 then cf_rpc_port (c_health c) else 8545);
          url = ''http://localhost:'' @ int_str port in
      \<lparr>hc_rpc_url = url, hc_interval = interval, hc_checks = create_default_checks url,
       hc_last = \<lparr>hs_healthy = False, hs_timestamp = 0, hs_checks = []\<rparr>, hc_chan = make_chan 1,
       hc_stopped = False, hc_cancelled = False, hc_loops = 0\<rparr>)"

definition execute_check :: "check_env \<Rightarrow> health_check \<Rightarrow> check_result" where
  "execute_check env k =
     (case run_check env k of
        Inl e \<Rightarrow> \<lparr>cr_name = check_name k, cr_healthy = False, cr_error = Some e\<rparr>
      | Inr _ \<Rightarrow> \<lparr>cr_name = check_name k, cr_healthy = True, cr_error = None\<rparr>)"

definition send_status_update :: "health_status \<Rightarrow> health_checker \<Rightarrow> health_checker" where
  "send_status_update st h =
     (if hc_stopped h then h else h\<lparr>hc_chan := fst (offer ch_send st (hc_chan h))\<rparr>)"

fun collect_results :: "check_env \<Rightarrow> health_check list \<Rightarrow> health_status \<Rightarrow> health_status" where
  "collect_results env [] st = st"
| "collect_results env (k # ks) st =
     (let r = execute_check env k; st1 = st\<lparr>hs_checks := gm_put (check_name k) r (hs_checks st)\<rparr> in
      collect_results env ks (if cr_healthy r then st1 else st1\<lparr>hs_healthy := False\<rparr>))"

text \<open>A send on the channel after it was closed would panic, \<open>None\<close>; the receiver takes what is there.\<close>

definition perform_checks :: "check_env \<Rightarrow> time \<Rightarrow> health_checker \<Rightarrow> health_checker option" where
  "perform_checks env now h =
     (let st = collect_results env (hc_checks h) \<lparr>hs_healthy = True, hs_timestamp = now, hs_checks = []\<rparr> in
      if \<not> hc_stopped h \<and> ch_closed (hc_chan h) then None
      else Some (send_status_update st (h\<lparr>hc_last := st\<rparr>)))"

text \<open>The deferred call of the loop: it closes the channel only when the checker was not stopped.\<close>

definition cleanup_on_exit :: "health_checker \<Rightarrow> health_checker option" where
  "cleanup_on_exit h =
     (if hc_stopped h then Some h
      else (case ch_close (hc_chan h) of None \<Rightarrow> None | Some c \<Rightarrow> Some (h\<lparr>hc_chan := c\<rparr>)))"

datatype health_op =
  Health_start check_env time | Health_tick check_env time | Health_stop | Loop_exit | Receive_status

text \<open>The requests of a check are made under the context of the checker, so they fail once it is cancelled.\<close>

definition under_context :: "health_checker \<Rightarrow> check_env \<Rightarrow> check_env" where
  "under_context h env = (if hc_cancelled h then env\<lparr>ce_rpc := \<lambda>_ _. Unreachable\<rparr> else env)"

fun health_step :: "health_op \<Rightarrow> health_checker \<Rightarrow> health_checker option" where
  "health_step (Health_start env now) h = perform_checks (under_context h env) now (h\<lparr>hc_loops := hc_loops h + 1\<rparr>)"
| "health_step (Health_tick env now) h = (if hc_loops h > 0 then perform_checks (under_context h env) now h else Some h)"
| "health_step Health_stop h = Some (h\<lparr>hc_stopped := True, hc_cancelled := True\<rparr>)"
| "health_step Loop_exit h =
     (if hc_loops h > 0 \<and> hc_cancelled h then cleanup_on_exit (h\<lparr>hc_loops := hc_loops h - 1\<rparr>) else Some h)"
| "health_step Receive_status h =
     (case ch_recv (hc_chan h) of Received st c \<Rightarrow> Some (h\<lparr>hc_chan := c\<rparr>) | _ \<Rightarrow> Some h)"

fun health_run :: "health_op list \<Rightarrow> health_checker \<Rightarrow> health_checker option" where
  "health_run [] h = Some h"
| "health_run (op # ops) h = (case health_step op h of None \<Rightarrow> None | Some h1 \<Rightarrow> health_run ops h1)"

definition is_healthy :: "health_checker \<Rightarrow> bool" where
  "is_healthy h = hs_healthy (hc_last h)"

section \<open>Lemmas\<close>

lemma collect_healthy:
  "hs_healthy (collect_results env ks st) \<longleftrightarrow> hs_healthy st \<and> (\<forall>k\<in>set ks. run_check env k = Inr ())"
  by (induction ks arbitrary: st) (auto simp: Let_def execute_check_def split: sum.splits)

lemma collect_timestamp: "hs_timestamp (collect_results env ks st) = hs_timestamp st"
  by (induction ks arbitrary: st) (auto simp: Let_def)

lemma collect_lookup:
  "distinct (map check_name ks) \<Longrightarrow> k \<in> set ks \<Longrightarrow>
     map_of (hs_checks (collect_results env ks st)) (check_name k) = Some (execute_check env k)"
proof (induction ks arbitrary: st)
  case (Cons a ks)
  have other: "n \<notin> check_name ` set ks \<Longrightarrow>
      map_of (hs_checks (collect_results env ks st)) n = map_of (hs_checks st) n" for n st
    by (induction ks arbitrary: st) (auto simp: Let_def)
  show ?case
  proof (cases "k = a")
    case True
    with Cons.prems other [of "check_name a"] show ?thesis by (simp add: Let_def)
  next
    case False
    with Cons.prems have "k \<in> set ks" by simp
    with Cons.IH Cons.prems show ?thesis by (simp add: Let_def)
  qed
qed simp

text \<open>The channel is never closed.\<close>

definition hc_ok :: "health_checker \<Rightarrow> bool" where
  "hc_ok h \<longleftrightarrow> (hc_cancelled h \<longrightarrow> hc_stopped h) \<and> \<not> ch_closed (hc_chan h) \<and> ch_cap (hc_chan h) = 1 \<and>
     length (ch_buf (hc_chan h)) \<le> 1"

lemma offer_ok:
  assumes "\<not> ch_closed c" and "length (ch_buf c) \<le> ch_cap c"
  shows "\<not> ch_closed (fst (offer ch_send x c)) \<and> ch_cap (fst (offer ch_send x c)) = ch_cap c \<and>
    length (ch_buf (fst (offer ch_send x c))) \<le> ch_cap c"
  using gochan.offer_buf [of c x] gochan.offer_bounded [of c x] assms by simp

lemma perform_ok: "hc_ok h \<Longrightarrow> \<exists>h'. perform_checks env now h = Some h' \<and> hc_ok h' \<and> hc_loops h' = hc_loops h"
  using offer_ok [of "hc_chan h"] by (auto simp: perform_checks_def send_status_update_def hc_ok_def Let_def)

lemma health_step_ok: "hc_ok h \<Longrightarrow> \<exists>h'. health_step op h = Some h' \<and> hc_ok h'"
proof (cases op)
  case (Health_start env now)
  moreover have "hc_ok h \<Longrightarrow> hc_ok (h\<lparr>hc_loops := hc_loops h + 1\<rparr>)" by (simp add: hc_ok_def)
  ultimately show "hc_ok h \<Longrightarrow> ?thesis" using perform_ok [of "h\<lparr>hc_loops := hc_loops h + 1\<rparr>" "under_context h env" now] by auto
next
  case (Health_tick env now)
  then show "hc_ok h \<Longrightarrow> ?thesis" using perform_ok [of h "under_context h env" now] by auto
qed (auto simp: hc_ok_def cleanup_on_exit_def ch_recv_def split: list.splits)

lemma health_run_ok: "hc_ok h \<Longrightarrow> \<exists>h'. health_run ops h = Some h' \<and> hc_ok h'"
proof (induction ops arbitrary: h)
  case (Cons op ops)
  from health_step_ok [OF Cons.prems, of op] obtain h1 where "health_step op h = Some h1" "hc_ok h1" by blast
  with Cons.IH [of h1] show ?case by simp
qed simp

lemma new_checker_ok: "hc_ok (new_health_checker c)"
  by (simp add: hc_ok_def new_health_checker_def Let_def)

section \<open>Properties\<close>

text \<open>
  What a healthy node is: the default checks find the node healthy exactly when the endpoint answers
  \<open>web3_clientVersion\<close> with status 200 and an object without an error, \<open>net_peerCount\<close> with a number of
  at least one, and \<open>eth_syncing\<close> with false; whether the process runs is not looked at. The cached
  status is that of the last round, with the result of each check under its name.
\<close>

theorem default_health:
  assumes "hc_checks h = create_default_checks url" and "perform_checks env now h = Some h'"
  shows "(is_healthy h' \<longleftrightarrow>
      (\<exists>obj. ce_rpc env url ''web3_clientVersion'' = Replied 200 (Some obj) \<and> map_of obj ''error'' = None) \<and>
      (\<exists>st obj hex n. ce_rpc env url ''net_peerCount'' = Replied st (Some obj) \<and>
         map_of obj ''result'' = Some (JStr hex) \<and> scan_hex_count hex = Some n \<and> 1 \<le> n) \<and>
      (\<exists>st obj. ce_rpc env url ''eth_syncing'' = Replied st (Some obj) \<and> map_of obj ''result'' = Some (JBool False))) \<and>
    hs_timestamp (hc_last h') = now \<and>
    (\<forall>k\<in>set (hc_checks h). map_of (hs_checks (hc_last h')) (check_name k) = Some (execute_check env k))"
proof -
  let ?st = "collect_results env (hc_checks h) \<lparr>hs_healthy = True, hs_timestamp = now, hs_checks = []\<rparr>"
  have last: "hc_last h' = ?st"
    using assms(2) by (auto simp: perform_checks_def send_status_update_def Let_def split: if_splits)
  have p: "process_check env '''' = Inr ()" by (simp add: process_check_def)
  have r: "rpc_health_check env url = Inr () \<longleftrightarrow>
      (\<exists>obj. ce_rpc env url ''web3_clientVersion'' = Replied 200 (Some obj) \<and> map_of obj ''error'' = None)"
    by (auto simp: rpc_health_check_def split: rpc_reply.splits option.splits)
  have c: "peer_count_check env 1 url = Inr () \<longleftrightarrow>
      (\<exists>st obj hex n. ce_rpc env url ''net_peerCount'' = Replied st (Some obj) \<and>
         map_of obj ''result'' = Some (JStr hex) \<and> scan_hex_count hex = Some n \<and> 1 \<le> n)"
    by (auto simp: peer_count_check_def split: rpc_reply.splits option.splits json.splits)
  have s: "syncing_check env url = Inr () \<longleftrightarrow>
      (\<exists>st obj. ce_rpc env url ''eth_syncing'' = Replied st (Some obj) \<and> map_of obj ''result'' = Some (JBool False))"
    by (auto simp: syncing_check_def split: rpc_reply.splits option.splits json.splits bool.splits)
  have "is_healthy h' \<longleftrightarrow> (\<forall>k\<in>set (hc_checks h). run_check env k = Inr ())"
    by (simp add: is_healthy_def last collect_healthy)
  then have "is_healthy h' \<longleftrightarrow> rpc_health_check env url = Inr () \<and> peer_count_check env 1 url = Inr () \<and>
      syncing_check env url = Inr ()"
    by (simp add: assms(1) create_default_checks_def p)
  moreover have "distinct (map check_name (hc_checks h))" by (simp add: assms(1) create_default_checks_def)
  ultimately show ?thesis
    using r c s collect_lookup [of "hc_checks h"] by (simp add: last collect_timestamp)
qed

definition demo_reply :: "string \<Rightarrow> rpc_reply" where
  "demo_reply m = Replied 200 (Some (if m = ''net_peerCount'' then [(''result'', JStr ''0x1a'')]
     else if m = ''eth_syncing'' then [(''result'', JBool False)] else [(''result'', JStr ''v'')]))"

theorem default_health_witness:
  "\<exists>h'. perform_checks \<lparr>ce_pid_file = \<lambda>_. None, ce_pid_alive = \<lambda>_. False, ce_rpc = \<lambda>_. demo_reply, ce_statfs = \<lambda>_. None\<rparr> 5
      (new_health_checker (default_config ''/w'' '''')) = Some h' \<and> is_healthy h'"
proof -
  let ?env = "\<lparr>ce_pid_file = \<lambda>_. None, ce_pid_alive = \<lambda>_. False, ce_rpc = \<lambda>_. demo_reply, ce_statfs = \<lambda>_. None\<rparr>"
  let ?h = "new_health_checker (default_config ''/w'' '''')"
  have k: "hc_checks ?h = create_default_checks (hc_rpc_url ?h)" by (simp add: new_health_checker_def Let_def)
  obtain h' where p: "perform_checks ?env 5 ?h = Some h'" using perform_ok [OF new_checker_ok] by blast
  have "scan_hex_count ''0x1a'' = Some 26" by code_simp
  then have "is_healthy h'" unfolding default_health [OF k p, THEN conjunct1] by (simp add: demo_reply_def)
  with p show ?thesis by blast
qed

text \<open>
  The status channel is never closed: whatever the order of starts, ticks, stops, exits of the loop
  and receptions, no step panics and the channel stays open, so that a receiver that ranges over it
  waits for ever after the checker was stopped; and it holds at most one status, the oldest not yet
  received.
\<close>

theorem status_channel_stays_open:
  "\<exists>h. health_run ops (new_health_checker c) = Some h \<and> \<not> ch_closed (hc_chan h) \<and> length (ch_buf (hc_chan h)) \<le> 1"
  using health_run_ok [OF new_checker_ok] by (auto simp: hc_ok_def)

end
