(* ===== verification/ApiAuth.thy ===== *)
theory ApiAuth
  imports Prelude
begin

text \<open>
  \<open>internal/api/middleware.go\<close>: authentication, roles and the rate limiter. A middleware lets a request go
  on with what it stored in the request's context, or answers it with a status. The signature check of a
  token is the library's; what it makes of a token under a secret is an argument.
\<close>

record api_key =
  ak_key :: string
  ak_name :: string
  ak_roles :: "string list"
  ak_limit :: int
  ak_created :: time
  ak_last_used :: "time option"

record auth =
  au_secret :: string
  au_keys :: "(string, api_key) gomap"

record req_context =
  rc_username :: "string option"
  rc_key_name :: "string option"
  rc_roles :: "string list option"

datatype verdict = Go_on req_context | Answered int string | Handler_panics

record jwt_claims =
  jc_username :: string
  jc_roles :: "string list"

text \<open>A token: the family of its signing method, and its claims when it is valid under a secret at a time.\<close>

record jwt_lib =
  jl_hmac :: "string \<Rightarrow> bool"
  jl_valid :: "string \<Rightarrow> string \<Rightarrow> time \<Rightarrow> jwt_claims option"

definition new_auth :: "string \<Rightarrow> auth" where
  "new_auth secret = \<lparr>au_secret = secret, au_keys = []\<rparr>"

definition add_api_key :: "time \<Rightarrow> string \<Rightarrow> string \<Rightarrow> string list \<Rightarrow> auth \<Rightarrow> auth" where
  "add_api_key now key name roles a =
     a\<lparr>au_keys := gm_put key \<lparr>ak_key = key, ak_name = name, ak_roles = roles, ak_limit = 60, ak_created = now,
        ak_last_used = None\<rparr> (au_keys a)\<rparr>"

definition validate_jwt :: "jwt_lib \<Rightarrow> time \<Rightarrow> string \<Rightarrow> auth \<Rightarrow> req_context \<Rightarrow> req_context option" where
  "validate_jwt lib now token a ctx =
     (if \<not> jl_hmac lib token then None
      else (case jl_valid lib (au_secret a) token now of
              None \<Rightarrow> None
            | Some c \<Rightarrow> Some (ctx\<lparr>rc_username := Some (jc_username c), rc_roles := Some (jc_roles c)\<rparr>)))"

text \<open>A key that is not found is logged by its first eight characters: a shorter one panics, \<open>None\<close>.\<close>

definition validate_api_key :: "time \<Rightarrow> string \<Rightarrow> auth \<Rightarrow> req_context \<Rightarrow> (auth \<times> req_context option) option" where
  "validate_api_key now key a ctx =
     (case map_of (au_keys a) key of
        None \<Rightarrow> if length key < 8 then None else Some (a, None)
      | Some k \<Rightarrow>
          Some (a\<lparr>au_keys := gm_put key (k\<lparr>ak_last_used := Some now\<rparr>) (au_keys a)\<rparr>,
            Some (ctx\<lparr>rc_key_name := Some (ak_name k), rc_roles := Some (ak_roles k)\<rparr>)))"

definition bearer :: string where "bearer = ''Bearer ''"

definition authenticate :: "jwt_lib \<Rightarrow> time \<Rightarrow> string \<Rightarrow> string \<Rightarrow> auth \<Rightarrow> req_context \<Rightarrow> auth \<times> verdict" where
  "authenticate lib now auth_header key_header a ctx =
     (let by_token = (if auth_header \<noteq> '''' \<and> take (length bearer) auth_header = bearer
                      then validate_jwt lib now (drop (length bearer) auth_header) a ctx else None) in
      case by_token of
        Some ctx1 \<Rightarrow> (a, Go_on ctx1)
      | None \<Rightarrow>
          if key_header \<noteq> '''' then
            (case validate_api_key now key_header a ctx of
               None \<Rightarrow> (a, Handler_panics)
             | Some (a1, Some ctx1) \<Rightarrow> (a1, Go_on ctx1)
             | Some (a1, None) \<Rightarrow> (a1, Answered 401 ''Authentication required''))
          else (a, Answered 401 ''Authentication required''))"

definition require_role :: "string list \<Rightarrow> req_context \<Rightarrow> verdict" where
  "require_role roles ctx =
     (case rc_roles ctx of
        None \<Rightarrow> Answered 403 ''No roles found''
      | Some rs \<Rightarrow>
          if \<exists>q\<in>set roles. \<exists>r\<in>set rs. r = q \<or> r = ''admin'' then Go_on ctx
          else Answered 403 ''Insufficient permissions'')"

text \<open>\<open>GenerateJWT\<close>: the claims that are signed, and the times the library puts into them.\<close>

record signed_claims =
  sc_claims :: jwt_claims
  sc_expires :: time
  sc_issued :: time
  sc_issuer :: string

definition generate_jwt :: "time \<Rightarrow> string \<Rightarrow> string list \<Rightarrow> signed_claims" where
  "generate_jwt now user roles =
     \<lparr>sc_claims = \<lparr>jc_username = user, jc_roles = roles\<rparr>, sc_expires = now + 24 * 60 * minute, sc_issued = now,
      sc_issuer = ''wemixvisor''\<rparr>"

definition basic_auth :: "string \<Rightarrow> string \<Rightarrow> (string \<times> string) option \<Rightarrow> req_context \<Rightarrow> verdict" where
  "basic_auth user pass given ctx =
     (case given of
        None \<Rightarrow> Answered 401 ''Basic authentication required''
      | Some (u, p) \<Rightarrow> if u \<noteq> user \<or> p \<noteq> pass then Answered 401 ''Invalid credentials'' else Go_on ctx)"

section \<open>The rate limiter\<close>

text \<open>Its state is the times of the accepted requests of the last minute, by client.\<close>

type_synonym limiter = "(string, time list) gomap"

definition seen :: "string \<Rightarrow> limiter \<Rightarrow> time list" where
  "seen ip m = (case map_of m ip of Some ts \<Rightarrow> ts | None \<Rightarrow> [])"

definition limit_step :: "int \<Rightarrow> string \<times> time \<Rightarrow> limiter \<Rightarrow> limiter \<times> bool" where
  "limit_step n req m =
     (case req of (ip, now) \<Rightarrow>
        let m1 = (case map_of m ip of
                    Some ts \<Rightarrow> gm_put ip (filter (\<lambda>t. t > now - minute) ts) m | None \<Rightarrow> m) in
        if int (length (seen ip m1)) \<ge> n then (m1, False)
        else (gm_put ip (seen ip m1 @ [now]) m1, True))"

fun limit_run :: "int \<Rightarrow> (string \<times> time) list \<Rightarrow> limiter \<Rightarrow> bool list" where
  "limit_run n [] m = []"
| "limit_run n (r # rs) m = (case limit_step n r m of (m1, ok) \<Rightarrow> ok # limit_run n rs m1)"

section \<open>Lemmas\<close>

text \<open>The times at which the requests of a client were accepted.\<close>

definition accepted_times :: "string \<Rightarrow> (string \<times> time) list \<Rightarrow> bool list \<Rightarrow> time list" where
  "accepted_times ip rs oks = map (\<lambda>((_, t), _). t) (filter (\<lambda>((j, _), ok). j = ip \<and> ok) (zip rs oks))"

definition recent :: "time \<Rightarrow> time list \<Rightarrow> nat" where
  "recent now ts = length (filter (\<lambda>t. now - minute < t \<and> t \<le> now) ts)"

lemma limit_run_length [simp]: "length (limit_run n rs m) = length rs"
  by (induction rs arbitrary: m) (auto split: prod.splits)

text \<open>
  The limiter remembers, of the accepted times so far, at least those within a minute of the latest
  request, and no others but older ones it has not yet dropped.
\<close>

definition remembers :: "limiter \<Rightarrow> string \<Rightarrow> time list \<Rightarrow> time \<Rightarrow> bool" where
  "remembers m ip past now \<longleftrightarrow>
     filter (\<lambda>t. now - minute < t) (seen ip m) = filter (\<lambda>t. now - minute < t) past \<and> (\<forall>t\<in>set past. t \<le> now)"

lemma seen_put [simp]: "seen ip (gm_put j ts m) = (if ip = j then ts else seen ip m)"
  by (simp add: seen_def)

lemma later_filter:
  assumes "filter (\<lambda>t. a < t) xs = filter (\<lambda>t. a < t) ys" and "a \<le> (b::int)"
  shows "filter (\<lambda>t. b < t) xs = filter (\<lambda>t. b < t) ys"
proof -
  have "filter (\<lambda>t. b < t) zs = filter (\<lambda>t. b < t) (filter (\<lambda>t. a < t) zs)" for zs
    using assms(2) by (auto simp: filter_filter intro!: filter_cong)
  then show ?thesis using assms(1) by metis
qed

lemma remembers_later:
  "remembers m ip past a \<Longrightarrow> a \<le> b \<Longrightarrow> remembers m ip past b"
  using later_filter [of "a - minute" "seen ip m" past "b - minute"] by (auto simp: remembers_def)

text \<open>One request of the client itself.\<close>

lemma step_self:
  assumes "remembers m ip past now" and "limit_step n (ip, now) m = (m1, ok)"
  shows "remembers m1 ip (if ok then past @ [now] else past) now"
    and "ok \<Longrightarrow> int (recent now (past @ [now])) \<le> n" and "\<not> ok \<Longrightarrow> n \<le> int (recent now past)"
proof -
  define l where "l = filter (\<lambda>t. now - minute < t) (seen ip m)"
  have past: "l = filter (\<lambda>t. now - minute < t) past" "\<forall>t\<in>set past. t \<le> now"
    using assms(1) by (simp_all add: remembers_def l_def)
  have rec: "recent now past = length l"
    unfolding past(1) recent_def by (rule arg_cong [of _ _ length], rule filter_cong) (use past(2) in auto)
  define m0 where "m0 = (case map_of m ip of
      Some ts \<Rightarrow> gm_put ip (filter (\<lambda>t. t > now - minute) ts) m | None \<Rightarrow> m)"
  have s0: "seen ip m0 = l"
    by (auto simp: m0_def l_def seen_def split: option.splits)
  have st: "limit_step n (ip, now) m =
      (if int (length (seen ip m0)) \<ge> n then (m0, False) else (gm_put ip (seen ip m0 @ [now]) m0, True))"
    by (simp add: limit_step_def m0_def Let_def)
  have ll: "filter (\<lambda>t. now - minute < t) l = l" by (simp add: l_def)
  show "remembers m1 ip (if ok then past @ [now] else past) now"
    using assms(2) st s0 past ll by (auto simp: remembers_def split: if_splits)
  show "int (recent now (past @ [now])) \<le> n" if ok
    using that assms(2) st s0 rec by (auto simp: recent_def split: if_splits)
  show "n \<le> int (recent now past)" if "\<not> ok"
    using that assms(2) st s0 rec by (auto split: if_splits)
qed

lemma step_other:
  "j \<noteq> ip \<Longrightarrow> limit_step n (j, now) m = (m1, ok) \<Longrightarrow> seen ip m1 = seen ip m"
  by (auto simp: limit_step_def Let_def split: if_splits option.splits)

lemma run_bounded:
  assumes "sorted (map snd rs)" and "\<forall>t\<in>snd ` set rs. start \<le> t" and "remembers m ip past start"
    and "i < length rs" and "fst (rs ! i) = ip"
  shows "(limit_run n rs m ! i \<longrightarrow>
      int (recent (snd (rs ! i)) (past @ accepted_times ip (take (Suc i) rs) (limit_run n rs m))) \<le> n) \<and>
    (\<not> limit_run n rs m ! i \<longrightarrow>
      n \<le> int (recent (snd (rs ! i)) (past @ accepted_times ip (take i rs) (limit_run n rs m))))"
  using assms
proof (induction rs arbitrary: m past start i)
  case (Cons r rs)
  obtain j now where r: "r = (j, now)" by fastforce
  obtain m1 ok where st: "limit_step n r m = (m1, ok)" by fastforce
  have rem: "remembers m ip past now" using Cons.prems(2,3) r by (auto intro: remembers_later)
  define past1 where "past1 = (if j = ip \<and> ok then past @ [now] else past)"
  have rem1: "remembers m1 ip past1 now"
  proof (cases "j = ip")
    case True
    with step_self(1) [OF rem] st r show ?thesis by (auto simp: past1_def)
  next
    case False
    with step_other [OF False] st r rem show ?thesis by (auto simp: past1_def remembers_def)
  qed
  have acc: "past @ accepted_times ip (take (Suc k) (r # rs)) (limit_run n (r # rs) m) =
      past1 @ accepted_times ip (take k rs) (limit_run n rs m1)" for k
    using st r by (simp add: accepted_times_def past1_def)
  show ?case
  proof (cases i)
    case 0
    with Cons.prems(5) r have "j = ip" by simp
    with 0 st r step_self(2,3) [OF rem] show ?thesis
      by (auto simp: accepted_times_def)
  next
    case (Suc k)
    have s: "sorted (map snd rs)" "\<forall>t\<in>snd ` set rs. now \<le> t" using Cons.prems(1) r by auto
    from Cons.IH [OF s rem1, of k] Cons.prems(4,5) Suc st acc show ?thesis by simp
  qed
qed simp

section \<open>Properties\<close>

text \<open>
  C25. The rate limiter keeps its limit and no more: with a clock that does not go back, a request is let
  through exactly when it is, with the accepted requests of the same client in the minute before it, at
  most the allowed number; requests of other clients and refused requests do not count.
\<close>

theorem rate_limit_holds:
  assumes "sorted (map snd rs)" and "i < length rs" and "rs ! i = (ip, now)" and "oks = limit_run n rs []"
  shows "(oks ! i \<longrightarrow> int (recent now (accepted_times ip (take (Suc i) rs) oks)) \<le> n) \<and>
    (\<not> oks ! i \<longrightarrow> n \<le> int (recent now (accepted_times ip (take i rs) oks)))"
proof -
  from assms(2) have ne: "rs \<noteq> []" by auto
  have all: "\<forall>t\<in>snd ` set rs. snd (hd rs) \<le> t"
    using assms(1) ne by (cases rs) auto
  have "remembers [] ip [] (snd (hd rs))" by (simp add: remembers_def seen_def)
  from run_bounded [OF assms(1) all this assms(2)] assms(3,4) show ?thesis by simp
qed

theorem rate_limit_holds_witness:
  "int (recent 2 (accepted_times ''a'' (take 3 [(''a'', 0), (''b'', 1), (''a'', 2), (''a'', 3)])
     (limit_run 2 [(''a'', 0), (''b'', 1), (''a'', 2), (''a'', 3)] []))) \<le> 2"
proof -
  let ?rs = "[(''a'', 0), (''b'', 1), (''a'', 2), (''a'', 3)] :: (string \<times> time) list"
  have h: "sorted (map snd ?rs)" "2 < length ?rs" "?rs ! 2 = (''a'', 2)" by simp_all
  have "limit_run 2 ?rs [] ! 2" by code_simp
  with rate_limit_holds [OF h refl, of 2, THEN conjunct1] show ?thesis by simp
qed

text \<open>
  Who gets in: a request passes the authentication exactly when its bearer token is of the HMAC
  family and valid under the server's secret, or its API key is one that was added; it then carries the
  roles of the token or the key. An API key of fewer than eight characters that is not known panics in
  the handler, where a longer one is refused.
\<close>

theorem authentication_admits:
  shows "(\<exists>ctx1. snd (authenticate lib now hdr key a ctx) = Go_on ctx1) \<longleftrightarrow>
      (\<exists>tok c. hdr = bearer @ tok \<and> jl_hmac lib tok \<and> jl_valid lib (au_secret a) tok now = Some c) \<or>
      (key \<noteq> '''' \<and> map_of (au_keys a) key \<noteq> None)"
    (is "?go \<longleftrightarrow> ?tok \<or> ?key")
proof -
  have pre: "(hdr \<noteq> '''' \<and> take (length bearer) hdr = bearer) \<longleftrightarrow> (\<exists>tok. hdr = bearer @ tok)"
  proof
    assume "hdr \<noteq> '''' \<and> take (length bearer) hdr = bearer"
    then have "hdr = bearer @ drop (length bearer) hdr" by (metis append_take_drop_id)
    then show "\<exists>tok. hdr = bearer @ tok" ..
  next
    assume "\<exists>tok. hdr = bearer @ tok"
    then show "hdr \<noteq> '''' \<and> take (length bearer) hdr = bearer" by (auto simp: bearer_def)
  qed
  show ?thesis
  proof (cases ?tok)
    case True
    then obtain tok c where "hdr = bearer @ tok" "jl_hmac lib tok" "jl_valid lib (au_secret a) tok now = Some c" by blast
    then show ?thesis by (auto simp: authenticate_def validate_jwt_def bearer_def Let_def)
  next
    case False
    have "(if hdr \<noteq> '''' \<and> take (length bearer) hdr = bearer
        then validate_jwt lib now (drop (length bearer) hdr) a ctx else None) = None"
    proof (cases "hdr \<noteq> '''' \<and> take (length bearer) hdr = bearer")
      case True
      with pre obtain tok where "hdr = bearer @ tok" by blast
      with False have "validate_jwt lib now tok a ctx = None"
        by (auto simp: validate_jwt_def split: option.splits)
      with \<open>hdr = bearer @ tok\<close> show ?thesis by simp
    next
      case False
      then show ?thesis by (rule if_not_P)
    qed
    then have "snd (authenticate lib now hdr key a ctx) =
        (if key \<noteq> '''' then (case validate_api_key now key a ctx of
             None \<Rightarrow> Handler_panics | Some (_, Some ctx1) \<Rightarrow> Go_on ctx1
           | Some (_, None) \<Rightarrow> Answered 401 ''Authentication required'')
         else Answered 401 ''Authentication required'')"
      by (simp add: authenticate_def Let_def split: option.splits prod.splits)
    with False show ?thesis
      by (auto simp: validate_api_key_def split: option.splits if_splits)
  qed
qed

text \<open>An unknown short key.\<close>

lemma short_key_panics:
  assumes "key \<noteq> ''''" and "length key < 8" and "map_of (au_keys a) key = None"
  shows "snd (authenticate lib now '''' key a ctx) = Handler_panics"
  using assms by (simp add: authenticate_def validate_api_key_def)

text \<open>Without required roles nobody passes, not even an administrator.\<close>

lemma require_role_admits:
  "require_role roles ctx = Go_on ctx \<longleftrightarrow>
     (\<exists>rs. rc_roles ctx = Some rs \<and> roles \<noteq> [] \<and> (''admin'' \<in> set rs \<or> set roles \<inter> set rs \<noteq> {}))"
  by (cases roles) (auto simp: require_role_def split: option.splits)

end
