(* ===== verification/Proposals.thy ===== *)
theory Proposals
  imports Validation Complex_Main
begin

text \<open>
  \<open>internal/governance/types.go\<close>, \<open>client.go\<close> and \<open>proposals.go\<close>: governance proposals, what the client
  makes of a decoded answer of the node, and the tracker that keeps every proposal it has seen and
  two views of them, active and completed. A proposal is never changed in place, so the three maps
  hold values. \<open>ProposalType\<close>, \<open>ProposalStatus\<close> and \<open>UpgradeStatus\<close> are string types in the source
  and stay strings here; a metadata object is its JSON text.
\<close>

section \<open>Types\<close>

abbreviation type_upgrade :: string where "type_upgrade \<equiv> ''upgrade''"
abbreviation type_parameter :: string where "type_parameter \<equiv> ''parameter''"
abbreviation type_text :: string where "type_text \<equiv> ''text''"
abbreviation type_community :: string where "type_community \<equiv> ''community''"

abbreviation status_submitted :: string where "status_submitted \<equiv> ''submitted''"
abbreviation status_voting :: string where "status_voting \<equiv> ''voting''"
abbreviation status_passed :: string where "status_passed \<equiv> ''passed''"
abbreviation status_rejected :: string where "status_rejected \<equiv> ''rejected''"
abbreviation status_failed :: string where "status_failed \<equiv> ''failed''"
abbreviation status_expired :: string where "status_expired \<equiv> ''expired''"

abbreviation up_scheduled :: string where "up_scheduled \<equiv> ''scheduled''"
abbreviation up_in_progress :: string where "up_in_progress \<equiv> ''in_progress''"
abbreviation up_completed :: string where "up_completed \<equiv> ''completed''"
abbreviation up_failed :: string where "up_failed \<equiv> ''failed''"
abbreviation up_cancelled :: string where "up_cancelled \<equiv> ''cancelled''"

record gov_binary =
  gb_url :: string
  gb_checksum :: string
  gb_platform :: string
  gb_arch :: string

record gov_upgrade =
  gu_name :: string
  gu_height :: int
  gu_info :: string
  gu_binaries :: "(string, gov_binary) gomap option"
  gu_upgrade_url :: string
  gu_checksum_url :: string
  gu_metadata :: "string option"
  gu_status :: string
  gu_scheduled_time :: time
  gu_started_time :: "time option"
  gu_completed_time :: "time option"

record voting_stats =
  vs_yes :: int
  vs_no :: int
  vs_abstain :: int
  vs_no_with_veto :: int
  vs_total :: int
  vs_turnout :: rat
  vs_quorum_reached :: bool
  vs_threshold_met :: bool

record proposal =
  pr_id :: string
  pr_title :: string
  pr_description :: string
  pr_type :: string
  pr_status :: string
  pr_proposer :: string
  pr_submit_time :: time
  pr_voting_end_time :: time
  pr_upgrade_height :: int
  pr_upgrade_info :: "gov_upgrade option"
  pr_metadata :: "string option"
  pr_voting_stats :: "voting_stats option"

section \<open>The client\<close>

text \<open>One element of the answer to \<open>gov/proposals\<close>, and the answer to \<open>gov/proposal\<close>, as decoded.\<close>

record raw_proposal =
  rp_id :: string
  rp_content_type :: string
  rp_title :: string
  rp_description :: string
  rp_plan_name :: string
  rp_plan_height :: string
  rp_plan_info :: string
  rp_status :: string
  rp_submit_time :: time
  rp_voting_end_time :: time

definition empty_proposal :: proposal where
  "empty_proposal = \<lparr>pr_id = '''', pr_title = '''', pr_description = '''', pr_type = '''', pr_status = '''',
     pr_proposer = '''', pr_submit_time = 0, pr_voting_end_time = 0, pr_upgrade_height = 0,
     pr_upgrade_info = None, pr_metadata = None, pr_voting_stats = None\<rparr>"

definition plan_height :: "string \<Rightarrow> int" where
  "plan_height s =
     (if s \<noteq> '''' then (case scan_int s of Some (h, _) \<Rightarrow> h | None \<Rightarrow> 0) else 0)"

definition decode_list_proposal :: "raw_proposal \<Rightarrow> proposal" where
  "decode_list_proposal r =
     (let p = empty_proposal\<lparr>pr_id := rp_id r, pr_title := rp_title r, pr_description := rp_description r,
                pr_status := rp_status r, pr_submit_time := rp_submit_time r,
                pr_voting_end_time := rp_voting_end_time r\<rparr>;
          p1 = (if rp_content_type r = ''/cosmos.upgrade.v1beta1.SoftwareUpgradeProposal''
                then p\<lparr>pr_type := type_upgrade, pr_upgrade_height := plan_height (rp_plan_height r),
                       pr_upgrade_info := Some \<lparr>gu_name = rp_plan_name r,
                         gu_height = plan_height (rp_plan_height r), gu_info = rp_plan_info r,
                         gu_binaries = None, gu_upgrade_url = '''', gu_checksum_url = '''',
                         gu_metadata = None, gu_status = up_scheduled, gu_scheduled_time = 0,
                         gu_started_time = None, gu_completed_time = None\<rparr>\<rparr>
                else if rp_content_type r = ''/cosmos.params.v1beta1.ParameterChangeProposal''
                then p\<lparr>pr_type := type_parameter\<rparr>
                else if rp_content_type r = ''/cosmos.gov.v1beta1.TextProposal''
                then p\<lparr>pr_type := type_text\<rparr>
                else p\<lparr>pr_type := type_community\<rparr>) in
      p1\<lparr>pr_voting_stats := Some \<lparr>vs_yes = 0, vs_no = 0, vs_abstain = 0, vs_no_with_veto = 0,
           vs_total = 0, vs_turnout = 0, vs_quorum_reached = True,
           vs_threshold_met = (rp_status r = status_passed)\<rparr>\<rparr>)"

definition decode_single_proposal :: "raw_proposal \<Rightarrow> proposal" where
  "decode_single_proposal r =
     empty_proposal\<lparr>pr_id := rp_id r, pr_title := rp_title r, pr_description := rp_description r,
       pr_status := rp_status r, pr_submit_time := rp_submit_time r,
       pr_voting_end_time := rp_voting_end_time r\<rparr>"

text \<open>
  The answers of the node: \<open>None\<close> for a failed request or an answer that does not decode. The height
  is a decimal string.
\<close>

record gov_node =
  gn_height :: "string option"
  gn_list :: "string \<Rightarrow> raw_proposal list option"
  gn_single :: "string \<Rightarrow> raw_proposal option"

definition gov_current_height :: "gov_node \<Rightarrow> int option" where
  "gov_current_height node =
     (case gn_height node of
        None \<Rightarrow> None
      | Some s \<Rightarrow> (case scan_int s of Some (h, _) \<Rightarrow> Some h | None \<Rightarrow> None))"

definition get_governance_proposals :: "gov_node \<Rightarrow> string \<Rightarrow> proposal list option" where
  "get_governance_proposals node status = map_option (map decode_list_proposal) (gn_list node status)"

definition get_proposal :: "gov_node \<Rightarrow> string \<Rightarrow> proposal option" where
  "get_proposal node pid = map_option decode_single_proposal (gn_single node pid)"

section \<open>The tracker\<close>

record tracker =
  tr_proposals :: "(string, proposal) gomap"
  tr_active :: "(string, proposal) gomap"
  tr_completed :: "(string, proposal) gomap"
  tr_last_sync_height :: int
  tr_last_sync_time :: time
  tr_sync_interval :: duration
  tr_max_age :: duration
  tr_auto_sync :: bool

definition new_tracker :: tracker where
  "new_tracker = \<lparr>tr_proposals = [], tr_active = [], tr_completed = [], tr_last_sync_height = 0,
     tr_last_sync_time = 0, tr_sync_interval = 30 * second, tr_max_age = 30 * 24 * 60 * minute,
     tr_auto_sync = True\<rparr>"

definition is_active :: "proposal \<Rightarrow> bool" where
  "is_active p \<longleftrightarrow> pr_status p = status_submitted \<or> pr_status p = status_voting"

definition is_completed :: "proposal \<Rightarrow> bool" where
  "is_completed p \<longleftrightarrow> pr_status p = status_passed \<or> pr_status p = status_rejected \<or>
     pr_status p = status_failed \<or> pr_status p = status_expired"

definition update_categories :: "proposal \<Rightarrow> tracker \<Rightarrow> tracker" where
  "update_categories p t =
     (let a = gm_del (pr_id p) (tr_active t); c = gm_del (pr_id p) (tr_completed t) in
      if is_active p then t\<lparr>tr_active := gm_put (pr_id p) p a, tr_completed := c\<rparr>
      else if is_completed p then t\<lparr>tr_active := a, tr_completed := gm_put (pr_id p) p c\<rparr>
      else t\<lparr>tr_active := a, tr_completed := c\<rparr>)"

definition fetch_statuses :: "string list" where
  "fetch_statuses = [status_submitted, status_voting, status_passed, status_rejected]"

definition fetched :: "gov_node \<Rightarrow> proposal list" where
  "fetched node =
     concat (map (\<lambda>s. case get_governance_proposals node s of Some ps \<Rightarrow> ps | None \<Rightarrow> []) fetch_statuses)"

text \<open>The loop of \<open>FetchLatest\<close>; the proposals that are new come out in order.\<close>

definition track :: "string \<Rightarrow> proposal \<Rightarrow> tracker \<Rightarrow> tracker" where
  "track pid p t = update_categories p (t\<lparr>tr_proposals := gm_put pid p (tr_proposals t)\<rparr>)"

fun absorb :: "proposal list \<Rightarrow> tracker \<Rightarrow> tracker \<times> proposal list" where
  "absorb [] t = (t, [])"
| "absorb (p # ps) t =
     (case absorb ps (track (pr_id p) p t) of
        (t2, news) \<Rightarrow> (t2, if map_of (tr_proposals t) (pr_id p) = None then p # news else news))"

definition fetch_latest :: "gov_node \<Rightarrow> time \<Rightarrow> tracker \<Rightarrow> tracker \<times> proposal list" where
  "fetch_latest node now t =
     (case absorb (fetched node) t of (t1, news) \<Rightarrow> (t1\<lparr>tr_last_sync_time := now\<rparr>, news))"

definition tracker_start :: "gov_node \<Rightarrow> time \<Rightarrow> tracker \<Rightarrow> tracker" where
  "tracker_start node now t = fst (fetch_latest node now (t\<lparr>tr_auto_sync := True\<rparr>))"

definition tracker_stop :: "tracker \<Rightarrow> tracker" where
  "tracker_stop t = t\<lparr>tr_auto_sync := False\<rparr>"

definition newest_first :: "proposal list \<Rightarrow> proposal list" where
  "newest_first ps = sort_slice (\<lambda>p q. pr_submit_time p > pr_submit_time q) ps"

definition get_active :: "tracker \<Rightarrow> proposal list" where
  "get_active t = newest_first (map snd (tr_active t))"

definition get_all :: "tracker \<Rightarrow> proposal list" where
  "get_all t = newest_first (map snd (tr_proposals t))"

definition get_by_id :: "string \<Rightarrow> tracker \<Rightarrow> proposal option" where
  "get_by_id pid t = map_of (tr_proposals t) pid"

definition get_by_type :: "string \<Rightarrow> tracker \<Rightarrow> proposal list" where
  "get_by_type ty t = newest_first (filter (\<lambda>p. pr_type p = ty) (map snd (tr_proposals t)))"

definition update_voting_status :: "gov_node \<Rightarrow> string \<Rightarrow> tracker \<Rightarrow> tracker \<times> bool" where
  "update_voting_status node pid t =
     (case get_proposal node pid of
        None \<Rightarrow> (t, False)
      | Some p \<Rightarrow> (track pid p t, True))"

definition tracker_sync :: "gov_node \<Rightarrow> time \<Rightarrow> tracker \<Rightarrow> tracker" where
  "tracker_sync node now t =
     (let t1 = fst (fetch_latest node now t) in
      case gov_current_height node of
        None \<Rightarrow> t1
      | Some h \<Rightarrow> t1\<lparr>tr_last_sync_height := h\<rparr>)"

definition tracker_cleanup :: "time \<Rightarrow> tracker \<Rightarrow> tracker" where
  "tracker_cleanup now t =
     (let cutoff = now - tr_max_age t;
          old = (\<lambda>pid. case map_of (tr_completed t) pid of
                        Some p \<Rightarrow> pr_voting_end_time p < cutoff | None \<Rightarrow> False) in
      t\<lparr>tr_proposals := filter (\<lambda>(pid, _). \<not> old pid) (tr_proposals t),
        tr_completed := filter (\<lambda>(pid, _). \<not> old pid) (tr_completed t)\<rparr>)"

fun bump :: "string \<Rightarrow> (string, nat) gomap \<Rightarrow> (string, nat) gomap" where
  "bump k m = gm_put k (Suc (case map_of m k of Some n \<Rightarrow> n | None \<Rightarrow> 0)) m"

record proposal_stats =
  pst_total :: nat
  pst_active :: nat
  pst_completed :: nat
  pst_by_type :: "(string, nat) gomap"
  pst_by_status :: "(string, nat) gomap"

definition get_proposal_stats :: "tracker \<Rightarrow> proposal_stats" where
  "get_proposal_stats t =
     \<lparr>pst_total = length (tr_proposals t), pst_active = length (tr_active t),
      pst_completed = length (tr_completed t),
      pst_by_type = fold (\<lambda>(_, p). bump (pr_type p)) (tr_proposals t) [],
      pst_by_status = fold (\<lambda>(_, p). bump (pr_status p)) (tr_proposals t) []\<rparr>"

section \<open>The views\<close>

text \<open>
  The invariant: each map has distinct keys, a proposal is filed under its identifier, and the two
  views are exactly the active and the completed proposals of the first map.
\<close>

definition restrict_view :: "(proposal \<Rightarrow> bool) \<Rightarrow> (string, proposal) gomap \<Rightarrow> string \<Rightarrow> proposal option" where
  "restrict_view P m pid = (case map_of m pid of Some p \<Rightarrow> if P p then Some p else None | None \<Rightarrow> None)"

definition tracker_ok :: "tracker \<Rightarrow> bool" where
  "tracker_ok t \<longleftrightarrow>
     gm_ok (tr_proposals t) \<and> gm_ok (tr_active t) \<and> gm_ok (tr_completed t) \<and>
     (\<forall>pid p. map_of (tr_proposals t) pid = Some p \<longrightarrow> pr_id p = pid) \<and>
     map_of (tr_active t) = restrict_view is_active (tr_proposals t) \<and>
     map_of (tr_completed t) = restrict_view is_completed (tr_proposals t)"

lemma active_not_completed: "is_active p \<Longrightarrow> \<not> is_completed p"
  by (auto simp: is_active_def is_completed_def)

lemma tracker_ok_new: "tracker_ok new_tracker"
  by (auto simp: tracker_ok_def new_tracker_def restrict_view_def)

lemma tracker_ok_track:
  assumes "tracker_ok t"
  shows "tracker_ok (track (pr_id p) p t)"
  using assms active_not_completed [of p]
  by (auto simp: tracker_ok_def track_def update_categories_def Let_def restrict_view_def fun_eq_iff
      simp del: map_of_eq_Some_iff)

lemma absorb_Cons:
  "fst (absorb (p # ps) t) = fst (absorb ps (track (pr_id p) p t))"
  "snd (absorb (p # ps) t) = (if map_of (tr_proposals t) (pr_id p) = None then [p] else []) @
     snd (absorb ps (track (pr_id p) p t))"
  by (simp_all split: prod.splits)

lemma track_proposals [simp]: "tr_proposals (track pid p t) = gm_put pid p (tr_proposals t)"
  by (simp add: track_def update_categories_def Let_def)

lemma tracker_ok_absorb: "tracker_ok t \<Longrightarrow> tracker_ok (fst (absorb ps t))"
  by (induction ps arbitrary: t) (simp_all add: absorb_Cons tracker_ok_track del: absorb.simps(2))

lemma tracker_ok_fetch: "tracker_ok t \<Longrightarrow> tracker_ok (fst (fetch_latest node now t))"
  using tracker_ok_absorb [of t "fetched node"]
  by (auto simp: fetch_latest_def tracker_ok_def split: prod.splits)

lemma tracker_ok_vote:
  assumes "tracker_ok t" and "\<forall>r. gn_single node pid = Some r \<longrightarrow> rp_id r = pid"
  shows "tracker_ok (fst (update_voting_status node pid t))"
proof (cases "gn_single node pid")
  case None
  with assms show ?thesis by (simp add: update_voting_status_def get_proposal_def)
next
  case (Some r)
  then have "pr_id (decode_single_proposal r) = pid"
    using assms(2) by (simp add: decode_single_proposal_def)
  with Some tracker_ok_track [OF assms(1), of "decode_single_proposal r"] show ?thesis
    by (simp add: update_voting_status_def get_proposal_def)
qed

lemma map_of_filter_keys:
  "map_of (filter (\<lambda>(k, _). P k) m) k = (if P k then map_of m k else None)"
  by (induction m) auto

lemma tracker_ok_cleanup: "tracker_ok t \<Longrightarrow> tracker_ok (tracker_cleanup now t)"
  by (auto simp: tracker_ok_def tracker_cleanup_def Let_def restrict_view_def map_of_filter_keys
      fun_eq_iff is_active_def is_completed_def split: option.splits if_splits)

text \<open>Every step of the tracker.\<close>

datatype tracker_op =
  T_start gov_node time | T_stop | T_fetch gov_node time | T_vote gov_node string
| T_sync gov_node time | T_cleanup time

fun tracker_apply :: "tracker_op \<Rightarrow> tracker \<Rightarrow> tracker" where
  "tracker_apply (T_start node now) t = tracker_start node now t"
| "tracker_apply T_stop t = tracker_stop t"
| "tracker_apply (T_fetch node now) t = fst (fetch_latest node now t)"
| "tracker_apply (T_vote node pid) t = fst (update_voting_status node pid t)"
| "tracker_apply (T_sync node now) t = tracker_sync node now t"
| "tracker_apply (T_cleanup now) t = tracker_cleanup now t"

text \<open>The node answers a question for one proposal with that proposal.\<close>

fun honest_op :: "tracker_op \<Rightarrow> bool" where
  "honest_op (T_vote node pid) = (\<forall>r. gn_single node pid = Some r \<longrightarrow> rp_id r = pid)"
| "honest_op _ = True"

lemma tracker_ok_update [simp]:
  "tracker_ok (t\<lparr>tr_auto_sync := b\<rparr>) = tracker_ok t"
  "tracker_ok (t\<lparr>tr_last_sync_height := h\<rparr>) = tracker_ok t"
  "tracker_ok (t\<lparr>tr_last_sync_time := now\<rparr>) = tracker_ok t"
  by (simp_all add: tracker_ok_def)

lemma tracker_ok_apply: "honest_op op \<Longrightarrow> tracker_ok t \<Longrightarrow> tracker_ok (tracker_apply op t)"
  by (cases op) (auto simp: tracker_start_def tracker_stop_def tracker_sync_def Let_def
      tracker_ok_fetch tracker_ok_vote tracker_ok_cleanup split: option.splits)

definition tracker_run :: "tracker_op list \<Rightarrow> tracker \<Rightarrow> tracker" where
  "tracker_run ops t = fold tracker_apply ops t"

lemma tracker_ok_run: "\<forall>op\<in>set ops. honest_op op \<Longrightarrow> tracker_ok t \<Longrightarrow> tracker_ok (tracker_run ops t)"
  unfolding tracker_run_def by (induction ops arbitrary: t) (auto simp: tracker_ok_apply)

lemma set_snd_map:
  assumes "gm_ok m"
  shows "v \<in> snd ` set m \<longleftrightarrow> (\<exists>k. map_of m k = Some v)"
proof -
  have "(\<exists>k. map_of m k = Some v) \<longleftrightarrow> (\<exists>k. (k, v) \<in> set m)" using assms by simp
  then show ?thesis by force
qed

lemma newest_first_mset: "mset (newest_first ps) = mset ps"
  unfolding newest_first_def by (rule gosort.srt_mset)

lemma newest_first_sorted:
  "sorted_wrt (\<lambda>p q. pr_submit_time q \<le> pr_submit_time p) (newest_first ps)"
proof -
  have "strict_weak (\<lambda>p q. pr_submit_time q < pr_submit_time p)" by (rule strict_weak_key_desc)
  from gosort.srt_ordered [OF this, of ps] show ?thesis
    unfolding newest_first_def by (simp only: not_less)
qed

lemma restrict_view_Some: "restrict_view P m k = Some p \<longleftrightarrow> map_of m k = Some p \<and> P p"
  unfolding restrict_view_def by (cases "map_of m k") auto

lemma get_active_members:
  assumes "tracker_ok t"
  shows "p \<in> set (get_active t) \<longleftrightarrow> is_active p \<and> map_of (tr_proposals t) (pr_id p) = Some p"
proof -
  have g: "gm_ok (tr_active t)" using assms by (simp add: tracker_ok_def)
  have "set (get_active t) = snd ` set (tr_active t)"
    unfolding get_active_def newest_first_def gosort.srt_set by simp
  then have "p \<in> set (get_active t) \<longleftrightarrow> (\<exists>k. map_of (tr_active t) k = Some p)"
    by (simp only: set_snd_map [OF g])
  also have "\<dots> \<longleftrightarrow> (\<exists>k. map_of (tr_proposals t) k = Some p) \<and> is_active p"
    using assms by (simp add: tracker_ok_def restrict_view_Some del: map_of_eq_Some_iff)
  also have "\<dots> \<longleftrightarrow> is_active p \<and> map_of (tr_proposals t) (pr_id p) = Some p"
  proof -
    have "pr_id p = k" if "map_of (tr_proposals t) k = Some p" for k
      using assms that unfolding tracker_ok_def by blast
    then show ?thesis by metis
  qed
  finally show ?thesis .
qed

text \<open>What \<open>FetchLatest\<close> reports as new.\<close>

definition untracked :: "tracker \<Rightarrow> string set" where
  "untracked t = {pid. map_of (tr_proposals t) pid = None}"

lemma untracked_track [simp]: "untracked (track pid p t) = untracked t - {pid}"
  by (auto simp: untracked_def)

lemma absorb_known: "untracked (fst (absorb ps t)) = untracked t - pr_id ` set ps"
  by (induction ps arbitrary: t) (auto simp: absorb_Cons simp del: absorb.simps(2))

lemma absorb_news:
  "distinct (map pr_id (snd (absorb ps t))) \<and>
   pr_id ` set (snd (absorb ps t)) = pr_id ` set ps \<inter> untracked t"
proof (induction ps arbitrary: t)
  case Nil
  then show ?case by simp
next
  case (Cons p ps)
  let ?new = "snd (absorb ps (track (pr_id p) p t))"
  have "pr_id ` set ?new = pr_id ` set ps \<inter> (untracked t - {pr_id p})"
    using Cons.IH [of "track (pr_id p) p t"] by simp
  moreover have "map_of (tr_proposals t) (pr_id p) = None \<longleftrightarrow> pr_id p \<in> untracked t"
    by (simp add: untracked_def)
  ultimately show ?case
    using Cons.IH [of "track (pr_id p) p t"] by (auto simp: absorb_Cons simp del: absorb.simps(2))
qed

section \<open>Properties\<close>

text \<open>
  C29. After any run of the tracker's operations on a node that answers a question for one proposal with
  that proposal, the active and completed maps are exactly the tracked proposals whose status is
  active or completed, and \<open>GetActive\<close> lists the active ones, each once, newest first.
\<close>

theorem tracker_views_agree:
  assumes "\<forall>op\<in>set ops. honest_op op" and "t = tracker_run ops new_tracker"
  shows "(map_of (tr_active t) = restrict_view is_active (tr_proposals t)) \<and>
    (map_of (tr_completed t) = restrict_view is_completed (tr_proposals t)) \<and>
    (p \<in> set (get_active t) \<longleftrightarrow> is_active p \<and> get_by_id (pr_id p) t = Some p) \<and>
    (sorted_wrt (\<lambda>p q. pr_submit_time q \<le> pr_submit_time p) (get_active t))"
proof (rule conj4I; (intro impI)?)
  have ok: "tracker_ok t" using tracker_ok_run [OF assms(1) tracker_ok_new] assms(2) by simp
  then show "map_of (tr_active t) = restrict_view is_active (tr_proposals t)"
    and "map_of (tr_completed t) = restrict_view is_completed (tr_proposals t)"
    by (simp_all add: tracker_ok_def)
  show "p \<in> set (get_active t) \<longleftrightarrow> is_active p \<and> get_by_id (pr_id p) t = Some p"
    by (simp add: get_active_members [OF ok] get_by_id_def)
  show "sorted_wrt (\<lambda>p q. pr_submit_time q \<le> pr_submit_time p) (get_active t)"
    by (simp add: get_active_def newest_first_sorted)
qed

definition demo_raw :: "string \<Rightarrow> string \<Rightarrow> time \<Rightarrow> raw_proposal" where
  "demo_raw pid st submitted = \<lparr>rp_id = pid,
     rp_content_type = ''/cosmos.upgrade.v1beta1.SoftwareUpgradeProposal'', rp_title = ''t'',
     rp_description = '''', rp_plan_name = ''v2'', rp_plan_height = ''100'', rp_plan_info = '''',
     rp_status = st, rp_submit_time = submitted, rp_voting_end_time = 50\<rparr>"

definition demo_node :: gov_node where
  "demo_node = \<lparr>gn_height = Some ''120'',
     gn_list = \<lambda>s. if s = status_voting then Some [demo_raw ''1'' status_voting 3, demo_raw ''2'' status_voting 4]
                   else None,
     gn_single = \<lambda>pid. Some (demo_raw pid status_passed 3)\<rparr>"

theorem tracker_views_agree_witness:
  "\<exists>p. pr_id p = ''1'' \<and>
     p \<in> set (get_active (tracker_run [T_fetch demo_node 9] new_tracker))"
proof -
  let ?t = "tracker_run [T_fetch demo_node 9] new_tracker"
  let ?p = "decode_list_proposal (demo_raw ''1'' status_voting 3)"
  have h: "\<forall>op\<in>set [T_fetch demo_node 9]. honest_op op" by simp
  have "is_active ?p \<and> get_by_id (pr_id ?p) ?t = Some ?p"
    by (simp add: tracker_run_def fetch_latest_def fetched_def fetch_statuses_def get_governance_proposals_def
        demo_node_def new_tracker_def update_categories_def Let_def is_active_def get_by_id_def
        decode_list_proposal_def demo_raw_def empty_proposal_def track_def)
  then have "?p \<in> set (get_active ?t)"
    by (simp add: tracker_views_agree [OF h refl, THEN conjunct2, THEN conjunct2, THEN conjunct1])
  moreover have "pr_id ?p = ''1''"
    by (simp add: decode_list_proposal_def demo_raw_def empty_proposal_def Let_def)
  ultimately show ?thesis by blast
qed

text \<open>
  \<open>FetchLatest\<close> reports each proposal as new exactly once: the identifiers it returns are pairwise
  different and are exactly the fetched ones that were not tracked before, and after the call every
  fetched proposal is tracked, so that fetching the same answers again reports nothing.
\<close>

theorem fetch_reports_new_once:
  "distinct (map pr_id (snd (fetch_latest node now t))) \<and>
   pr_id ` set (snd (fetch_latest node now t)) =
     {pid \<in> pr_id ` set (fetched node). get_by_id pid t = None} \<and>
   snd (fetch_latest node now' (fst (fetch_latest node now t))) = []"
proof (rule conj3I)
  obtain t1 news where a: "absorb (fetched node) t = (t1, news)" by fastforce
  have u: "{pid \<in> A. get_by_id pid t = None} = A \<inter> untracked t" for A
    by (auto simp: untracked_def get_by_id_def)
  show "distinct (map pr_id (snd (fetch_latest node now t)))"
    and "pr_id ` set (snd (fetch_latest node now t)) =
      {pid \<in> pr_id ` set (fetched node). get_by_id pid t = None}"
    using absorb_news [of "fetched node" t] a unfolding u by (simp_all add: fetch_latest_def)
  let ?t1 = "t1\<lparr>tr_last_sync_time := now\<rparr>"
  have "untracked ?t1 = untracked t1" by (simp add: untracked_def)
  then have "pr_id ` set (snd (absorb (fetched node) ?t1)) = {}"
    using absorb_news [of "fetched node" ?t1] absorb_known [of "fetched node" t] a by auto
  then show "snd (fetch_latest node now' (fst (fetch_latest node now t))) = []"
    using a by (cases "absorb (fetched node) ?t1") (simp add: fetch_latest_def)
qed

end
