(* ===== verification/Scheduler.thy ===== *)
theory Scheduler
  imports Proposals
begin

text \<open>
  \<open>internal/governance/scheduler.go\<close>: the upgrade scheduler. The map, both queues and the current
  upgrade share pointers to upgrades that are changed in place, so the model has a store of upgrades
  by address. The monitor also changes the status of a queued upgrade through its pointer; that is
  \<open>set_status_at\<close>.
\<close>

record scheduler =
  sc_store :: "nat \<Rightarrow> gov_upgrade"
  sc_next :: nat
  sc_upgrades :: "(string, nat) gomap"
  sc_queue :: "nat list"
  sc_done :: "nat list"
  sc_current :: "nat option"
  sc_enabled :: bool
  sc_min_delay :: duration
  sc_max_concurrent :: int
  sc_validation :: bool

definition empty_upgrade :: gov_upgrade where
  "empty_upgrade = \<lparr>gu_name = '''', gu_height = 0, gu_info = '''', gu_binaries = None,
     gu_upgrade_url = '''', gu_checksum_url = '''', gu_metadata = None, gu_status = '''',
     gu_scheduled_time = 0, gu_started_time = None, gu_completed_time = None\<rparr>"

definition new_scheduler :: scheduler where
  "new_scheduler = \<lparr>sc_store = \<lambda>_. empty_upgrade, sc_next = 0, sc_upgrades = [], sc_queue = [],
     sc_done = [], sc_current = None, sc_enabled = True, sc_min_delay = 10 * minute,
     sc_max_concurrent = 1, sc_validation = True\<rparr>"

datatype sched_error =
  Not_upgrade_proposal string | Missing_upgrade_info string | Upgrade_unnamed
| Already_scheduled string | Invalid_height int | Missing_binary_url string
| Missing_binary_checksum string | Upgrade_not_found string | No_current_upgrade
| No_upgrades_scheduled | Upgrade_in_progress_error string

fun check_binaries :: "(string, gov_binary) gomap \<Rightarrow> sched_error + unit" where
  "check_binaries [] = Inr ()"
| "check_binaries ((platform, b) # bs) =
     (if gb_url b = '''' then Inl (Missing_binary_url platform)
      else if gb_checksum b = '''' then Inl (Missing_binary_checksum platform)
      else check_binaries bs)"

definition sched_validate :: "gov_upgrade \<Rightarrow> scheduler \<Rightarrow> sched_error + unit" where
  "sched_validate u s =
     (if gu_name u = '''' then Inl Upgrade_unnamed
      else if map_of (sc_upgrades s) (gu_name u) \<noteq> None then Inl (Already_scheduled (gu_name u))
      else if gu_height u \<le> 0 then Inl (Invalid_height (gu_height u))
      else (case gu_binaries u of None \<Rightarrow> Inr () | Some bs \<Rightarrow> check_binaries bs))"

definition by_height :: "(nat \<Rightarrow> gov_upgrade) \<Rightarrow> nat \<Rightarrow> nat \<Rightarrow> bool" where
  "by_height st a b \<longleftrightarrow> gu_height (st a) < gu_height (st b)"

definition by_completion :: "(nat \<Rightarrow> gov_upgrade) \<Rightarrow> nat \<Rightarrow> nat \<Rightarrow> bool" where
  "by_completion st a b \<longleftrightarrow>
     (case gu_completed_time (st a) of
        None \<Rightarrow> False
      | Some ta \<Rightarrow> (case gu_completed_time (st b) of None \<Rightarrow> True | Some tb \<Rightarrow> ta > tb))"

definition sched_schedule :: "time \<Rightarrow> proposal \<Rightarrow> scheduler \<Rightarrow> (scheduler, sched_error, unit) gores" where
  "sched_schedule now p s =
     (if pr_type p \<noteq> type_upgrade then (s, Inl (Not_upgrade_proposal (pr_id p)))
      else (case pr_upgrade_info p of
              None \<Rightarrow> (s, Inl (Missing_upgrade_info (pr_id p)))
            | Some u \<Rightarrow>
                (case (if sc_validation s then sched_validate u s else Inr ()) of
                   Inl e \<Rightarrow> (s, Inl e)
                 | Inr _ \<Rightarrow>
                     let new = \<lparr>gu_name = gu_name u, gu_height = pr_upgrade_height p,
                                gu_info = gu_info u, gu_binaries = gu_binaries u,
                                gu_upgrade_url = gu_upgrade_url u, gu_checksum_url = gu_checksum_url u,
                                gu_metadata = gu_metadata u, gu_status = up_scheduled,
                                gu_scheduled_time = now, gu_started_time = None,
                                gu_completed_time = None\<rparr>;
                         a = sc_next s; st = (sc_store s)(a := new) in
                     (s\<lparr>sc_store := st, sc_next := Suc a,
                        sc_upgrades := gm_put (gu_name new) a (sc_upgrades s),
                        sc_queue := sort_slice (by_height st) (sc_queue s @ [a])\<rparr>, Inr ()))))"

definition move_to_completed :: "nat \<Rightarrow> scheduler \<Rightarrow> scheduler" where
  "move_to_completed a s =
     (let st = sc_store s in
      s\<lparr>sc_queue := remove_first (\<lambda>b. gu_name (st b) = gu_name (st a)) (sc_queue s),
        sc_done := sort_slice (by_completion st) (sc_done s @ [a])\<rparr>)"

definition set_status_at :: "nat \<Rightarrow> string \<Rightarrow> scheduler \<Rightarrow> scheduler" where
  "set_status_at a status s =
     s\<lparr>sc_store := (sc_store s)(a := (sc_store s a)\<lparr>gu_status := status\<rparr>)\<rparr>"

text \<open>\<open>UpdateStatus\<close> reads only the name and the status of its argument.\<close>

definition sched_update_status ::
  "time \<Rightarrow> string \<Rightarrow> string \<Rightarrow> scheduler \<Rightarrow> (scheduler, sched_error, unit) gores" where
  "sched_update_status now name status s =
     (case map_of (sc_upgrades s) name of
        None \<Rightarrow> (s, Inl (Upgrade_not_found name))
      | Some a \<Rightarrow>
          let u = (sc_store s a)\<lparr>gu_status := status\<rparr> in
          if status = up_in_progress then
            (let u1 = (if gu_started_time u = None then u\<lparr>gu_started_time := Some now\<rparr> else u) in
             (s\<lparr>sc_store := (sc_store s)(a := u1), sc_current := Some a\<rparr>, Inr ()))
          else if status = up_completed \<or> status = up_failed \<or> status = up_cancelled then
            (let u1 = (if gu_completed_time u = None then u\<lparr>gu_completed_time := Some now\<rparr> else u) in
             (move_to_completed a (s\<lparr>sc_store := (sc_store s)(a := u1), sc_current := None\<rparr>), Inr ()))
          else (s\<lparr>sc_store := (sc_store s)(a := u)\<rparr>, Inr ()))"

definition sched_cancel :: "time \<Rightarrow> string \<Rightarrow> scheduler \<Rightarrow> (scheduler, sched_error, unit) gores" where
  "sched_cancel now name s =
     (case map_of (sc_upgrades s) name of
        None \<Rightarrow> (s, Inl (Upgrade_not_found name))
      | Some a \<Rightarrow>
          if gu_status (sc_store s a) = up_in_progress then (s, Inl (Upgrade_in_progress_error name))
          else (move_to_completed a
                  (s\<lparr>sc_store := (sc_store s)(a := (sc_store s a)\<lparr>gu_status := up_cancelled,
                       gu_completed_time := Some now\<rparr>)\<rparr>), Inr ()))"

definition sched_cleanup :: "time \<Rightarrow> duration \<Rightarrow> scheduler \<Rightarrow> scheduler" where
  "sched_cleanup now max_age s =
     (let cutoff = now - max_age;
          old = (\<lambda>a. case gu_completed_time (sc_store s a) of Some t \<Rightarrow> t < cutoff | None \<Rightarrow> False) in
      s\<lparr>sc_upgrades := fold (\<lambda>a m. gm_del (gu_name (sc_store s a)) m) (filter old (sc_done s)) (sc_upgrades s),
        sc_done := filter (\<lambda>a. \<not> old a) (sc_done s)\<rparr>)"

definition sched_queue_view :: "scheduler \<Rightarrow> gov_upgrade list" where
  "sched_queue_view s = map (sc_store s) (sc_queue s)"

definition sched_get_upgrade :: "string \<Rightarrow> scheduler \<Rightarrow> sched_error + gov_upgrade" where
  "sched_get_upgrade name s =
     (case map_of (sc_upgrades s) name of
        None \<Rightarrow> Inl (Upgrade_not_found name) | Some a \<Rightarrow> Inr (sc_store s a))"

definition sched_get_current :: "scheduler \<Rightarrow> sched_error + gov_upgrade" where
  "sched_get_current s =
     (case sc_current s of None \<Rightarrow> Inl No_current_upgrade | Some a \<Rightarrow> Inr (sc_store s a))"

definition sched_get_next :: "scheduler \<Rightarrow> sched_error + gov_upgrade" where
  "sched_get_next s =
     (case sc_queue s of [] \<Rightarrow> Inl No_upgrades_scheduled | a # _ \<Rightarrow> Inr (sc_store s a))"

definition is_upgrade_ready :: "int \<Rightarrow> scheduler \<Rightarrow> gov_upgrade option" where
  "is_upgrade_ready h s =
     (case sc_queue s of
        [] \<Rightarrow> None
      | a # _ \<Rightarrow>
          if gu_height (sc_store s a) \<le> h \<and> gu_status (sc_store s a) = up_scheduled
          then Some (sc_store s a) else None)"

record upgrade_stats =
  ust_total :: nat
  ust_scheduled :: nat
  ust_completed :: nat
  ust_current :: bool
  ust_by_status :: "(string, nat) gomap"

definition get_upgrade_stats :: "scheduler \<Rightarrow> upgrade_stats" where
  "get_upgrade_stats s =
     \<lparr>ust_total = length (sc_upgrades s), ust_scheduled = length (sc_queue s),
      ust_completed = length (sc_done s), ust_current = (sc_current s \<noteq> None),
      ust_by_status = fold (\<lambda>(_, a). bump (gu_status (sc_store s a))) (sc_upgrades s) []\<rparr>"

definition sched_stop :: "scheduler \<Rightarrow> scheduler" where
  "sched_stop s = s\<lparr>sc_enabled := False\<rparr>"

definition sched_set_enabled :: "bool \<Rightarrow> scheduler \<Rightarrow> scheduler" where
  "sched_set_enabled b s = s\<lparr>sc_enabled := b\<rparr>"

definition sched_set_min_delay :: "duration \<Rightarrow> scheduler \<Rightarrow> scheduler" where
  "sched_set_min_delay d s = s\<lparr>sc_min_delay := d\<rparr>"

definition sched_set_validation :: "bool \<Rightarrow> scheduler \<Rightarrow> scheduler" where
  "sched_set_validation b s = s\<lparr>sc_validation := b\<rparr>"

section \<open>Well-formed schedulers\<close>

text \<open>
  With validation on: addresses are used once, every name is filed under itself, the queue is ordered
  by height, holds each upgrade at most once and only upgrades that are registered under their name
  and scheduled or in progress, and the completed upgrades are registered too and not queued.
\<close>

definition sched_ok :: "scheduler \<Rightarrow> bool" where
  "sched_ok s \<longleftrightarrow>
     gm_ok (sc_upgrades s) \<and>
     (\<forall>n a. map_of (sc_upgrades s) n = Some a \<longrightarrow> a < sc_next s \<and> gu_name (sc_store s a) = n) \<and>
     (\<forall>a\<in>set (sc_queue s). map_of (sc_upgrades s) (gu_name (sc_store s a)) = Some a) \<and>
     (\<forall>a\<in>set (sc_queue s). gu_status (sc_store s a) \<in> {up_scheduled, up_in_progress}) \<and>
     (\<forall>a\<in>set (sc_done s). map_of (sc_upgrades s) (gu_name (sc_store s a)) = Some a \<and> a \<notin> set (sc_queue s)) \<and>
     distinct (sc_queue s) \<and>
     sorted_wrt (\<lambda>a b. gu_height (sc_store s a) \<le> gu_height (sc_store s b)) (sc_queue s) \<and>
     sc_validation s"

lemma sched_ok_new: "sched_ok new_scheduler"
  by (simp add: sched_ok_def new_scheduler_def)

lemma sched_okD:
  assumes "sched_ok s"
  shows "gm_ok (sc_upgrades s)"
    and "map_of (sc_upgrades s) n = Some a \<Longrightarrow> a < sc_next s \<and> gu_name (sc_store s a) = n"
    and "a \<in> set (sc_queue s) \<Longrightarrow> map_of (sc_upgrades s) (gu_name (sc_store s a)) = Some a"
    and "a \<in> set (sc_queue s) \<Longrightarrow> gu_status (sc_store s a) \<in> {up_scheduled, up_in_progress}"
    and "distinct (sc_queue s)"
    and "sorted_wrt (\<lambda>a b. gu_height (sc_store s a) \<le> gu_height (sc_store s b)) (sc_queue s)"
    and "sc_validation s"
    and "a \<in> set (sc_done s) \<Longrightarrow>
      map_of (sc_upgrades s) (gu_name (sc_store s a)) = Some a \<and> a \<notin> set (sc_queue s)"
  using assms unfolding sched_ok_def by blast+

lemma sched_okI:
  assumes "gm_ok (sc_upgrades s)"
    and "\<And>n a. map_of (sc_upgrades s) n = Some a \<Longrightarrow> a < sc_next s \<and> gu_name (sc_store s a) = n"
    and "\<And>a. a \<in> set (sc_queue s) \<Longrightarrow> map_of (sc_upgrades s) (gu_name (sc_store s a)) = Some a"
    and "\<And>a. a \<in> set (sc_queue s) \<Longrightarrow> gu_status (sc_store s a) \<in> {up_scheduled, up_in_progress}"
    and "distinct (sc_queue s)"
    and "sorted_wrt (\<lambda>a b. gu_height (sc_store s a) \<le> gu_height (sc_store s b)) (sc_queue s)"
    and "sc_validation s"
    and "\<And>a. a \<in> set (sc_done s) \<Longrightarrow>
      map_of (sc_upgrades s) (gu_name (sc_store s a)) = Some a \<and> a \<notin> set (sc_queue s)"
  shows "sched_ok s"
  using assms unfolding sched_ok_def by blast

lemma queue_sorted:
  "sorted_wrt (\<lambda>a b. gu_height (st a) \<le> gu_height (st b)) (sort_slice (by_height st) xs)"
proof -
  have "strict_weak (\<lambda>a b. gu_height (st a) < gu_height (st b))" by (rule strict_weak_key)
  from gosort.srt_ordered [OF this, of xs] show ?thesis
    by (simp only: not_less by_height_def [abs_def])
qed

lemma queue_set: "set (sort_slice b xs) = set xs" "distinct (sort_slice b xs) = distinct xs"
  using gosort.srt_distinct_map [of "\<lambda>x. x" b xs] by (simp_all only: gosort.srt_set list.map_ident)

lemma sched_schedule_cases:
  obtains (refused) e where "sched_schedule now p s = (s, Inl e)"
  | (scheduled) u new where "pr_type p = type_upgrade" "pr_upgrade_info p = Some u"
      "sc_validation s \<Longrightarrow> sched_validate u s = Inr ()"
      "gu_name new = gu_name u" "gu_height new = pr_upgrade_height p" "gu_status new = up_scheduled"
      "sched_schedule now p s =
         (s\<lparr>sc_store := (sc_store s)(sc_next s := new), sc_next := Suc (sc_next s),
            sc_upgrades := gm_put (gu_name new) (sc_next s) (sc_upgrades s),
            sc_queue := sort_slice (by_height ((sc_store s)(sc_next s := new))) (sc_queue s @ [sc_next s])\<rparr>,
          Inr ())"
proof (cases "pr_type p = type_upgrade")
  case False
  then show thesis by (intro refused) (simp add: sched_schedule_def)
next
  case ty: True
  show thesis
  proof (cases "pr_upgrade_info p")
    case None
    with ty show thesis by (intro refused) (simp add: sched_schedule_def)
  next
    case (Some u)
    show thesis
    proof (cases "if sc_validation s then sched_validate u s else Inr ()")
      case (Inl e)
      with ty Some show thesis by (intro refused) (simp add: sched_schedule_def)
    next
      case (Inr r)
      let ?new = "\<lparr>gu_name = gu_name u, gu_height = pr_upgrade_height p,
          gu_info = gu_info u, gu_binaries = gu_binaries u, gu_upgrade_url = gu_upgrade_url u,
          gu_checksum_url = gu_checksum_url u, gu_metadata = gu_metadata u, gu_status = up_scheduled,
          gu_scheduled_time = now, gu_started_time = None, gu_completed_time = None\<rparr>"
      show thesis
        by (rule scheduled [of u ?new])
          (use ty Some Inr in \<open>simp_all add: sched_schedule_def Let_def\<close>)
    qed
  qed
qed

lemma validate_fresh: "sched_validate u s = Inr r \<Longrightarrow> map_of (sc_upgrades s) (gu_name u) = None"
  by (simp add: sched_validate_def split: if_splits)

lemma sched_ok_schedule:
  assumes ok: "sched_ok s"
  shows "sched_ok (fst (sched_schedule now p s))"
proof (cases rule: sched_schedule_cases [of now p s])
  case (refused e)
  with ok show ?thesis by simp
next
  case (scheduled u new)
  note D = sched_okD [OF ok]
  let ?a = "sc_next s" and ?st = "(sc_store s)(sc_next s := new)"
  have fresh: "map_of (sc_upgrades s) (gu_name new) = None"
    using validate_fresh scheduled(3,4) D(7) by simp
  have notin: "?a \<notin> set (sc_queue s)" using D(2,3) by blast
  have same: "?st b = sc_store s b" if "b \<in> set (sc_queue s)" for b
    using that notin by auto
  have names: "b < Suc ?a \<and> gu_name (?st b) = n"
    if "((map_of (sc_upgrades s))(gu_name new \<mapsto> ?a)) n = Some b" for n b
    using that D(2) [of n b] by (auto split: if_splits)
  have queue: "((map_of (sc_upgrades s))(gu_name new \<mapsto> ?a)) (gu_name (?st b)) = Some b"
    if "b \<in> set (sc_queue s @ [?a])" for b
    using that same [of b] D(3) [of b] fresh by auto
  have live: "gu_status (?st b) \<in> {up_scheduled, up_in_progress}" if "b \<in> set (sc_queue s @ [?a])" for b
    using that same [of b] D(4) [of b] scheduled(6) by auto
  have notdn: "?a \<notin> set (sc_done s)" using D(2,8) by blast
  have dn: "((map_of (sc_upgrades s))(gu_name new \<mapsto> ?a)) (gu_name (?st b)) = Some b \<and>
      b \<notin> set (sc_queue s @ [?a])" if "b \<in> set (sc_done s)" for b
    using that notdn D(8) [of b] fresh by (cases "b = ?a") auto
  show ?thesis
    unfolding scheduled(7) sched_ok_def
    using D(1,5,7) notin names queue live dn queue_sorted [of ?st]
    by (simp add: queue_set del: fun_upd_apply map_of_eq_Some_iff)
qed

lemma remove_name:
  assumes "sched_ok s" and "map_of (sc_upgrades s) n = Some a"
  shows "b \<in> set (remove_first (\<lambda>b. gu_name (sc_store s b) = n) (sc_queue s)) \<longleftrightarrow>
    b \<in> set (sc_queue s) \<and> b \<noteq> a"
proof -
  note D = sched_okD [OF assms(1)]
  have inj: "distinct (map (\<lambda>b. gu_name (sc_store s b)) (sc_queue s))"
    using D(3,5) by (metis (no_types, lifting) distinct_map inj_onI option.inject)
  have "b = a" if "b \<in> set (sc_queue s)" "gu_name (sc_store s b) = n" for b
    using D(3) [OF that(1)] that(2) assms(2) by simp
  moreover have "gu_name (sc_store s a) = n" using D(2) [OF assms(2)] by simp
  ultimately show ?thesis
    using set_remove_first_key [OF inj, of n] by auto
qed

text \<open>Changing the upgrade at an address, with its name and height kept, and moving it out.\<close>

lemma sched_ok_move:
  assumes ok: "sched_ok s" and n: "map_of (sc_upgrades s) n = Some a"
    and u: "gu_name u = n" "gu_height u = gu_height (sc_store s a)"
  shows "sched_ok (move_to_completed a (s\<lparr>sc_store := (sc_store s)(a := u), sc_current := c\<rparr>))"
proof -
  note D = sched_okD [OF ok]
  let ?st = "(sc_store s)(a := u)"
  let ?q = "remove_first (\<lambda>b. gu_name (?st b) = n) (sc_queue s)"
  have name: "gu_name (?st b) = gu_name (sc_store s b)" for b
    using u(1) D(2) [OF n] by simp
  have height: "gu_height (?st b) = gu_height (sc_store s b)" for b
    using u(2) by simp
  have q: "b \<in> set ?q \<longleftrightarrow> b \<in> set (sc_queue s) \<and> b \<noteq> a" for b
    using remove_name [OF ok n, of b] by (simp only: name)
  have dist: "distinct ?q"
    using distinct_map_remove_first [of "\<lambda>x. x" "sc_queue s"] D(5) by simp
  have sorted: "sorted_wrt (\<lambda>x y. gu_height (?st x) \<le> gu_height (?st y)) ?q"
    unfolding height using D(6) by (rule sorted_wrt_remove_first)
  have reg: "map_of (sc_upgrades s) (gu_name (?st b)) = Some b" if "b \<in> set ?q" for b
  proof -
    have "b \<in> set (sc_queue s)" using that q by blast
    from D(3) [OF this] show ?thesis by (simp only: name)
  qed
  have live: "gu_status (?st b) \<in> {up_scheduled, up_in_progress}" if "b \<in> set ?q" for b
  proof -
    have "b \<in> set (sc_queue s)" and "b \<noteq> a" using that q by blast+
    with D(4) [of b] show ?thesis by simp
  qed
  have names: "b < sc_next s \<and> gu_name (?st b) = m" if "map_of (sc_upgrades s) m = Some b" for m b
    using D(2) [OF that] unfolding name .
  have gn: "gu_name (?st a) = n" using u(1) by simp
  have dn: "map_of (sc_upgrades s) (gu_name (?st b)) = Some b \<and> b \<notin> set ?q"
    if "b \<in> insert a (set (sc_done s))" for b
    using that D(8) [of b] n gn q [of b] unfolding name by auto
  show ?thesis
    unfolding sched_ok_def move_to_completed_def Let_def
    using D(1,7) dist sorted reg live names gn dn
    by (simp del: fun_upd_apply map_of_eq_Some_iff)
qed

lemma sched_ok_touch:
  assumes ok: "sched_ok s" and n: "map_of (sc_upgrades s) n = Some a"
    and u: "gu_name u = n" "gu_height u = gu_height (sc_store s a)"
      "gu_status u \<in> {up_scheduled, up_in_progress}"
  shows "sched_ok (s\<lparr>sc_store := (sc_store s)(a := u), sc_current := c\<rparr>)"
proof -
  note D = sched_okD [OF ok]
  let ?st = "(sc_store s)(a := u)"
  have name: "gu_name (?st b) = gu_name (sc_store s b)" for b
    using u(1) D(2) [OF n] by simp
  have height: "gu_height (?st b) = gu_height (sc_store s b)" for b
    using u(2) by simp
  have live: "gu_status (?st b) \<in> {up_scheduled, up_in_progress}" if "b \<in> set (sc_queue s)" for b
    using that D(4) [of b] u(3) by (cases "b = a") simp_all
  let ?t = "s\<lparr>sc_store := ?st, sc_current := c\<rparr>"
  have sel: "sc_upgrades ?t = sc_upgrades s" "sc_queue ?t = sc_queue s" "sc_store ?t = ?st"
    "sc_next ?t = sc_next s" "sc_done ?t = sc_done s" "sc_validation ?t = sc_validation s"
    by simp_all
  show ?thesis
    by (rule sched_okI) (use D live in \<open>simp_all only: sel name height HOL.simp_thms\<close>)
qed

text \<open>The statuses the program uses.\<close>

definition known_status :: "string \<Rightarrow> bool" where
  "known_status st \<longleftrightarrow> st \<in> set [up_scheduled, up_in_progress, up_completed, up_failed, up_cancelled]"

lemma sched_ok_update:
  assumes ok: "sched_ok s" and st: "known_status status"
  shows "sched_ok (fst (sched_update_status now name status s))"
proof (cases "map_of (sc_upgrades s) name")
  case None
  with ok show ?thesis by (simp add: sched_update_status_def)
next
  case (Some a)
  note n = sched_okD(2) [OF ok Some]
  let ?u = "(sc_store s a)\<lparr>gu_status := status\<rparr>"
  let ?us = "if gu_started_time ?u = None then ?u\<lparr>gu_started_time := Some now\<rparr> else ?u"
  let ?uc = "if gu_completed_time ?u = None then ?u\<lparr>gu_completed_time := Some now\<rparr> else ?u"
  let ?over = "status = up_completed \<or> status = up_failed \<or> status = up_cancelled"
  note step = sched_update_status_def Some option.case Let_def if_True if_False fst_conv
  from st consider (busy) "(status = up_in_progress) = True"
    | (live) "(status = up_in_progress) = False" "?over = False" "status = up_scheduled"
    | (over) "(status = up_in_progress) = False" "?over = True"
    unfolding known_status_def by fastforce
  then show ?thesis
  proof cases
    case busy
    have "sched_ok (s\<lparr>sc_store := (sc_store s)(a := ?us), sc_current := Some a\<rparr>)"
      by (rule sched_ok_touch [OF ok Some]) (use n busy in simp_all)
    then show ?thesis by (simp only: step busy)
  next
    case live
    have "sched_ok (s\<lparr>sc_store := (sc_store s)(a := ?u), sc_current := sc_current s\<rparr>)"
      by (rule sched_ok_touch [OF ok Some]) (use n live(3) in simp_all)
    moreover have "s\<lparr>sc_store := x, sc_current := sc_current s\<rparr> = s\<lparr>sc_store := x\<rparr>" for x by simp
    ultimately show ?thesis by (simp only: step live(1,2))
  next
    case over
    have "sched_ok (move_to_completed a (s\<lparr>sc_store := (sc_store s)(a := ?uc), sc_current := None\<rparr>))"
      by (rule sched_ok_move [OF ok Some]) (use n in simp_all)
    then show ?thesis by (simp only: step over)
  qed
qed

lemma sched_ok_cancel:
  assumes ok: "sched_ok s"
  shows "sched_ok (fst (sched_cancel now name s))"
proof (cases "map_of (sc_upgrades s) name")
  case None
  with ok show ?thesis by (simp add: sched_cancel_def)
next
  case (Some a)
  let ?u = "(sc_store s a)\<lparr>gu_status := up_cancelled, gu_completed_time := Some now\<rparr>"
  have "sched_ok (move_to_completed a (s\<lparr>sc_store := (sc_store s)(a := ?u), sc_current := sc_current s\<rparr>))"
    by (rule sched_ok_move [OF ok Some]) (use sched_okD(2) [OF ok Some] in simp_all)
  with ok Some show ?thesis by (simp add: sched_cancel_def)
qed

lemma map_of_fold_del:
  "map_of (fold (\<lambda>a m. gm_del (f a) m) xs m) n = (if n \<in> f ` set xs then None else map_of m n)"
  by (induction xs arbitrary: m) auto

lemma gm_ok_fold_del: "gm_ok m \<Longrightarrow> gm_ok (fold (\<lambda>a m. gm_del (f a) m) xs m)"
  by (induction xs arbitrary: m) auto

lemma sched_ok_replace:
  assumes "sched_ok s" and "gm_ok m"
    and "\<And>n a. map_of m n = Some a \<Longrightarrow> a < sc_next s \<and> gu_name (sc_store s a) = n"
    and "\<And>a. a \<in> set (sc_queue s) \<Longrightarrow> map_of m (gu_name (sc_store s a)) = Some a"
    and "\<And>a. a \<in> set d \<Longrightarrow> map_of m (gu_name (sc_store s a)) = Some a \<and> a \<notin> set (sc_queue s)"
  shows "sched_ok (s\<lparr>sc_upgrades := m, sc_done := d\<rparr>)"
proof -
  note D = sched_okD [OF assms(1)]
  let ?t = "s\<lparr>sc_upgrades := m, sc_done := d\<rparr>"
  show ?thesis
  proof (rule sched_okI)
    show "gm_ok (sc_upgrades ?t)" using assms(2) by simp
    show "a < sc_next ?t \<and> gu_name (sc_store ?t a) = n" if "map_of (sc_upgrades ?t) n = Some a" for n a
      using assms(3) [of n a] that by (simp del: map_of_eq_Some_iff)
    show "map_of (sc_upgrades ?t) (gu_name (sc_store ?t a)) = Some a" if "a \<in> set (sc_queue ?t)" for a
      using assms(4) [of a] that by (simp del: map_of_eq_Some_iff)
    show "map_of (sc_upgrades ?t) (gu_name (sc_store ?t a)) = Some a \<and> a \<notin> set (sc_queue ?t)"
      if "a \<in> set (sc_done ?t)" for a
      using assms(5) [of a] that by (simp del: map_of_eq_Some_iff)
    show "gu_status (sc_store ?t a) \<in> {up_scheduled, up_in_progress}" if "a \<in> set (sc_queue ?t)" for a
      using D(4) [of a] that by simp
  qed (use D(5-7) in simp_all)
qed

lemma sched_ok_cleanup:
  assumes ok: "sched_ok s"
  shows "sched_ok (sched_cleanup now max_age s)"
proof -
  note D = sched_okD [OF ok]
  define old where "old = (\<lambda>a. case gu_completed_time (sc_store s a) of
      Some t \<Rightarrow> t < now - max_age | None \<Rightarrow> False)"
  let ?f = "\<lambda>a. gu_name (sc_store s a)"
  let ?m = "fold (\<lambda>a m. gm_del (?f a) m) (filter old (sc_done s)) (sc_upgrades s)"
  have eq: "sched_cleanup now max_age s = s\<lparr>sc_upgrades := ?m, sc_done := filter (\<lambda>a. \<not> old a) (sc_done s)\<rparr>"
    by (simp add: sched_cleanup_def old_def Let_def)
  have keep: "map_of ?m (?f b) = Some b"
    if b: "map_of (sc_upgrades s) (?f b) = Some b" "\<not> (b \<in> set (sc_done s) \<and> old b)" for b
  proof -
    have "?f b \<notin> ?f ` set (filter old (sc_done s))"
    proof
      assume "?f b \<in> ?f ` set (filter old (sc_done s))"
      then obtain a where a: "a \<in> set (sc_done s)" "old a" "?f b = ?f a" by auto
      with D(8) [of a] b(1) have "a = b" by simp
      with a b(2) show False by simp
    qed
    with b(1) show ?thesis by (simp add: map_of_fold_del del: map_of_eq_Some_iff)
  qed
  have queue: "map_of ?m (?f b) = Some b" if "b \<in> set (sc_queue s)" for b
    using keep [of b] D(3) [OF that] D(8) [of b] that by blast
  have dn: "map_of ?m (?f b) = Some b \<and> b \<notin> set (sc_queue s)"
    if "b \<in> set (filter (\<lambda>a. \<not> old a) (sc_done s))" for b
    using keep [of b] D(8) [of b] that by simp
  have names: "b < sc_next s \<and> ?f b = n" if "map_of ?m n = Some b" for n b
    using D(2) [of n b] that by (simp add: map_of_fold_del del: map_of_eq_Some_iff split: if_splits)
  show ?thesis
    unfolding eq using ok gm_ok_fold_del [OF D(1)] names queue dn by (rule sched_ok_replace)
qed

text \<open>The operations, and what any run of them keeps.\<close>

datatype sched_op =
  S_schedule time proposal | S_update time string string | S_cancel time string
| S_cleanup time duration | S_stop

fun sched_apply :: "sched_op \<Rightarrow> scheduler \<Rightarrow> scheduler" where
  "sched_apply (S_schedule now p) s = fst (sched_schedule now p s)"
| "sched_apply (S_update now n st) s = fst (sched_update_status now n st s)"
| "sched_apply (S_cancel now n) s = fst (sched_cancel now n s)"
| "sched_apply (S_cleanup now age) s = sched_cleanup now age s"
| "sched_apply S_stop s = sched_stop s"

fun known_op :: "sched_op \<Rightarrow> bool" where
  "known_op (S_update now n st) = known_status st"
| "known_op _ = True"

lemma sched_ok_enabled: "sched_ok (s\<lparr>sc_enabled := b\<rparr>) = sched_ok s"
  by (simp add: sched_ok_def)

lemma sched_ok_run: "\<forall>op\<in>set ops. known_op op \<Longrightarrow> sched_ok s \<Longrightarrow> sched_ok (fold sched_apply ops s)"
proof (induction ops arbitrary: s)
  case (Cons op ops)
  have "sched_ok (sched_apply op s)"
    using Cons.prems by (cases op)
      (simp_all add: sched_ok_schedule sched_ok_update sched_ok_cancel sched_ok_cleanup sched_stop_def
        sched_ok_enabled)
  with Cons show ?case by simp
qed simp

section \<open>Properties\<close>

text \<open>
  C30. Whatever run of operations the scheduler went through (with validation on, as it is by default),
  its queue is ordered by height, no two queued upgrades share a name, and every queued upgrade is
  scheduled or in progress and is the one its name finds. An upgrade is reported ready exactly when it
  is the head of that queue, still scheduled, at a height that has been reached; then no queued upgrade
  is lower. In particular, an upgrade in progress at the head blocks every later one.
\<close>

theorem scheduler_queue_ordered:
  assumes "\<forall>op\<in>set ops. known_op op" and "s = fold sched_apply ops new_scheduler"
  shows "(sorted (map gu_height (sched_queue_view s))) \<and>
    (distinct (map gu_name (sched_queue_view s))) \<and>
    (u \<in> set (sched_queue_view s) \<longrightarrow>
      sched_get_upgrade (gu_name u) s = Inr u \<and> gu_status u \<in> {up_scheduled, up_in_progress}) \<and>
    (is_upgrade_ready h s = Some u \<longleftrightarrow>
      (\<exists>us. sched_queue_view s = u # us) \<and> gu_status u = up_scheduled \<and> gu_height u \<le> h) \<and>
    (is_upgrade_ready h s = Some u \<longrightarrow> v \<in> set (sched_queue_view s) \<longrightarrow> gu_height u \<le> gu_height v)"
proof (rule conj5I; (intro impI)?)
  have ok: "sched_ok s" using sched_ok_run [OF assms(1) sched_ok_new] assms(2) by simp
  note D = sched_okD [OF ok]
  show sorted: "sorted (map gu_height (sched_queue_view s))"
    using D(6) by (simp add: sched_queue_view_def sorted_map sorted_wrt_map)
  have "inj_on (\<lambda>a. gu_name (sc_store s a)) (set (sc_queue s))"
    using D(3) by (metis (no_types, lifting) inj_onI option.inject)
  with D(5) show "distinct (map gu_name (sched_queue_view s))"
    by (simp add: sched_queue_view_def distinct_map comp_def inj_on_def)
  show "sched_get_upgrade (gu_name u) s = Inr u \<and> gu_status u \<in> {up_scheduled, up_in_progress}"
    if u: "u \<in> set (sched_queue_view s)"
  proof -
    from u obtain a where a: "a \<in> set (sc_queue s)" "u = sc_store s a"
      by (auto simp: sched_queue_view_def)
    from D(3,4) [OF a(1)] a(2) show ?thesis by (simp add: sched_get_upgrade_def del: map_of_eq_Some_iff)
  qed
  show ready: "is_upgrade_ready h s = Some u \<longleftrightarrow>
      (\<exists>us. sched_queue_view s = u # us) \<and> gu_status u = up_scheduled \<and> gu_height u \<le> h"
    by (auto simp: is_upgrade_ready_def sched_queue_view_def split: list.splits)
  show "is_upgrade_ready h s = Some u \<Longrightarrow> v \<in> set (sched_queue_view s) \<Longrightarrow> gu_height u \<le> gu_height v"
    using sorted ready by auto
qed

definition demo_proposal :: "string \<Rightarrow> int \<Rightarrow> proposal" where
  "demo_proposal name h = empty_proposal\<lparr>pr_id := name, pr_type := type_upgrade, pr_status := status_passed,
     pr_upgrade_height := h,
     pr_upgrade_info := Some (empty_upgrade\<lparr>gu_name := name, gu_height := 100\<rparr>)\<rparr>"

lemma demo_ready:
  "\<exists>u. is_upgrade_ready 0 (fold sched_apply
      [S_schedule 1 (demo_proposal ''a'' 100), S_schedule 2 (demo_proposal ''b'' 0)] new_scheduler) = Some u \<and>
    gu_name u = ''b''"
  by (simp add: sched_schedule_def demo_proposal_def new_scheduler_def sched_validate_def Let_def
      empty_proposal_def empty_upgrade_def sort_slice_def by_height_def is_upgrade_ready_def)

theorem scheduler_queue_ordered_witness:
  "\<exists>u us. sched_queue_view (fold sched_apply
      [S_schedule 1 (demo_proposal ''a'' 100), S_schedule 2 (demo_proposal ''b'' 0)] new_scheduler) = u # us \<and>
    gu_name u = ''b''"
proof -
  let ?ops = "[S_schedule 1 (demo_proposal ''a'' 100), S_schedule 2 (demo_proposal ''b'' 0)]"
  have k: "\<forall>op\<in>set ?ops. known_op op" by simp
  from demo_ready obtain u where u: "is_upgrade_ready 0 (fold sched_apply ?ops new_scheduler) = Some u"
    "gu_name u = ''b''" by blast
  from u(1) scheduler_queue_ordered [OF k refl, THEN conjunct2, THEN conjunct2, THEN conjunct2, THEN conjunct1] u(2) show ?thesis by blast
qed

text \<open>
  The height that is validated is not the height that is scheduled: a proposal whose upgrade
  information names a positive height but whose own height is not positive is accepted by an empty
  scheduler with validation on, and its upgrade is ready at once, at every height from zero on.
\<close>

theorem unvalidated_height_ready_at_once:
  assumes "sched_ok s" and "sc_queue s = []" and "pr_type p = type_upgrade"
    and "pr_upgrade_info p = Some u" and "gu_name u \<noteq> ''''" and "0 < gu_height u"
    and "gu_binaries u = None" and "map_of (sc_upgrades s) (gu_name u) = None"
    and "pr_upgrade_height p \<le> 0" and "0 \<le> h"
  shows "\<exists>s' v. sched_schedule now p s = (s', Inr ()) \<and> is_upgrade_ready h s' = Some v \<and>
    gu_name v = gu_name u \<and> gu_height v = pr_upgrade_height p"
  using assms
  by (simp add: sched_schedule_def sched_validate_def Let_def is_upgrade_ready_def sort_slice_def)

theorem unvalidated_height_ready_at_once_witness:
  "\<exists>s' v. sched_schedule 1 (demo_proposal ''b'' (- 7)) new_scheduler = (s', Inr ()) \<and>
     is_upgrade_ready 0 s' = Some v \<and> gu_height v = - 7"
  using unvalidated_height_ready_at_once [OF sched_ok_new, of "demo_proposal ''b'' (- 7)"
      "empty_upgrade\<lparr>gu_name := ''b'', gu_height := 100\<rparr>" 0 1]
  by (auto simp: demo_proposal_def new_scheduler_def empty_upgrade_def)

text \<open>
  Cancelling does not look at whether an upgrade is over: a second \<open>CancelUpgrade\<close> of the same
  name succeeds and enters the same upgrade into the completed list once more, and a completed
  upgrade that is cancelled becomes a cancelled one.
\<close>

theorem cancel_repeats_completed_entry:
  assumes "sched_ok s" and "map_of (sc_upgrades s) name = Some a" and "a \<in> set (sc_done s)"
    and "gu_status (sc_store s a) \<noteq> up_in_progress"
  shows "\<exists>s'. sched_cancel now name s = (s', Inr ()) \<and>
    count (mset (sc_done s')) a = Suc (count (mset (sc_done s)) a) \<and>
    sched_get_upgrade name s' = Inr ((sc_store s a)\<lparr>gu_status := up_cancelled, gu_completed_time := Some now\<rparr>)"
  using assms
  by (simp add: sched_cancel_def move_to_completed_def Let_def gosort.srt_mset sched_get_upgrade_def)

theorem cancel_repeats_completed_entry_witness:
  "\<exists>s'. sched_cancel 9 ''a'' (fold sched_apply
       [S_schedule 1 (demo_proposal ''a'' 100), S_update 2 ''a'' up_completed] new_scheduler) = (s', Inr ()) \<and>
     count (mset (sc_done s')) 0 = 2"
proof -
  let ?ops = "[S_schedule 1 (demo_proposal ''a'' 100), S_update 2 ''a'' up_completed]"
  let ?s = "fold sched_apply ?ops new_scheduler"
  have ok: "sched_ok ?s" by (rule sched_ok_run) (simp_all add: known_status_def sched_ok_new)
  have f: "map_of (sc_upgrades ?s) ''a'' = Some 0 \<and> sc_done ?s = [0] \<and>
      gu_status (sc_store ?s 0) \<noteq> up_in_progress"
    by (simp add: sched_schedule_def demo_proposal_def new_scheduler_def sched_validate_def Let_def
        empty_proposal_def empty_upgrade_def sort_slice_def sched_update_status_def move_to_completed_def)
  show ?thesis
    using cancel_repeats_completed_entry [OF ok, of "''a''" 0 9] f by auto
qed

end
