(* ===== verification/Notifications.thy ===== *)
theory Notifications
  imports Proposals
begin

text \<open>
  \<open>internal/governance/notifier.go\<close>: notifications about governance events. Handlers run in their own
  goroutines; the model records which enabled handler was given which notification. Each call of a
  \<open>Notify\<close> method takes the clock; the counter of identifiers is global in the program and a field
  here. What \<open>time.Format\<close> and \<open>%.2f\<close> print is an argument.
\<close>

datatype notif_event =
  EventNewProposal | EventProposalPassed | EventProposalRejected | EventUpgradeScheduled
| EventUpgradeTriggered | EventUpgradeCompleted | EventUpgradeFailed | EventVotingStarted
| EventVotingEnded | EventQuorumReached | EventEmergencyProposal

datatype notif_priority = PriorityLow | PriorityMedium | PriorityHigh | PriorityCritical

datatype notif_data = Data_proposal proposal | Data_upgrade gov_upgrade | Data_failure gov_upgrade string

record notification =
  no_id :: string
  no_event :: notif_event
  no_title :: string
  no_message :: string
  no_data :: notif_data
  no_timestamp :: time
  no_read :: bool
  no_priority :: notif_priority

record notif_handler =
  nh_type :: string
  nh_enabled :: bool

record notifier =
  nt_notifications :: "(string, notification) gomap"
  nt_handlers :: "notif_handler list"
  nt_enabled :: bool
  nt_max :: nat
  nt_max_age :: duration
  nt_priorities :: "(notif_event, notif_priority) gomap"
  nt_counter :: nat
  nt_delivered :: "(string \<times> notification) list"

definition default_priorities :: "(notif_event, notif_priority) gomap" where
  "default_priorities =
     [(EventNewProposal, PriorityMedium), (EventProposalPassed, PriorityHigh),
      (EventProposalRejected, PriorityMedium), (EventUpgradeScheduled, PriorityHigh),
      (EventUpgradeTriggered, PriorityCritical), (EventUpgradeCompleted, PriorityHigh),
      (EventUpgradeFailed, PriorityCritical), (EventVotingStarted, PriorityMedium),
      (EventVotingEnded, PriorityMedium), (EventQuorumReached, PriorityHigh),
      (EventEmergencyProposal, PriorityCritical)]"

definition new_notifier :: "nat \<Rightarrow> notifier" where
  "new_notifier counter = \<lparr>nt_notifications = [], nt_handlers = [], nt_enabled = True, nt_max = 1000,
     nt_max_age = 30 * 24 * 60 * minute, nt_priorities = default_priorities, nt_counter = counter,
     nt_delivered = []\<rparr>"

definition get_priority :: "notifier \<Rightarrow> notif_event \<Rightarrow> notif_priority" where
  "get_priority n ev = (case map_of (nt_priorities n) ev of Some p \<Rightarrow> p | None \<Rightarrow> PriorityMedium)"

text \<open>The counter is a \<open>uint64\<close>.\<close>

definition generate_notification_id :: "time \<Rightarrow> notifier \<Rightarrow> notifier \<times> string" where
  "generate_notification_id now n =
     (let c = (nt_counter n + 1) mod 2 ^ 64 in
      (n\<lparr>nt_counter := c\<rparr>, ''notif_'' @ int_str now @ ''_'' @ nat_str c))"

definition send_notification :: "notification \<Rightarrow> notifier \<Rightarrow> notifier" where
  "send_notification x n =
     (if \<not> nt_enabled n then n
      else n\<lparr>nt_notifications := gm_put (no_id x) x (nt_notifications n),
             nt_delivered := nt_delivered n @ map (\<lambda>h. (nh_type h, x)) (filter nh_enabled (nt_handlers n))\<rparr>)"

definition notify :: "notif_event \<Rightarrow> string \<Rightarrow> string \<Rightarrow> notif_data \<Rightarrow> time \<Rightarrow> notifier \<Rightarrow> notifier" where
  "notify ev title msg data now n =
     (case generate_notification_id now n of
        (n1, nid) \<Rightarrow>
          send_notification \<lparr>no_id = nid, no_event = ev, no_title = title, no_message = msg,
            no_data = data, no_timestamp = now, no_read = False, no_priority = get_priority n1 ev\<rparr> n1)"

definition notify_new_proposal :: "proposal \<Rightarrow> time \<Rightarrow> notifier \<Rightarrow> notifier" where
  "notify_new_proposal p = notify EventNewProposal
     (''New '' @ pr_type p @ '' Proposal: '' @ pr_title p)
     (''Proposal '' @ pr_id p @ '' has been submitted and is now open for discussion.'') (Data_proposal p)"

definition notify_proposal_passed :: "proposal \<Rightarrow> time \<Rightarrow> notifier \<Rightarrow> notifier" where
  "notify_proposal_passed p = notify EventProposalPassed (''Proposal Passed: '' @ pr_title p)
     (''Proposal '' @ pr_id p @ '' has passed and will take effect.'') (Data_proposal p)"

definition notify_proposal_rejected :: "proposal \<Rightarrow> time \<Rightarrow> notifier \<Rightarrow> notifier" where
  "notify_proposal_rejected p = notify EventProposalRejected (''Proposal Rejected: '' @ pr_title p)
     (''Proposal '' @ pr_id p @ '' has been rejected.'') (Data_proposal p)"

text \<open>\<open>None\<close> is the nil dereference of a proposal without upgrade information.\<close>

definition notify_upgrade_scheduled :: "proposal \<Rightarrow> time \<Rightarrow> notifier \<Rightarrow> notifier option" where
  "notify_upgrade_scheduled p now n =
     (case pr_upgrade_info p of
        None \<Rightarrow> None
      | Some u \<Rightarrow>
          Some (notify EventUpgradeScheduled (''Upgrade Scheduled: '' @ gu_name u)
            (''Upgrade '' @ gu_name u @ '' has been scheduled for block height '' @
               int_str (pr_upgrade_height p) @ ''.'') (Data_upgrade u) now n))"

definition notify_upgrade_triggered :: "gov_upgrade \<Rightarrow> time \<Rightarrow> notifier \<Rightarrow> notifier" where
  "notify_upgrade_triggered u = notify EventUpgradeTriggered (''Upgrade Started: '' @ gu_name u)
     (''Upgrade '' @ gu_name u @ '' has been triggered at block height '' @ int_str (gu_height u) @ ''.'')
     (Data_upgrade u)"

definition notify_upgrade_completed :: "gov_upgrade \<Rightarrow> time \<Rightarrow> notifier \<Rightarrow> notifier" where
  "notify_upgrade_completed u = notify EventUpgradeCompleted (''Upgrade Completed: '' @ gu_name u)
     (''Upgrade '' @ gu_name u @ '' has been completed successfully.'') (Data_upgrade u)"

definition notify_upgrade_failed :: "gov_upgrade \<Rightarrow> string \<Rightarrow> time \<Rightarrow> notifier \<Rightarrow> notifier" where
  "notify_upgrade_failed u err = notify EventUpgradeFailed (''Upgrade Failed: '' @ gu_name u)
     (''Upgrade '' @ gu_name u @ '' has failed: '' @ err) (Data_failure u err)"

definition notify_voting_started :: "string \<Rightarrow> proposal \<Rightarrow> time \<Rightarrow> notifier \<Rightarrow> notifier" where
  "notify_voting_started end_text p = notify EventVotingStarted (''Voting Started: '' @ pr_title p)
     (''Voting has started for proposal '' @ pr_id p @ ''. Voting ends at '' @ end_text @ ''.'')
     (Data_proposal p)"

definition notify_voting_ended :: "proposal \<Rightarrow> time \<Rightarrow> notifier \<Rightarrow> notifier" where
  "notify_voting_ended p = notify EventVotingEnded (''Voting Ended: '' @ pr_title p)
     (''Voting has ended for proposal '' @ pr_id p @ ''. Final result: '' @ pr_status p @ ''.'')
     (Data_proposal p)"

definition notify_quorum_reached :: "(rat \<Rightarrow> string) \<Rightarrow> proposal \<Rightarrow> time \<Rightarrow> notifier \<Rightarrow> notifier option" where
  "notify_quorum_reached percent p now n =
     (case pr_voting_stats p of
        None \<Rightarrow> None
      | Some st \<Rightarrow>
          Some (notify EventQuorumReached (''Quorum Reached: '' @ pr_title p)
            (''Proposal '' @ pr_id p @ '' has reached quorum with '' @ percent (vs_turnout st * 100) @
               ''% turnout.'') (Data_proposal p) now n))"

definition notify_emergency_proposal :: "proposal \<Rightarrow> time \<Rightarrow> notifier \<Rightarrow> notifier" where
  "notify_emergency_proposal p = notify EventEmergencyProposal (''EMERGENCY PROPOSAL: '' @ pr_title p)
     (''Emergency proposal '' @ pr_id p @ '' requires immediate attention.'') (Data_proposal p)"

definition add_handler :: "notif_handler \<Rightarrow> notifier \<Rightarrow> notifier" where
  "add_handler h n = n\<lparr>nt_handlers := nt_handlers n @ [h]\<rparr>"

definition remove_handler :: "string \<Rightarrow> notifier \<Rightarrow> notifier" where
  "remove_handler ty n = n\<lparr>nt_handlers := remove_first (\<lambda>h. nh_type h = ty) (nt_handlers n)\<rparr>"

definition notif_newest_first :: "notification list \<Rightarrow> notification list" where
  "notif_newest_first xs = sort_slice (\<lambda>x y. no_timestamp x > no_timestamp y) xs"

definition get_notifications :: "notifier \<Rightarrow> notification list" where
  "get_notifications n = notif_newest_first (map snd (nt_notifications n))"

definition get_unread_notifications :: "notifier \<Rightarrow> notification list" where
  "get_unread_notifications n =
     notif_newest_first (filter (\<lambda>x. \<not> no_read x) (map snd (nt_notifications n)))"

definition mark_as_read :: "string \<Rightarrow> notifier \<Rightarrow> notifier \<times> bool" where
  "mark_as_read nid n =
     (case map_of (nt_notifications n) nid of
        None \<Rightarrow> (n, False)
      | Some x \<Rightarrow> (n\<lparr>nt_notifications := gm_put nid (x\<lparr>no_read := True\<rparr>) (nt_notifications n)\<rparr>, True))"

definition mark_all_as_read :: "notifier \<Rightarrow> notifier" where
  "mark_all_as_read n =
     n\<lparr>nt_notifications := map (\<lambda>(k, x). (k, x\<lparr>no_read := True\<rparr>)) (nt_notifications n)\<rparr>"

definition notif_cleanup :: "time \<Rightarrow> notifier \<Rightarrow> notifier" where
  "notif_cleanup now n =
     (let cutoff = now - nt_max_age n;
          young = filter (\<lambda>(_, x). \<not> no_timestamp x < cutoff) (nt_notifications n) in
      if length young > nt_max n
      then n\<lparr>nt_notifications :=
               fold (\<lambda>x m. gm_put (no_id x) x m) (take (nt_max n) (notif_newest_first (map snd young))) []\<rparr>
      else n\<lparr>nt_notifications := young\<rparr>)"

definition notif_set_enabled :: "bool \<Rightarrow> notifier \<Rightarrow> notifier" where
  "notif_set_enabled b n = n\<lparr>nt_enabled := b\<rparr>"

definition notifier_stop :: "notifier \<Rightarrow> notifier" where
  "notifier_stop n = n\<lparr>nt_enabled := False\<rparr>"

record notif_stats =
  nst_total :: nat
  nst_enabled_handlers :: nat
  nst_unread :: nat

definition get_notif_stats :: "notifier \<Rightarrow> notif_stats" where
  "get_notif_stats n =
     \<lparr>nst_total = length (nt_notifications n),
      nst_enabled_handlers = length (filter nh_enabled (nt_handlers n)),
      nst_unread = length (filter (\<lambda>(_, x). \<not> no_read x) (nt_notifications n))\<rparr>"

section \<open>Lemmas\<close>

text \<open>A notification is stored under its identifier.\<close>

definition notifier_ok :: "notifier \<Rightarrow> bool" where
  "notifier_ok n \<longleftrightarrow> gm_ok (nt_notifications n) \<and> (\<forall>(k, x)\<in>set (nt_notifications n). no_id x = k)"

lemma notifier_ok_new: "notifier_ok (new_notifier c)"
  by (simp add: notifier_ok_def new_notifier_def)

lemma set_gm_put: "gm_ok m \<Longrightarrow> set (gm_put k v m) = insert (k, v) {p \<in> set m. fst p \<noteq> k}"
proof (induction m)
  case (Cons p m)
  then show ?case by (cases p) (auto simp: image_iff)
qed simp

lemma notifier_ok_notify: "notifier_ok n \<Longrightarrow> notifier_ok (notify ev title msg data now n)"
  by (auto simp: notifier_ok_def notify_def generate_notification_id_def send_notification_def Let_def
      set_gm_put)

lemma notifier_ok_read: "notifier_ok n \<Longrightarrow> notifier_ok (fst (mark_as_read nid n))"
  by (auto simp: notifier_ok_def mark_as_read_def set_gm_put dest: map_of_SomeD split: option.splits)

lemma notif_newest_sorted:
  "sorted_wrt (\<lambda>x y. no_timestamp y \<le> no_timestamp x) (notif_newest_first xs)"
proof -
  have "strict_weak (\<lambda>x y. no_timestamp y < no_timestamp x)" by (rule strict_weak_key_desc)
  from gosort.srt_ordered [OF this, of xs] show ?thesis
    unfolding notif_newest_first_def by (simp only: not_less)
qed

lemma notif_newest_set: "set (notif_newest_first xs) = set xs" "length (notif_newest_first xs) = length xs"
  unfolding notif_newest_first_def by (rule gosort.srt_set, rule gosort.srt_length)

lemma rebuild_map:
  "distinct (map no_id xs) \<Longrightarrow> gm_ok m \<Longrightarrow> fst ` set m \<inter> no_id ` set xs = {} \<Longrightarrow>
     set (fold (\<lambda>x m. gm_put (no_id x) x m) xs m) = set m \<union> (\<lambda>x. (no_id x, x)) ` set xs \<and>
     gm_ok (fold (\<lambda>x m. gm_put (no_id x) x m) xs m) \<and>
     length (fold (\<lambda>x m. gm_put (no_id x) x m) xs m) = length m + length xs"
proof (induction xs arbitrary: m)
  case (Cons x xs)
  let ?m = "gm_put (no_id x) x m"
  have "fst ` set ?m \<inter> no_id ` set xs = {}" using Cons.prems by auto
  from Cons.IH [OF _ _ this] Cons.prems have
    "set (fold (\<lambda>x m. gm_put (no_id x) x m) xs ?m) = set ?m \<union> (\<lambda>x. (no_id x, x)) ` set xs \<and>
     gm_ok (fold (\<lambda>x m. gm_put (no_id x) x m) xs ?m) \<and>
     length (fold (\<lambda>x m. gm_put (no_id x) x m) xs ?m) = length ?m + length xs" by simp
  moreover have "map_of m (no_id x) = None"
    using Cons.prems(3) by (auto simp: map_of_eq_None_iff)
  then have "length ?m = Suc (length m)" by (rule gm_size_put)
  moreover have "set ?m = insert (no_id x, x) (set m)"
    using Cons.prems(3) unfolding set_gm_put [OF Cons.prems(2)] by force
  ultimately show ?case by simp
qed simp

text \<open>Cleaning up is reading the newest of the young ones, in both branches.\<close>

lemma notif_cleanup_values:
  assumes "notifier_ok n"
    and young_def: "young = filter (\<lambda>(_, x). \<not> no_timestamp x < now - nt_max_age n) (nt_notifications n)"
  shows "set (nt_notifications (notif_cleanup now n)) =
      (\<lambda>x. (no_id x, x)) ` set (take (nt_max n) (notif_newest_first (map snd young)))"
    and "length (nt_notifications (notif_cleanup now n)) = min (nt_max n) (length young)"
proof -
  let ?xs = "notif_newest_first (map snd young)"
  have ok: "gm_ok young" using assms by (simp add: notifier_ok_def)
  have ids: "\<forall>(k, x)\<in>set young. no_id x = k" using assms by (auto simp: notifier_ok_def)
  then have "map no_id (map snd young) = map fst young" by (induction young) auto
  then have "distinct (map no_id (map snd young))" using ok by (simp only:)
  then have d: "distinct (map no_id ?xs)"
    unfolding notif_newest_first_def gosort.srt_distinct_map .
  then have dt: "distinct (map no_id (take (nt_max n) ?xs))"
    by (simp add: take_map [symmetric] distinct_take)
  have pairs: "(\<lambda>x. (no_id x, x)) ` set (map snd young) = set young"
    using ids by (force simp: image_iff)
  have big: "set (nt_notifications (notif_cleanup now n)) =
      (\<lambda>x. (no_id x, x)) ` set (take (nt_max n) ?xs) \<and>
      length (nt_notifications (notif_cleanup now n)) = min (nt_max n) (length young)"
  proof (cases "length young > nt_max n")
    case True
    then have "nt_notifications (notif_cleanup now n) =
        fold (\<lambda>x m. gm_put (no_id x) x m) (take (nt_max n) ?xs) []"
      by (simp add: notif_cleanup_def Let_def young_def)
    with rebuild_map [OF dt, of "[]"] True show ?thesis by (simp add: notif_newest_set)
  next
    case False
    then have "nt_notifications (notif_cleanup now n) = young"
      by (simp add: notif_cleanup_def Let_def young_def)
    moreover have "take (nt_max n) ?xs = ?xs" using False by (simp add: notif_newest_set)
    ultimately show ?thesis using False pairs by (simp add: notif_newest_set)
  qed
  then show "set (nt_notifications (notif_cleanup now n)) =
      (\<lambda>x. (no_id x, x)) ` set (take (nt_max n) ?xs)"
    and "length (nt_notifications (notif_cleanup now n)) = min (nt_max n) (length young)" by blast+
qed

section \<open>Properties\<close>

text \<open>
  Cleaning up keeps the newest: afterwards at most the maximum number of notifications is stored,
  all of them were stored before and are young enough, and every young notification that was dropped
  is no newer than any that was kept (none is dropped unless the maximum is reached).
\<close>

theorem cleanup_keeps_newest:
  assumes "notifier_ok n" and "n' = notif_cleanup now n"
  shows "(length (nt_notifications n') \<le> nt_max n) \<and>
    (set (nt_notifications n') \<subseteq> {(k, x) \<in> set (nt_notifications n). now - nt_max_age n \<le> no_timestamp x}) \<and>
    ((k, x) \<in> set (nt_notifications n) \<longrightarrow> now - nt_max_age n \<le> no_timestamp x \<longrightarrow>
      (k, x) \<notin> set (nt_notifications n') \<longrightarrow>
      length (nt_notifications n') = nt_max n \<and>
      (\<forall>(j, y)\<in>set (nt_notifications n'). no_timestamp x \<le> no_timestamp y))"
proof (rule conj3I; (intro impI)?)
  define young where "young = filter (\<lambda>(_, x). \<not> no_timestamp x < now - nt_max_age n) (nt_notifications n)"
  let ?xs = "notif_newest_first (map snd young)"
  note v = notif_cleanup_values [OF assms(1) young_def, folded assms(2)]
  have ids: "no_id x = k" if "(k, x) \<in> set (nt_notifications n)" for k x
    using assms(1) that by (auto simp: notifier_ok_def)
  show "length (nt_notifications n') \<le> nt_max n" by (simp add: v)
  have mem: "(k, x) \<in> set (nt_notifications n') \<longleftrightarrow> no_id x = k \<and> x \<in> set (take (nt_max n) ?xs)" for k x
    by (auto simp: v)
  show "set (nt_notifications n') \<subseteq> {(k, x) \<in> set (nt_notifications n). now - nt_max_age n \<le> no_timestamp x}"
  proof clarify
    fix k x
    assume "(k, x) \<in> set (nt_notifications n')"
    then have "x \<in> set (map snd young)" and k: "no_id x = k"
      using mem set_take_subset [of "nt_max n" ?xs] by (auto simp: notif_newest_set)
    then obtain j where "(j, x) \<in> set young" by auto
    then have "(j, x) \<in> set (nt_notifications n)" "now - nt_max_age n \<le> no_timestamp x"
      by (auto simp: young_def)
    with ids k show "(k, x) \<in> set (nt_notifications n) \<and> now - nt_max_age n \<le> no_timestamp x" by blast
  qed
  assume x: "(k, x) \<in> set (nt_notifications n)" "now - nt_max_age n \<le> no_timestamp x"
    "(k, x) \<notin> set (nt_notifications n')"
  then have "x \<in> set ?xs" by (force simp: notif_newest_set young_def)
  moreover have "x \<notin> set (take (nt_max n) ?xs)" using x(1,3) mem ids by blast
  ultimately have d: "x \<in> set (drop (nt_max n) ?xs)"
    by (metis UnE append_take_drop_id set_append)
  then have "nt_max n < length young"
    using notif_newest_set(2) [of "map snd young"] by (cases "nt_max n < length ?xs") auto
  moreover have "\<forall>y\<in>set (take (nt_max n) ?xs). no_timestamp x \<le> no_timestamp y"
  proof -
    have "sorted_wrt (\<lambda>x y. no_timestamp y \<le> no_timestamp x) (take (nt_max n) ?xs @ drop (nt_max n) ?xs)"
      using notif_newest_sorted [of "map snd young"] by simp
    with d show ?thesis unfolding sorted_wrt_append by blast
  qed
  ultimately show "length (nt_notifications n') = nt_max n \<and>
      (\<forall>(j, y)\<in>set (nt_notifications n'). no_timestamp x \<le> no_timestamp y)"
    using mem by (auto simp: v(2))
qed

definition demo_notifier :: notifier where
  "demo_notifier = notify EventNewProposal ''b'' '''' (Data_proposal empty_proposal) 7
     (notify EventNewProposal ''a'' '''' (Data_proposal empty_proposal) 5 ((new_notifier 0)\<lparr>nt_max := 1\<rparr>))"

theorem cleanup_keeps_newest_witness:
  "length (nt_notifications (notif_cleanup 8 demo_notifier)) \<le> 1"
proof -
  have ok: "notifier_ok demo_notifier"
    using notifier_ok_new [of 0] unfolding demo_notifier_def
    by (intro notifier_ok_notify) (simp add: notifier_ok_def)
  have "nt_max demo_notifier = 1"
    by (simp add: demo_notifier_def notify_def generate_notification_id_def send_notification_def
        Let_def new_notifier_def)
  with cleanup_keeps_newest [OF ok refl, of 8, THEN conjunct1] show ?thesis by simp
qed

end
