(* ===== verification/GovMonitor.thy ===== *)
theory GovMonitor
  imports Scheduler Notifications FileWatcher
begin

text \<open>
  \<open>internal/governance/monitor.go\<close>: the three loops that watch proposals, votes and the upgrade queue.
  One tick of each loop is an operation on the monitor and the file system; the node's answers and
  the clock are arguments. The file a triggered upgrade leaves is what \<open>encoding/json\<close> makes of the
  map the source builds, read back into the \<open>UpgradeInfo\<close> of \<open>pkg/types\<close>, whose \<open>info\<close> is an object.
\<close>

record monitor =
  mo_rpc_address :: string
  mo_info_path :: string
  mo_enabled :: bool
  mo_poll_interval :: duration
  mo_tracker :: tracker
  mo_scheduler :: scheduler
  mo_notifier :: notifier
  mo_started :: bool

definition new_monitor :: "string \<Rightarrow> string \<Rightarrow> monitor" where
  "new_monitor rpc path = \<lparr>mo_rpc_address = rpc, mo_info_path = path, mo_enabled = True,
     mo_poll_interval = 30 * second, mo_tracker = new_tracker, mo_scheduler = new_scheduler,
     mo_notifier = new_notifier 0, mo_started = False\<rparr>"

datatype monitor_error = Rpc_client_failed | Height_failed | Info_missing
| Height_not_future int int | Url_missing string | Checksum_missing string

text \<open>\<open>Start\<close> with \<open>initializeComponents\<close>; the argument is the notification counter of the process.\<close>

definition monitor_start :: "nat \<Rightarrow> monitor \<Rightarrow> (monitor, monitor_error, unit) gores" where
  "monitor_start counter m =
     (if \<not> mo_enabled m then (m, Inr ())
      else if mo_rpc_address m = '''' then (m, Inl Rpc_client_failed)
      else (m\<lparr>mo_tracker := new_tracker, mo_scheduler := new_scheduler,
              mo_notifier := new_notifier counter, mo_started := True\<rparr>, Inr ()))"

fun check_platforms :: "(string, gov_binary) gomap \<Rightarrow> monitor_error + unit" where
  "check_platforms [] = Inr ()"
| "check_platforms ((platform, b) # bs) =
     (if gb_url b = '''' then Inl (Url_missing platform)
      else if gb_checksum b = '''' then Inl (Checksum_missing platform)
      else check_platforms bs)"

definition validate_upgrade_proposal :: "gov_node \<Rightarrow> proposal \<Rightarrow> monitor_error + unit" where
  "validate_upgrade_proposal node p =
     (case pr_upgrade_info p of
        None \<Rightarrow> Inl Info_missing
      | Some u \<Rightarrow>
          (case gov_current_height node of
             None \<Rightarrow> Inl Height_failed
           | Some h \<Rightarrow>
               if pr_upgrade_height p \<le> h then Inl (Height_not_future (pr_upgrade_height p) h)
               else (case gu_binaries u of None \<Rightarrow> Inr () | Some bs \<Rightarrow> check_platforms bs)))"

text \<open>The validation of a new proposal is only logged.\<close>

definition check_new_proposals :: "gov_node \<Rightarrow> time \<Rightarrow> monitor \<Rightarrow> monitor \<times> (string \<times> monitor_error) list" where
  "check_new_proposals node now m =
     (case fetch_latest node now (mo_tracker m) of
        (t, news) \<Rightarrow>
          let ups = filter (\<lambda>p. pr_type p = type_upgrade) news in
          (m\<lparr>mo_tracker := t, mo_notifier := fold (\<lambda>p. notify_new_proposal p now) ups (mo_notifier m)\<rparr>,
           [(pr_id p, e). p \<leftarrow> ups, e \<leftarrow> (case validate_upgrade_proposal node p of Inl e \<Rightarrow> [e] | Inr _ \<Rightarrow> [])]))"

fun vote_loop :: "gov_node \<Rightarrow> time \<Rightarrow> proposal list \<Rightarrow> monitor \<Rightarrow> monitor" where
  "vote_loop node now [] m = m"
| "vote_loop node now (p # ps) m =
     (case update_voting_status node (pr_id p) (mo_tracker m) of
        (t, False) \<Rightarrow> vote_loop node now ps (m\<lparr>mo_tracker := t\<rparr>)
      | (t, True) \<Rightarrow>
          let m1 = m\<lparr>mo_tracker := t\<rparr> in
          if pr_status p = status_passed \<and> pr_type p = type_upgrade then
            (case sched_schedule now p (mo_scheduler m1) of
               (s, Inl _) \<Rightarrow> vote_loop node now ps (m1\<lparr>mo_scheduler := s\<rparr>)
             | (s, Inr _) \<Rightarrow>
                 vote_loop node now ps (m1\<lparr>mo_scheduler := s,
                   mo_notifier := (case notify_upgrade_scheduled p now (mo_notifier m1) of
                                     Some n \<Rightarrow> n | None \<Rightarrow> mo_notifier m1)\<rparr>))
          else vote_loop node now ps m1)"

definition check_voting_progress :: "gov_node \<Rightarrow> time \<Rightarrow> monitor \<Rightarrow> monitor" where
  "check_voting_progress node now m = vote_loop node now (get_active (mo_tracker m)) m"

section \<open>Triggering\<close>

definition trigger_json :: "gov_upgrade \<Rightarrow> json" where
  "trigger_json u =
     JObj [(''height'', JNum (int_str (gu_height u))), (''info'', JStr (gu_info u)), (''name'', JStr (gu_name u))]"

text \<open>
  \<open>json.Unmarshal\<close> into \<open>types.UpgradeInfo\<close>: a missing field or \<open>null\<close> leaves the zero value, a value
  of another kind is an error. An integer literal is what \<open>strconv\<close> accepts.
\<close>

definition json_int :: "string \<Rightarrow> int option" where
  "json_int s =
     (case scan_int s of
        Some (n, []) \<Rightarrow> if int_str n = s then Some n else None
      | _ \<Rightarrow> None)"

definition decode_upgrade_info :: "json \<Rightarrow> upgrade_info option" where
  "decode_upgrade_info j =
     (case j of
        JObj kvs \<Rightarrow>
          Option.bind (case map_of kvs ''name'' of
                         None \<Rightarrow> Some '''' | Some JNull \<Rightarrow> Some '''' | Some (JStr s) \<Rightarrow> Some s | _ \<Rightarrow> None) (\<lambda>name.
          Option.bind (case map_of kvs ''height'' of
                         None \<Rightarrow> Some 0 | Some JNull \<Rightarrow> Some 0 | Some (JNum s) \<Rightarrow> json_int s | _ \<Rightarrow> None) (\<lambda>h.
          Option.bind (case map_of kvs ''info'' of
                         None \<Rightarrow> Some [] | Some JNull \<Rightarrow> Some [] | Some (JObj o') \<Rightarrow> Some o' | _ \<Rightarrow> None) (\<lambda>info.
          Some \<lparr>ui_name = name, ui_height = h, ui_info = info\<rparr>)))
      | JNull \<Rightarrow> Some \<lparr>ui_name = '''', ui_height = 0, ui_info = []\<rparr>
      | _ \<Rightarrow> None)"

definition gov_write_info :: "bool \<Rightarrow> time \<Rightarrow> string \<Rightarrow> json \<Rightarrow> ufs \<Rightarrow> ufs \<times> bool" where
  "gov_write_info writable now path data fs =
     (if writable
      then (fs(path := Present \<lparr>uf_empty = False, uf_mtime = now, uf_decoded = decode_upgrade_info data\<rparr>), True)
      else (fs, False))"

definition gov_trigger_upgrade :: "bool \<Rightarrow> time \<Rightarrow> gov_upgrade \<Rightarrow> monitor \<times> ufs \<Rightarrow> (monitor \<times> ufs) \<times> bool" where
  "gov_trigger_upgrade writable now u = (\<lambda>(m, fs).
     case gov_write_info writable now (mo_info_path m) (trigger_json u) fs of
       (fs1, False) \<Rightarrow> ((m, fs1), False)
     | (fs1, True) \<Rightarrow>
         ((m\<lparr>mo_notifier := notify_upgrade_triggered u now (mo_notifier m)\<rparr>, fs1), True))"

text \<open>The body of the queue loop for one upgrade of the snapshot; the upgrade is read through its pointer.\<close>

definition process_one :: "bool \<Rightarrow> time \<Rightarrow> int \<Rightarrow> nat \<Rightarrow> monitor \<times> ufs \<Rightarrow> monitor \<times> ufs" where
  "process_one writable now h a = (\<lambda>(m, fs).
     let u = sc_store (mo_scheduler m) a in
     if gu_height u \<le> h \<and> gu_status u = up_scheduled then
       (case gov_trigger_upgrade writable now u (m, fs) of
          ((m1, fs1), ok) \<Rightarrow>
            let status = (if ok then up_in_progress else up_failed);
                m2 = m1\<lparr>mo_scheduler := set_status_at a status (mo_scheduler m1)\<rparr>;
                m3 = (if ok then m2\<lparr>mo_notifier := notify_upgrade_triggered
                                     (sc_store (mo_scheduler m2) a) now (mo_notifier m2)\<rparr> else m2) in
            (m3\<lparr>mo_scheduler := fst (sched_update_status now (gu_name u) status (mo_scheduler m3))\<rparr>, fs1))
     else (m, fs))"

definition process_upgrade_queue :: "gov_node \<Rightarrow> bool \<Rightarrow> time \<Rightarrow> monitor \<times> ufs \<Rightarrow> monitor \<times> ufs" where
  "process_upgrade_queue node writable now = (\<lambda>(m, fs).
     case gov_current_height node of
       None \<Rightarrow> (m, fs)
     | Some h \<Rightarrow> fold (process_one writable now h) (sc_queue (mo_scheduler m)) (m, fs))"

text \<open>
  The remaining operations. Before \<open>Start\<close> the components are nil, which the accessors report;
  \<open>Stop\<close> ends the goroutines and leaves the components as they are.
\<close>

definition monitor_get_proposals :: "monitor \<Rightarrow> proposal list option" where
  "monitor_get_proposals m = (if mo_started m then Some (get_active (mo_tracker m)) else None)"

definition monitor_get_queue :: "monitor \<Rightarrow> gov_upgrade list option" where
  "monitor_get_queue m = (if mo_started m then Some (sched_queue_view (mo_scheduler m)) else None)"

definition monitor_force_sync :: "gov_node \<Rightarrow> time \<Rightarrow> monitor \<Rightarrow> monitor option" where
  "monitor_force_sync node now m =
     (if mo_started m then Some (m\<lparr>mo_tracker := tracker_sync node now (mo_tracker m)\<rparr>) else None)"

definition monitor_set_enabled :: "bool \<Rightarrow> monitor \<Rightarrow> monitor" where
  "monitor_set_enabled b m = m\<lparr>mo_enabled := b\<rparr>"

definition monitor_set_poll_interval :: "duration \<Rightarrow> monitor \<Rightarrow> monitor" where
  "monitor_set_poll_interval d m = m\<lparr>mo_poll_interval := d\<rparr>"

text \<open>The ticks of the three goroutines, in any order.\<close>

datatype tick_event =
  Proposal_tick gov_node time
| Voting_tick gov_node time
| Queue_tick gov_node bool time

fun monitor_tick :: "tick_event \<Rightarrow> monitor \<times> ufs \<Rightarrow> monitor \<times> ufs" where
  "monitor_tick (Proposal_tick node now) (m, fs) = (fst (check_new_proposals node now m), fs)"
| "monitor_tick (Voting_tick node now) (m, fs) = (check_voting_progress node now m, fs)"
| "monitor_tick (Queue_tick node writable now) (m, fs) = process_upgrade_queue node writable now (m, fs)"

section \<open>Lemmas\<close>

text \<open>Whatever a node answers, the active map holds active proposals only.\<close>

definition active_ok :: "tracker \<Rightarrow> bool" where
  "active_ok t \<longleftrightarrow> (\<forall>kp\<in>set (tr_active t). is_active (snd kp))"

lemma set_gm_del: "set (gm_del k m) \<subseteq> set m"
  by (simp add: AList.delete_eq)

lemma set_gm_put_subset: "set (gm_put k v m) \<subseteq> insert (k, v) (set m)"
  by (induction m) auto

lemma active_ok_subset: "set m \<subseteq> insert (k, p) (set n) \<Longrightarrow> is_active p \<Longrightarrow>
    \<forall>kp\<in>set n. is_active (snd kp) \<Longrightarrow> \<forall>kp\<in>set m. is_active (snd kp)"
  by fastforce

lemma active_ok_track:
  assumes "active_ok t"
  shows "active_ok (track pid p t)"
proof -
  let ?d = "gm_del (pr_id p) (tr_active t)"
  from assms set_gm_del [of "pr_id p" "tr_active t"] have d: "\<forall>kp\<in>set ?d. is_active (snd kp)"
    by (auto simp: active_ok_def)
  show ?thesis
  proof (cases "is_active p")
    case True
    from active_ok_subset [OF set_gm_put_subset True d] True show ?thesis
      by (simp add: active_ok_def track_def update_categories_def Let_def)
  next
    case False
    with d show ?thesis by (simp add: active_ok_def track_def update_categories_def Let_def)
  qed
qed

lemma active_ok_absorb: "active_ok t \<Longrightarrow> active_ok (fst (absorb ps t))"
  by (induction ps arbitrary: t) (simp_all add: absorb_Cons active_ok_track del: absorb.simps(2))

lemma active_ok_fetch: "active_ok t \<Longrightarrow> active_ok (fst (fetch_latest node now t))"
  using active_ok_absorb [of t "fetched node"]
  by (simp add: fetch_latest_def active_ok_def split: prod.splits)

lemma active_ok_vote: "active_ok t \<Longrightarrow> active_ok (fst (update_voting_status node pid t))"
  by (auto simp: update_voting_status_def active_ok_track split: option.splits)

lemma active_ok_members: "active_ok t \<Longrightarrow> p \<in> set (get_active t) \<Longrightarrow> is_active p"
  by (auto simp: active_ok_def get_active_def newest_first_def gosort.srt_set)

lemma active_not_passed: "is_active p \<Longrightarrow> pr_status p \<noteq> status_passed"
  by (auto simp: is_active_def)

lemma vote_loop_quiet:
  "\<forall>p\<in>set ps. pr_status p \<noteq> status_passed \<Longrightarrow> active_ok (mo_tracker m) \<Longrightarrow>
     mo_scheduler (vote_loop node now ps m) = mo_scheduler m \<and>
     mo_notifier (vote_loop node now ps m) = mo_notifier m \<and>
     active_ok (mo_tracker (vote_loop node now ps m))"
proof (induction ps arbitrary: m)
  case Nil
  then show ?case by simp
next
  case (Cons p ps)
  obtain t b where v: "update_voting_status node (pr_id p) (mo_tracker m) = (t, b)" by fastforce
  with active_ok_vote [OF Cons.prems(2), of node "pr_id p"] have "active_ok t" by simp
  with Cons.IH [of "m\<lparr>mo_tracker := t\<rparr>"] Cons.prems v show ?case
    by (cases b) (simp_all add: Let_def)
qed

text \<open>What a run of the monitor keeps: nothing is ever scheduled.\<close>

definition quiet :: "monitor \<Rightarrow> bool" where
  "quiet m \<longleftrightarrow> active_ok (mo_tracker m) \<and> mo_scheduler m = new_scheduler"

lemma quiet_tick:
  assumes "quiet m" and "monitor_tick tick (m, fs) = (m', fs')"
  shows "quiet m' \<and> fs' = fs"
proof (cases tick)
  case (Proposal_tick node now)
  with assms active_ok_fetch [of "mo_tracker m" node now] show ?thesis
    by (auto simp: quiet_def check_new_proposals_def Let_def split: prod.splits)
next
  case (Voting_tick node now)
  with assms vote_loop_quiet [of "get_active (mo_tracker m)" m node now] show ?thesis
    using active_ok_members active_not_passed
    by (auto simp: quiet_def check_voting_progress_def)
next
  case (Queue_tick node writable now)
  with assms show ?thesis
    by (auto simp: quiet_def process_upgrade_queue_def new_scheduler_def split: option.splits)
qed

lemma quiet_run: "quiet m \<Longrightarrow> quiet (fst (fold monitor_tick ticks (m, fs))) \<and>
    snd (fold monitor_tick ticks (m, fs)) = fs"
proof (induction ticks arbitrary: m fs)
  case (Cons tick ticks)
  obtain m1 fs1 where e: "monitor_tick tick (m, fs) = (m1, fs1)" by fastforce
  from quiet_tick [OF Cons.prems e] have "quiet m1" and "fs1 = fs" by simp_all
  with Cons.IH [of m1 fs] e show ?case by simp
qed simp

text \<open>A triggered upgrade's file does not decode, because its \<open>info\<close> is a string.\<close>

lemma trigger_json_undecodable: "decode_upgrade_info (trigger_json u) = None"
  by (auto simp: decode_upgrade_info_def trigger_json_def split: Option.bind_splits)

lemma gov_write_parse:
  "gov_write_info True now path (trigger_json u) fs = (fs', ok) \<Longrightarrow>
     parse_upgrade_info_file fs' path = Inl Parse_failed"
  by (auto simp: gov_write_info_def parse_upgrade_info_file_def trigger_json_undecodable)

text \<open>An object \<open>info\<close> would have been read back.\<close>

lemma decode_object_info:
  "json_int (int_str h) = Some h \<Longrightarrow>
     decode_upgrade_info (JObj [(''height'', JNum (int_str h)), (''info'', JObj kvs), (''name'', JStr n)]) =
     Some \<lparr>ui_name = n, ui_height = h, ui_info = kvs\<rparr>"
  by (simp add: decode_upgrade_info_def)

definition triggered_count :: "notifier \<Rightarrow> nat" where
  "triggered_count n = length (filter (\<lambda>(_, x). no_event x = EventUpgradeTriggered) (nt_delivered n))"

lemma triggered_count_notify:
  "triggered_count (notify EventUpgradeTriggered title msg data now n) =
     triggered_count n + (if nt_enabled n then length (filter nh_enabled (nt_handlers n)) else 0)"
  "nt_enabled (notify ev title msg data now n) = nt_enabled n"
  "nt_handlers (notify ev title msg data now n) = nt_handlers n"
  by (simp_all add: triggered_count_def notify_def generate_notification_id_def send_notification_def
      Let_def filter_map comp_def)

section \<open>Properties\<close>

text \<open>
  C31. The governance monitor never schedules an upgrade by itself: whatever the node answers and in
  whatever order the three loops tick, after any run of a started monitor the upgrade queue is empty
  and no file was written. A vote that passes is noticed only by updating the tracker, while the
  check for a passed proposal looks at the copy read before the update, which is active.
\<close>

theorem governance_never_schedules:
  assumes "monitor_start counter m = (m0, Inr ())" and "mo_started m0" and "\<not> mo_started m"
    and "fold monitor_tick ticks (m0, fs) = (m', fs')"
  shows "(sched_queue_view (mo_scheduler m') = []) \<and>
    (is_upgrade_ready h (mo_scheduler m') = None) \<and>
    (fs' = fs)"
proof (rule conj3I; (intro impI)?)
  have "quiet m0"
    using assms(1-3)
    by (auto simp: monitor_start_def quiet_def active_ok_def new_tracker_def split: if_splits)
  with quiet_run [of m0 ticks fs] assms(4) have q: "quiet m'" and f: "fs' = fs" by simp_all
  then show "sched_queue_view (mo_scheduler m') = []" and "is_upgrade_ready h (mo_scheduler m') = None"
    and "fs' = fs"
    by (simp_all add: quiet_def new_scheduler_def sched_queue_view_def is_upgrade_ready_def)
qed

theorem governance_never_schedules_witness:
  "\<exists>m0. monitor_start 0 (new_monitor ''http://n'' ''f'') = (m0, Inr ()) \<and>
     sched_queue_view (mo_scheduler (fst (fold monitor_tick
       [Proposal_tick demo_node 9, Voting_tick demo_node 10, Queue_tick demo_node True 11] (m0, \<lambda>_. Absent)))) = []"
proof -
  let ?m = "new_monitor ''http://n'' ''f''"
  obtain m0 r where s: "monitor_start 0 ?m = (m0, r)" by fastforce
  then have r: "r = Inr ()" "mo_started m0" "\<not> mo_started ?m"
    by (auto simp: monitor_start_def new_monitor_def)
  obtain m' fs' where e: "fold monitor_tick
      [Proposal_tick demo_node 9, Voting_tick demo_node 10, Queue_tick demo_node True 11] (m0, \<lambda>_. Absent)
      = (m', fs')" by fastforce
  from governance_never_schedules [OF s [unfolded r(1)] r(2,3) e, THEN conjunct1] s e r show ?thesis by simp
qed

text \<open>
  An upgrade that is due and can be written is triggered: it is in progress afterwards, and every
  enabled handler is told twice, because both \<open>triggerUpgrade\<close> and its caller notify. The file it
  leaves is rejected by the parser the upgrade watcher uses, so that a poll of the watcher detects
  nothing: its \<open>info\<close> is written as a string and read as an object.
\<close>

theorem triggered_upgrade_not_detected:
  assumes "u = sc_store (mo_scheduler m) a" and "gu_height u \<le> h" and "gu_status u = up_scheduled"
    and "map_of (sc_upgrades (mo_scheduler m)) (gu_name u) = Some a"
    and "process_one True now h a (m, fs) = (m', fs')"
  shows "(gu_status (sc_store (mo_scheduler m') a) = up_in_progress) \<and>
    (triggered_count (mo_notifier m') = triggered_count (mo_notifier m) +
      2 * (if nt_enabled (mo_notifier m) then length (filter nh_enabled (nt_handlers (mo_notifier m))) else 0)) \<and>
    (parse_upgrade_info_file fs' (mo_info_path m) = Inl Parse_failed) \<and>
    (fw_filename fw = mo_info_path m \<longrightarrow> check_for_update fs' fw = (fw, False))"
proof (rule conj4I; (intro impI)?)
  let ?n1 = "notify_upgrade_triggered u now (mo_notifier m)"
  let ?s1 = "set_status_at a up_in_progress (mo_scheduler m)"
  let ?n2 = "notify_upgrade_triggered (sc_store ?s1 a) now ?n1"
  let ?fs = "fs(mo_info_path m := Present \<lparr>uf_empty = False, uf_mtime = now, uf_decoded = None\<rparr>)"
  have r: "m' = m\<lparr>mo_notifier := ?n2,
        mo_scheduler := fst (sched_update_status now (gu_name u) up_in_progress ?s1)\<rparr>"
    and f: "fs' = ?fs"
    using assms(1-3,5)
    by (auto simp: process_one_def gov_trigger_upgrade_def gov_write_info_def Let_def trigger_json_undecodable)
  have "map_of (sc_upgrades ?s1) (gu_name u) = Some a" using assms(4) by (simp add: set_status_at_def)
  then show "gu_status (sc_store (mo_scheduler m') a) = up_in_progress"
    unfolding r by (simp add: sched_update_status_def Let_def)
  show "triggered_count (mo_notifier m') = triggered_count (mo_notifier m) +
      2 * (if nt_enabled (mo_notifier m) then length (filter nh_enabled (nt_handlers (mo_notifier m))) else 0)"
    unfolding r by (simp add: notify_upgrade_triggered_def triggered_count_notify)
  show p: "parse_upgrade_info_file fs' (mo_info_path m) = Inl Parse_failed"
    by (simp add: f parse_upgrade_info_file_def)
  show "check_for_update fs' fw = (fw, False)" if "fw_filename fw = mo_info_path m"
    using that p by (simp add: check_for_update_def check_file_def f)
qed

definition demo_due :: monitor where
  "demo_due = (new_monitor ''http://n'' ''f'')\<lparr>
     mo_scheduler := fst (sched_schedule 1 (demo_proposal ''a'' 100) new_scheduler)\<rparr>"

theorem triggered_upgrade_not_detected_witness:
  "check_for_update (snd (process_one True 5 120 0 (demo_due, \<lambda>_. Absent))) (new_file_watcher ''f'' 1) =
     (new_file_watcher ''f'' 1, False)"
proof -
  obtain m' fs' where e: "process_one True 5 120 0 (demo_due, \<lambda>_. Absent) = (m', fs')" by fastforce
  let ?u = "sc_store (mo_scheduler demo_due) 0"
  have u: "gu_height ?u \<le> 120" "gu_status ?u = up_scheduled"
    "map_of (sc_upgrades (mo_scheduler demo_due)) (gu_name ?u) = Some 0"
    "fw_filename (new_file_watcher ''f'' 1) = mo_info_path demo_due"
    by (simp_all add: demo_due_def sched_schedule_def demo_proposal_def new_scheduler_def sched_validate_def
        Let_def empty_proposal_def empty_upgrade_def new_monitor_def new_file_watcher_def)
  from triggered_upgrade_not_detected [OF refl u(1-3) e, THEN conjunct2, THEN conjunct2,
      THEN conjunct2, THEN mp, OF u(4)] e show ?thesis by simp
qed

end
