(* ===== verification/ApiServer.thy ===== *)
theory ApiServer
  imports GovMonitor Metrics ConfigModel Channels
begin

text \<open>
  \<open>internal/api/server.go\<close>: the HTTP handlers and the WebSocket clients. Routing, the decoding of request
  bodies and the marshalling of responses are gin's and the library's: a handler gets the decoded body, or
  the error of decoding it, and answers with a status and a body. The goroutines of the WebSocket side (the
  handler, the reader and the writer of each connection, and the broadcast) take steps in any order that the
  locks allow.
\<close>

datatype resp =
  R_null | R_str string | R_int int | R_bool bool | R_list "resp list" | R_obj "(string \<times> resp) list"
| R_snapshot metrics_snapshot | R_upgrades "gov_upgrade list" | R_proposals "proposal list" | R_proposal proposal

datatype ws_data =
  Ws_welcome | Ws_status string | Ws_snapshot metrics_snapshot | Ws_alert alert | Ws_log "(string \<times> resp) list"
| Ws_proposal resp

record ws_message =
  wm_type :: string
  wm_topic :: string
  wm_data :: ws_data
  wm_time :: int

text \<open>
  A connection object: its channel, its subscriptions, where its reader goroutine is (writing the welcome
  message, waiting for a request, inside the loop of a request with the mutex held, out of its loop and
  about to remove the client, gone) and whether its writer goroutine runs.
\<close>

datatype reader = Welcoming | Reading | Handling string "string list" | Leaving | Gone

record ws_client =
  wc_send :: "ws_message chan"
  wc_subs :: "string list"
  wc_reader :: reader
  wc_writing :: bool

text \<open>
  Where the broadcast goroutine is: waiting, with a message before it has the read lock, or under the read
  lock with the clients still to visit and the one whose subscription it has just found.
\<close>

datatype turn = Waiting | Taken ws_message | Visiting ws_message "nat list" "nat option"

record server =
  sv_config :: config
  sv_monitor :: "monitor option"
  sv_collector :: "collector option"
  sv_port :: int
  sv_running :: bool
  sv_clients :: "(nat, ws_client) gomap"
  sv_registered :: "nat list"
  sv_broadcast :: "ws_message chan"
  sv_turn :: turn

definition new_server :: "config \<Rightarrow> monitor option \<Rightarrow> collector option \<Rightarrow> server" where
  "new_server c mon col =
     \<lparr>sv_config = c, sv_monitor = mon, sv_collector = col,
      sv_port = (if cf_api_port (c_api c) > 0 then cf_api_port (c_api c) else 8080), sv_running = False,
      sv_clients = [], sv_registered = [], sv_broadcast = make_chan 256, sv_turn = Waiting\<rparr>"

definition server_start :: "server \<Rightarrow> server" where
  "server_start s = s\<lparr>sv_running := True\<rparr>"

text \<open>A shutdown that does not end in ten seconds is an error.\<close>

definition server_stop :: "bool \<Rightarrow> server \<Rightarrow> (server, unit, unit) gores" where
  "server_stop in_time s =
     (if \<not> sv_running s then (s, Inr ())
      else if in_time then (s\<lparr>sv_running := False\<rparr>, Inr ()) else (s, Inl ()))"

section \<open>Handlers\<close>

datatype handler =
  Health_handler | Ready_handler | Get_status | Get_version | Get_metrics | Get_snapshot | Get_upgrades
| Get_upgrade | Schedule_upgrade | Cancel_upgrade | Get_proposals | Get_proposal | Get_votes | Get_validators
| Get_config | Update_config | Validate_config | Get_logs | Stream_logs | Web_socket

definition routes :: "(string \<times> string \<times> handler) list" where
  "routes =
     [(''GET'', ''/health'', Health_handler), (''GET'', ''/ready'', Ready_handler),
      (''GET'', ''/api/v1/status'', Get_status), (''GET'', ''/api/v1/version'', Get_version),
      (''GET'', ''/api/v1/metrics'', Get_metrics), (''GET'', ''/api/v1/metrics/snapshot'', Get_snapshot),
      (''GET'', ''/api/v1/upgrades'', Get_upgrades), (''GET'', ''/api/v1/upgrades/:id'', Get_upgrade),
      (''POST'', ''/api/v1/upgrades'', Schedule_upgrade), (''DELETE'', ''/api/v1/upgrades/:id'', Cancel_upgrade),
      (''GET'', ''/api/v1/governance/proposals'', Get_proposals),
      (''GET'', ''/api/v1/governance/proposals/:id'', Get_proposal),
      (''GET'', ''/api/v1/governance/votes'', Get_votes), (''GET'', ''/api/v1/governance/validators'', Get_validators),
      (''GET'', ''/api/v1/config'', Get_config), (''PUT'', ''/api/v1/config'', Update_config),
      (''GET'', ''/api/v1/config/validate'', Validate_config), (''GET'', ''/api/v1/logs'', Get_logs),
      (''GET'', ''/api/v1/logs/stream'', Stream_logs), (''GET'', ''/api/v1/ws'', Web_socket)]"

text \<open>
  What a handler reads of a request: the path parameter, the two query parameters of the logs, the body as
  a schedule request (\<open>Inl\<close> the error text), the text of the binding's error when the name or the height
  that it requires is missing, and whether the body is an object. The clock is in seconds of the Unix time.
\<close>

record api_request =
  rq_param :: string
  rq_limit :: "string option"
  rq_level :: "string option"
  rq_schedule :: "string + (string \<times> int \<times> string)"
  rq_missing :: string
  rq_object :: "string + unit"
  rq_unix :: int

abbreviation err_resp :: "string \<Rightarrow> resp" where
  "err_resp msg \<equiv> R_obj [(''error'', R_str msg)]"

definition bind_schedule :: "api_request \<Rightarrow> string + (string \<times> int \<times> string)" where
  "bind_schedule r =
     (case rq_schedule r of
        Inl e \<Rightarrow> Inl e
      | Inr (name, height, info) \<Rightarrow>
          if name = '''' \<or> height = 0 then Inl (rq_missing r) else Inr (name, height, info))"

definition with_monitor :: "server \<Rightarrow> (monitor \<Rightarrow> int \<times> resp) \<Rightarrow> int \<times> resp" where
  "with_monitor s f = (case sv_monitor s of None \<Rightarrow> (503, err_resp ''Monitor not available'') | Some m \<Rightarrow> f m)"

definition get_metrics :: "server \<Rightarrow> int \<times> resp" where
  "get_metrics s =
     (case sv_collector s of
        None \<Rightarrow> (503, err_resp ''Metrics collector not available'')
      | Some c \<Rightarrow> (case cl_last c of
            None \<Rightarrow> (204, R_obj [(''message'', R_str ''No metrics available yet'')])
          | Some sn \<Rightarrow> (200, R_snapshot sn)))"

definition get_metrics_snapshot :: "server \<Rightarrow> int \<times> resp" where
  "get_metrics_snapshot s =
     (case sv_collector s of
        None \<Rightarrow> (503, err_resp ''Metrics collector not available'')
      | Some c \<Rightarrow> (200, case cl_last c of None \<Rightarrow> R_null | Some sn \<Rightarrow> R_snapshot sn))"

definition get_upgrades :: "server \<Rightarrow> int \<times> resp" where
  "get_upgrades s = with_monitor s (\<lambda>m.
     case monitor_get_queue m of
       None \<Rightarrow> (500, err_resp ''upgrade scheduler not initialized'')
     | Some us \<Rightarrow> (200, R_obj [(''upgrades'', R_upgrades us), (''count'', R_int (int (length us)))]))"

definition api_get_proposals :: "server \<Rightarrow> int \<times> resp" where
  "api_get_proposals s = with_monitor s (\<lambda>m.
     case monitor_get_proposals m of
       None \<Rightarrow> (500, err_resp ''proposal tracker not initialized'')
     | Some ps \<Rightarrow> (200, R_obj [(''proposals'', R_proposals ps), (''count'', R_int (int (length ps)))]))"

definition api_get_proposal :: "server \<Rightarrow> string \<Rightarrow> int \<times> resp" where
  "api_get_proposal s pid = with_monitor s (\<lambda>m.
     case monitor_get_proposals m of
       None \<Rightarrow> (500, err_resp ''proposal tracker not initialized'')
     | Some ps \<Rightarrow> (case find (\<lambda>p. pr_id p = pid) ps of
           Some p \<Rightarrow> (200, R_proposal p)
         | None \<Rightarrow> (404, err_resp ''Proposal not found'')))"

definition api_health :: "api_request \<Rightarrow> int \<times> resp" where
  "api_health r =
     (200, R_obj [(''status'', R_str ''healthy''), (''timestamp'', R_int (rq_unix r))])"

definition api_ready :: "server \<Rightarrow> api_request \<Rightarrow> int \<times> resp" where
  "api_ready s r =
     (if sv_monitor s = None
      then (503, R_obj [(''status'', R_str ''not_ready''), (''message'', R_str ''Monitor not initialized'')])
      else (200, R_obj [(''status'', R_str ''ready''), (''timestamp'', R_int (rq_unix r))]))"

definition api_status :: "server \<Rightarrow> api_request \<Rightarrow> int \<times> resp" where
  "api_status s r =
     (200, R_obj [(''status'', R_str ''running''), (''version'', R_str ''0.7.0''), (''uptime'', R_int (rq_unix r)),
        (''governance'', R_obj [(''enabled'', R_bool (sv_monitor s \<noteq> None))]),
        (''metrics'', R_obj [(''enabled'', R_bool (sv_collector s \<noteq> None))])])"

definition api_version :: "int \<times> resp" where
  "api_version =
     (200, R_obj [(''version'', R_str ''0.7.0''), (''api'', R_str ''v1''),
        (''build_time'', R_str ''2024-01-01T00:00:00Z''), (''git_commit'', R_str ''abc123'')])"

definition api_upgrade :: "api_request \<Rightarrow> int \<times> resp" where
  "api_upgrade r =
     (200, R_obj [(''id'', R_str (rq_param r)), (''status'', R_str ''scheduled''), (''height'', R_int 100000)])"

definition api_schedule :: "api_request \<Rightarrow> int \<times> resp" where
  "api_schedule r =
     (case bind_schedule r of
        Inl e \<Rightarrow> (400, err_resp e)
      | Inr (name, height, _) \<Rightarrow>
          (201, R_obj [(''message'', R_str ''Upgrade scheduled successfully''),
             (''upgrade'', R_obj [(''name'', R_str name), (''height'', R_int height)])]))"

definition api_cancel :: "api_request \<Rightarrow> int \<times> resp" where
  "api_cancel r =
     (200, R_obj [(''message'', R_str (''Upgrade '' @ rq_param r @ '' cancelled''))])"

definition api_votes :: "int \<times> resp" where
  "api_votes =
     (200, R_obj [(''total_proposals'', R_int 10), (''voting_active'', R_int 2), (''participation'', R_str ''67.5%'')])"

definition api_validators :: "int \<times> resp" where
  "api_validators =
     (200, R_obj [(''validators'', R_list [R_obj [(''address'', R_str ''wemix1abc...''), (''status'', R_str ''active''),
        (''power'', R_int 1000000)]]), (''count'', R_int 1)])"

definition api_config :: "server \<Rightarrow> int \<times> resp" where
  "api_config s =
     (200, R_obj [(''home'', R_str (cf_home (c_core (sv_config s)))),
        (''rpc_address'', R_str (cf_rpc_address (c_wbft (sv_config s)))),
        (''debug'', R_bool (cf_debug (c_health (sv_config s))))])"

definition api_update_config :: "api_request \<Rightarrow> int \<times> resp" where
  "api_update_config r =
     (case rq_object r of
        Inl e \<Rightarrow> (400, err_resp e)
      | Inr _ \<Rightarrow> (200, R_obj [(''message'', R_str ''Configuration updated successfully'')]))"

definition api_validate_config :: "api_request \<Rightarrow> int \<times> resp" where
  "api_validate_config r =
     (case rq_object r of
        Inl e \<Rightarrow> (400, err_resp e)
      | Inr _ \<Rightarrow> (200, R_obj [(''valid'', R_bool True), (''message'', R_str ''Configuration is valid'')]))"

definition api_logs :: "api_request \<Rightarrow> int \<times> resp" where
  "api_logs r =
     (200, R_obj [(''logs'', R_list [R_obj [(''timestamp'', R_int (rq_unix r)),
          (''level'', R_str (case rq_level r of Some l \<Rightarrow> l | None \<Rightarrow> ''info'')),
          (''message'', R_str ''Sample log entry'')]]),
        (''limit'', R_str (case rq_limit r of Some l \<Rightarrow> l | None \<Rightarrow> ''100''))])"

definition api_stream_logs :: "api_request \<Rightarrow> int \<times> resp" where
  "api_stream_logs r =
     (200, R_obj [(''timestamp'', R_int (rq_unix r)), (''level'', R_str ''info''), (''message'', R_str ''Streaming log entry'')])"

text \<open>The routes are matched by the router; the handler of the WebSocket route is below.\<close>

fun handle_request :: "server \<Rightarrow> handler \<Rightarrow> api_request \<Rightarrow> int \<times> resp" where
  "handle_request s Health_handler r = api_health r"
| "handle_request s Ready_handler r = api_ready s r"
| "handle_request s Get_status r = api_status s r"
| "handle_request s Get_version r = api_version"
| "handle_request s Get_metrics r = get_metrics s"
| "handle_request s Get_snapshot r = get_metrics_snapshot s"
| "handle_request s Get_upgrades r = get_upgrades s"
| "handle_request s Get_upgrade r = api_upgrade r"
| "handle_request s Schedule_upgrade r = api_schedule r"
| "handle_request s Cancel_upgrade r = api_cancel r"
| "handle_request s Get_proposals r = api_get_proposals s"
| "handle_request s Get_proposal r = api_get_proposal s (rq_param r)"
| "handle_request s Get_votes r = api_votes"
| "handle_request s Get_validators r = api_validators"
| "handle_request s Get_config r = api_config s"
| "handle_request s Update_config r = api_update_config r"
| "handle_request s Validate_config r = api_validate_config r"
| "handle_request s Get_logs r = api_logs r"
| "handle_request s Stream_logs r = api_stream_logs r"
| "handle_request s Web_socket r = (101, R_null)"

section \<open>WebSocket clients\<close>

definition ws_topics :: "string list" where
  "ws_topics = [''metrics'', ''logs'', ''alerts'', ''proposals'']"

text \<open>\<open>writeMessage\<close>: a message that cannot be marshalled or has no room is skipped; \<open>None\<close> is a panic.\<close>

definition write_message :: "(ws_message \<Rightarrow> bool) \<Rightarrow> ws_message \<Rightarrow> ws_client \<Rightarrow> ws_client option" where
  "write_message marshals msg c =
     (if \<not> marshals msg then Some c
      else (case ch_send msg (wc_send c) of
              Send_panics \<Rightarrow> None | Send_blocks \<Rightarrow> Some c | Sent q \<Rightarrow> Some (c\<lparr>wc_send := q\<rparr>)))"

text \<open>\<open>handleWebSocket\<close> registers the client, writes the welcome message and starts the two goroutines.\<close>

definition new_client :: ws_client where
  "new_client = \<lparr>wc_send = make_chan 256, wc_subs = [], wc_reader = Welcoming, wc_writing = False\<rparr>"

definition ws_connect :: "nat \<Rightarrow> server \<Rightarrow> server" where
  "ws_connect k s = s\<lparr>sv_clients := gm_put k new_client (sv_clients s), sv_registered := sv_registered s @ [k]\<rparr>"

definition ws_welcome :: "(ws_message \<Rightarrow> bool) \<Rightarrow> int \<Rightarrow> ws_client \<Rightarrow> ws_client option" where
  "ws_welcome marshals now c =
     map_option (\<lambda>c1. c1\<lparr>wc_reader := Reading, wc_writing := True\<rparr>)
       (write_message marshals \<lparr>wm_type = ''connected'', wm_topic = ''system'', wm_data = Ws_welcome, wm_time = now\<rparr> c)"

definition confirm :: "string \<Rightarrow> string \<Rightarrow> int \<Rightarrow> ws_message" where
  "confirm ty topic now = \<lparr>wm_type = ty, wm_topic = topic, wm_data = Ws_status ty, wm_time = now\<rparr>"

text \<open>The body of the loop of \<open>handleWSSubscription\<close>: one topic of a request.\<close>

definition handle_topic :: "(ws_message \<Rightarrow> bool) \<Rightarrow> int \<Rightarrow> string \<Rightarrow> string \<Rightarrow> ws_client \<Rightarrow> ws_client option" where
  "handle_topic marshals now action t c =
     (if t \<notin> set ws_topics then Some c
      else if action = ''subscribe'' then
        write_message marshals (confirm ''subscribed'' t now)
          (c\<lparr>wc_subs := (if t \<in> set (wc_subs c) then wc_subs c else wc_subs c @ [t])\<rparr>)
      else if action = ''unsubscribe'' then
        write_message marshals (confirm ''unsubscribed'' t now) (c\<lparr>wc_subs := removeAll t (wc_subs c)\<rparr>)
      else Some c)"

definition reader_handles :: "(ws_message \<Rightarrow> bool) \<Rightarrow> int \<Rightarrow> ws_client \<Rightarrow> ws_client option" where
  "reader_handles marshals now c =
     (case wc_reader c of
        Handling action [] \<Rightarrow> Some (c\<lparr>wc_reader := Reading\<rparr>)
      | Handling action (t # ts) \<Rightarrow>
          map_option (\<lambda>c1. c1\<lparr>wc_reader := Handling action ts\<rparr>) (handle_topic marshals now action t c)
      | _ \<Rightarrow> Some c)"

text \<open>\<open>removeWSClient\<close>, the deferred call of the reader: closing a closed channel would be a panic.\<close>

definition ws_remove :: "nat \<Rightarrow> server \<Rightarrow> server option" where
  "ws_remove k s =
     (case map_of (sv_clients s) k of
        None \<Rightarrow> Some s
      | Some c \<Rightarrow>
          if k \<in> set (sv_registered s) then
            map_option (\<lambda>q. s\<lparr>sv_clients := gm_put k (c\<lparr>wc_send := q, wc_reader := Gone\<rparr>) (sv_clients s),
                              sv_registered := removeAll k (sv_registered s)\<rparr>)
              (ch_close (wc_send c))
          else Some (s\<lparr>sv_clients := gm_put k (c\<lparr>wc_reader := Gone\<rparr>) (sv_clients s)\<rparr>))"

text \<open>
  \<open>handleWSWrite\<close>: the writer sends a message of the channel to the connection, and ends when that fails
  or when the channel is closed and empty. The channel outlives the removal, so what it holds is still sent.
\<close>

definition ws_write :: "bool \<Rightarrow> ws_client \<Rightarrow> ws_client" where
  "ws_write alive c =
     (if \<not> wc_writing c then c
      else (case ch_recv (wc_send c) of
              Received msg q \<Rightarrow> c\<lparr>wc_send := q, wc_writing := alive\<rparr>
            | Closed_zero \<Rightarrow> c\<lparr>wc_writing := False\<rparr>
            | Recv_blocks \<Rightarrow> c))"

text \<open>
  \<open>handleWSBroadcast\<close>: it takes a message and the read lock, and visits the registered clients in the
  order of the map. The subscription is read under the mutex of the client, the message written after it.
\<close>

definition handling :: "ws_client \<Rightarrow> bool" where
  "handling c = (case wc_reader c of Handling a ts \<Rightarrow> True | _ \<Rightarrow> False)"

definition ws_take :: "server \<Rightarrow> server" where
  "ws_take s =
     (case (sv_turn s, ch_recv (sv_broadcast s)) of
        (Waiting, Received msg q) \<Rightarrow> s\<lparr>sv_broadcast := q, sv_turn := Taken msg\<rparr>
      | _ \<Rightarrow> s)"

definition ws_lock :: "server \<Rightarrow> server" where
  "ws_lock s = (case sv_turn s of Taken msg \<Rightarrow> s\<lparr>sv_turn := Visiting msg (sv_registered s) None\<rparr> | _ \<Rightarrow> s)"

definition ws_visit :: "nat \<Rightarrow> server \<Rightarrow> server" where
  "ws_visit k s =
     (case (sv_turn s, map_of (sv_clients s) k) of
        (Visiting msg ks None, Some c) \<Rightarrow>
          if k \<in> set ks \<and> \<not> handling c
          then s\<lparr>sv_turn := Visiting msg (removeAll k ks) (if wm_topic msg \<in> set (wc_subs c) then Some k else None)\<rparr>
          else s
      | _ \<Rightarrow> s)"

definition ws_put :: "(ws_message \<Rightarrow> bool) \<Rightarrow> server \<Rightarrow> server option" where
  "ws_put marshals s =
     (case sv_turn s of
        Visiting msg ks (Some k) \<Rightarrow>
          (case map_of (sv_clients s) k of
             None \<Rightarrow> Some s
           | Some c \<Rightarrow> map_option (\<lambda>c1. s\<lparr>sv_clients := gm_put k c1 (sv_clients s), sv_turn := Visiting msg ks None\<rparr>)
               (write_message marshals msg c))
      | _ \<Rightarrow> Some s)"

definition ws_unlock :: "server \<Rightarrow> server" where
  "ws_unlock s = (case sv_turn s of Visiting msg [] None \<Rightarrow> s\<lparr>sv_turn := Waiting\<rparr> | _ \<Rightarrow> s)"

definition broadcast :: "ws_message \<Rightarrow> server \<Rightarrow> server" where
  "broadcast msg s = s\<lparr>sv_broadcast := fst (offer ch_send msg (sv_broadcast s))\<rparr>"

definition broadcast_metrics :: "int \<Rightarrow> metrics_snapshot option \<Rightarrow> server \<Rightarrow> server" where
  "broadcast_metrics now sn s =
     (case sn of None \<Rightarrow> s
      | Some m \<Rightarrow> broadcast \<lparr>wm_type = ''update'', wm_topic = ''metrics'', wm_data = Ws_snapshot m, wm_time = now\<rparr> s)"

definition broadcast_alert :: "int \<Rightarrow> alert option \<Rightarrow> server \<Rightarrow> server" where
  "broadcast_alert now al s =
     (case al of None \<Rightarrow> s
      | Some a \<Rightarrow> broadcast \<lparr>wm_type = ''alert'', wm_topic = ''alerts'', wm_data = Ws_alert a, wm_time = now\<rparr> s)"

definition broadcast_log :: "int \<Rightarrow> (string \<times> resp) list \<Rightarrow> server \<Rightarrow> server" where
  "broadcast_log now e = broadcast \<lparr>wm_type = ''log'', wm_topic = ''logs'', wm_data = Ws_log e, wm_time = now\<rparr>"

definition broadcast_proposal :: "int \<Rightarrow> resp \<Rightarrow> server \<Rightarrow> server" where
  "broadcast_proposal now p = broadcast \<lparr>wm_type = ''proposal'', wm_topic = ''proposals'', wm_data = Ws_proposal p, wm_time = now\<rparr>"

datatype ws_op =
  Ws_connect nat | Ws_welcomes int nat | Ws_request nat string "string list" | Ws_topic int nat | Ws_read_fails nat
| Ws_remove nat | Ws_write bool nat | Ws_ping_fails nat | Ws_broadcast ws_message
| Ws_take | Ws_lock | Ws_visit nat | Ws_put | Ws_unlock

text \<open>
  A goroutine changes the client it serves, if that client is where the step starts. The registration and
  the removal take the write lock, so neither happens while the broadcast goroutine visits the clients.
\<close>

definition on_client :: "nat \<Rightarrow> (ws_client \<Rightarrow> bool) \<Rightarrow> (ws_client \<Rightarrow> ws_client option) \<Rightarrow> server \<Rightarrow> server option" where
  "on_client k g f s =
     (case map_of (sv_clients s) k of
        None \<Rightarrow> Some s
      | Some c \<Rightarrow> if g c then map_option (\<lambda>c1. s\<lparr>sv_clients := gm_put k c1 (sv_clients s)\<rparr>) (f c) else Some s)"

definition read_locked :: "server \<Rightarrow> bool" where
  "read_locked s = (case sv_turn s of Visiting msg ks found \<Rightarrow> True | _ \<Rightarrow> False)"

definition reader_is :: "reader \<Rightarrow> nat \<Rightarrow> server \<Rightarrow> bool" where
  "reader_is r k s = (case map_of (sv_clients s) k of None \<Rightarrow> False | Some c \<Rightarrow> wc_reader c = r)"

fun ws_step :: "(ws_message \<Rightarrow> bool) \<Rightarrow> ws_op \<Rightarrow> server \<Rightarrow> server option" where
  "ws_step marshals (Ws_connect k) s =
     Some (if map_of (sv_clients s) k = None \<and> \<not> read_locked s then ws_connect k s else s)"
| "ws_step marshals (Ws_welcomes now k) s = on_client k (\<lambda>c. wc_reader c = Welcoming) (ws_welcome marshals now) s"
| "ws_step marshals (Ws_request k action topics) s =
     on_client k (\<lambda>c. wc_reader c = Reading) (\<lambda>c. Some (c\<lparr>wc_reader := Handling action topics\<rparr>)) s"
| "ws_step marshals (Ws_topic now k) s = on_client k handling (reader_handles marshals now) s"
| "ws_step marshals (Ws_read_fails k) s =
     on_client k (\<lambda>c. wc_reader c = Reading) (\<lambda>c. Some (c\<lparr>wc_reader := Leaving\<rparr>)) s"
| "ws_step marshals (Ws_remove k) s = (if reader_is Leaving k s \<and> \<not> read_locked s then ws_remove k s else Some s)"
| "ws_step marshals (Ws_write alive k) s = on_client k (\<lambda>c. True) (\<lambda>c. Some (ws_write alive c)) s"
| "ws_step marshals (Ws_ping_fails k) s = on_client k (\<lambda>c. True) (\<lambda>c. Some (c\<lparr>wc_writing := False\<rparr>)) s"
| "ws_step marshals (Ws_broadcast msg) s = Some (broadcast msg s)"
| "ws_step marshals Ws_take s = Some (ws_take s)"
| "ws_step marshals Ws_lock s = Some (ws_lock s)"
| "ws_step marshals (Ws_visit k) s = Some (ws_visit k s)"
| "ws_step marshals Ws_put s = ws_put marshals s"
| "ws_step marshals Ws_unlock s = Some (ws_unlock s)"

fun ws_run :: "(ws_message \<Rightarrow> bool) \<Rightarrow> ws_op list \<Rightarrow> server \<Rightarrow> server option" where
  "ws_run marshals [] s = Some s"
| "ws_run marshals (op # ops) s = Option.bind (ws_step marshals op s) (ws_run marshals ops)"

section \<open>Lemmas\<close>

text \<open>
  The channel of a client is open as long as the client is registered, and a client is registered until its
  reader is gone. What the broadcast goroutine has still to visit is registered.
\<close>

definition client_ok :: "bool \<Rightarrow> ws_client \<Rightarrow> bool" where
  "client_ok reg c \<longleftrightarrow> (ch_closed (wc_send c) \<longleftrightarrow> \<not> reg) \<and> (wc_reader c = Gone \<longleftrightarrow> \<not> reg) \<and>
     ch_cap (wc_send c) = 256 \<and> length (ch_buf (wc_send c)) \<le> 256 \<and> set (wc_subs c) \<subseteq> set ws_topics"

definition turn_ok :: "server \<Rightarrow> bool" where
  "turn_ok s \<longleftrightarrow> (\<forall>msg ks found. sv_turn s = Visiting msg ks found \<longrightarrow>
     set ks \<subseteq> set (sv_registered s) \<and> set_option found \<subseteq> set (sv_registered s))"

definition clients_ok :: "server \<Rightarrow> bool" where
  "clients_ok s \<longleftrightarrow>
     (\<forall>k c. map_of (sv_clients s) k = Some c \<longrightarrow> client_ok (k \<in> set (sv_registered s)) c) \<and>
     (\<forall>k\<in>set (sv_registered s). map_of (sv_clients s) k \<noteq> None) \<and>
     turn_ok s \<and> \<not> ch_closed (sv_broadcast s)"

lemma client_okD:
  "clients_ok s \<Longrightarrow> map_of (sv_clients s) k = Some c \<Longrightarrow> client_ok (k \<in> set (sv_registered s)) c"
  by (simp add: clients_ok_def del: map_of_eq_Some_iff)

lemma write_ok:
  "client_ok True c \<Longrightarrow> \<exists>c'. write_message marshals msg c = Some c' \<and> client_ok True c' \<and> wc_subs c' = wc_subs c \<and>
     wc_reader c' = wc_reader c"
  by (auto simp: write_message_def ch_send_def client_ok_def)

lemma topic_ok:
  assumes "client_ok True c"
  shows "\<exists>c'. handle_topic marshals now action t c = Some c' \<and> client_ok True c'"
proof (cases "t \<in> set ws_topics")
  case True
  have sub: "client_ok True (c\<lparr>wc_subs := (if t \<in> set (wc_subs c) then wc_subs c else wc_subs c @ [t])\<rparr>)"
    using True assms by (auto simp: client_ok_def)
  have unsub: "client_ok True (c\<lparr>wc_subs := removeAll t (wc_subs c)\<rparr>)" using assms by (auto simp: client_ok_def)
  from write_ok [OF sub, of marshals "confirm ''subscribed'' t now"]
    write_ok [OF unsub, of marshals "confirm ''unsubscribed'' t now"] assms True show ?thesis
    by (auto simp: handle_topic_def)
qed (use assms in \<open>simp add: handle_topic_def\<close>)

text \<open>A step on one client keeps the invariant when it keeps that of the client.\<close>

lemma on_client_ok:
  assumes "clients_ok s"
    and "\<And>c. map_of (sv_clients s) k = Some c \<Longrightarrow> g c \<Longrightarrow> client_ok (k \<in> set (sv_registered s)) c \<Longrightarrow>
      \<exists>c'. f c = Some c' \<and> client_ok (k \<in> set (sv_registered s)) c'"
  shows "\<exists>s'. on_client k g f s = Some s' \<and> clients_ok s'"
proof (cases "\<exists>c. map_of (sv_clients s) k = Some c \<and> g c")
  case True
  then obtain c where c: "map_of (sv_clients s) k = Some c" "g c" by blast
  from assms(2) [OF c client_okD [OF assms(1) c(1)]] obtain c' where
    "f c = Some c'" "client_ok (k \<in> set (sv_registered s)) c'" by blast
  with c assms(1) show ?thesis
    by (auto simp: on_client_def clients_ok_def turn_ok_def simp del: map_of_eq_Some_iff)
next
  case False
  with assms(1) show ?thesis by (auto simp: on_client_def simp del: map_of_eq_Some_iff split: option.splits)
qed

lemma reader_registered: "client_ok reg c \<Longrightarrow> wc_reader c \<noteq> Gone \<Longrightarrow> reg"
  by (simp add: client_ok_def)

lemma welcome_ok:
  assumes "client_ok reg c" and "wc_reader c = Welcoming"
  shows "\<exists>c'. ws_welcome marshals now c = Some c' \<and> client_ok reg c'"
  using write_ok [of c marshals] reader_registered [OF assms(1)] assms
  by (fastforce simp: ws_welcome_def client_ok_def)

lemma handles_ok:
  assumes "client_ok reg c" and "handling c"
  shows "\<exists>c'. reader_handles marshals now c = Some c' \<and> client_ok reg c'"
proof -
  obtain action ts where r: "wc_reader c = Handling action ts"
    using assms(2) by (auto simp: handling_def split: reader.splits)
  with reader_registered [OF assms(1)] have reg: "reg" by simp
  show ?thesis
  proof (cases ts)
    case Nil
    with r reg assms(1) show ?thesis by (simp add: reader_handles_def client_ok_def)
  next
    case (Cons t us)
    from topic_ok [of c marshals now action t] assms(1) reg obtain c' where
      "handle_topic marshals now action t c = Some c'" "client_ok True c'" by auto
    with r reg Cons show ?thesis by (simp add: reader_handles_def client_ok_def)
  qed
qed

lemma ws_write_ok: "client_ok reg c \<Longrightarrow> client_ok reg (ws_write alive c)"
  by (auto simp: ws_write_def ch_recv_def client_ok_def split: list.splits)

lemma ws_connect_ok:
  assumes "clients_ok s" and "map_of (sv_clients s) k = None" and "\<not> read_locked s"
  shows "clients_ok (ws_connect k s)"
  using assms
  by (auto simp: clients_ok_def ws_connect_def client_ok_def new_client_def make_chan_def turn_ok_def read_locked_def
      simp del: map_of_eq_Some_iff map_of_eq_None_iff)

lemma ws_remove_ok:
  assumes "clients_ok s" and "reader_is Leaving k s" and "\<not> read_locked s"
  shows "\<exists>s'. ws_remove k s = Some s' \<and> clients_ok s'"
proof -
  from assms(2) obtain c where c: "map_of (sv_clients s) k = Some c" "wc_reader c = Leaving"
    by (auto simp: reader_is_def simp del: map_of_eq_Some_iff split: option.splits)
  with client_okD [OF assms(1) c(1)] have reg: "k \<in> set (sv_registered s)" and op: "\<not> ch_closed (wc_send c)"
    by (auto simp: client_ok_def)
  with c assms client_okD [OF assms(1) c(1)] show ?thesis
    by (auto simp: ws_remove_def ch_close_def clients_ok_def client_ok_def turn_ok_def read_locked_def
        simp del: map_of_eq_Some_iff)
qed

lemma ws_put_ok:
  assumes "clients_ok s"
  shows "\<exists>s'. ws_put marshals s = Some s' \<and> clients_ok s'"
proof (cases "\<exists>msg ks k c. sv_turn s = Visiting msg ks (Some k) \<and> map_of (sv_clients s) k = Some c")
  case True
  then obtain msg ks k c where t: "sv_turn s = Visiting msg ks (Some k)" and c: "map_of (sv_clients s) k = Some c" by blast
  with assms have reg: "k \<in> set (sv_registered s)" by (simp add: clients_ok_def turn_ok_def)
  with client_okD [OF assms c] have "client_ok True c" by simp
  from write_ok [OF this, of marshals msg] obtain c' where
    "write_message marshals msg c = Some c'" "client_ok True c'" by blast
  with t c reg assms show ?thesis
    by (auto simp: ws_put_def clients_ok_def turn_ok_def simp del: map_of_eq_Some_iff)
next
  case False
  with assms show ?thesis by (auto simp: ws_put_def simp del: map_of_eq_Some_iff split: turn.splits option.splits)
qed

lemma ws_take_ok: "clients_ok s \<Longrightarrow> clients_ok (ws_take s)"
  by (auto simp: ws_take_def clients_ok_def turn_ok_def ch_recv_def simp del: map_of_eq_Some_iff
      split: turn.splits list.splits recv_result.splits)

lemma ws_lock_ok: "clients_ok s \<Longrightarrow> clients_ok (ws_lock s)"
  by (auto simp: ws_lock_def clients_ok_def turn_ok_def simp del: map_of_eq_Some_iff split: turn.splits)

lemma ws_visit_ok: "clients_ok s \<Longrightarrow> clients_ok (ws_visit k s)"
  by (auto simp: ws_visit_def clients_ok_def turn_ok_def simp del: map_of_eq_Some_iff split: turn.splits option.splits)

lemma ws_unlock_ok: "clients_ok s \<Longrightarrow> clients_ok (ws_unlock s)"
  by (auto simp: ws_unlock_def clients_ok_def turn_ok_def simp del: map_of_eq_Some_iff
      split: turn.splits list.splits option.splits)

lemma broadcast_ok: "clients_ok s \<Longrightarrow> clients_ok (broadcast msg s)"
  using gochan.offer_buf(3) [of "sv_broadcast s" msg] by (simp add: clients_ok_def broadcast_def turn_ok_def)

lemmas ws_ok = ws_connect_ok ws_remove_ok ws_put_ok ws_take_ok ws_lock_ok ws_visit_ok ws_unlock_ok broadcast_ok

lemma ws_step_ok:
  assumes "clients_ok s"
  shows "\<exists>s'. ws_step marshals op s = Some s' \<and> clients_ok s'"
proof (cases op)
  case (Ws_welcomes now k)
  with on_client_ok [OF assms] welcome_ok show ?thesis by simp
next
  case (Ws_request k action topics)
  show ?thesis unfolding Ws_request
    by (simp only: ws_step.simps) (rule on_client_ok [OF assms], simp add: client_ok_def)
next
  case (Ws_topic now k)
  with on_client_ok [OF assms] handles_ok show ?thesis by simp
next
  case (Ws_read_fails k)
  show ?thesis unfolding Ws_read_fails
    by (simp only: ws_step.simps) (rule on_client_ok [OF assms], simp add: client_ok_def)
next
  case (Ws_write alive k)
  with on_client_ok [OF assms] ws_write_ok show ?thesis by simp
next
  case (Ws_ping_fails k)
  show ?thesis unfolding Ws_ping_fails
    by (simp only: ws_step.simps) (rule on_client_ok [OF assms], simp add: client_ok_def)
qed (use assms ws_ok in \<open>simp_all\<close>)

lemma ws_run_ok: "clients_ok s \<Longrightarrow> \<exists>s'. ws_run marshals ops s = Some s' \<and> clients_ok s'"
proof (induction ops arbitrary: s)
  case (Cons op ops)
  from ws_step_ok [OF Cons.prems, of marshals op] obtain s1 where "ws_step marshals op s = Some s1" "clients_ok s1" by blast
  with Cons.IH [of s1] show ?case by simp
qed simp

lemma new_server_ok: "clients_ok (new_server c mon col)"
  by (simp add: clients_ok_def new_server_def make_chan_def turn_ok_def)

text \<open>What a delivery does to each client, and the steps of one turn of the broadcast goroutine.\<close>

definition delivered :: "(ws_message \<Rightarrow> bool) \<Rightarrow> ws_message \<Rightarrow> ws_client \<Rightarrow> ws_client" where
  "delivered marshals msg c =
     (if wm_topic msg \<in> set (wc_subs c) \<and> marshals msg \<and> length (ch_buf (wc_send c)) < ch_cap (wc_send c)
      then c\<lparr>wc_send := (wc_send c)\<lparr>ch_buf := ch_buf (wc_send c) @ [msg]\<rparr>\<rparr> else c)"

definition visits :: "nat list \<Rightarrow> ws_op list" where
  "visits ks = concat (map (\<lambda>k. [Ws_visit k, Ws_put]) ks)"

lemma ws_run_append: "ws_run marshals (xs @ ys) s = Option.bind (ws_run marshals xs s) (ws_run marshals ys)"
  by (induction xs arbitrary: s) (simp_all split: bind_split)

lemma visit_delivers:
  assumes "clients_ok s" and "sv_turn s = Visiting msg ks None" and "k \<in> set ks"
    and "map_of (sv_clients s) k = Some c" and "\<not> handling c"
  shows "\<exists>s'. ws_run marshals [Ws_visit k, Ws_put] s = Some s' \<and> sv_turn s' = Visiting msg (removeAll k ks) None \<and>
     sv_broadcast s' = sv_broadcast s \<and> sv_registered s' = sv_registered s \<and>
     map_of (sv_clients s') = (map_of (sv_clients s))(k \<mapsto> delivered marshals msg c)"
proof -
  have "k \<in> set (sv_registered s)" using assms(1-3) by (auto simp: clients_ok_def turn_ok_def)
  with client_okD [OF assms(1,4)] have ok: "client_ok True c" by simp
  show ?thesis
  proof (cases "wm_topic msg \<in> set (wc_subs c)")
    case True
    have "write_message marshals msg c = Some (delivered marshals msg c)"
      using ok True by (auto simp: write_message_def ch_send_def delivered_def client_ok_def)
    with True assms show ?thesis by (simp add: ws_visit_def ws_put_def del: map_of_eq_Some_iff)
  next
    case False
    then have "delivered marshals msg c = c" by (simp add: delivered_def)
    with False assms show ?thesis by (simp add: ws_visit_def ws_put_def fun_upd_idem del: map_of_eq_Some_iff)
  qed
qed

lemma handling_delivered [simp]: "handling (delivered marshals msg c) = handling c"
  by (simp add: delivered_def handling_def)

lemma visits_deliver:
  assumes "clients_ok s" and "sv_turn s = Visiting msg ks None" and "set js = set ks" and "distinct js"
    and "\<forall>k c. map_of (sv_clients s) k = Some c \<longrightarrow> \<not> handling c"
  shows "\<exists>s'. ws_run marshals (visits js) s = Some s' \<and> sv_turn s' = Visiting msg [] None \<and>
     sv_broadcast s' = sv_broadcast s \<and>
     (\<forall>k. map_of (sv_clients s') k =
        (if k \<in> set js then map_option (delivered marshals msg) (map_of (sv_clients s) k) else map_of (sv_clients s) k))"
  using assms
proof (induction js arbitrary: s ks)
  case Nil
  then show ?case by (simp add: visits_def)
next
  case (Cons j js)
  have j: "j \<in> set ks" using Cons.prems(3) by auto
  with Cons.prems(1,2) obtain c where c: "map_of (sv_clients s) j = Some c"
    by (fastforce simp: clients_ok_def turn_ok_def simp del: map_of_eq_Some_iff map_of_eq_None_iff)
  with Cons.prems(5) have "\<not> handling c" by blast
  from visit_delivers [OF Cons.prems(1,2) j c this, of marshals] obtain s1 where
    s1: "ws_run marshals [Ws_visit j, Ws_put] s = Some s1" "sv_turn s1 = Visiting msg (removeAll j ks) None"
      "sv_broadcast s1 = sv_broadcast s"
      "map_of (sv_clients s1) = (map_of (sv_clients s))(j \<mapsto> delivered marshals msg c)" by blast
  have ok: "clients_ok s1" using ws_run_ok [OF Cons.prems(1), of marshals "[Ws_visit j, Ws_put]"] s1(1) by auto
  have set: "set js = set (removeAll j ks)" using Cons.prems(3,4) by auto
  have free: "\<forall>k c. map_of (sv_clients s1) k = Some c \<longrightarrow> \<not> handling c"
    using Cons.prems(5) c by (auto simp: s1(4) simp del: map_of_eq_Some_iff)
  from Cons.IH [OF ok s1(2) set _ free] Cons.prems(4) obtain s2 where
    s2: "ws_run marshals (visits js) s1 = Some s2" "sv_turn s2 = Visiting msg [] None" "sv_broadcast s2 = sv_broadcast s1"
      "\<forall>k. map_of (sv_clients s2) k = (if k \<in> set js
         then map_option (delivered marshals msg) (map_of (sv_clients s1) k) else map_of (sv_clients s1) k)" by auto
  have "ws_run marshals (visits (j # js)) s = Some s2"
    using s1(1) s2(1) ws_run_append [of marshals "[Ws_visit j, Ws_put]" "visits js" s] by (simp add: visits_def)
  moreover have "map_of (sv_clients s2) k = (if k \<in> set (j # js)
      then map_option (delivered marshals msg) (map_of (sv_clients s) k) else map_of (sv_clients s) k)" for k
    using s2(4) s1(4) c Cons.prems(4) by (auto simp del: map_of_eq_Some_iff)
  ultimately show ?case using s2(2,3) s1(3) by (intro exI [of _ s2] conjI allI) simp_all
qed

lemma turn_delivers:
  assumes "clients_ok s" and "sv_turn s = Waiting" and "ch_buf (sv_broadcast s) = msg # rest"
    and "set ks = set (sv_registered s)" and "distinct ks"
    and "\<forall>k c. map_of (sv_clients s) k = Some c \<longrightarrow> \<not> handling c"
  shows "\<exists>s'. ws_run marshals (Ws_take # Ws_lock # visits ks @ [Ws_unlock]) s = Some s' \<and>
     sv_turn s' = Waiting \<and> ch_buf (sv_broadcast s') = rest \<and>
     (\<forall>k. map_of (sv_clients s') k = (if k \<in> set ks
        then map_option (delivered marshals msg) (map_of (sv_clients s) k) else map_of (sv_clients s) k))"
proof -
  let ?s1 = "ws_lock (ws_take s)"
  have s1: "sv_turn ?s1 = Visiting msg (sv_registered s) None" "sv_clients ?s1 = sv_clients s"
      "ch_buf (sv_broadcast ?s1) = rest"
    using assms(2,3) by (simp_all add: ws_lock_def ws_take_def ch_recv_def)
  have ok: "clients_ok ?s1" by (intro ws_lock_ok ws_take_ok assms(1))
  from visits_deliver [OF ok s1(1) assms(4,5), of marshals] assms(6) s1(2) obtain s2 where
    s2: "ws_run marshals (visits ks) ?s1 = Some s2" "sv_turn s2 = Visiting msg [] None"
      "sv_broadcast s2 = sv_broadcast ?s1"
      "\<forall>k. map_of (sv_clients s2) k = (if k \<in> set ks
         then map_option (delivered marshals msg) (map_of (sv_clients s) k) else map_of (sv_clients s) k)"
    by (auto simp del: map_of_eq_Some_iff)
  then have "ws_run marshals (Ws_take # Ws_lock # visits ks @ [Ws_unlock]) s = Some (s2\<lparr>sv_turn := Waiting\<rparr>)"
    by (simp add: ws_run_append ws_unlock_def)
  with s2 s1(3) show ?thesis by simp
qed

section \<open>Properties\<close>

text \<open>
  C27. The WebSocket side never panics and delivers by subscription. In any interleaving of connections,
  requests, failing reads, removals, writes and the steps of the broadcast goroutine, no message is sent on
  a closed channel and no channel is closed twice; the channel of a client is closed exactly when the client
  is removed, and its subscriptions are among the four topics. A turn of the broadcast goroutine that no
  other step interrupts, in whatever order it visits the clients, appends the message, once, to the queue of
  exactly those registered clients that are subscribed to its topic and whose queue of 256 has room, and
  leaves every other client as it is.
\<close>

theorem broadcast_follows_subscriptions:
  "\<exists>s. ws_run marshals ops (new_server c mon col) = Some s \<and>
     (\<forall>k cl. map_of (sv_clients s) k = Some cl \<longrightarrow>
        (ch_closed (wc_send cl) \<longleftrightarrow> k \<notin> set (sv_registered s)) \<and> (wc_reader cl = Gone \<longleftrightarrow> k \<notin> set (sv_registered s)) \<and>
        set (wc_subs cl) \<subseteq> set ws_topics \<and> length (ch_buf (wc_send cl)) \<le> 256) \<and>
     (\<forall>msg rest ks. sv_turn s = Waiting \<and> ch_buf (sv_broadcast s) = msg # rest \<and>
          set ks = set (sv_registered s) \<and> distinct ks \<and> (\<forall>k cl. map_of (sv_clients s) k = Some cl \<longrightarrow> \<not> handling cl) \<longrightarrow>
        (\<exists>s'. ws_run marshals (Ws_take # Ws_lock # visits ks @ [Ws_unlock]) s = Some s' \<and>
           sv_turn s' = Waiting \<and> ch_buf (sv_broadcast s') = rest \<and>
           (\<forall>k. map_of (sv_clients s') k = (if k \<in> set (sv_registered s)
              then map_option (delivered marshals msg) (map_of (sv_clients s) k) else map_of (sv_clients s) k))))"
proof -
  from ws_run_ok [OF new_server_ok, of marshals ops c mon col] obtain s where
    s: "ws_run marshals ops (new_server c mon col) = Some s" "clients_ok s" by blast
  have "\<exists>s'. ws_run marshals (Ws_take # Ws_lock # visits ks @ [Ws_unlock]) s = Some s' \<and>
        sv_turn s' = Waiting \<and> ch_buf (sv_broadcast s') = rest \<and>
        (\<forall>k. map_of (sv_clients s') k = (if k \<in> set (sv_registered s)
           then map_option (delivered marshals msg) (map_of (sv_clients s) k) else map_of (sv_clients s) k))"
    if "sv_turn s = Waiting \<and> ch_buf (sv_broadcast s) = msg # rest \<and>
          set ks = set (sv_registered s) \<and> distinct ks \<and> (\<forall>k cl. map_of (sv_clients s) k = Some cl \<longrightarrow> \<not> handling cl)"
    for msg rest ks
    using that turn_delivers [OF s(2), of msg rest ks marshals] by simp
  moreover have "(ch_closed (wc_send cl) \<longleftrightarrow> k \<notin> set (sv_registered s)) \<and> (wc_reader cl = Gone \<longleftrightarrow> k \<notin> set (sv_registered s)) \<and>
        set (wc_subs cl) \<subseteq> set ws_topics \<and> length (ch_buf (wc_send cl)) \<le> 256"
    if "map_of (sv_clients s) k = Some cl" for k cl
    using client_okD [OF s(2) that] by (simp add: client_ok_def)
  ultimately show ?thesis using s(1) by blast
qed

definition demo_msg :: ws_message where
  "demo_msg = \<lparr>wm_type = ''update'', wm_topic = ''metrics'', wm_data = Ws_welcome, wm_time = 7\<rparr>"

definition demo_ws_run :: "ws_op list" where
  "demo_ws_run =
     [Ws_connect 1, Ws_welcomes 0 1, Ws_request 1 ''subscribe'' [''metrics'', ''nothing''], Ws_topic 0 1, Ws_topic 0 1,
      Ws_topic 0 1, Ws_connect 2, Ws_welcomes 0 2, Ws_connect 3, Ws_welcomes 0 3, Ws_read_fails 3, Ws_remove 3,
      Ws_broadcast demo_msg]"

lemma demo_ws_state:
  "\<exists>c1 c2 c3. ws_run (\<lambda>_. True) demo_ws_run (new_server (default_config [] []) None None) =
     Some ((new_server (default_config [] []) None None)
       \<lparr>sv_clients := [(1, c1), (2, c2), (3, c3)], sv_registered := [1, 2],
        sv_broadcast := (make_chan 256)\<lparr>ch_buf := [demo_msg]\<rparr>\<rparr>) \<and>
     wc_subs c1 = [''metrics''] \<and> wc_reader c1 = Reading \<and> wc_reader c2 = Reading \<and> wc_reader c3 = Gone"
  by (simp add: demo_ws_run_def ws_connect_def new_client_def on_client_def ws_welcome_def write_message_def make_chan_def
      ch_send_def ch_close_def reader_handles_def handle_topic_def handling_def confirm_def ws_topics_def reader_is_def
      read_locked_def ws_remove_def broadcast_def offer_def new_server_def)

theorem broadcast_follows_subscriptions_witness:
  "\<exists>s s'. ws_run (\<lambda>_. True) demo_ws_run (new_server (default_config [] []) None None) = Some s \<and>
     ws_run (\<lambda>_. True) (Ws_take # Ws_lock # visits [2, 1] @ [Ws_unlock]) s = Some s' \<and> ch_buf (sv_broadcast s') = []"
proof -
  let ?s0 = "new_server (default_config [] []) None None"
  from broadcast_follows_subscriptions [of "\<lambda>_. True" demo_ws_run "default_config [] []" None None] obtain s where
    s: "ws_run (\<lambda>_. True) demo_ws_run ?s0 = Some s"
    "\<And>msg rest ks. sv_turn s = Waiting \<Longrightarrow> ch_buf (sv_broadcast s) = msg # rest \<Longrightarrow>
          set ks = set (sv_registered s) \<Longrightarrow> distinct ks \<Longrightarrow> (\<forall>k cl. map_of (sv_clients s) k = Some cl \<longrightarrow> \<not> handling cl) \<Longrightarrow>
       (\<exists>s'. ws_run (\<lambda>_. True) (Ws_take # Ws_lock # visits ks @ [Ws_unlock]) s = Some s' \<and>
          ch_buf (sv_broadcast s') = rest)" by metis
  obtain c1 c2 c3 where d: "s = ?s0\<lparr>sv_clients := [(1, c1), (2, c2), (3, c3)], sv_registered := [1, 2],
        sv_broadcast := (make_chan 256)\<lparr>ch_buf := [demo_msg]\<rparr>\<rparr>"
      "wc_reader c1 = Reading" "wc_reader c2 = Reading" "wc_reader c3 = Gone"
    using demo_ws_state s(1) by auto
  have "\<exists>s'. ws_run (\<lambda>_. True) (Ws_take # Ws_lock # visits [2, 1] @ [Ws_unlock]) s = Some s' \<and> ch_buf (sv_broadcast s') = []"
  proof (rule s(2))
    show "sv_turn s = Waiting" by (simp add: d new_server_def)
    show "\<forall>k cl. map_of (sv_clients s) k = Some cl \<longrightarrow> \<not> handling cl"
      using d by (auto simp: handling_def simp del: map_of_eq_Some_iff split: if_splits)
  qed (auto simp: d)
  with s(1) show ?thesis by blast
qed

lemma set_get_active:
  assumes "tracker_ok t"
  shows "p \<in> set (get_active t) \<longleftrightarrow> map_of (tr_proposals t) (pr_id p) = Some p \<and> Proposals.is_active p"
proof -
  have gm: "gm_ok (tr_active t)" using assms by (simp add: tracker_ok_def)
  have view: "map_of (tr_active t) = restrict_view Proposals.is_active (tr_proposals t)"
    and ids: "map_of (tr_proposals t) k = Some q \<Longrightarrow> pr_id q = k" for k q
    using assms by (auto simp: tracker_ok_def simp del: map_of_eq_Some_iff)
  have "p \<in> set (get_active t) \<longleftrightarrow> (\<exists>k. (k, p) \<in> set (tr_active t))"
    by (force simp: get_active_def newest_first_def)
  also have "\<dots> \<longleftrightarrow> (\<exists>k. map_of (tr_active t) k = Some p)"
    using gm by simp
  also have "\<dots> \<longleftrightarrow> (\<exists>k. restrict_view Proposals.is_active (tr_proposals t) k = Some p)"
    by (simp only: view)
  also have "\<dots> \<longleftrightarrow> map_of (tr_proposals t) (pr_id p) = Some p \<and> Proposals.is_active p"
    by (auto simp: restrict_view_def simp del: map_of_eq_Some_iff dest: ids split: option.splits if_splits)
  finally show ?thesis .
qed

text \<open>
  Only active proposals can be looked up: with a tracker that is consistent, the proposal handler
  answers 200 with the proposal exactly when it is tracked under that identifier and still in its deposit
  or voting period; a passed, rejected or failed proposal is "not found", like one that never was.
\<close>

theorem completed_proposal_not_found:
  assumes "sv_monitor s = Some m" and "mo_started m" and "tracker_ok (mo_tracker m)"
  shows "handle_request s Get_proposal r =
    (case map_of (tr_proposals (mo_tracker m)) (rq_param r) of
       Some p \<Rightarrow> if Proposals.is_active p then (200, R_proposal p) else (404, err_resp ''Proposal not found'')
     | None \<Rightarrow> (404, err_resp ''Proposal not found''))"
proof -
  let ?t = "mo_tracker m"
  have act: "p \<in> set (get_active ?t) \<longleftrightarrow> map_of (tr_proposals ?t) (pr_id p) = Some p \<and> Proposals.is_active p" for p
    by (rule set_get_active [OF assms(3)])
  have q: "monitor_get_proposals m = Some (get_active ?t)" using assms(2) by (simp add: monitor_get_proposals_def)
  show ?thesis
  proof (cases "find (\<lambda>p. pr_id p = rq_param r) (get_active ?t)")
    case None
    then have "\<forall>p\<in>set (get_active ?t). pr_id p \<noteq> rq_param r" by (simp add: find_None_iff)
    with act have "\<not> (\<exists>p. map_of (tr_proposals ?t) (rq_param r) = Some p \<and> Proposals.is_active p)"
      using assms(3) unfolding tracker_ok_def by metis
    with None q assms(1) show ?thesis
      by (auto simp: api_get_proposal_def with_monitor_def simp del: map_of_eq_Some_iff split: option.splits)
  next
    case (Some p)
    then have "p \<in> set (get_active ?t)" "pr_id p = rq_param r" by (auto simp: find_Some_iff)
    with act have "map_of (tr_proposals ?t) (rq_param r) = Some p" "Proposals.is_active p" by metis+
    with Some q assms(1) show ?thesis
      by (simp add: api_get_proposal_def with_monitor_def del: map_of_eq_Some_iff)
  qed
qed

definition demo_tracker :: tracker where
  "demo_tracker = fst (absorb [empty_proposal\<lparr>pr_id := ''7'', pr_status := status_voting\<rparr>,
     empty_proposal\<lparr>pr_id := ''8'', pr_status := status_passed\<rparr>] new_tracker)"

definition demo_server :: server where
  "demo_server = new_server (default_config [] [])
     (Some ((new_monitor [] [])\<lparr>mo_tracker := demo_tracker, mo_started := True\<rparr>)) None"

theorem completed_proposal_not_found_witness:
  "handle_request (demo_server) Get_proposal
      \<lparr>rq_param = ''8'', rq_limit = None, rq_level = None, rq_schedule = Inl [], rq_missing = [], rq_object = Inl [], rq_unix = 0\<rparr> =
   (404, err_resp ''Proposal not found'')"
proof -
  have ok: "tracker_ok demo_tracker" unfolding demo_tracker_def by (rule tracker_ok_absorb [OF tracker_ok_new])
  have p: "map_of (tr_proposals demo_tracker) ''8'' = Some (empty_proposal\<lparr>pr_id := ''8'', pr_status := status_passed\<rparr>)"
    by (simp add: demo_tracker_def absorb_Cons new_tracker_def empty_proposal_def del: map_of_eq_Some_iff)
  show ?thesis
    by (subst completed_proposal_not_found [where m = "(new_monitor [] [])\<lparr>mo_tracker := demo_tracker, mo_started := True\<rparr>"])
      (simp_all add: demo_server_def new_server_def ok p Proposals.is_active_def del: map_of_eq_Some_iff)
qed

end
