(* ===== verification/Templates.thy ===== *)
theory Templates
  imports ConfigModel Metrics
begin

text \<open>
  \<open>internal/config/templates.go\<close>, with the two configuration structs of \<open>manager.go\<close> that a template is
  applied to. Values of the type \<open>interface{}\<close> are a datatype of their dynamic types. The embedded
  template files, as the TOML and YAML libraries decode them, are an argument.
\<close>

section \<open>Dynamic values\<close>

text \<open>
  \<open>GInt\<close> is the type \<open>int\<close>, \<open>GInt_other\<close> any other signed and \<open>GUint_other\<close> any other unsigned integer type
  than \<open>uint64\<close>; \<open>GRaw\<close> is a slice of bytes or runes with the string that converting it gives.
\<close>

datatype gval =
  GStr string | GInt int | GInt_other int | GDur duration | GUint64 nat | GUint_other nat | GFloat f64
| GBool bool | GStrs "string list" | GArr "gval list" | GStr_map "(string, string) gomap option" | GRaw string
| GNil | GOther

record wemix_cfg =
  wx_home :: string
  wx_name :: string
  wx_max_restarts :: int
  wx_restart_delay :: duration
  wx_shutdown_grace :: duration
  wx_health_check_interval :: duration
  wx_metrics_interval :: duration
  wx_metrics_enabled :: bool
  wx_allow_download :: bool
  wx_auto_backup :: bool
  wx_pre_upgrade_timeout :: duration
  wx_log_level :: string
  wx_log_format :: string
  wx_log_time_format :: string

record node_cfg =
  nx_network_id :: nat
  nx_chain_id :: string
  nx_rpc_addr :: string
  nx_rpc_port :: int
  nx_rpc_apis :: "string list"
  nx_ws_addr :: string
  nx_ws_port :: int
  nx_ws_apis :: "string list"
  nx_p2p_port :: int
  nx_bootnodes :: "string list"
  nx_max_peers :: int
  nx_validator_mode :: bool
  nx_validator_key :: string
  nx_data_dir :: string
  nx_extra_flags :: "string list"

section \<open>Durations\<close>

text \<open>
  \<open>time.ParseDuration\<close>: a sign, then numbers with a unit each, \<open>0\<close> alone without one. The fraction of a
  number times its unit is rounded down (the library computes it in floating point).
\<close>

definition unit_ns :: "string \<Rightarrow> nat option" where
  "unit_ns u = map_of
     [(''ns'', 1), (''us'', 1000), ([CHR 0xC2, CHR 0xB5, CHR ''s''], 1000), ([CHR 0xCE, CHR 0xBC, CHR ''s''], 1000),
      (''ms'', 1000000), (''s'', 1000000000), (''m'', 60000000000), (''h'', 3600000000000)] u"

definition digits_val :: "string \<Rightarrow> nat" where
  "digits_val ds = foldl (\<lambda>acc c. acc * 10 + (case digit_val c of Some d \<Rightarrow> d | None \<Rightarrow> 0)) 0 ds"

text \<open>One number with its unit, and what follows it.\<close>

definition dur_item :: "string \<Rightarrow> (nat \<times> string) option" where
  "dur_item s =
     (let is_dig = (\<lambda>c. digit_val c \<noteq> None);
          ds = takeWhile is_dig s; s1 = dropWhile is_dig s;
          dot = (take 1 s1 = ''.'');
          fs = (if dot then takeWhile is_dig (drop 1 s1) else []);
          s2 = (if dot then dropWhile is_dig (drop 1 s1) else s1);
          in_unit = (\<lambda>c. c \<noteq> CHR ''.'' \<and> digit_val c = None);
          v = digits_val ds in
      if (ds = [] \<and> fs = []) \<or> v > 2 ^ 63 then None
      else (case unit_ns (takeWhile in_unit s2) of
              None \<Rightarrow> None
            | Some k \<Rightarrow>
                let d = v * k + digits_val fs * k div 10 ^ length fs in
                if v * k > 2 ^ 63 \<or> d > 2 ^ 63 then None else Some (d, dropWhile in_unit s2)))"

text \<open>Each round takes a character at least, so the length of the string is fuel enough.\<close>

fun dur_loop :: "nat \<Rightarrow> string \<Rightarrow> nat \<Rightarrow> nat option" where
  "dur_loop fuel [] acc = Some acc"
| "dur_loop 0 (c # s) acc = None"
| "dur_loop (Suc fuel) (c # s) acc =
     (case dur_item (c # s) of
        None \<Rightarrow> None
      | Some (d, rest) \<Rightarrow> if acc + d > 2 ^ 63 then None else dur_loop fuel rest (acc + d))"

definition parse_duration :: "string \<Rightarrow> duration option" where
  "parse_duration s =
     (let neg = (take 1 s = ''-''); s1 = (if neg \<or> take 1 s = ''+'' then drop 1 s else s) in
      if s1 = ''0'' then Some 0
      else if s1 = '''' then None
      else (case dur_loop (length s1) s1 0 of
              None \<Rightarrow> None
            | Some d \<Rightarrow> if neg then Some (- int d) else if d > 2 ^ 63 - 1 then None else Some (int d)))"

section \<open>Templates\<close>

record template =
  tp_name :: string
  tp_description :: string
  tp_network :: string
  tp_values :: "(string, gval) gomap"

type_synonym templates = "(string, template) gomap"

datatype template_error = Template_not_found | Template_name_required | Template_format_unsupported
| Template_load_failed

definition get_template :: "string \<Rightarrow> templates \<Rightarrow> template_error + template" where
  "get_template name tm = (case map_of tm name of None \<Rightarrow> Inl Template_not_found | Some t \<Rightarrow> Inr t)"

definition list_templates :: "templates \<Rightarrow> template list" where
  "list_templates tm = map snd tm"

definition add_template :: "template \<Rightarrow> templates \<Rightarrow> (templates, template_error, unit) gores" where
  "add_template t tm =
     (if tp_name t = '''' then (tm, Inl Template_name_required) else (gm_put (tp_name t) t tm, Inr ()))"

definition remove_template :: "string \<Rightarrow> templates \<Rightarrow> (templates, template_error, unit) gores" where
  "remove_template name tm =
     (if map_of tm name = None then (tm, Inl Template_not_found) else (gm_del name tm, Inr ()))"

text \<open>The two loaders of template files are not implemented and always fail.\<close>

definition load_from_file :: "string \<Rightarrow> templates \<Rightarrow> (templates, template_error, unit) gores" where
  "load_from_file path tm =
     (if path_ext path \<in> {''.toml'', ''.yaml'', ''.yml''} then (tm, Inl Template_load_failed)
      else (tm, Inl Template_format_unsupported))"

text \<open>
  The embedded files in the order of the walk: the path and what decoding it gives. The walk stops at
  the first file that does not decode.
\<close>

fun load_embedded_templates :: "(string \<times> template option) list \<Rightarrow> templates \<Rightarrow> templates" where
  "load_embedded_templates [] tm = tm"
| "load_embedded_templates ((path, decoded) # fs) tm =
     (let ext = path_ext path in
      if ext \<notin> {''.toml'', ''.yaml'', ''.yml''} then load_embedded_templates fs tm
      else (case decoded of
              None \<Rightarrow> tm
            | Some t \<Rightarrow>
                let name = (if tp_name t = '''' then take (length (path_base path) - length ext) (path_base path)
                            else tp_name t) in
                load_embedded_templates fs (gm_put name (t\<lparr>tp_name := name\<rparr>) tm)))"

definition mainnet_template :: template where
  "mainnet_template = \<lparr>tp_name = ''mainnet'', tp_description = ''WEMIX3.0 Mainnet configuration'', tp_network = ''mainnet'',
     tp_values =
       [(''network_id'', GUint64 1111), (''chain_id'', GStr ''1111''), (''rpc_port'', GInt 8588), (''ws_port'', GInt 8598),
        (''p2p_port'', GInt 8589),
        (''bootnodes'', GStrs [''enode://abc123...@mainnet-boot1.wemix.com:8589'',
           ''enode://def456...@mainnet-boot2.wemix.com:8589'']),
        (''max_peers'', GInt 50), (''validator_mode'', GBool False), (''data_dir'', GStr ''~/.wemix/mainnet'')]\<rparr>"

definition testnet_template :: template where
  "testnet_template = \<lparr>tp_name = ''testnet'', tp_description = ''WEMIX3.0 Testnet configuration'', tp_network = ''testnet'',
     tp_values =
       [(''network_id'', GUint64 1112), (''chain_id'', GStr ''1112''), (''rpc_port'', GInt 8545), (''ws_port'', GInt 8546),
        (''p2p_port'', GInt 30303),
        (''bootnodes'', GStrs [''enode://test123...@testnet-boot1.wemix.com:30303'',
           ''enode://test456...@testnet-boot2.wemix.com:30303'']),
        (''max_peers'', GInt 25), (''validator_mode'', GBool False), (''data_dir'', GStr ''~/.wemix/testnet'')]\<rparr>"

definition devnet_template :: template where
  "devnet_template = \<lparr>tp_name = ''devnet'', tp_description = ''Local development network configuration'', tp_network = ''devnet'',
     tp_values =
       [(''network_id'', GUint64 1337), (''chain_id'', GStr ''1337''), (''rpc_port'', GInt 8545), (''ws_port'', GInt 8546),
        (''p2p_port'', GInt 30303), (''bootnodes'', GStrs []), (''max_peers'', GInt 10), (''validator_mode'', GBool False),
        (''data_dir'', GStr ''~/.wemix/devnet''), (''extra_flags'', GStrs [''--dev'', ''--dev.period=1''])]\<rparr>"

definition validator_template :: template where
  "validator_template = \<lparr>tp_name = ''validator'', tp_description = ''Validator node configuration'', tp_network = ''custom'',
     tp_values =
       [(''validator_mode'', GBool True), (''max_peers'', GInt 100), (''health_check_interval'', GStr ''10s''),
        (''metrics_enabled'', GBool True), (''metrics_interval'', GStr ''30s''), (''auto_backup'', GBool True),
        (''max_restarts'', GInt 3), (''shutdown_grace'', GStr ''60s'')]\<rparr>"

definition archive_template :: template where
  "archive_template = \<lparr>tp_name = ''archive'', tp_description = ''Archive node configuration'', tp_network = ''custom'',
     tp_values =
       [(''extra_flags'', GStrs [''--syncmode=full'', ''--gcmode=archive'', ''--cache=4096'']), (''max_peers'', GInt 50),
        (''metrics_enabled'', GBool True), (''auto_backup'', GBool False)]\<rparr>"

definition rpc_template :: template where
  "rpc_template = \<lparr>tp_name = ''rpc'', tp_description = ''Public RPC node configuration'', tp_network = ''custom'',
     tp_values =
       [(''rpc_apis'', GStrs [''eth'', ''net'', ''web3'', ''txpool'']), (''ws_apis'', GStrs [''eth'', ''net'', ''web3'', ''txpool'']),
        (''extra_flags'', GStrs [''--rpc.gascap=50000000'', ''--rpc.txfeecap=10'']), (''max_peers'', GInt 25),
        (''health_check_interval'', GStr ''5s''), (''metrics_enabled'', GBool True)]\<rparr>"

definition load_default_templates :: "templates \<Rightarrow> templates" where
  "load_default_templates tm =
     foldl (\<lambda>tm t. gm_put (tp_name t) t tm) tm
       [mainnet_template, testnet_template, devnet_template, validator_template, archive_template, rpc_template]"

definition new_template_manager :: "(string \<times> template option) list \<Rightarrow> templates" where
  "new_template_manager embedded = load_default_templates (load_embedded_templates embedded [])"

section \<open>Applying a template\<close>

text \<open>The shell notation for the home directory stays in the path.\<close>

definition expand_path :: "string \<Rightarrow> string" where
  "expand_path p = (if take 2 p = ''~/'' then path_join [''${HOME}'', drop 2 p] else p)"

text \<open>A value of another type than the key's is passed over; items that are no strings are empty.\<close>

definition gstrings :: "gval \<Rightarrow> string list option" where
  "gstrings v =
     (case v of
        GStrs ss \<Rightarrow> Some ss
      | GArr vs \<Rightarrow> Some (map (\<lambda>x. case x of GStr s \<Rightarrow> s | _ \<Rightarrow> '''') vs)
      | _ \<Rightarrow> None)"

definition gduration :: "gval \<Rightarrow> duration option" where
  "gduration v = (case v of GStr s \<Rightarrow> parse_duration s | _ \<Rightarrow> None)"

definition set_if :: "('a \<Rightarrow> 'c \<Rightarrow> 'c) \<Rightarrow> 'a option \<Rightarrow> 'c \<Rightarrow> 'c" where
  "set_if put v c = (case v of Some x \<Rightarrow> put x c | None \<Rightarrow> c)"

abbreviation gint :: "gval \<Rightarrow> int option" where
  "gint v \<equiv> (case v of GInt n \<Rightarrow> Some n | _ \<Rightarrow> None)"
abbreviation gbool :: "gval \<Rightarrow> bool option" where
  "gbool v \<equiv> (case v of GBool b \<Rightarrow> Some b | _ \<Rightarrow> None)"
abbreviation gstring :: "gval \<Rightarrow> string option" where
  "gstring v \<equiv> (case v of GStr s \<Rightarrow> Some s | _ \<Rightarrow> None)"

text \<open>The cases of the switch: the keys with what they set.\<close>

definition node_setters :: "(string \<times> (gval \<Rightarrow> node_cfg \<Rightarrow> node_cfg)) list" where
  "node_setters =
     [(''network_id'', \<lambda>v. set_if (\<lambda>x n. n\<lparr>nx_network_id := x\<rparr>) (case v of GUint64 i \<Rightarrow> Some i | _ \<Rightarrow> None)),
      (''chain_id'', \<lambda>v. set_if (\<lambda>x n. n\<lparr>nx_chain_id := x\<rparr>) (gstring v)),
      (''rpc_port'', \<lambda>v. set_if (\<lambda>x n. n\<lparr>nx_rpc_port := x\<rparr>) (gint v)),
      (''ws_port'', \<lambda>v. set_if (\<lambda>x n. n\<lparr>nx_ws_port := x\<rparr>) (gint v)),
      (''p2p_port'', \<lambda>v. set_if (\<lambda>x n. n\<lparr>nx_p2p_port := x\<rparr>) (gint v)),
      (''bootnodes'', \<lambda>v. set_if (\<lambda>x n. n\<lparr>nx_bootnodes := x\<rparr>) (gstrings v)),
      (''max_peers'', \<lambda>v. set_if (\<lambda>x n. n\<lparr>nx_max_peers := x\<rparr>) (gint v)),
      (''validator_mode'', \<lambda>v. set_if (\<lambda>x n. n\<lparr>nx_validator_mode := x\<rparr>) (gbool v)),
      (''data_dir'', \<lambda>v. set_if (\<lambda>x n. n\<lparr>nx_data_dir := expand_path x\<rparr>) (gstring v)),
      (''extra_flags'', \<lambda>v. set_if (\<lambda>x n. n\<lparr>nx_extra_flags := x\<rparr>) (gstrings v)),
      (''rpc_apis'', \<lambda>v. set_if (\<lambda>x n. n\<lparr>nx_rpc_apis := x\<rparr>) (gstrings v)),
      (''ws_apis'', \<lambda>v. set_if (\<lambda>x n. n\<lparr>nx_ws_apis := x\<rparr>) (gstrings v))]"

definition wemix_setters :: "(string \<times> (gval \<Rightarrow> wemix_cfg \<Rightarrow> wemix_cfg)) list" where
  "wemix_setters =
     [(''max_restarts'', \<lambda>v. set_if (\<lambda>x w. w\<lparr>wx_max_restarts := x\<rparr>) (gint v)),
      (''health_check_interval'', \<lambda>v. set_if (\<lambda>x w. w\<lparr>wx_health_check_interval := x\<rparr>) (gduration v)),
      (''metrics_enabled'', \<lambda>v. set_if (\<lambda>x w. w\<lparr>wx_metrics_enabled := x\<rparr>) (gbool v)),
      (''metrics_interval'', \<lambda>v. set_if (\<lambda>x w. w\<lparr>wx_metrics_interval := x\<rparr>) (gduration v)),
      (''auto_backup'', \<lambda>v. set_if (\<lambda>x w. w\<lparr>wx_auto_backup := x\<rparr>) (gbool v)),
      (''shutdown_grace'', \<lambda>v. set_if (\<lambda>x w. w\<lparr>wx_shutdown_grace := x\<rparr>) (gduration v))]"

definition apply_node_value :: "string \<Rightarrow> gval \<Rightarrow> node_cfg \<Rightarrow> node_cfg" where
  "apply_node_value k v n = (case map_of node_setters k of Some f \<Rightarrow> f v n | None \<Rightarrow> n)"

definition apply_wemix_value :: "string \<Rightarrow> gval \<Rightarrow> wemix_cfg \<Rightarrow> wemix_cfg" where
  "apply_wemix_value k v w = (case map_of wemix_setters k of Some f \<Rightarrow> f v w | None \<Rightarrow> w)"

text \<open>The keys of a Go map come in any order: the argument is the entries in the order they come in.\<close>

definition apply_values :: "(string \<times> gval) list \<Rightarrow> wemix_cfg \<times> node_cfg \<Rightarrow> wemix_cfg \<times> node_cfg" where
  "apply_values kvs wn =
     foldl (\<lambda>(w, n) (k, v). (apply_wemix_value k v w, apply_node_value k v n)) wn kvs"

section \<open>Lemmas\<close>

lemma set_if_commute:
  "(\<And>x y c. p x (q y c) = q y (p x c)) \<Longrightarrow> set_if p a (set_if q b c) = set_if q b (set_if p a c)"
  by (cases a; cases b) (simp_all add: set_if_def)

lemma set_if_frame: "(\<And>x c. f (p x c) = f c) \<Longrightarrow> f (set_if p a c) = f c"
  by (cases a) (simp_all add: set_if_def)

lemma wemix_setters_commute:
  "\<forall>(j, f)\<in>set wemix_setters. \<forall>(k, g)\<in>set wemix_setters. j \<noteq> k \<longrightarrow> (\<forall>u v w. f u (g v w) = g v (f u w))"
  unfolding wemix_setters_def by (simp, (intro conjI allI set_if_commute; simp)?)

lemma node_setters_commute:
  "\<forall>(j, f)\<in>set node_setters. \<forall>(k, g)\<in>set node_setters. j \<noteq> k \<longrightarrow> (\<forall>u v n. f u (g v n) = g v (f u n))"
  unfolding node_setters_def by (simp, (intro conjI allI set_if_commute; simp)?)

lemma wemix_setters_pair:
  assumes "(j, f) \<in> set wemix_setters" and "(k, g) \<in> set wemix_setters" and "j \<noteq> k"
  shows "f u (g v c) = g v (f u c)"
  using bspec [OF bspec [OF wemix_setters_commute assms(1), simplified], OF assms(2)] assms(3) by simp

lemma wemix_values_commute:
  assumes "j \<noteq> k"
  shows "apply_wemix_value j u (apply_wemix_value k v w) = apply_wemix_value k v (apply_wemix_value j u w)"
proof (cases "map_of wemix_setters j"; cases "map_of wemix_setters k")
  fix f g assume "map_of wemix_setters j = Some f" "map_of wemix_setters k = Some g"
  then show ?thesis using assms
    by (simp add: apply_wemix_value_def wemix_setters_pair [OF map_of_SomeD map_of_SomeD] del: map_of_eq_Some_iff)
qed (simp_all add: apply_wemix_value_def)

lemma node_setters_pair:
  assumes "(j, f) \<in> set node_setters" and "(k, g) \<in> set node_setters" and "j \<noteq> k"
  shows "f u (g v c) = g v (f u c)"
  using bspec [OF bspec [OF node_setters_commute assms(1), simplified], OF assms(2)] assms(3) by simp

lemma node_values_commute:
  assumes "j \<noteq> k"
  shows "apply_node_value j u (apply_node_value k v n) = apply_node_value k v (apply_node_value j u n)"
proof (cases "map_of node_setters j"; cases "map_of node_setters k")
  fix f g assume "map_of node_setters j = Some f" "map_of node_setters k = Some g"
  then show ?thesis using assms
    by (simp add: apply_node_value_def node_setters_pair [OF map_of_SomeD map_of_SomeD] del: map_of_eq_Some_iff)
qed (simp_all add: apply_node_value_def)

section \<open>Properties\<close>

lemma dur_item_shrinks: "dur_item s = Some (d, rest) \<Longrightarrow> length rest < length s"
proof -
  assume a: "dur_item s = Some (d, rest)"
  let ?dig = "\<lambda>c. digit_val c \<noteq> None" and ?unit = "\<lambda>c. c \<noteq> CHR ''.'' \<and> digit_val c = None"
  obtain s2 where r: "rest = dropWhile ?unit s2" "takeWhile ?unit s2 \<noteq> []" "length s2 \<le> length s"
  proof (cases "take 1 (dropWhile ?dig s) = ''.''")
    case True
    with a have "rest = dropWhile ?unit (dropWhile ?dig (drop 1 (dropWhile ?dig s)))"
      "takeWhile ?unit (dropWhile ?dig (drop 1 (dropWhile ?dig s))) \<noteq> []"
      by (auto simp: dur_item_def Let_def unit_ns_def split: if_splits option.splits)
    moreover have "length (dropWhile ?dig (drop 1 (dropWhile ?dig s))) \<le> length s"
      using length_dropWhile_le [of ?dig "drop 1 (dropWhile ?dig s)"] length_dropWhile_le [of ?dig s] by simp
    ultimately show ?thesis by (rule that)
  next
    case False
    with a have "rest = dropWhile ?unit (dropWhile ?dig s)" "takeWhile ?unit (dropWhile ?dig s) \<noteq> []"
      by (auto simp: dur_item_def Let_def unit_ns_def split: if_splits option.splits)
    then show ?thesis by (rule that) (rule length_dropWhile_le)
  qed
  then have "length rest < length s2"
    by (metis append_Nil length_append length_greater_0_conv less_add_same_cancel2 takeWhile_dropWhile_id)
  with r(3) show ?thesis by simp
qed

lemma dur_loop_fuel: "length s \<le> j \<Longrightarrow> length s \<le> k \<Longrightarrow> dur_loop j s acc = dur_loop k s acc"
proof (induction j arbitrary: s k acc)
  case 0
  then show ?case by (cases k) simp_all
next
  case (Suc j)
  show ?case
  proof (cases s)
    case (Cons c cs)
    with Suc.prems(2) obtain k' where k: "k = Suc k'" by (cases k) auto
    show ?thesis
    proof (cases "dur_item s")
      case None
      with Cons k show ?thesis by simp
    next
      case (Some p)
      obtain d rest where p: "p = (d, rest)" by (cases p)
      with Some dur_item_shrinks have "length rest < length s" by blast
      with Suc.prems k have "dur_loop j rest a = dur_loop k' rest a" for a by (intro Suc.IH) auto
      with Some p Cons k show ?thesis by simp
    qed
  qed (cases k; simp)
qed

text \<open>
  The order of a map does not matter: whatever order the keys of a template come in, with distinct keys
  applying it gives the same two configurations.
\<close>

theorem template_order_irrelevant:
  assumes "distinct (map fst kvs)" and "mset kvs' = mset kvs"
  shows "apply_values kvs' wn = apply_values kvs wn"
proof -
  let ?f = "\<lambda>(k, v) (w, n). (apply_wemix_value k v w, apply_node_value k v n)"
  have f: "apply_values l wn = fold ?f l wn" for l
    by (simp add: apply_values_def foldl_conv_fold case_prod_beta')
  have "?f x \<circ> ?f y = ?f y \<circ> ?f x" if "x \<in> set kvs" "y \<in> set kvs" for x y
  proof (cases "fst x = fst y")
    case True
    with that assms(1) have "x = y" by (auto simp: distinct_map dest: inj_onD)
    then show ?thesis by simp
  next
    case False
    then show ?thesis
      by (auto simp: fun_eq_iff case_prod_beta wemix_values_commute node_values_commute)
  qed
  then have "fold ?f kvs = fold ?f kvs'" by (intro fold_multiset_equiv) (simp_all add: assms(2))
  then show ?thesis by (simp add: f)
qed

theorem template_order_irrelevant_witness:
  "\<forall>wn. apply_values (rev (tp_values validator_template)) wn = apply_values (tp_values validator_template) wn"
  by (intro allI template_order_irrelevant) (simp_all add: validator_template_def)

text \<open>
  What the name mainnet gives: whatever files are embedded, the template is the built-in one, and applying
  it sets the network, the ports, the boot nodes and the bound on the peers, and leaves the other settings;
  its data directory starts with the text of a shell variable, which nothing expands.
\<close>

theorem mainnet_template_applies:
  "get_template ''mainnet'' (new_template_manager embedded) = Inr mainnet_template \<and>
   apply_values (tp_values mainnet_template) (w, n) =
     (w, n\<lparr>nx_network_id := 1111, nx_chain_id := ''1111'', nx_rpc_port := 8588, nx_ws_port := 8598, nx_p2p_port := 8589,
        nx_bootnodes := [''enode://abc123...@mainnet-boot1.wemix.com:8589'', ''enode://def456...@mainnet-boot2.wemix.com:8589''],
        nx_max_peers := 50, nx_validator_mode := False, nx_data_dir := ''${HOME}/.wemix/mainnet''\<rparr>)"
proof -
  have e: "expand_path ''~/.wemix/mainnet'' = ''${HOME}/.wemix/mainnet''" by code_simp
  have "apply_values (tp_values mainnet_template) (w, n) =
     (w, n\<lparr>nx_network_id := 1111, nx_chain_id := ''1111'', nx_rpc_port := 8588, nx_ws_port := 8598, nx_p2p_port := 8589,
        nx_bootnodes := [''enode://abc123...@mainnet-boot1.wemix.com:8589'', ''enode://def456...@mainnet-boot2.wemix.com:8589''],
        nx_max_peers := 50, nx_validator_mode := False, nx_data_dir := ''${HOME}/.wemix/mainnet''\<rparr>)"
    by (simp add: mainnet_template_def apply_values_def apply_wemix_value_def apply_node_value_def wemix_setters_def
        node_setters_def set_if_def gstrings_def e del: map_of_eq_Some_iff)
  moreover have "get_template ''mainnet'' (new_template_manager embedded) = Inr mainnet_template"
    by (simp add: get_template_def new_template_manager_def load_default_templates_def mainnet_template_def
        testnet_template_def devnet_template_def validator_template_def archive_template_def rpc_template_def
        del: map_of_eq_Some_iff)
  ultimately show ?thesis by blast
qed

end
