(* ===== verification/ConfigFields.thy ===== *)
theory ConfigFields
  imports Templates
begin

text \<open>
  \<open>updateField\<close> of \<open>internal/config/manager.go\<close>: setting a field of the configuration by its Go name, with
  the conversions of \<open>reflect\<close>. The fields are a table with the type of each; the table follows the struct.
\<close>

section \<open>Conversions\<close>

text \<open>A map that is nil is not told apart from an empty one where the code never asks (\<open>TMap\<close>).\<close>

datatype gtype = TStr | TInt | TDur | TUint64 | TBool | TStrs | TMap | TNil_map

text \<open>\<open>string(rune(i))\<close>, in UTF-8; what is no code point is U+FFFD.\<close>

definition rune_string :: "int \<Rightarrow> string" where
  "rune_string i =
     (let byte = (\<lambda>n. char_of (n :: nat)); n = nat i in
      if i < 0 \<or> i > 0x10FFFF \<or> (0xD800 \<le> i \<and> i \<le> 0xDFFF) then [byte 0xEF, byte 0xBF, byte 0xBD]
      else if n < 0x80 then [byte n]
      else if n < 0x800 then [byte (0xC0 + n div 64), byte (0x80 + n mod 64)]
      else if n < 0x10000 then [byte (0xE0 + n div 4096), byte (0x80 + n div 64 mod 64), byte (0x80 + n mod 64)]
      else [byte (0xF0 + n div 262144), byte (0x80 + n div 4096 mod 64), byte (0x80 + n div 64 mod 64),
            byte (0x80 + n mod 64)])"

text \<open>
  What a value is as an integer for a conversion; floats are truncated, and what the implementation gives
  for one out of the range of the target is an argument.
\<close>

record float_conv =
  to_int64 :: "f64 \<Rightarrow> int"
  to_uint64 :: "f64 \<Rightarrow> nat"

definition as_int :: "float_conv \<Rightarrow> gval \<Rightarrow> int option" where
  "as_int fc v =
     (case v of
        GInt i \<Rightarrow> Some (wrap64 i) | GInt_other i \<Rightarrow> Some (wrap64 i) | GDur i \<Rightarrow> Some (wrap64 i)
      | GUint64 n \<Rightarrow> Some (wrap64 (int n)) | GUint_other n \<Rightarrow> Some (wrap64 (int n))
      | GFloat f \<Rightarrow> Some (wrap64 (to_int64 fc f)) | _ \<Rightarrow> None)"

definition as_uint :: "float_conv \<Rightarrow> gval \<Rightarrow> nat option" where
  "as_uint fc v =
     (case v of
        GInt i \<Rightarrow> Some (nat (i mod 2 ^ 64)) | GInt_other i \<Rightarrow> Some (nat (i mod 2 ^ 64)) | GDur i \<Rightarrow> Some (nat (i mod 2 ^ 64))
      | GUint64 n \<Rightarrow> Some (n mod 2 ^ 64) | GUint_other n \<Rightarrow> Some (n mod 2 ^ 64)
      | GFloat f \<Rightarrow> Some (to_uint64 fc f mod 2 ^ 64) | _ \<Rightarrow> None)"

definition as_string :: "gval \<Rightarrow> string option" where
  "as_string v =
     (case v of
        GStr s \<Rightarrow> Some s | GRaw s \<Rightarrow> Some s
      | GInt i \<Rightarrow> Some (rune_string i) | GInt_other i \<Rightarrow> Some (rune_string i) | GDur i \<Rightarrow> Some (rune_string i)
      | GUint64 n \<Rightarrow> Some (rune_string (int n)) | GUint_other n \<Rightarrow> Some (rune_string (int n))
      | _ \<Rightarrow> None)"

primrec convert :: "float_conv \<Rightarrow> gtype \<Rightarrow> gval \<Rightarrow> gval option" where
  "convert fc TStr v = map_option GStr (as_string v)"
| "convert fc TInt v = map_option GInt (as_int fc v)"
| "convert fc TDur v = map_option GDur (as_int fc v)"
| "convert fc TUint64 v = map_option GUint64 (as_uint fc v)"
| "convert fc TBool v = (case v of GBool b \<Rightarrow> Some v | _ \<Rightarrow> None)"
| "convert fc TStrs v = (case v of GStrs s \<Rightarrow> Some v | _ \<Rightarrow> None)"
| "convert fc TMap v = (case v of GStr_map (Some m) \<Rightarrow> Some v | GStr_map None \<Rightarrow> Some (GStr_map (Some [])) | _ \<Rightarrow> None)"
| "convert fc TNil_map v = (case v of GStr_map m \<Rightarrow> Some v | _ \<Rightarrow> None)"

text \<open>The values of a type; an integer is in the range of its 64 bits.\<close>

primrec has_type :: "gval \<Rightarrow> gtype \<Rightarrow> bool" where
  "has_type v TStr \<longleftrightarrow> (case v of GStr s \<Rightarrow> True | _ \<Rightarrow> False)"
| "has_type v TInt \<longleftrightarrow> (case v of GInt i \<Rightarrow> is_int64 i | _ \<Rightarrow> False)"
| "has_type v TDur \<longleftrightarrow> (case v of GDur i \<Rightarrow> is_int64 i | _ \<Rightarrow> False)"
| "has_type v TUint64 \<longleftrightarrow> (case v of GUint64 n \<Rightarrow> n < 2 ^ 64 | _ \<Rightarrow> False)"
| "has_type v TBool \<longleftrightarrow> (case v of GBool b \<Rightarrow> True | _ \<Rightarrow> False)"
| "has_type v TStrs \<longleftrightarrow> (case v of GStrs s \<Rightarrow> True | _ \<Rightarrow> False)"
| "has_type v TMap \<longleftrightarrow> (case v of GStr_map m \<Rightarrow> m \<noteq> None | _ \<Rightarrow> False)"
| "has_type v TNil_map \<longleftrightarrow> (case v of GStr_map m \<Rightarrow> True | _ \<Rightarrow> False)"

section \<open>The fields\<close>

record 'c cfg_field =
  fd_name :: string
  fd_type :: gtype
  fd_get :: "'c \<Rightarrow> gval"
  fd_put :: "gval \<Rightarrow> 'c \<Rightarrow> 'c"

definition f_str :: "string \<Rightarrow> ('c \<Rightarrow> string) \<Rightarrow> ((string \<Rightarrow> string) \<Rightarrow> 'c \<Rightarrow> 'c) \<Rightarrow> 'c cfg_field" where
  "f_str n g u = \<lparr>fd_name = n, fd_type = TStr, fd_get = (\<lambda>c. GStr (g c)),
     fd_put = (\<lambda>v. case v of GStr s \<Rightarrow> u (\<lambda>_. s) | _ \<Rightarrow> id)\<rparr>"

definition f_int :: "string \<Rightarrow> ('c \<Rightarrow> int) \<Rightarrow> ((int \<Rightarrow> int) \<Rightarrow> 'c \<Rightarrow> 'c) \<Rightarrow> 'c cfg_field" where
  "f_int n g u = \<lparr>fd_name = n, fd_type = TInt, fd_get = (\<lambda>c. GInt (g c)),
     fd_put = (\<lambda>v. case v of GInt i \<Rightarrow> u (\<lambda>_. i) | _ \<Rightarrow> id)\<rparr>"

definition f_dur :: "string \<Rightarrow> ('c \<Rightarrow> duration) \<Rightarrow> ((duration \<Rightarrow> duration) \<Rightarrow> 'c \<Rightarrow> 'c) \<Rightarrow> 'c cfg_field" where
  "f_dur n g u = \<lparr>fd_name = n, fd_type = TDur, fd_get = (\<lambda>c. GDur (g c)),
     fd_put = (\<lambda>v. case v of GDur i \<Rightarrow> u (\<lambda>_. i) | _ \<Rightarrow> id)\<rparr>"

definition f_uint :: "string \<Rightarrow> ('c \<Rightarrow> nat) \<Rightarrow> ((nat \<Rightarrow> nat) \<Rightarrow> 'c \<Rightarrow> 'c) \<Rightarrow> 'c cfg_field" where
  "f_uint n g u = \<lparr>fd_name = n, fd_type = TUint64, fd_get = (\<lambda>c. GUint64 (g c)),
     fd_put = (\<lambda>v. case v of GUint64 i \<Rightarrow> u (\<lambda>_. i) | _ \<Rightarrow> id)\<rparr>"

definition f_bool :: "string \<Rightarrow> ('c \<Rightarrow> bool) \<Rightarrow> ((bool \<Rightarrow> bool) \<Rightarrow> 'c \<Rightarrow> 'c) \<Rightarrow> 'c cfg_field" where
  "f_bool n g u = \<lparr>fd_name = n, fd_type = TBool, fd_get = (\<lambda>c. GBool (g c)),
     fd_put = (\<lambda>v. case v of GBool b \<Rightarrow> u (\<lambda>_. b) | _ \<Rightarrow> id)\<rparr>"

definition f_strs :: "string \<Rightarrow> ('c \<Rightarrow> string list) \<Rightarrow> ((string list \<Rightarrow> string list) \<Rightarrow> 'c \<Rightarrow> 'c) \<Rightarrow> 'c cfg_field" where
  "f_strs n g u = \<lparr>fd_name = n, fd_type = TStrs, fd_get = (\<lambda>c. GStrs (g c)),
     fd_put = (\<lambda>v. case v of GStrs s \<Rightarrow> u (\<lambda>_. s) | _ \<Rightarrow> id)\<rparr>"

type_synonym strmap = "(string, string) gomap"

definition f_map :: "string \<Rightarrow> ('c \<Rightarrow> strmap) \<Rightarrow> ((strmap \<Rightarrow> strmap) \<Rightarrow> 'c \<Rightarrow> 'c) \<Rightarrow> 'c cfg_field" where
  "f_map n g u = \<lparr>fd_name = n, fd_type = TMap, fd_get = (\<lambda>c. GStr_map (Some (g c))),
     fd_put = (\<lambda>v. case v of GStr_map (Some m) \<Rightarrow> u (\<lambda>_. m) | _ \<Rightarrow> id)\<rparr>"

definition f_nilmap ::
  "string \<Rightarrow> ('c \<Rightarrow> strmap option) \<Rightarrow> ((strmap option \<Rightarrow> strmap option) \<Rightarrow> 'c \<Rightarrow> 'c) \<Rightarrow> 'c cfg_field" where
  "f_nilmap n g u = \<lparr>fd_name = n, fd_type = TNil_map, fd_get = (\<lambda>c. GStr_map (g c)),
     fd_put = (\<lambda>v. case v of GStr_map m \<Rightarrow> u (\<lambda>_. m) | _ \<Rightarrow> id)\<rparr>"

definition in_group :: "('c \<Rightarrow> 'g) \<Rightarrow> (('g \<Rightarrow> 'g) \<Rightarrow> 'c \<Rightarrow> 'c) \<Rightarrow> 'g cfg_field \<Rightarrow> 'c cfg_field" where
  "in_group g u f = \<lparr>fd_name = fd_name f, fd_type = fd_type f, fd_get = (\<lambda>c. fd_get f (g c)),
     fd_put = (\<lambda>v. u (fd_put f v))\<rparr>"

definition core_fields :: "core_cfg cfg_field list" where
  "core_fields =
     [f_str ''Home'' cf_home cf_home_update,
      f_str ''Name'' cf_name cf_name_update,
      f_strs ''Args'' cf_args cf_args_update]"

definition upgrade_fields :: "upgrade_cfg cfg_field list" where
  "upgrade_fields =
     [f_bool ''AllowDownloadBinaries'' cf_allow_download_binaries cf_allow_download_binaries_update,
      f_bool ''DownloadMustHaveChecksum'' cf_download_must_have_checksum cf_download_must_have_checksum_update,
      f_bool ''RestartAfterUpgrade'' cf_restart_after_upgrade cf_restart_after_upgrade_update,
      f_dur ''RestartDelay'' cf_restart_delay cf_restart_delay_update]"

definition process_fields :: "process_cfg cfg_field list" where
  "process_fields =
     [f_dur ''ShutdownGrace'' cf_shutdown_grace cf_shutdown_grace_update,
      f_dur ''PollInterval'' cf_poll_interval cf_poll_interval_update,
      f_bool ''RestartOnFailure'' cf_restart_on_failure cf_restart_on_failure_update,
      f_int ''MaxRestarts'' cf_max_restarts cf_max_restarts_update]"

definition health_fields :: "health_cfg cfg_field list" where
  "health_fields =
     [f_dur ''HealthCheckInterval'' cf_health_check_interval cf_health_check_interval_update,
      f_dur ''MetricsInterval'' cf_metrics_interval cf_metrics_interval_update,
      f_int ''RPCPort'' cf_rpc_port cf_rpc_port_update,
      f_str ''LogFile'' cf_log_file cf_log_file_update,
      f_map ''Environment'' cf_environment cf_environment_update,
      f_str ''Network'' cf_network cf_network_update,
      f_bool ''Debug'' cf_debug cf_debug_update]"

definition backup_fields :: "backup_cfg cfg_field list" where
  "backup_fields =
     [f_bool ''UnsafeSkipBackup'' cf_unsafe_skip_backup cf_unsafe_skip_backup_update,
      f_str ''DataBackupPath'' cf_data_backup_path cf_data_backup_path_update,
      f_int ''PreUpgradeMaxRetries'' cf_preupgrade_max_retries cf_preupgrade_max_retries_update,
      f_str ''CustomPreUpgrade'' cf_custom_preupgrade cf_custom_preupgrade_update]"

definition wbft_fields :: "wbft_cfg cfg_field list" where
  "wbft_fields =
     [f_str ''RPCAddress'' cf_rpc_address cf_rpc_address_update,
      f_bool ''ValidatorMode'' cf_validator_mode cf_validator_mode_update,
      f_bool ''DisableRecase'' cf_disable_recase cf_disable_recase_update,
      f_uint ''NetworkID'' cf_network_id cf_network_id_update,
      f_str ''ChainID'' cf_chain_id cf_chain_id_update]"

definition download_fields :: "download_cfg cfg_field list" where
  "download_fields =
     [f_nilmap ''DownloadURLs'' cf_download_urls cf_download_urls_update,
      f_bool ''UnsafeSkipChecksum'' cf_unsafe_skip_checksum cf_unsafe_skip_checksum_update]"

definition logging_fields :: "logging_cfg cfg_field list" where
  "logging_fields =
     [f_bool ''DisableLogs'' cf_disable_logs cf_disable_logs_update,
      f_bool ''ColorLogs'' cf_color_logs cf_color_logs_update,
      f_str ''TimeFormatLogs'' cf_time_format_logs cf_time_format_logs_update]"

definition metrics_fields :: "metrics_cfg cfg_field list" where
  "metrics_fields =
     [f_bool ''MetricsEnabled'' cf_metrics_enabled cf_metrics_enabled_update,
      f_int ''MetricsPort'' cf_metrics_port cf_metrics_port_update,
      f_str ''MetricsPath'' cf_metrics_path cf_metrics_path_update,
      f_dur ''MetricsCollectionInterval'' cf_metrics_collection_interval cf_metrics_collection_interval_update,
      f_bool ''EnableSystemMetrics'' cf_enable_system_metrics cf_enable_system_metrics_update,
      f_bool ''EnableAppMetrics'' cf_enable_app_metrics cf_enable_app_metrics_update,
      f_bool ''EnableGovMetrics'' cf_enable_gov_metrics cf_enable_gov_metrics_update,
      f_bool ''EnablePerfMetrics'' cf_enable_perf_metrics cf_enable_perf_metrics_update]"

definition api_fields :: "api_cfg cfg_field list" where
  "api_fields =
     [f_bool ''APIEnabled'' cf_api_enabled cf_api_enabled_update,
      f_int ''APIPort'' cf_api_port cf_api_port_update,
      f_str ''APIHost'' cf_api_host cf_api_host_update,
      f_bool ''APIEnableAuth'' cf_api_enable_auth cf_api_enable_auth_update,
      f_str ''APIKey'' cf_api_key cf_api_key_update,
      f_str ''APIJWTSecret'' cf_api_jwt_secret cf_api_jwt_secret_update,
      f_strs ''APICORSOrigins'' cf_api_cors_origins cf_api_cors_origins_update,
      f_int ''APIRateLimit'' cf_api_rate_limit cf_api_rate_limit_update]"

definition alerting_fields :: "alerting_cfg cfg_field list" where
  "alerting_fields =
     [f_bool ''AlertingEnabled'' cf_alerting_enabled cf_alerting_enabled_update,
      f_dur ''AlertingEvalInterval'' cf_alerting_eval_interval cf_alerting_eval_interval_update,
      f_dur ''AlertingRetention'' cf_alerting_retention cf_alerting_retention_update,
      f_strs ''AlertingChannels'' cf_alerting_channels cf_alerting_channels_update]"

definition performance_fields :: "performance_cfg cfg_field list" where
  "performance_fields =
     [f_bool ''EnableCaching'' cf_enable_caching cf_enable_caching_update,
      f_int ''CacheSize'' cf_cache_size cf_cache_size_update,
      f_dur ''CacheTTL'' cf_cache_ttl cf_cache_ttl_update,
      f_bool ''EnablePooling'' cf_enable_pooling cf_enable_pooling_update,
      f_int ''MaxConnections'' cf_max_connections cf_max_connections_update,
      f_int ''MaxWorkers'' cf_max_workers cf_max_workers_update,
      f_bool ''EnableGCTuning'' cf_enable_gc_tuning cf_enable_gc_tuning_update,
      f_int ''GCPercent'' cf_gc_percent cf_gc_percent_update,
      f_bool ''EnableProfiling'' cf_enable_profiling cf_enable_profiling_update,
      f_dur ''ProfileInterval'' cf_profile_interval cf_profile_interval_update]"

definition automation_fields :: "automation_cfg cfg_field list" where
  "automation_fields =
     [f_bool ''GovernanceEnabled'' cf_governance_enabled cf_governance_enabled_update,
      f_bool ''UpgradeEnabled'' cf_upgrade_enabled cf_upgrade_enabled_update,
      f_dur ''HeightPollInterval'' cf_height_poll_interval cf_height_poll_interval_update,
      f_bool ''Daemon'' cf_daemon cf_daemon_update,
      f_bool ''JSONOutput'' cf_json_output cf_json_output_update,
      f_bool ''Quiet'' cf_quiet cf_quiet_update,
      f_str ''ConfigVersion'' cf_config_version cf_config_version_update]"

definition config_fields :: "config cfg_field list" where
  "config_fields =
     map (in_group c_core c_core_update) core_fields @
     map (in_group c_upgrade c_upgrade_update) upgrade_fields @
     map (in_group c_process c_process_update) process_fields @
     map (in_group c_health c_health_update) health_fields @
     map (in_group c_backup c_backup_update) backup_fields @
     map (in_group c_wbft c_wbft_update) wbft_fields @
     map (in_group c_download c_download_update) download_fields @
     map (in_group c_logging c_logging_update) logging_fields @
     map (in_group c_metrics c_metrics_update) metrics_fields @
     map (in_group c_api c_api_update) api_fields @
     map (in_group c_alerting c_alerting_update) alerting_fields @
     map (in_group c_performance c_performance_update) performance_fields @
     map (in_group c_automation c_automation_update) automation_fields"

text \<open>The field of the name is looked up, and the value converted to its type; a nil value panics.\<close>

datatype field_update = Updated config | No_such_field | Not_assignable | Nil_value_panics

definition set_field :: "float_conv \<Rightarrow> string \<Rightarrow> gval \<Rightarrow> config \<Rightarrow> field_update" where
  "set_field fc key v c =
     (case find (\<lambda>f. fd_name f = key) config_fields of
        None \<Rightarrow> No_such_field
      | Some f \<Rightarrow>
          if v = GNil then Nil_value_panics
          else (case convert fc (fd_type f) v of None \<Rightarrow> Not_assignable | Some w \<Rightarrow> Updated (fd_put f w c)))"

section \<open>Lemmas\<close>

lemmas field_kinds = f_str_def f_int_def f_dur_def f_uint_def f_bool_def f_strs_def f_map_def f_nilmap_def

lemma is_int64_wrap: "is_int64 (wrap64 i)"
  by (rule is_int64_wrap64)

lemma as_uint_bound: "as_uint fc v = Some n \<Longrightarrow> n < 2 ^ 64"
  by (auto simp: as_uint_def nat_less_iff split: gval.splits)

lemma as_int_range: "as_int fc v = Some i \<Longrightarrow> is_int64 i"
  by (auto simp: as_int_def is_int64_wrap split: gval.splits)

lemma convert_has_type: "convert fc ty v = Some w \<Longrightarrow> has_type w ty"
  by (cases ty) (auto dest: as_int_range as_uint_bound split: gval.splits option.splits)

text \<open>A field reads back what was put into it, and the fields of a table do not touch each other.\<close>

definition lawful :: "'c cfg_field \<Rightarrow> bool" where
  "lawful f \<longleftrightarrow> (\<forall>v c. has_type v (fd_type f) \<longrightarrow> fd_get f (fd_put f v c) = v)"

definition clear_of :: "'c cfg_field \<Rightarrow> 'c cfg_field \<Rightarrow> bool" where
  "clear_of f g \<longleftrightarrow> fd_name f \<noteq> fd_name g \<longrightarrow> (\<forall>v c. fd_get g (fd_put f v c) = fd_get g c)"

definition apart :: "'c cfg_field list \<Rightarrow> 'c cfg_field list \<Rightarrow> bool" where
  "apart fs gs \<longleftrightarrow> list_all (\<lambda>f. list_all (clear_of f) gs) fs"

lemma apart_iff: "apart fs gs \<longleftrightarrow> (\<forall>f\<in>set fs. \<forall>g\<in>set gs. clear_of f g)"
  by (simp add: apart_def list_all_iff)

lemma apart_append: "apart (fs @ fs') gs \<longleftrightarrow> apart fs gs \<and> apart fs' gs" "apart fs (gs @ gs') \<longleftrightarrow> apart fs gs \<and> apart fs gs'"
  by (auto simp: apart_iff)

lemma apart_other_group:
  "(\<And>h c. g' (u h c) = g' c) \<Longrightarrow> apart (map (in_group g u) fs) (map (in_group g' u') gs)"
  by (auto simp: apart_iff clear_of_def in_group_def)

lemma apart_same_group:
  "(\<And>h c. g (u h c) = h (g c)) \<Longrightarrow> apart fs fs \<Longrightarrow> apart (map (in_group g u) fs) (map (in_group g u) fs)"
  by (auto simp: apart_iff clear_of_def in_group_def)

lemma lawful_group:
  "(\<And>h c. g (u h c) = h (g c)) \<Longrightarrow> \<forall>f\<in>set fs. lawful f \<Longrightarrow> \<forall>f\<in>set (map (in_group g u) fs). lawful f"
  by (auto simp: lawful_def in_group_def)

lemma clear_ofI: "(\<And>v c. fd_get k (fd_put f v c) = fd_get k c) \<Longrightarrow> clear_of f k"
  by (simp add: clear_of_def)

lemma clear_kinds:
  "(\<And>x c. fd_get k (us x c) = fd_get k c) \<Longrightarrow> clear_of (f_str n gs us) k"
  "(\<And>x c. fd_get k (ui x c) = fd_get k c) \<Longrightarrow> clear_of (f_int n gi ui) k"
  "(\<And>x c. fd_get k (ui x c) = fd_get k c) \<Longrightarrow> clear_of (f_dur n gi ui) k"
  "(\<And>x c. fd_get k (un x c) = fd_get k c) \<Longrightarrow> clear_of (f_uint n gn un) k"
  "(\<And>x c. fd_get k (ub x c) = fd_get k c) \<Longrightarrow> clear_of (f_bool n gb ub) k"
  "(\<And>x c. fd_get k (ul x c) = fd_get k c) \<Longrightarrow> clear_of (f_strs n gl ul) k"
  "(\<And>x c. fd_get k (um x c) = fd_get k c) \<Longrightarrow> clear_of (f_map n gm um) k"
  "(\<And>x c. fd_get k (uo x c) = fd_get k c) \<Longrightarrow> clear_of (f_nilmap n go uo) k"
  by (rule clear_ofI, simp add: field_kinds split: gval.splits option.splits)+

lemma clear_same_name: "fd_name f = fd_name k \<Longrightarrow> clear_of f k"
  by (simp add: clear_of_def)

lemma field_names:
  "fd_name (f_str n gs us) = n" "fd_name (f_int n gi ui) = n" "fd_name (f_dur n gi ui) = n" "fd_name (f_uint n gn un) = n"
  "fd_name (f_bool n gb ub) = n" "fd_name (f_strs n gl ul) = n" "fd_name (f_map n gm um) = n" "fd_name (f_nilmap n go uo) = n"
  by (simp_all add: field_kinds)

lemma field_gets:
  "fd_get (f_str n gs us) c = GStr (gs c)" "fd_get (f_int n gi ui) c = GInt (gi c)" "fd_get (f_dur n gi ui) c = GDur (gi c)"
  "fd_get (f_uint n gn un) c = GUint64 (gn c)" "fd_get (f_bool n gb ub) c = GBool (gb c)"
  "fd_get (f_strs n gl ul) c = GStrs (gl c)" "fd_get (f_map n gm um) c = GStr_map (Some (gm c))"
  "fd_get (f_nilmap n go uo) c = GStr_map (go c)"
  by (simp_all add: field_kinds)

lemma lawful_kinds:
  "(\<And>x c. gs (us x c) = x (gs c)) \<Longrightarrow> lawful (f_str n gs us)"
  "(\<And>x c. gi (ui x c) = x (gi c)) \<Longrightarrow> lawful (f_int n gi ui)"
  "(\<And>x c. gi (ui x c) = x (gi c)) \<Longrightarrow> lawful (f_dur n gi ui)"
  "(\<And>x c. gn (un x c) = x (gn c)) \<Longrightarrow> lawful (f_uint n gn un)"
  "(\<And>x c. gb (ub x c) = x (gb c)) \<Longrightarrow> lawful (f_bool n gb ub)"
  "(\<And>x c. gl (ul x c) = x (gl c)) \<Longrightarrow> lawful (f_strs n gl ul)"
  "(\<And>x c. gm (um x c) = x (gm c)) \<Longrightarrow> lawful (f_map n gm um)"
  "(\<And>x c. go (uo x c) = x (go c)) \<Longrightarrow> lawful (f_nilmap n go uo)"
  by (auto simp: lawful_def field_kinds split: gval.splits)

lemmas apart_simps = apart_def clear_same_name field_names field_gets clear_kinds

lemma groups_apart:
  "apart core_fields core_fields" "apart upgrade_fields upgrade_fields" "apart process_fields process_fields"
  "apart health_fields health_fields" "apart backup_fields backup_fields" "apart wbft_fields wbft_fields"
  "apart download_fields download_fields" "apart logging_fields logging_fields"
  by (simp_all add: apart_simps core_fields_def upgrade_fields_def process_fields_def health_fields_def backup_fields_def
      wbft_fields_def download_fields_def logging_fields_def)

lemma more_groups_apart:
  "apart metrics_fields metrics_fields" "apart api_fields api_fields" "apart alerting_fields alerting_fields"
  "apart performance_fields performance_fields" "apart automation_fields automation_fields"
  by (simp_all add: apart_simps metrics_fields_def api_fields_def alerting_fields_def performance_fields_def
      automation_fields_def)

lemma groups_lawful:
  "list_all lawful core_fields" "list_all lawful upgrade_fields" "list_all lawful process_fields"
  "list_all lawful health_fields" "list_all lawful backup_fields" "list_all lawful wbft_fields"
  "list_all lawful download_fields" "list_all lawful logging_fields" "list_all lawful metrics_fields"
  "list_all lawful api_fields" "list_all lawful alerting_fields" "list_all lawful performance_fields"
  "list_all lawful automation_fields"
  by (simp_all add: lawful_kinds core_fields_def upgrade_fields_def process_fields_def health_fields_def backup_fields_def
      wbft_fields_def download_fields_def logging_fields_def metrics_fields_def api_fields_def alerting_fields_def
      performance_fields_def automation_fields_def)

lemma config_fields_apart: "apart config_fields config_fields"
  by (simp add: config_fields_def apart_append apart_other_group apart_same_group groups_apart more_groups_apart
      del: list.map)

lemma config_fields_lawful: "\<forall>f\<in>set config_fields. lawful f"
  using groups_lawful
  by (simp only: config_fields_def set_append ball_Un list_all_iff)
    (intro conjI lawful_group; simp)

lemma config_field_names: "distinct (map fd_name config_fields)"
  by code_simp

definition well_typed :: "config \<Rightarrow> bool" where
  "well_typed c \<longleftrightarrow> (\<forall>f\<in>set config_fields. has_type (fd_get f c) (fd_type f))"

text \<open>
  C20. Types are kept: when a field is set, it is a field of the struct, the value was assignable or convertible
  to its type, the field then holds the converted value, every other field is as it was, and a
  configuration whose fields all hold values of their types stays one.
\<close>

theorem set_field_types:
  assumes "set_field fc key v c = Updated c'"
  shows "(\<exists>f\<in>set config_fields. fd_name f = key \<and> convert fc (fd_type f) v = Some (fd_get f c') \<and>
      has_type (fd_get f c') (fd_type f) \<and>
      (\<forall>g\<in>set config_fields. g \<noteq> f \<longrightarrow> fd_get g c' = fd_get g c)) \<and>
    (well_typed c \<longrightarrow> well_typed c')"
proof -
  from assms obtain f w where f: "find (\<lambda>f. fd_name f = key) config_fields = Some f"
    and w: "convert fc (fd_type f) v = Some w" and c': "c' = fd_put f w c"
    by (auto simp: set_field_def split: option.splits if_splits)
  from f have fin: "f \<in> set config_fields" "fd_name f = key" by (auto simp: find_Some_iff)
  have ty: "has_type w (fd_type f)" using w by (rule convert_has_type)
  with config_fields_lawful fin c' have got: "fd_get f c' = w" by (auto simp: lawful_def)
  have others: "fd_get g c' = fd_get g c" if "g \<in> set config_fields" "g \<noteq> f" for g
  proof -
    from that fin config_field_names have "fd_name f \<noteq> fd_name g" by (auto simp: distinct_map dest: inj_onD)
    with config_fields_apart fin that c' show ?thesis by (auto simp: apart_iff clear_of_def)
  qed
  have "well_typed c \<longrightarrow> well_typed c'"
    unfolding well_typed_def using got ty others by metis
  with fin w ty got others show ?thesis by blast
qed

definition demo_conv :: float_conv where
  "demo_conv = \<lparr>to_int64 = (\<lambda>_. 0), to_uint64 = (\<lambda>_. 0)\<rparr>"

theorem set_field_types_witness:
  "\<exists>c'. set_field demo_conv ''Name'' (GInt 65) (default_config ''/w'' []) = Updated c' \<and>
     cf_name (c_core c') = ''A'' \<and>
     (\<exists>f\<in>set config_fields. fd_name f = ''Name'' \<and> has_type (fd_get f c') (fd_type f))"
proof -
  let ?c = "default_config ''/w'' []" and ?d = "c_core_update (cf_name_update (\<lambda>_. ''A'')) (default_config ''/w'' [])"
  have "rune_string 65 = ''A''" by code_simp
  then have u: "set_field demo_conv ''Name'' (GInt 65) ?c = Updated ?d"
    by (simp add: set_field_def config_fields_def core_fields_def in_group_def field_kinds as_string_def)
  from set_field_types [OF u, THEN conjunct1] show ?thesis
    by (intro exI [of _ ?d]) (use u in auto)
qed

end
