(* ===== verification/ConfigManager.thy ===== *)
theory ConfigManager
  imports ConfigFields Migration Channels
begin

text \<open>
  \<open>internal/config/manager.go\<close>: the manager that keeps the configuration in three structs, the two that are
  saved and the merged one that the program reads. The merged configuration is shared by pointer: the
  configurations are a heap and a pointer is an index into it. The file is what the TOML, YAML or JSON
  library makes of a document; the library is an argument. The rules are those of the theory Validation.
\<close>

section \<open>The two configurations and the merged one\<close>

datatype cfg_format = Fmt_toml | Fmt_yaml | Fmt_json

definition config_format :: "string \<Rightarrow> cfg_format option" where
  "config_format path =
     (let ext = path_ext path in
      if ext = ''.toml'' then Some Fmt_toml else if ext = ''.yaml'' \<or> ext = ''.yml'' then Some Fmt_yaml
      else if ext = ''.json'' then Some Fmt_json else None)"

definition zero_config :: config where
  "zero_config =
     \<lparr>c_core = \<lparr>cf_home = '''', cf_name = '''', cf_args = []\<rparr>,
      c_upgrade = \<lparr>cf_allow_download_binaries = False, cf_download_must_have_checksum = False,
        cf_restart_after_upgrade = False, cf_restart_delay = 0\<rparr>,
      c_process = \<lparr>cf_shutdown_grace = 0, cf_poll_interval = 0, cf_restart_on_failure = False, cf_max_restarts = 0\<rparr>,
      c_health = \<lparr>cf_health_check_interval = 0, cf_metrics_interval = 0, cf_rpc_port = 0, cf_log_file = '''',
        cf_environment = [], cf_network = '''', cf_debug = False\<rparr>,
      c_backup = \<lparr>cf_unsafe_skip_backup = False, cf_data_backup_path = '''', cf_preupgrade_max_retries = 0,
        cf_custom_preupgrade = ''''\<rparr>,
      c_wbft = \<lparr>cf_rpc_address = '''', cf_validator_mode = False, cf_disable_recase = False, cf_network_id = 0,
        cf_chain_id = ''''\<rparr>,
      c_download = \<lparr>cf_download_urls = None, cf_unsafe_skip_checksum = False\<rparr>,
      c_logging = \<lparr>cf_disable_logs = False, cf_color_logs = False, cf_time_format_logs = ''''\<rparr>,
      c_metrics = \<lparr>cf_metrics_enabled = False, cf_metrics_port = 0, cf_metrics_path = '''',
        cf_metrics_collection_interval = 0, cf_enable_system_metrics = False, cf_enable_app_metrics = False,
        cf_enable_gov_metrics = False, cf_enable_perf_metrics = False\<rparr>,
      c_api = \<lparr>cf_api_enabled = False, cf_api_port = 0, cf_api_host = '''', cf_api_enable_auth = False,
        cf_api_key = '''', cf_api_jwt_secret = '''', cf_api_cors_origins = [], cf_api_rate_limit = 0\<rparr>,
      c_alerting = \<lparr>cf_alerting_enabled = False, cf_alerting_eval_interval = 0, cf_alerting_retention = 0,
        cf_alerting_channels = []\<rparr>,
      c_performance = \<lparr>cf_enable_caching = False, cf_cache_size = 0, cf_cache_ttl = 0, cf_enable_pooling = False,
        cf_max_connections = 0, cf_max_workers = 0, cf_enable_gc_tuning = False, cf_gc_percent = 0,
        cf_enable_profiling = False, cf_profile_interval = 0\<rparr>,
      c_automation = \<lparr>cf_governance_enabled = False, cf_upgrade_enabled = False, cf_height_poll_interval = 0,
        cf_daemon = False, cf_json_output = False, cf_quiet = False, cf_config_version = ''''\<rparr>\<rparr>"

text \<open>\<open>mergeConfigs\<close>: the fields it does not name are zero.\<close>

definition merge_cfg :: "wemix_cfg \<Rightarrow> node_cfg \<Rightarrow> config" where
  "merge_cfg w n =
     zero_config\<lparr>
       c_core := \<lparr>cf_home = wx_home w, cf_name = wx_name w, cf_args = []\<rparr>,
       c_upgrade := (c_upgrade zero_config)\<lparr>cf_restart_delay := wx_restart_delay w,
         cf_allow_download_binaries := wx_allow_download w\<rparr>,
       c_process := (c_process zero_config)\<lparr>cf_shutdown_grace := wx_shutdown_grace w, cf_max_restarts := wx_max_restarts w\<rparr>,
       c_backup := (c_backup zero_config)\<lparr>cf_unsafe_skip_backup := \<not> wx_auto_backup w\<rparr>,
       c_wbft := (c_wbft zero_config)\<lparr>cf_rpc_address := nx_rpc_addr n @ '':'' @ int_str (nx_rpc_port n),
         cf_validator_mode := nx_validator_mode n\<rparr>,
       c_health := (c_health zero_config)\<lparr>cf_rpc_port := nx_rpc_port n,
         cf_health_check_interval := wx_health_check_interval w, cf_metrics_interval := wx_metrics_interval w\<rparr>,
       c_logging := (c_logging zero_config)\<lparr>cf_time_format_logs := wx_log_time_format w\<rparr>\<rparr>"

definition split_wemix :: "config \<Rightarrow> wemix_cfg \<Rightarrow> wemix_cfg" where
  "split_wemix c w =
     w\<lparr>wx_home := cf_home (c_core c), wx_name := cf_name (c_core c), wx_restart_delay := cf_restart_delay (c_upgrade c),
       wx_shutdown_grace := cf_shutdown_grace (c_process c), wx_allow_download := cf_allow_download_binaries (c_upgrade c),
       wx_auto_backup := \<not> cf_unsafe_skip_backup (c_backup c)\<rparr>"

definition split_node :: "config \<Rightarrow> node_cfg \<Rightarrow> node_cfg" where
  "split_node c n = n\<lparr>nx_rpc_port := cf_rpc_port (c_health c), nx_validator_mode := cf_validator_mode (c_wbft c)\<rparr>"

definition default_wemix :: "string \<Rightarrow> wemix_cfg" where
  "default_wemix env_home =
     \<lparr>wx_home = path_join [env_home, ''.wemixvisor''], wx_name = ''wemixd'', wx_max_restarts = 5,
      wx_restart_delay = second, wx_shutdown_grace = 30 * second, wx_health_check_interval = 30 * second,
      wx_metrics_interval = 60 * second, wx_metrics_enabled = True, wx_allow_download = True, wx_auto_backup = True,
      wx_pre_upgrade_timeout = 5 * minute, wx_log_level = ''info'', wx_log_format = ''json'',
      wx_log_time_format = ''rfc3339''\<rparr>"

definition default_node :: "string \<Rightarrow> node_cfg" where
  "default_node home =
     \<lparr>nx_network_id = 1112, nx_chain_id = ''1112'', nx_rpc_addr = ''127.0.0.1'', nx_rpc_port = 8545,
      nx_rpc_apis = [''eth'', ''net'', ''web3''], nx_ws_addr = ''127.0.0.1'', nx_ws_port = 8546,
      nx_ws_apis = [''eth'', ''net'', ''web3''], nx_p2p_port = 30303, nx_bootnodes = [], nx_max_peers = 25,
      nx_validator_mode = False, nx_validator_key = '''', nx_data_dir = path_join [home, ''data''], nx_extra_flags = []\<rparr>"

section \<open>The document that is saved\<close>

text \<open>
  The structs go through JSON into a map of dynamic values, in which every number is a float. A nil
  slice is not told apart from an empty one.
\<close>

abbreviation gnum :: "int \<Rightarrow> gval" where
  "gnum i \<equiv> GFloat (f64_of_int i)"

definition wemix_doc :: "wemix_cfg \<Rightarrow> (string \<times> gval) list" where
  "wemix_doc w =
     [(''home'', GStr (wx_home w)), (''name'', GStr (wx_name w)), (''max_restarts'', gnum (wx_max_restarts w)),
      (''restart_delay'', gnum (wx_restart_delay w)), (''shutdown_grace'', gnum (wx_shutdown_grace w)),
      (''health_check_interval'', gnum (wx_health_check_interval w)), (''metrics_interval'', gnum (wx_metrics_interval w)),
      (''metrics_enabled'', GBool (wx_metrics_enabled w)), (''allow_download_binaries'', GBool (wx_allow_download w)),
      (''auto_backup'', GBool (wx_auto_backup w)), (''pre_upgrade_timeout'', gnum (wx_pre_upgrade_timeout w)),
      (''log_level'', GStr (wx_log_level w)), (''log_format'', GStr (wx_log_format w)),
      (''log_time_format'', GStr (wx_log_time_format w))]"

definition node_doc :: "node_cfg \<Rightarrow> (string \<times> gval) list" where
  "node_doc n =
     [(''network_id'', gnum (int (nx_network_id n))), (''chain_id'', GStr (nx_chain_id n)),
      (''rpc_addr'', GStr (nx_rpc_addr n)), (''rpc_port'', gnum (nx_rpc_port n)), (''rpc_apis'', GArr (map GStr (nx_rpc_apis n))),
      (''ws_addr'', GStr (nx_ws_addr n)), (''ws_port'', gnum (nx_ws_port n)), (''ws_apis'', GArr (map GStr (nx_ws_apis n))),
      (''p2p_port'', gnum (nx_p2p_port n)), (''bootnodes'', GArr (map GStr (nx_bootnodes n))),
      (''max_peers'', gnum (nx_max_peers n)), (''validator_mode'', GBool (nx_validator_mode n)),
      (''validator_key'', GStr (nx_validator_key n)), (''data_dir'', GStr (nx_data_dir n)),
      (''extra_flags'', GArr (map GStr (nx_extra_flags n)))]"

definition combined_doc :: "wemix_cfg option \<Rightarrow> node_cfg option \<Rightarrow> (string \<times> gval) list" where
  "combined_doc w n =
     foldl (\<lambda>m (k, v). gm_put k v m) (case w of None \<Rightarrow> [] | Some w \<Rightarrow> wemix_doc w)
       (case n of None \<Rightarrow> [] | Some n \<Rightarrow> node_doc n)"

text \<open>
  What \<open>encoding/json\<close> makes of an object for a struct: a key that is missing leaves the field, null
  leaves it too (or empties a slice), a value of another kind is an error.
\<close>

definition read_int :: "gval \<Rightarrow> int option" where
  "read_int v =
     (case v of
        GFloat (Finite r) \<Rightarrow> if of_int \<lfloor>r\<rfloor> = r \<and> is_int64 \<lfloor>r\<rfloor> then Some \<lfloor>r\<rfloor> else None
      | _ \<Rightarrow> None)"

definition read_nat :: "gval \<Rightarrow> nat option" where
  "read_nat v =
     (case v of
        GFloat (Finite r) \<Rightarrow> if of_int \<lfloor>r\<rfloor> = r \<and> 0 \<le> \<lfloor>r\<rfloor> \<and> \<lfloor>r\<rfloor> < 2 ^ 64 then Some (nat \<lfloor>r\<rfloor>) else None
      | _ \<Rightarrow> None)"

fun read_strs :: "gval list \<Rightarrow> string list option" where
  "read_strs [] = Some []"
| "read_strs (GStr s # vs) = map_option ((#) s) (read_strs vs)"
| "read_strs _ = None"

abbreviation read_slice :: "gval \<Rightarrow> string list option" where
  "read_slice v \<equiv> (case v of GArr vs \<Rightarrow> read_strs vs | _ \<Rightarrow> None)"

definition dec :: "(gval \<Rightarrow> 'a option) \<Rightarrow> (('a \<Rightarrow> 'a) \<Rightarrow> 'c \<Rightarrow> 'c) \<Rightarrow> string \<Rightarrow> (string \<times> gval) list \<Rightarrow> 'c \<times> bool \<Rightarrow> 'c \<times> bool" where
  "dec rd u key doc cb =
     (case map_of doc key of
        None \<Rightarrow> cb
      | Some GNil \<Rightarrow> cb
      | Some v \<Rightarrow> (case rd v of Some x \<Rightarrow> (u (\<lambda>_. x) (fst cb), snd cb) | None \<Rightarrow> (fst cb, False)))"

definition zero_wemix :: wemix_cfg where
  "zero_wemix = \<lparr>wx_home = '''', wx_name = '''', wx_max_restarts = 0, wx_restart_delay = 0, wx_shutdown_grace = 0,
     wx_health_check_interval = 0, wx_metrics_interval = 0, wx_metrics_enabled = False, wx_allow_download = False,
     wx_auto_backup = False, wx_pre_upgrade_timeout = 0, wx_log_level = '''', wx_log_format = '''', wx_log_time_format = ''''\<rparr>"

definition zero_node :: node_cfg where
  "zero_node = \<lparr>nx_network_id = 0, nx_chain_id = '''', nx_rpc_addr = '''', nx_rpc_port = 0, nx_rpc_apis = [],
     nx_ws_addr = '''', nx_ws_port = 0, nx_ws_apis = [], nx_p2p_port = 0, nx_bootnodes = [], nx_max_peers = 0,
     nx_validator_mode = False, nx_validator_key = '''', nx_data_dir = '''', nx_extra_flags = []\<rparr>"

definition unmarshal_wemix :: "(string \<times> gval) list \<Rightarrow> wemix_cfg option \<Rightarrow> wemix_cfg option \<times> bool" where
  "unmarshal_wemix doc w0 = map_prod Some id
     (foldl (\<lambda>cb d. d doc cb) (case w0 of Some w \<Rightarrow> w | None \<Rightarrow> zero_wemix, True)
       [dec gstring wx_home_update ''home'', dec gstring wx_name_update ''name'',
        dec read_int wx_max_restarts_update ''max_restarts'', dec read_int wx_restart_delay_update ''restart_delay'',
        dec read_int wx_shutdown_grace_update ''shutdown_grace'',
        dec read_int wx_health_check_interval_update ''health_check_interval'',
        dec read_int wx_metrics_interval_update ''metrics_interval'', dec gbool wx_metrics_enabled_update ''metrics_enabled'',
        dec gbool wx_allow_download_update ''allow_download_binaries'', dec gbool wx_auto_backup_update ''auto_backup'',
        dec read_int wx_pre_upgrade_timeout_update ''pre_upgrade_timeout'', dec gstring wx_log_level_update ''log_level'',
        dec gstring wx_log_format_update ''log_format'', dec gstring wx_log_time_format_update ''log_time_format''])"

definition unmarshal_node :: "(string \<times> gval) list \<Rightarrow> node_cfg option \<Rightarrow> node_cfg option \<times> bool" where
  "unmarshal_node doc n0 = map_prod Some id
     (foldl (\<lambda>cb d. d doc cb) (case n0 of Some n \<Rightarrow> n | None \<Rightarrow> zero_node, True)
       [dec read_nat nx_network_id_update ''network_id'', dec gstring nx_chain_id_update ''chain_id'',
        dec gstring nx_rpc_addr_update ''rpc_addr'', dec read_int nx_rpc_port_update ''rpc_port'',
        dec read_slice nx_rpc_apis_update ''rpc_apis'', dec gstring nx_ws_addr_update ''ws_addr'',
        dec read_int nx_ws_port_update ''ws_port'', dec read_slice nx_ws_apis_update ''ws_apis'',
        dec read_int nx_p2p_port_update ''p2p_port'', dec read_slice nx_bootnodes_update ''bootnodes'',
        dec read_int nx_max_peers_update ''max_peers'', dec gbool nx_validator_mode_update ''validator_mode'',
        dec gstring nx_validator_key_update ''validator_key'', dec gstring nx_data_dir_update ''data_dir'',
        dec read_slice nx_extra_flags_update ''extra_flags''])"

text \<open>The numbers a double holds exactly.\<close>

definition small :: "int \<Rightarrow> bool" where
  "small i \<longleftrightarrow> \<bar>i\<bar> < 2 ^ 53"

definition small_wemix :: "wemix_cfg \<Rightarrow> bool" where
  "small_wemix w \<longleftrightarrow> list_all small [wx_max_restarts w, wx_restart_delay w, wx_shutdown_grace w,
     wx_health_check_interval w, wx_metrics_interval w, wx_pre_upgrade_timeout w]"

definition small_node :: "node_cfg \<Rightarrow> bool" where
  "small_node n \<longleftrightarrow> list_all small [int (nx_network_id n), nx_rpc_port n, nx_ws_port n, nx_p2p_port n, nx_max_peers n]"

text \<open>The numbers but the network identifier, which is the only unsigned one.\<close>

definition small_ports :: "node_cfg \<Rightarrow> bool" where
  "small_ports n \<longleftrightarrow> list_all small [nx_rpc_port n, nx_ws_port n, nx_p2p_port n, nx_max_peers n]"

definition rounded_id :: "node_cfg \<Rightarrow> node_cfg" where
  "rounded_id n = n\<lparr>nx_network_id := round53 (nx_network_id n)\<rparr>"

lemma small_node_parts: "small_node n \<longleftrightarrow> nx_network_id n < 2 ^ 53 \<and> small_ports n"
  by (auto simp: small_node_def small_ports_def small_def)

lemma rounded_small: "nx_network_id n < 2 ^ 53 \<Longrightarrow> rounded_id n = n"
  by (simp add: rounded_id_def)

lemma read_rounded: "round53 n < 2 ^ 64 \<Longrightarrow> read_nat (gnum (int n)) = Some (round53 n)"
  by (simp add: read_nat_def f64_of_int_def)

lemma read_small: "small i \<Longrightarrow> read_int (gnum i) = Some i"
  by (auto simp: read_int_def small_def f64_of_int_exact is_int64_def)

lemma read_small_nat: "small (int n) \<Longrightarrow> read_nat (gnum (int n)) = Some n"
  by (auto simp: read_nat_def small_def f64_of_int_exact)

lemma read_strs_map [simp]: "read_strs (map GStr ss) = Some ss"
  by (induction ss) simp_all

lemma dec_found: "map_of doc key = Some v \<Longrightarrow> v \<noteq> GNil \<Longrightarrow> rd v = Some x \<Longrightarrow> dec rd u key doc (c, b) = (u (\<lambda>_. x) c, b)"
  by (cases v) (simp_all add: dec_def)

text \<open>The keys of the two structs are different.\<close>

lemma combined_doc_append: "combined_doc (Some w) (Some n) = wemix_doc w @ node_doc n"
  by (simp add: combined_doc_def wemix_doc_def node_doc_def)

lemma unmarshal_rounded:
  assumes "small_wemix w" and "small_ports n" and "round53 (nx_network_id n) < 2 ^ 64"
  shows "unmarshal_wemix (combined_doc (Some w) (Some n)) w0 = (Some w, True)"
    and "unmarshal_node (combined_doc (Some w) (Some n)) n0 = (Some (rounded_id n), True)"
proof -
  have s: "small (wx_max_restarts w)" "small (wx_restart_delay w)" "small (wx_shutdown_grace w)"
    "small (wx_health_check_interval w)" "small (wx_metrics_interval w)" "small (wx_pre_upgrade_timeout w)"
    "small (nx_rpc_port n)" "small (nx_ws_port n)" "small (nx_p2p_port n)" "small (nx_max_peers n)"
    using assms by (simp_all add: small_wemix_def small_ports_def)
  show "unmarshal_wemix (combined_doc (Some w) (Some n)) w0 = (Some w, True)"
    by (simp add: unmarshal_wemix_def combined_doc_append wemix_doc_def node_doc_def dec_found read_small s del: map_of_eq_Some_iff)
  show "unmarshal_node (combined_doc (Some w) (Some n)) n0 = (Some (rounded_id n), True)"
    by (simp add: unmarshal_node_def combined_doc_append wemix_doc_def node_doc_def dec_found read_small s rounded_id_def
        read_rounded [OF assms(3)] del: map_of_eq_Some_iff)
qed

lemma unmarshal_saved:
  assumes "small_wemix w" and "small_node n"
  shows "unmarshal_wemix (combined_doc (Some w) (Some n)) w0 = (Some w, True)"
    and "unmarshal_node (combined_doc (Some w) (Some n)) n0 = (Some n, True)"
proof -
  from assms(2) have n: "small_ports n" "nx_network_id n < 2 ^ 53" by (simp_all add: small_node_parts)
  then have "round53 (nx_network_id n) < 2 ^ 64" by simp
  from unmarshal_rounded [OF assms(1) n(1) this] rounded_small [OF n(2)]
  show "unmarshal_wemix (combined_doc (Some w) (Some n)) w0 = (Some w, True)"
    and "unmarshal_node (combined_doc (Some w) (Some n)) n0 = (Some n, True)" by simp_all
qed

section \<open>The manager\<close>

datatype update_type = Reload_update | Hot_reload_update | Migration_update | Template_update

record config_update =
  up_type :: update_type
  up_path :: string
  up_old :: "nat option"
  up_new :: "nat option"

record 'f cfg_mgr =
  cm_path :: string
  cm_wemix :: "wemix_cfg option"
  cm_node :: "node_cfg option"
  cm_heap :: "config list"
  cm_merged :: "nat option"
  cm_templates :: templates
  cm_file :: "'f option"
  cm_updates :: "config_update chan"
  cm_cancelled :: bool

text \<open>
  The library of the file formats: \<open>None\<close> when a document cannot be written; a struct is decoded into the
  one that is there, and may be partly filled when decoding fails.
\<close>

record 'f cfg_codec =
  cc_marshal :: "cfg_format \<Rightarrow> (string \<times> gval) list \<Rightarrow> 'f option"
  cc_wemix :: "cfg_format \<Rightarrow> 'f \<Rightarrow> wemix_cfg option \<Rightarrow> wemix_cfg option \<times> bool"
  cc_node :: "cfg_format \<Rightarrow> 'f \<Rightarrow> node_cfg option \<Rightarrow> node_cfg option \<times> bool"

record 'f mgr_env =
  me_codec :: "'f cfg_codec"
  me_rules :: "rule list"
  me_readable :: bool
  me_write_ok :: bool
  me_rename_ok :: bool
  me_home :: string
  me_conv :: float_conv
  me_done_first :: bool

datatype mgr_error =
  Unsupported_format | Config_unreadable | Config_undecodable | Config_rejected validate_error | Config_unmarshalled
| Config_unwritten | Config_unrenamed | Field_not_set field_update | No_merged_config | Template_unknown template_error
| Config_not_migrated migrate_error | Watcher_unavailable | Manager_panics

definition current_cfg :: "'f cfg_mgr \<Rightarrow> config option" where
  "current_cfg m = map_option ((!) (cm_heap m)) (cm_merged m)"

text \<open>\<open>GetConfig\<close> gives the pointer, not a copy.\<close>

definition get_config :: "'f cfg_mgr \<Rightarrow> nat option" where
  "get_config m = cm_merged m"

definition alloc :: "config \<Rightarrow> 'f cfg_mgr \<Rightarrow> nat \<times> 'f cfg_mgr" where
  "alloc c m = (length (cm_heap m), m\<lparr>cm_heap := cm_heap m @ [c]\<rparr>)"

text \<open>
  \<open>cloneConfig\<close> copies by marshalling and unmarshalling. The struct types keep every number, so the copy is
  equal for text that is valid UTF-8; other text would come back with its invalid bytes replaced.
\<close>

definition clone_current :: "'f cfg_mgr \<Rightarrow> nat option \<times> 'f cfg_mgr" where
  "clone_current m =
     (case current_cfg m of None \<Rightarrow> (None, m) | Some c \<Rightarrow> (case alloc c m of (a, m1) \<Rightarrow> (Some a, m1)))"

text \<open>A nil pointer panics in both: \<open>None\<close>.\<close>

definition merge_configs :: "'f cfg_mgr \<Rightarrow> 'f cfg_mgr option" where
  "merge_configs m =
     (case (cm_wemix m, cm_node m) of
        (Some w, Some n) \<Rightarrow> (case alloc (merge_cfg w n) m of (a, m1) \<Rightarrow> Some (m1\<lparr>cm_merged := Some a\<rparr>))
      | _ \<Rightarrow> None)"

definition split_config :: "'f cfg_mgr \<Rightarrow> 'f cfg_mgr option" where
  "split_config m =
     (case (current_cfg m, cm_wemix m, cm_node m) of
        (Some c, Some w, Some n) \<Rightarrow> Some (m\<lparr>cm_wemix := Some (split_wemix c w), cm_node := Some (split_node c n)\<rparr>)
      | _ \<Rightarrow> None)"

definition apply_defaults :: "string \<Rightarrow> 'f cfg_mgr \<Rightarrow> 'f cfg_mgr option" where
  "apply_defaults env_home m =
     (let w = default_wemix env_home in
      merge_configs (m\<lparr>cm_wemix := Some w, cm_node := Some (default_node (wx_home w))\<rparr>))"

definition save_config :: "'f mgr_env \<Rightarrow> 'f cfg_mgr \<Rightarrow> ('f cfg_mgr, mgr_error, unit) gores" where
  "save_config env m =
     (case config_format (cm_path m) of
        None \<Rightarrow> (m, Inl Unsupported_format)
      | Some fmt \<Rightarrow>
          (case cc_marshal (me_codec env) fmt (combined_doc (cm_wemix m) (cm_node m)) of
             None \<Rightarrow> (m, Inl Config_unmarshalled)
           | Some f \<Rightarrow>
               if \<not> me_write_ok env then (m, Inl Config_unwritten)
               else if \<not> me_rename_ok env then (m, Inl Config_unrenamed)
               else (m\<lparr>cm_file := Some f\<rparr>, Inr ())))"

definition check_current :: "rule list \<Rightarrow> 'f cfg_mgr \<Rightarrow> mgr_error + unit" where
  "check_current rules m = map_sum Config_rejected id (validate rules (current_cfg m))"

definition load_config :: "'f mgr_env \<Rightarrow> 'f cfg_mgr \<Rightarrow> ('f cfg_mgr, mgr_error, unit) gores" where
  "load_config env m =
     (if \<not> me_readable env then (m, Inl Config_unreadable)
      else (case cm_file m of
              None \<Rightarrow> (case apply_defaults (me_home env) m of
                         None \<Rightarrow> (m, Inl Manager_panics) | Some m1 \<Rightarrow> save_config env m1)
            | Some f \<Rightarrow>
                (case config_format (cm_path m) of
                   None \<Rightarrow> (m, Inl Unsupported_format)
                 | Some fmt \<Rightarrow>
                     (case cc_wemix (me_codec env) fmt f (cm_wemix m) of
                        (w, False) \<Rightarrow> (m\<lparr>cm_wemix := w\<rparr>, Inl Config_undecodable)
                      | (w, True) \<Rightarrow>
                          (case cc_node (me_codec env) fmt f (cm_node m) of
                             (n, False) \<Rightarrow> (m\<lparr>cm_wemix := w, cm_node := n\<rparr>, Inl Config_undecodable)
                           | (n, True) \<Rightarrow>
                               (case merge_configs (m\<lparr>cm_wemix := w, cm_node := n\<rparr>) of
                                  None \<Rightarrow> (m, Inl Manager_panics)
                                | Some m1 \<Rightarrow> (m1, check_current (me_rules env) m1)))))))"

text \<open>
  \<open>notifyUpdate\<close>: after \<open>Stop\<close> the select finds both the cancelled context and the closed channel ready, and
  sending on it panics; which of the two it takes is an argument.
\<close>

definition notify_update :: "'f mgr_env \<Rightarrow> update_type \<Rightarrow> nat option \<Rightarrow> nat option \<Rightarrow> 'f cfg_mgr \<Rightarrow> 'f cfg_mgr option" where
  "notify_update env ty old new m =
     (if cm_cancelled m \<and> me_done_first env then Some m
      else (case ch_send \<lparr>up_type = ty, up_path = cm_path m, up_old = old, up_new = new\<rparr> (cm_updates m) of
              Send_panics \<Rightarrow> None | Send_blocks \<Rightarrow> Some m | Sent q \<Rightarrow> Some (m\<lparr>cm_updates := q\<rparr>)))"

text \<open>The end that the three changing operations share: check, save, notify, or point back to the copy.\<close>

definition commit :: "'f mgr_env \<Rightarrow> update_type \<Rightarrow> nat option \<Rightarrow> 'f cfg_mgr \<Rightarrow> ('f cfg_mgr, mgr_error, unit) gores" where
  "commit env ty old m =
     (case save_config env m of
        (m1, Inl e) \<Rightarrow> (m1\<lparr>cm_merged := old\<rparr>, Inl e)
      | (m1, Inr _) \<Rightarrow>
          (case notify_update env ty old (cm_merged m1) m1 of
             None \<Rightarrow> (m1, Inl Manager_panics) | Some m2 \<Rightarrow> (m2, Inr ())))"

text \<open>\<open>updateField\<close> writes through the pointer and then splits.\<close>

definition update_field :: "float_conv \<Rightarrow> string \<Rightarrow> gval \<Rightarrow> 'f cfg_mgr \<Rightarrow> ('f cfg_mgr, mgr_error, unit) gores" where
  "update_field fc key v m =
     (case cm_merged m of
        None \<Rightarrow> (m, Inl No_merged_config)
      | Some a \<Rightarrow>
          (case set_field fc key v (cm_heap m ! a) of
             Updated c \<Rightarrow>
               (let m1 = m\<lparr>cm_heap := (cm_heap m)[a := c]\<rparr> in
                case split_config m1 of None \<Rightarrow> (m1, Inl Manager_panics) | Some m2 \<Rightarrow> (m2, Inr ()))
           | Nil_value_panics \<Rightarrow> (m, Inl Manager_panics)
           | r \<Rightarrow> (m, Inl (Field_not_set r))))"

definition update_config :: "'f mgr_env \<Rightarrow> string \<Rightarrow> gval \<Rightarrow> 'f cfg_mgr \<Rightarrow> ('f cfg_mgr, mgr_error, unit) gores" where
  "update_config env key v m =
     (case clone_current m of
        (old, m0) \<Rightarrow>
          (case update_field (me_conv env) key v m0 of
             (m1, Inl e) \<Rightarrow> (m1, Inl e)
           | (m1, Inr _) \<Rightarrow>
               (case check_current (me_rules env) m1 of
                  Inl e \<Rightarrow> (m1\<lparr>cm_merged := old\<rparr>, Inl e)
                | Inr _ \<Rightarrow> commit env Hot_reload_update old m1)))"

definition apply_template :: "'f mgr_env \<Rightarrow> string \<Rightarrow> 'f cfg_mgr \<Rightarrow> ('f cfg_mgr, mgr_error, unit) gores" where
  "apply_template env name m =
     (case get_template name (cm_templates m) of
        Inl e \<Rightarrow> (m, Inl (Template_unknown e))
      | Inr t \<Rightarrow>
          (case clone_current m of
             (old, m0) \<Rightarrow>
               (case (cm_wemix m0, cm_node m0) of
                  (Some w, Some n) \<Rightarrow>
                    (case apply_values (tp_values t) (w, n) of
                       (w1, n1) \<Rightarrow>
                         (case merge_configs (m0\<lparr>cm_wemix := Some w1, cm_node := Some n1\<rparr>) of
                            None \<Rightarrow> (m0, Inl Manager_panics)
                          | Some m1 \<Rightarrow>
                              (case check_current (me_rules env) m1 of
                                 Inl e \<Rightarrow> (m1\<lparr>cm_merged := old\<rparr>, Inl e)
                               | Inr _ \<Rightarrow> commit env Template_update old m1)))
                | _ \<Rightarrow> (m0, Inl Manager_panics))))"

text \<open>Between equal versions the migrator gives the configuration itself, else a new one.\<close>

definition same_version :: "string \<Rightarrow> string \<Rightarrow> bool" where
  "same_version v w =
     (case (parse_version v, parse_version w) of (Some a, Some b) \<Rightarrow> version_equal a b | _ \<Rightarrow> False)"

definition migrate_config :: "'f mgr_env \<Rightarrow> string \<Rightarrow> string \<Rightarrow> 'f cfg_mgr \<Rightarrow> ('f cfg_mgr, mgr_error, unit) gores" where
  "migrate_config env v w m =
     (case clone_current m of
        (old, m0) \<Rightarrow>
          (case migrate (me_home env) (current_cfg m0) v w of
             Inl e \<Rightarrow> (m0, Inl (Config_not_migrated e))
           | Inr c \<Rightarrow>
               (case (if same_version v w then (cm_merged m0, m0)
                      else (case alloc c m0 of (a, m1) \<Rightarrow> (Some a, m1))) of
                  (new, m1) \<Rightarrow>
                    (case check_current (me_rules env) (m1\<lparr>cm_merged := new\<rparr>) of
                       Inl e \<Rightarrow> (m1, Inl e)
                     | Inr _ \<Rightarrow>
                         (case split_config (m1\<lparr>cm_merged := new\<rparr>) of
                            None \<Rightarrow> (m1\<lparr>cm_merged := new\<rparr>, Inl Manager_panics)
                          | Some m2 \<Rightarrow> commit env Migration_update old m2)))))"

definition handle_config_change :: "'f mgr_env \<Rightarrow> 'f cfg_mgr \<Rightarrow> ('f cfg_mgr, mgr_error, unit) gores" where
  "handle_config_change env m =
     (case clone_current m of
        (old, m0) \<Rightarrow>
          (case load_config env m0 of
             (m1, Inl Manager_panics) \<Rightarrow> (m1, Inl Manager_panics)
           | (m1, r) \<Rightarrow>
               (case notify_update env Reload_update old (case r of Inl _ \<Rightarrow> None | Inr _ \<Rightarrow> cm_merged m1) m1 of
                  None \<Rightarrow> (m1, Inl Manager_panics) | Some m2 \<Rightarrow> (m2, Inr ()))))"

text \<open>An event of the directory: the base name of the path, and whether it is a write or a creation.\<close>

definition watch_event :: "'f mgr_env \<Rightarrow> string \<Rightarrow> bool \<Rightarrow> 'f cfg_mgr \<Rightarrow> ('f cfg_mgr, mgr_error, unit) gores" where
  "watch_event env name written m =
     (if path_base name \<noteq> path_base (cm_path m) \<or> \<not> written then (m, Inr ()) else handle_config_change env m)"

definition empty_manager :: "string \<Rightarrow> 'f option \<Rightarrow> (string \<times> template option) list \<Rightarrow> 'f cfg_mgr" where
  "empty_manager path content embedded =
     \<lparr>cm_path = path, cm_wemix = None, cm_node = None, cm_heap = [], cm_merged = None,
      cm_templates = new_template_manager embedded, cm_file = content, cm_updates = make_chan 10, cm_cancelled = False\<rparr>"

definition manager_new ::
  "'f mgr_env \<Rightarrow> bool \<Rightarrow> bool \<Rightarrow> string \<Rightarrow> 'f option \<Rightarrow> (string \<times> template option) list \<Rightarrow> mgr_error + 'f cfg_mgr" where
  "manager_new env watcher_ok watch_ok path content embedded =
     (if \<not> watcher_ok then Inl Watcher_unavailable
      else (case load_config env (empty_manager path content embedded) of
              (m, Inl e) \<Rightarrow> Inl e
            | (m, Inr _) \<Rightarrow> if watch_ok then Inr m else Inl Watcher_unavailable))"

text \<open>\<open>Stop\<close>: a second call closes the channel again and panics.\<close>

definition manager_stop :: "'f cfg_mgr \<Rightarrow> ('f cfg_mgr, mgr_error, unit) gores" where
  "manager_stop m =
     (case ch_close (cm_updates m) of
        None \<Rightarrow> (m\<lparr>cm_cancelled := True\<rparr>, Inl Manager_panics)
      | Some q \<Rightarrow> (m\<lparr>cm_cancelled := True, cm_updates := q\<rparr>, Inr ()))"

section \<open>Lemmas\<close>

text \<open>What the JSON library does of a document that it wrote.\<close>

definition json_codec :: "'f cfg_codec \<Rightarrow> bool" where
  "json_codec cc \<longleftrightarrow> (\<forall>doc f. cc_marshal cc Fmt_json doc = Some f \<longrightarrow>
     (\<forall>w. cc_wemix cc Fmt_json f w = unmarshal_wemix doc w) \<and> (\<forall>n. cc_node cc Fmt_json f n = unmarshal_node doc n))"

lemma alloc_simps [simp]:
  "alloc c m = (length (cm_heap m), m\<lparr>cm_heap := cm_heap m @ [c]\<rparr>)"
  by (simp add: alloc_def)

lemma clone_current_some:
  assumes "cm_merged m = Some a"
  shows "clone_current m = (Some (length (cm_heap m)), m\<lparr>cm_heap := cm_heap m @ [cm_heap m ! a]\<rparr>)"
  using assms by (simp add: clone_current_def current_cfg_def)

lemma merge_configs_some:
  "cm_wemix m = Some w \<Longrightarrow> cm_node m = Some n \<Longrightarrow>
   merge_configs m = Some (m\<lparr>cm_heap := cm_heap m @ [merge_cfg w n], cm_merged := Some (length (cm_heap m))\<rparr>)"
  by (simp add: merge_configs_def)

lemma save_config_result:
  "save_config env m = (m1, r) \<Longrightarrow> \<exists>x. m1 = m\<lparr>cm_file := x\<rparr> \<and> (r \<noteq> Inr () \<longrightarrow> x = cm_file m)"
  by (auto simp: save_config_def split: option.splits if_splits)

lemma notify_result:
  "notify_update env ty old new m = Some m1 \<Longrightarrow> m1 = m\<lparr>cm_updates := cm_updates m1\<rparr>"
  by (auto simp: notify_update_def split: if_splits send_result.splits)

lemma notify_open:
  "\<not> ch_closed (cm_updates m) \<Longrightarrow> \<exists>q. notify_update env ty old new m = Some (m\<lparr>cm_updates := q\<rparr>)"
  by (cases m) (auto simp: notify_update_def ch_send_def)

lemma commit_ok:
  assumes "commit env ty old m = (m1, Inr ())"
  shows "\<exists>f q fmt. m1 = m\<lparr>cm_file := Some f, cm_updates := q\<rparr> \<and> config_format (cm_path m) = Some fmt \<and>
    cc_marshal (me_codec env) fmt (combined_doc (cm_wemix m) (cm_node m)) = Some f"
proof -
  from assms obtain ms mn where s: "save_config env m = (ms, Inr ())" and
    nt: "notify_update env ty old (cm_merged ms) ms = Some mn" and m1: "m1 = mn"
    by (auto simp: commit_def split: prod.splits sum.splits option.splits)
  from s obtain f fmt where e: "ms = m\<lparr>cm_file := Some f\<rparr>" and f: "config_format (cm_path m) = Some fmt"
    "cc_marshal (me_codec env) fmt (combined_doc (cm_wemix m) (cm_node m)) = Some f"
    by (auto simp: save_config_def split: option.splits if_splits)
  have "mn = m\<lparr>cm_file := Some f, cm_updates := cm_updates mn\<rparr>"
    using notify_result [OF nt] by (simp only: e)
  with f show ?thesis unfolding m1 by blast
qed

text \<open>Setting a field: the step that every update makes before its check.\<close>

lemma update_field_step:
  assumes "cm_merged m = Some a" and "a < length (cm_heap m)" and "cm_wemix m = Some w" and "cm_node m = Some n"
    and "set_field fc key v (cm_heap m ! a) = Updated c"
  shows "update_field fc key v m =
    (m\<lparr>cm_heap := (cm_heap m)[a := c], cm_wemix := Some (split_wemix c w), cm_node := Some (split_node c n)\<rparr>, Inr ())"
  using assms by (simp add: update_field_def split_config_def current_cfg_def Let_def)

lemma update_config_step:
  assumes "cm_merged m = Some a" and "a < length (cm_heap m)" and "cm_wemix m = Some w" and "cm_node m = Some n"
    and "set_field (me_conv env) key v (cm_heap m ! a) = Updated c"
  shows "update_config env key v m =
    (let m1 = m\<lparr>cm_heap := (cm_heap m)[a := c] @ [cm_heap m ! a], cm_wemix := Some (split_wemix c w),
           cm_node := Some (split_node c n)\<rparr> in
     case map_sum Config_rejected id (validate (me_rules env) (Some c)) of
       Inl e \<Rightarrow> (m1\<lparr>cm_merged := Some (length (cm_heap m))\<rparr>, Inl e)
     | Inr _ \<Rightarrow> commit env Hot_reload_update (Some (length (cm_heap m))) m1)"
proof -
  let ?m0 = "m\<lparr>cm_heap := cm_heap m @ [cm_heap m ! a]\<rparr>"
  have "update_field (me_conv env) key v ?m0 =
      (?m0\<lparr>cm_heap := (cm_heap ?m0)[a := c], cm_wemix := Some (split_wemix c w), cm_node := Some (split_node c n)\<rparr>, Inr ())"
    by (rule update_field_step) (use assms in \<open>simp_all add: nth_append\<close>)
  with assms(1,2) show ?thesis
    by (simp add: update_config_def clone_current_some check_current_def current_cfg_def Let_def list_update_append nth_append)
qed

lemma clone_frame:
  "cm_file (snd (clone_current m)) = cm_file m" "cm_path (snd (clone_current m)) = cm_path m"
  "cm_wemix (snd (clone_current m)) = cm_wemix m" "cm_node (snd (clone_current m)) = cm_node m"
  "cm_updates (snd (clone_current m)) = cm_updates m"
  by (simp_all add: clone_current_def split: option.splits)

text \<open>A file that decodes takes effect before the rules are asked.\<close>

lemma load_decoded:
  assumes "me_readable env" and "cm_file m = Some f" and "config_format (cm_path m) = Some fmt"
    and "cc_wemix (me_codec env) fmt f (cm_wemix m) = (Some w, True)"
    and "cc_node (me_codec env) fmt f (cm_node m) = (Some n, True)"
  shows "load_config env m =
    (m\<lparr>cm_wemix := Some w, cm_node := Some n, cm_heap := cm_heap m @ [merge_cfg w n], cm_merged := Some (length (cm_heap m))\<rparr>,
     map_sum Config_rejected id (validate (me_rules env) (Some (merge_cfg w n))))"
  using assms by (simp add: load_config_def merge_configs_some check_current_def current_cfg_def)

lemma reload_decoded:
  assumes "me_readable env" and "cm_file m = Some f" and "config_format (cm_path m) = Some fmt"
    and "cc_wemix (me_codec env) fmt f (cm_wemix m) = (Some w, True)"
    and "cc_node (me_codec env) fmt f (cm_node m) = (Some n, True)" and "\<not> ch_closed (cm_updates m)"
  shows "\<exists>m1 m'. handle_config_change env m = (m', Inr ()) \<and> current_cfg m' = Some (merge_cfg w n) \<and>
    cm_wemix m' = Some w \<and> cm_node m' = Some n \<and> cm_updates m1 = cm_updates m \<and>
    notify_update env Reload_update (fst (clone_current m))
      (if validate (me_rules env) (Some (merge_cfg w n)) = Inr () then cm_merged m' else None) m1 = Some m'"
proof -
  obtain old m0 where c: "clone_current m = (old, m0)" by fastforce
  then have fr: "cm_file m0 = cm_file m" "cm_path m0 = cm_path m" "cm_wemix m0 = cm_wemix m" "cm_node m0 = cm_node m"
    "cm_updates m0 = cm_updates m" using clone_frame [of m] by simp_all
  let ?m1 = "m0\<lparr>cm_wemix := Some w, cm_node := Some n, cm_heap := cm_heap m0 @ [merge_cfg w n],
      cm_merged := Some (length (cm_heap m0))\<rparr>"
  let ?v = "validate (me_rules env) (Some (merge_cfg w n))"
  let ?new = "if ?v = Inr () then cm_merged ?m1 else None"
  have ld: "load_config env m0 = (?m1, map_sum Config_rejected id ?v)"
    by (rule load_decoded) (use assms fr in simp_all)
  have op: "\<not> ch_closed (cm_updates ?m1)" using assms(6) fr by simp
  obtain q where nq: "notify_update env Reload_update old ?new ?m1 = Some (?m1\<lparr>cm_updates := q\<rparr>)"
    using notify_open [where m = ?m1, OF op] by blast
  have h: "handle_config_change env m = (?m1\<lparr>cm_updates := q\<rparr>, Inr ())"
    using nq by (cases ?v) (simp_all add: handle_config_change_def c ld)
  then show ?thesis using nq fr c
    by (intro exI [of _ ?m1] exI [of _ "?m1\<lparr>cm_updates := q\<rparr>"]) (auto simp: current_cfg_def)
qed

section \<open>Properties\<close>

text \<open>
  C19. A rejected update is undone for the manager only: it points back to a copy with the old values, and
  neither the file nor the notifications change; but whoever got the configuration by \<open>GetConfig\<close> reads
  the rejected value through that pointer from then on, and the two structs that are saved keep it, so
  that the next template that is applied merges it into the configuration.
\<close>

theorem rejected_update_stays:
  assumes "cm_merged m = Some a" and "a < length (cm_heap m)" and "cm_wemix m = Some w" and "cm_node m = Some n"
    and "set_field (me_conv env) key v (cm_heap m ! a) = Updated c"
    and "validate (me_rules env) (Some c) = Inl e"
  shows "\<exists>m'. update_config env key v m = (m', Inl (Config_rejected e)) \<and>
    current_cfg m' = current_cfg m \<and> cm_file m' = cm_file m \<and> cm_updates m' = cm_updates m \<and>
    get_config m = Some a \<and> get_config m' \<noteq> Some a \<and> cm_heap m' ! a = c \<and>
    cm_wemix m' = Some (split_wemix c w) \<and> cm_node m' = Some (split_node c n) \<and>
    (\<forall>env' name t m''. get_template name (cm_templates m') = Inr t \<longrightarrow>
       apply_template env' name m' = (m'', Inr ()) \<longrightarrow>
       current_cfg m'' = Some (case apply_values (tp_values t) (split_wemix c w, split_node c n) of (w1, n1) \<Rightarrow> merge_cfg w1 n1))"
proof -
  let ?m' = "m\<lparr>cm_heap := (cm_heap m)[a := c] @ [cm_heap m ! a], cm_wemix := Some (split_wemix c w),
      cm_node := Some (split_node c n), cm_merged := Some (length (cm_heap m))\<rparr>"
  have u: "update_config env key v m = (?m', Inl (Config_rejected e))"
    using update_config_step [OF assms(1-5)] assms(6) by (simp add: Let_def)
  have t: "current_cfg m'' = Some (case apply_values (tp_values t) (split_wemix c w, split_node c n) of (w1, n1) \<Rightarrow> merge_cfg w1 n1)"
    if g: "get_template name (cm_templates ?m') = Inr t" and ap: "apply_template env' name ?m' = (m'', Inr ())"
    for env' name t m''
  proof -
    let ?m0 = "?m'\<lparr>cm_heap := cm_heap ?m' @ [cm_heap ?m' ! length (cm_heap m)]\<rparr>"
    obtain w1 n1 where wn: "apply_values (tp_values t) (split_wemix c w, split_node c n) = (w1, n1)" by fastforce
    let ?m1 = "?m0\<lparr>cm_wemix := Some w1, cm_node := Some n1, cm_heap := cm_heap ?m0 @ [merge_cfg w1 n1],
        cm_merged := Some (length (cm_heap ?m0))\<rparr>"
    have "commit env' Template_update (Some (length (cm_heap ?m'))) ?m1 = (m'', Inr ())"
      using ap g by (simp add: apply_template_def clone_current_some wn merge_configs_some split: sum.splits)
    from commit_ok [OF this] obtain f q where "m'' = ?m1\<lparr>cm_file := Some f, cm_updates := q\<rparr>" by blast
    then have "current_cfg m'' = Some (merge_cfg w1 n1)"
      by (simp add: current_cfg_def nth_append)
    then show ?thesis by (simp add: wn)
  qed
  show ?thesis
    by (intro exI [of _ ?m']) (use u t assms(1,2) in \<open>auto simp: current_cfg_def get_config_def nth_append\<close>)
qed

text \<open>The fields that \<open>splitConfig\<close> copies, and those that the saved structs alone hold.\<close>

definition split_names :: "string list" where
  "split_names = [''Home'', ''Name'', ''RestartDelay'', ''ShutdownGrace'', ''AllowDownloadBinaries'', ''UnsafeSkipBackup'',
     ''RPCPort'', ''ValidatorMode'']"

definition saved_names :: "string list" where
  "saved_names = [''MaxRestarts'', ''HealthCheckInterval'', ''MetricsInterval'', ''TimeFormatLogs'']"

lemma merged_fields:
  "\<forall>f\<in>set config_fields.
     (fd_name f \<in> set split_names \<longrightarrow> fd_get f (merge_cfg (split_wemix c w) (split_node c n)) = fd_get f c) \<and>
     (fd_name f \<in> set saved_names \<longrightarrow>
        fd_get f (merge_cfg (split_wemix c w) (split_node c n)) = fd_get f (merge_cfg w n)) \<and>
     (fd_name f = ''RPCAddress'' \<longrightarrow> fd_get f (merge_cfg (split_wemix c w) (split_node c n)) =
        GStr (nx_rpc_addr n @ '':'' @ int_str (cf_rpc_port (c_health c)))) \<and>
     (fd_name f \<notin> set split_names \<and> fd_name f \<notin> set saved_names \<and> fd_name f \<noteq> ''RPCAddress'' \<longrightarrow>
        fd_get f (merge_cfg (split_wemix c w) (split_node c n)) = fd_get f zero_config)"
proof -
  have in_group_simps: "fd_name (in_group g u f) = fd_name f" "fd_get (in_group g u f) c = fd_get f (g c)" for g u f c
    by (simp_all add: in_group_def)
  show ?thesis
    by (simp add: config_fields_def core_fields_def upgrade_fields_def process_fields_def health_fields_def backup_fields_def
        wbft_fields_def download_fields_def logging_fields_def metrics_fields_def api_fields_def alerting_fields_def
        performance_fields_def automation_fields_def in_group_simps field_names field_gets split_names_def saved_names_def
        merge_cfg_def split_wemix_def split_node_def zero_config_def)
qed

text \<open>
  C18. What survives a reload: after an accepted update of a JSON file, the file change that the manager's own
  write causes merges the configuration anew. Of the updated configuration it keeps the eight fields that
  \<open>splitConfig\<close> copies; the restart bound, the two intervals and the time format are again those of the
  saved structs, the RPC address is made anew of the saved address and the updated port, and every
  other field, which \<open>mergeConfigs\<close> does not name, is zero. (For a file that can be read back, an update channel
  that is open, and numbers below 2 to the 53.)
\<close>

theorem reload_keeps_split_fields:
  assumes "json_codec (me_codec env)" and "config_format (cm_path m) = Some Fmt_json"
    and "cm_merged m = Some a" and "a < length (cm_heap m)" and "cm_wemix m = Some w" and "cm_node m = Some n"
    and "set_field (me_conv env) key v (cm_heap m ! a) = Updated c"
    and "update_config env key v m = (m1, Inr ())"
    and "small_wemix (split_wemix c w)" and "small_node (split_node c n)"
    and "me_codec env' = me_codec env" and "me_readable env'" and "\<not> ch_closed (cm_updates m1)"
  shows "\<exists>m2 c2. current_cfg m1 = Some c \<and> handle_config_change env' m1 = (m2, Inr ()) \<and> current_cfg m2 = Some c2 \<and>
    (\<forall>f\<in>set config_fields.
       (fd_name f \<in> set split_names \<longrightarrow> fd_get f c2 = fd_get f c) \<and>
       (fd_name f \<in> set saved_names \<longrightarrow> fd_get f c2 = fd_get f (merge_cfg w n)) \<and>
       (fd_name f = ''RPCAddress'' \<longrightarrow>
          fd_get f c2 = GStr (nx_rpc_addr n @ '':'' @ int_str (cf_rpc_port (c_health c)))) \<and>
       (fd_name f \<notin> set split_names \<and> fd_name f \<notin> set saved_names \<and> fd_name f \<noteq> ''RPCAddress'' \<longrightarrow>
          fd_get f c2 = fd_get f zero_config))"
proof -
  let ?w = "split_wemix c w" and ?n = "split_node c n"
  let ?m = "m\<lparr>cm_heap := (cm_heap m)[a := c] @ [cm_heap m ! a], cm_wemix := Some ?w, cm_node := Some ?n\<rparr>"
  have "commit env Hot_reload_update (Some (length (cm_heap m))) ?m = (m1, Inr ())"
    using assms(8) update_config_step [OF assms(3-7)] by (simp add: Let_def split: sum.splits)
  from commit_ok [OF this] obtain f q fmt where m1: "m1 = ?m\<lparr>cm_file := Some f, cm_updates := q\<rparr>"
    and "config_format (cm_path ?m) = Some fmt"
    and "cc_marshal (me_codec env) fmt (combined_doc (cm_wemix ?m) (cm_node ?m)) = Some f" by blast
  with assms(2) have "cc_marshal (me_codec env) Fmt_json (combined_doc (Some ?w) (Some ?n)) = Some f" by simp
  with assms(1,9-11) unmarshal_saved
  have d: "cc_wemix (me_codec env') Fmt_json f w0 = (Some ?w, True)" "cc_node (me_codec env') Fmt_json f n0 = (Some ?n, True)"
    for w0 n0 by (simp_all add: json_codec_def)
  from reload_decoded [OF assms(12), of m1 f Fmt_json ?w ?n] obtain m2 where
    m2: "handle_config_change env' m1 = (m2, Inr ())" "current_cfg m2 = Some (merge_cfg ?w ?n)"
    using d assms(2,13) by (auto simp: m1)
  have "current_cfg m1 = Some c" using assms(3,4) by (simp add: m1 current_cfg_def nth_append)
  with m2 merged_fields [of c w n] show ?thesis by blast
qed

text \<open>
  A file that the rules reject takes effect: when the file on disk decodes, the change handler makes its
  configuration the current one whatever the rules say; a rejection shows only in the notification, whose
  new configuration is then nil.
\<close>

theorem rejected_file_takes_effect:
  assumes "me_readable env" and "cm_file m = Some f" and "config_format (cm_path m) = Some fmt"
    and "cc_wemix (me_codec env) fmt f (cm_wemix m) = (Some w, True)"
    and "cc_node (me_codec env) fmt f (cm_node m) = (Some n, True)"
    and "\<not> ch_closed (cm_updates m)" and "\<not> cm_cancelled m" and "length (ch_buf (cm_updates m)) < ch_cap (cm_updates m)"
  shows "\<exists>m' u. handle_config_change env m = (m', Inr ()) \<and> current_cfg m' = Some (merge_cfg w n) \<and>
    ch_buf (cm_updates m') = ch_buf (cm_updates m) @ [u] \<and> up_type u = Reload_update \<and>
    (up_new u = None \<longleftrightarrow> validate (me_rules env) (Some (merge_cfg w n)) \<noteq> Inr ())"
proof -
  obtain old m0 where c: "clone_current m = (old, m0)" by fastforce
  then have fr: "cm_file m0 = cm_file m" "cm_path m0 = cm_path m" "cm_wemix m0 = cm_wemix m" "cm_node m0 = cm_node m"
    "cm_updates m0 = cm_updates m" "cm_cancelled m0 = cm_cancelled m"
    using clone_frame [of m] by (auto simp: clone_current_def split: option.splits)
  let ?v = "validate (me_rules env) (Some (merge_cfg w n))"
  have "load_config env m0 = (m0\<lparr>cm_wemix := Some w, cm_node := Some n, cm_heap := cm_heap m0 @ [merge_cfg w n],
      cm_merged := Some (length (cm_heap m0))\<rparr>, map_sum Config_rejected id ?v)"
    by (rule load_decoded) (use assms fr in simp_all)
  with c fr assms(6-8) show ?thesis
    by (cases ?v) (simp_all add: handle_config_change_def notify_update_def ch_send_def current_cfg_def)
qed



definition demo_codec :: "(string \<times> gval) list cfg_codec" where
  "demo_codec = \<lparr>cc_marshal = (\<lambda>_ d. Some d), cc_wemix = (\<lambda>_ d w. unmarshal_wemix d w),
     cc_node = (\<lambda>_ d n. unmarshal_node d n)\<rparr>"

definition demo_mgr_env :: "rule list \<Rightarrow> (string \<times> gval) list mgr_env" where
  "demo_mgr_env rules = \<lparr>me_codec = demo_codec, me_rules = rules, me_readable = True, me_write_ok = True,
     me_rename_ok = True, me_home = ''/h'', me_conv = demo_conv, me_done_first = True\<rparr>"

definition demo_mgr :: "(string \<times> gval) list cfg_mgr" where
  "demo_mgr = \<lparr>cm_path = ''/w/c.json'', cm_wemix = Some (default_wemix ''/h''), cm_node = Some (default_node ''/h''),
     cm_heap = [merge_cfg (default_wemix ''/h'') (default_node ''/h'')], cm_merged = Some 0, cm_templates = [],
     cm_file = Some (combined_doc (Some (default_wemix ''/h'')) (Some (default_node ''/h''))), cm_updates = make_chan 10,
     cm_cancelled = False\<rparr>"

text \<open>A rule list that refuses the restart bound 101, and what the demonstrations start from.\<close>

definition demo_rules :: "rule list" where
  "demo_rules = [(ResourceValidation, resource_rule)]"

lemma demo_codec_json: "json_codec (me_codec (demo_mgr_env rules))"
  by (simp add: json_codec_def demo_mgr_env_def demo_codec_def)

lemma demo_format: "config_format (cm_path demo_mgr) = Some Fmt_json"
  by (simp add: demo_mgr_def) code_simp

lemma demo_set_restarts:
  "set_field demo_conv ''MaxRestarts'' (GInt i) c = Updated (c_process_update (cf_max_restarts_update (\<lambda>_. wrap64 i)) c)"
  by (simp add: set_field_def config_fields_def core_fields_def upgrade_fields_def process_fields_def in_group_def
      field_kinds as_int_def)

lemma demo_rules_result:
  "validate demo_rules (Some (c_process_update (cf_max_restarts_update (\<lambda>_. i)) (merge_cfg (default_wemix h) (default_node h')))) =
     (if i < 0 then Inl (Validation_failed [(ResourceValidation, Restarts_negative)])
      else if i > 100 then Inl (Validation_failed [(ResourceValidation, Restarts_too_high)]) else Inr ())"
  by (simp add: validate_def demo_rules_def resource_rule_def merge_cfg_def zero_config_def default_wemix_def default_node_def)

lemma demo_small:
  "small_wemix (split_wemix c (default_wemix h))" if "small (cf_restart_delay (c_upgrade c))" "small (cf_shutdown_grace (c_process c))"
  using that by (simp add: small_wemix_def split_wemix_def default_wemix_def small_def)

lemma stopped_manager_panics:
  assumes "manager_stop m = (m1, Inr ())" and "\<not> me_done_first env"
  shows "notify_update env ty old new m1 = None" and "snd (manager_stop m1) = Inl Manager_panics"
  using assms by (auto simp: manager_stop_def ch_close_def notify_update_def ch_send_def split: if_splits)

theorem rejected_update_stays_witness:
  "\<exists>m'. update_config (demo_mgr_env demo_rules) ''MaxRestarts'' (GInt 101) demo_mgr =
       (m', Inl (Config_rejected (Validation_failed [(ResourceValidation, Restarts_too_high)]))) \<and>
     cf_max_restarts (c_process (cm_heap m' ! 0)) = 101 \<and> get_config demo_mgr = Some 0"
proof -
  let ?c0 = "merge_cfg (default_wemix ''/h'') (default_node ''/h'')"
  let ?c = "c_process_update (cf_max_restarts_update (\<lambda>_. wrap64 101)) ?c0"
  have w: "wrap64 101 = 101" by (simp add: wrap64_def)
  have s: "set_field (me_conv (demo_mgr_env demo_rules)) ''MaxRestarts'' (GInt 101) (cm_heap demo_mgr ! 0) = Updated ?c"
    by (simp add: demo_mgr_env_def demo_mgr_def demo_set_restarts)
  have v: "validate (me_rules (demo_mgr_env demo_rules)) (Some ?c) = Inl (Validation_failed [(ResourceValidation, Restarts_too_high)])"
    by (simp add: demo_mgr_env_def demo_rules_result w)
  have m: "cm_merged demo_mgr = Some 0" "0 < length (cm_heap demo_mgr)" "cm_wemix demo_mgr = Some (default_wemix ''/h'')"
    "cm_node demo_mgr = Some (default_node ''/h'')" by (simp_all add: demo_mgr_def)
  from rejected_update_stays [OF m s v] obtain m' where
    "update_config (demo_mgr_env demo_rules) ''MaxRestarts'' (GInt 101) demo_mgr =
       (m', Inl (Config_rejected (Validation_failed [(ResourceValidation, Restarts_too_high)])))"
    "cm_heap m' ! 0 = ?c" "get_config demo_mgr = Some 0" by blast
  then show ?thesis by (intro exI [of _ m']) (simp add: w)
qed

theorem reload_keeps_split_fields_witness:
  "\<exists>m1 m2 c2. update_config (demo_mgr_env demo_rules) ''MaxRestarts'' (GInt 7) demo_mgr = (m1, Inr ()) \<and>
     handle_config_change (demo_mgr_env demo_rules) m1 = (m2, Inr ()) \<and> current_cfg m2 = Some c2 \<and>
     (\<forall>f\<in>set config_fields. fd_name f = ''MaxRestarts'' \<longrightarrow>
        fd_get f c2 = fd_get f (merge_cfg (default_wemix ''/h'') (default_node ''/h'')))"
proof -
  let ?env = "demo_mgr_env demo_rules" and ?c0 = "merge_cfg (default_wemix ''/h'') (default_node ''/h'')"
  let ?c = "c_process_update (cf_max_restarts_update (\<lambda>_. wrap64 7)) ?c0"
  have w: "wrap64 7 = 7" by (simp add: wrap64_def)
  have s: "set_field (me_conv ?env) ''MaxRestarts'' (GInt 7) (cm_heap demo_mgr ! 0) = Updated ?c"
    by (simp add: demo_mgr_env_def demo_mgr_def demo_set_restarts)
  have v: "validate (me_rules ?env) (Some ?c) = Inr ()" by (simp add: demo_mgr_env_def demo_rules_result w)
  have m: "cm_merged demo_mgr = Some 0" "0 < length (cm_heap demo_mgr)" "cm_wemix demo_mgr = Some (default_wemix ''/h'')"
    "cm_node demo_mgr = Some (default_node ''/h'')" by (simp_all add: demo_mgr_def)
  let ?n = "default_node ''/h''" and ?w = "default_wemix ''/h''"
  let ?m = "demo_mgr\<lparr>cm_heap := (cm_heap demo_mgr)[0 := ?c] @ [cm_heap demo_mgr ! 0], cm_wemix := Some (split_wemix ?c ?w),
      cm_node := Some (split_node ?c ?n)\<rparr>"
  obtain m1 where u: "update_config ?env ''MaxRestarts'' (GInt 7) demo_mgr = (m1, Inr ())"
    and op: "\<not> ch_closed (cm_updates m1)"
    using update_config_step [OF m s] v demo_format
    by (simp add: Let_def commit_def save_config_def demo_mgr_env_def demo_codec_def notify_update_def ch_send_def demo_mgr_def)
  have sm: "small_wemix (split_wemix ?c ?w)" "small_node (split_node ?c ?n)"
    by (simp_all add: small_wemix_def small_node_def split_wemix_def split_node_def merge_cfg_def zero_config_def small_def
        default_wemix_def default_node_def)
  from reload_keeps_split_fields [OF demo_codec_json demo_format m s u sm refl _ op] obtain m2 c2 where
    "handle_config_change ?env m1 = (m2, Inr ())" "current_cfg m2 = Some c2"
    "\<forall>f\<in>set config_fields. fd_name f \<in> set saved_names \<longrightarrow> fd_get f c2 = fd_get f (merge_cfg ?w ?n)"
    by (auto simp: demo_mgr_env_def)
  with u show ?thesis by (intro exI [of _ m1] exI [of _ m2] exI [of _ c2]) (simp add: saved_names_def)
qed

theorem rejected_file_takes_effect_witness:
  "\<exists>m' u. handle_config_change (demo_mgr_env [(ResourceValidation, \<lambda>_. Inl Poll_too_short)]) demo_mgr = (m', Inr ()) \<and>
     current_cfg m' = Some (merge_cfg (default_wemix ''/h'') (default_node ''/h'')) \<and> u \<in> set (ch_buf (cm_updates m')) \<and>
     up_new u = None"
proof -
  let ?env = "demo_mgr_env [(ResourceValidation, \<lambda>_. Inl Poll_too_short)]"
  let ?n = "default_node ''/h''" and ?w = "default_wemix ''/h''"
  let ?d = "combined_doc (Some ?w) (Some ?n)"
  have sm: "small_wemix ?w" "small_node ?n"
    by (simp_all add: small_wemix_def small_node_def small_def default_wemix_def default_node_def)
  have d: "cc_wemix (me_codec ?env) Fmt_json ?d (cm_wemix demo_mgr) = (Some ?w, True)"
    "cc_node (me_codec ?env) Fmt_json ?d (cm_node demo_mgr) = (Some ?n, True)"
    using unmarshal_saved [OF sm] by (simp_all add: demo_mgr_env_def demo_codec_def)
  have h: "me_readable ?env" "cm_file demo_mgr = Some ?d" "\<not> ch_closed (cm_updates demo_mgr)" "\<not> cm_cancelled demo_mgr"
    "length (ch_buf (cm_updates demo_mgr)) < ch_cap (cm_updates demo_mgr)"
    by (simp_all add: demo_mgr_env_def demo_mgr_def)
  from rejected_file_takes_effect [OF h(1,2) demo_format d h(3-5)] show ?thesis
    by (auto simp: demo_mgr_env_def validate_def)
qed


end
