(* ===== verification/Profiler.thy ===== *)
theory Profiler
  imports Paths "HOL-Library.Sublist"
begin

text \<open>
  \<open>internal/performance/profiler.go\<close>: profiles written into a directory, listed, deleted and cleaned up.
  The state is a profiler, the tree of files around it (by absolute path, without links) and whether the
  runtime records a CPU profile; what the operating system and \<open>runtime/pprof\<close> answer is an argument.
\<close>

section \<open>Files\<close>

datatype pf_node = Pf_dir | Pf_file time int

type_synonym pf_tree = "(string, pf_node) gomap"

record pf_env =
  pe_cwd :: string
  pe_stamp :: string
  pe_now :: time
  pe_ok :: "string \<Rightarrow> bool"
  pe_known :: "string \<Rightarrow> bool"
  pe_written :: "string \<Rightarrow> int option"

record pf_world =
  pw_tree :: pf_tree
  pw_recording :: bool

text \<open>\<open>filepath.Abs\<close>, and the calls of package \<open>os\<close> on a path.\<close>

definition path_abs :: "string \<Rightarrow> string \<Rightarrow> string" where
  "path_abs cwd p = (if is_abs p then path_clean p else path_join [cwd, p])"

definition os_create :: "pf_env \<Rightarrow> string \<Rightarrow> pf_tree \<Rightarrow> (string \<times> pf_tree) option" where
  "os_create env p t =
     (let a = path_abs (pe_cwd env) p in
      if pe_ok env a \<and> map_of t (path_dir a) = Some Pf_dir \<and> map_of t a \<noteq> Some Pf_dir
      then Some (a, gm_put a (Pf_file (pe_now env) 0) t) else None)"

fun mkdir_chain :: "(string \<Rightarrow> bool) \<Rightarrow> string list \<Rightarrow> pf_tree \<Rightarrow> pf_tree \<times> bool" where
  "mkdir_chain ok [] t = (t, True)"
| "mkdir_chain ok (a # as) t =
     (case map_of t a of
        Some Pf_dir \<Rightarrow> mkdir_chain ok as t
      | Some (Pf_file _ _) \<Rightarrow> (t, False)
      | None \<Rightarrow> if ok a then mkdir_chain ok as (gm_put a Pf_dir t) else (t, False))"

definition mkdir_all :: "pf_env \<Rightarrow> string \<Rightarrow> pf_tree \<Rightarrow> pf_tree \<times> bool" where
  "mkdir_all env p t =
     (if p = '''' then (t, False)
      else (let cs = path_comps (path_abs (pe_cwd env) p) in
            mkdir_chain (pe_ok env) (map (\<lambda>k. abs_path (take k cs)) [0..<Suc (length cs)]) t))"

definition dir_entries :: "string \<Rightarrow> pf_tree \<Rightarrow> (string \<times> pf_node) list" where
  "dir_entries a t =
     sort_key fst (map (\<lambda>(k, e). (path_base k, e)) (filter (\<lambda>(k, e). k \<noteq> a \<and> path_dir k = a) t))"

definition os_remove :: "pf_env \<Rightarrow> string \<Rightarrow> pf_tree \<Rightarrow> pf_tree option" where
  "os_remove env p t =
     (let a = path_abs (pe_cwd env) p in
      if p = '''' \<or> \<not> pe_ok env a then None
      else (case map_of t a of
              None \<Rightarrow> None
            | Some (Pf_file _ _) \<Rightarrow> Some (gm_del a t)
            | Some Pf_dir \<Rightarrow> if dir_entries a t = [] then Some (gm_del a t) else None))"

section \<open>The profiler\<close>

record profiler =
  pr_dir :: string
  pr_file :: "string option"
  pr_cpu :: bool
  pr_enabled :: bool

datatype pf_error =
  Profiling_disabled | Cpu_in_progress | Cpu_not_in_progress | Cpu_busy | Profile_not_created
| Profile_unknown | Profile_not_written | Profiles_failed "pf_error list" | Profile_dir_failed
| Profile_dir_unreadable | Profile_outside | Profile_not_deleted

definition new_profiler :: "string \<Rightarrow> profiler" where
  "new_profiler dir = \<lparr>pr_dir = dir, pr_file = None, pr_cpu = False, pr_enabled = True\<rparr>"

definition profiler_start :: "pf_env \<Rightarrow> profiler \<Rightarrow> pf_world \<Rightarrow> (pf_world, pf_error, unit) gores" where
  "profiler_start env p w =
     (case mkdir_all env (pr_dir p) (pw_tree w) of
        (t, ok) \<Rightarrow> (w\<lparr>pw_tree := t\<rparr>, if ok then Inr () else Inl Profile_dir_failed))"

definition profile_path :: "pf_env \<Rightarrow> string \<Rightarrow> profiler \<Rightarrow> string" where
  "profile_path env kind p = path_join [pr_dir p, kind @ ''_'' @ pe_stamp env @ ''.prof'']"

text \<open>The runtime records for one caller of the process at a time.\<close>

definition start_cpu_profile ::
  "pf_env \<Rightarrow> profiler \<times> pf_world \<Rightarrow> (profiler \<times> pf_world, pf_error, unit) gores" where
  "start_cpu_profile env = (\<lambda>(p, w).
     if pr_cpu p then ((p, w), Inl Cpu_in_progress)
     else if \<not> pr_enabled p then ((p, w), Inl Profiling_disabled)
     else (case os_create env (profile_path env ''cpu'' p) (pw_tree w) of
             None \<Rightarrow> ((p, w), Inl Profile_not_created)
           | Some (a, t) \<Rightarrow>
               if pw_recording w then ((p, w\<lparr>pw_tree := t\<rparr>), Inl Cpu_busy)
               else ((p\<lparr>pr_file := Some a, pr_cpu := True\<rparr>, \<lparr>pw_tree = t, pw_recording = True\<rparr>), Inr ())))"

text \<open>What was recorded is in the file, unless that was deleted meanwhile.\<close>

definition flush_cpu :: "pf_env \<Rightarrow> string option \<Rightarrow> pf_tree \<Rightarrow> pf_tree" where
  "flush_cpu env file t =
     (case (file, pe_written env ''cpu'') of
        (Some a, Some n) \<Rightarrow>
          (case map_of t a of Some (Pf_file _ _) \<Rightarrow> gm_put a (Pf_file (pe_now env) n) t | _ \<Rightarrow> t)
      | _ \<Rightarrow> t)"

definition stop_cpu_profile ::
  "pf_env \<Rightarrow> profiler \<times> pf_world \<Rightarrow> (profiler \<times> pf_world, pf_error, unit) gores" where
  "stop_cpu_profile env = (\<lambda>(p, w).
     if \<not> pr_cpu p then ((p, w), Inl Cpu_not_in_progress)
     else ((p\<lparr>pr_cpu := False, pr_file := None\<rparr>,
            \<lparr>pw_tree = flush_cpu env (pr_file p) (pw_tree w), pw_recording = False\<rparr>), Inr ()))"

definition profiler_stop ::
  "pf_env \<Rightarrow> profiler \<times> pf_world \<Rightarrow> (profiler \<times> pf_world, pf_error, unit) gores" where
  "profiler_stop env = (\<lambda>(p, w). if pr_cpu p then stop_cpu_profile env (p, w) else ((p, w), Inr ()))"

text \<open>The four profiles that are written at once; all but the heap are looked up by name.\<close>

definition write_profile :: "string \<Rightarrow> pf_env \<Rightarrow> profiler \<Rightarrow> pf_world \<Rightarrow> (pf_world, pf_error, unit) gores" where
  "write_profile kind env p w =
     (if \<not> pr_enabled p then (w, Inl Profiling_disabled)
      else (case os_create env (profile_path env kind p) (pw_tree w) of
              None \<Rightarrow> (w, Inl Profile_not_created)
            | Some (a, t) \<Rightarrow>
                if kind \<noteq> ''heap'' \<and> \<not> pe_known env kind then (w\<lparr>pw_tree := t\<rparr>, Inl Profile_unknown)
                else (case pe_written env kind of
                        None \<Rightarrow> (w\<lparr>pw_tree := t\<rparr>, Inl Profile_not_written)
                      | Some n \<Rightarrow> (w\<lparr>pw_tree := gm_put a (Pf_file (pe_now env) n) t\<rparr>, Inr ()))))"

definition write_heap_profile :: "pf_env \<Rightarrow> profiler \<Rightarrow> pf_world \<Rightarrow> (pf_world, pf_error, unit) gores" where
  "write_heap_profile = write_profile ''heap''"

definition write_goroutine_profile :: "pf_env \<Rightarrow> profiler \<Rightarrow> pf_world \<Rightarrow> (pf_world, pf_error, unit) gores" where
  "write_goroutine_profile = write_profile ''goroutine''"

definition write_block_profile :: "pf_env \<Rightarrow> profiler \<Rightarrow> pf_world \<Rightarrow> (pf_world, pf_error, unit) gores" where
  "write_block_profile = write_profile ''block''"

definition write_mutex_profile :: "pf_env \<Rightarrow> profiler \<Rightarrow> pf_world \<Rightarrow> (pf_world, pf_error, unit) gores" where
  "write_mutex_profile = write_profile ''mutex''"

text \<open>Every one is tried, and the errors are collected.\<close>

definition and_then ::
  "(pf_world \<Rightarrow> (pf_world, pf_error, unit) gores) \<Rightarrow> pf_world \<times> pf_error list \<Rightarrow> pf_world \<times> pf_error list" where
  "and_then f = (\<lambda>(w, errs). case f w of (w1, Inl e) \<Rightarrow> (w1, errs @ [e]) | (w1, Inr _) \<Rightarrow> (w1, errs))"

definition write_all_profiles :: "pf_env \<Rightarrow> profiler \<Rightarrow> pf_world \<Rightarrow> (pf_world, pf_error, unit) gores" where
  "write_all_profiles env p w =
     (case and_then (write_mutex_profile env p) (and_then (write_block_profile env p)
            (and_then (write_goroutine_profile env p) (and_then (write_heap_profile env p) (w, [])))) of
        (w1, errs) \<Rightarrow> (w1, if errs \<noteq> [] then Inl (Profiles_failed errs) else Inr ()))"

definition profiler_set_enabled :: "bool \<Rightarrow> profiler \<Rightarrow> profiler" where
  "profiler_set_enabled b p = p\<lparr>pr_enabled := b\<rparr>"

section \<open>Listing and deleting\<close>

record profile_info =
  pi_type :: string
  pi_filename :: string
  pi_timestamp :: time
  pi_size :: int

text \<open>The cases of the switch, each asking for a character after its mark.\<close>

definition profile_marks :: "(string \<times> string) list" where
  "profile_marks = [(''cpu_'', ''cpu''), (''heap_'', ''heap''), (''goroutine_'', ''goroutine''),
     (''block_'', ''block''), (''mutex_'', ''mutex'')]"

definition profile_type :: "string \<Rightarrow> string option" where
  "profile_type name =
     (if path_ext name \<noteq> ''.prof'' then None
      else (case find (\<lambda>(mark, _). length name > length mark \<and> take (length mark) name = mark) profile_marks of
              Some (_, ty) \<Rightarrow> Some ty | None \<Rightarrow> Some ''unknown''))"

definition profile_entry :: "string \<times> pf_node \<Rightarrow> profile_info option" where
  "profile_entry = (\<lambda>(name, e).
     case e of
       Pf_dir \<Rightarrow> None
     | Pf_file mtime n \<Rightarrow>
         map_option (\<lambda>ty. \<lparr>pi_type = ty, pi_filename = name, pi_timestamp = mtime, pi_size = n\<rparr>) (profile_type name))"

definition list_profiles :: "pf_env \<Rightarrow> profiler \<Rightarrow> pf_world \<Rightarrow> pf_error + profile_info list" where
  "list_profiles env p w =
     (let a = path_abs (pe_cwd env) (pr_dir p) in
      if pr_dir p = '''' \<or> \<not> pe_ok env a \<or> map_of (pw_tree w) a \<noteq> Some Pf_dir then Inl Profile_dir_unreadable
      else Inr (List.map_filter profile_entry (dir_entries a (pw_tree w))))"

text \<open>The guard of \<open>DeleteProfile\<close> compares the texts of the two absolute paths.\<close>

definition delete_profile :: "pf_env \<Rightarrow> string \<Rightarrow> profiler \<Rightarrow> pf_world \<Rightarrow> (pf_world, pf_error, unit) gores" where
  "delete_profile env name p w =
     (let path = path_join [pr_dir p, name] in
      if \<not> prefix (path_abs (pe_cwd env) (pr_dir p)) (path_abs (pe_cwd env) path) then (w, Inl Profile_outside)
      else (case os_remove env path (pw_tree w) of
              None \<Rightarrow> (w, Inl Profile_not_deleted)
            | Some t \<Rightarrow> (w\<lparr>pw_tree := t\<rparr>, Inr ())))"

text \<open>\<open>time.Sub\<close> stops at the ends of \<open>int64\<close>.\<close>

definition time_sub :: "time \<Rightarrow> time \<Rightarrow> duration" where
  "time_sub a b = max (- (2 ^ 63)) (min (2 ^ 63 - 1) (a - b))"

definition clean_old_profiles :: "pf_env \<Rightarrow> duration \<Rightarrow> profiler \<Rightarrow> pf_world \<Rightarrow> (pf_world, pf_error, unit) gores" where
  "clean_old_profiles env age p w =
     (case list_profiles env p w of
        Inl e \<Rightarrow> (w, Inl e)
      | Inr infos \<Rightarrow>
          (foldl (\<lambda>w i. if time_sub (pe_now env) (pi_timestamp i) > age
                        then fst (delete_profile env (pi_filename i) p w) else w) w infos, Inr ()))"

section \<open>Lemmas\<close>

text \<open>A relative path that was cleaned before it is joined: what is left of its dots is resolved then.\<close>

lemma clean_twice:
  assumes "\<forall>t\<in>set acc. t \<noteq> '''' \<and> t \<noteq> ''.''"
  shows "clean_comps True st (clean_comps False acc cs) =
    clean_comps True (rev (clean_comps True st (rev acc))) cs"
  using assms
proof (induction cs arbitrary: acc)
  case Nil
  then show ?case by simp
next
  case (Cons c cs)
  let ?Y = "\<lambda>acc. rev (clean_comps True st (rev acc))"
  have grow: "?Y (x # a) = rev (clean_comps True (?Y a) [x])" for x a
    by (simp add: clean_append)
  consider "c = '''' \<or> c = ''.''" | "c = ''..''" | "c \<noteq> ''''" "c \<noteq> ''.''" "c \<noteq> ''..''" by blast
  then show ?case
  proof cases
    case 1
    with Cons show ?thesis by auto
  next
    case 2
    show ?thesis
    proof (cases "\<exists>t ts. acc = t # ts \<and> t \<noteq> ''..''")
      case True
      then obtain t ts where a: "acc = t # ts" "t \<noteq> ''..''" by blast
      with Cons.prems have t: "t \<noteq> ''''" "t \<noteq> ''.''" "\<forall>u\<in>set ts. u \<noteq> '''' \<and> u \<noteq> ''.''" by auto
      have "?Y acc = t # ?Y ts" using a t grow [of t ts] by simp
      with 2 a Cons.IH [OF t(3)] show ?thesis by simp
    next
      case False
      then have "clean_comps False acc (c # cs) = clean_comps False (''..'' # acc) cs"
        using 2 by (cases acc) auto
      with Cons.IH [of "''..'' # acc"] Cons.prems 2 show ?thesis
        by (simp add: grow flip: clean_append) (simp add: clean_append)
    qed
  next
    case 3
    then have "?Y (c # acc) = c # ?Y acc" using grow [of c acc] by simp
    with Cons.IH [of "c # acc"] Cons.prems 3 show ?thesis by simp
  qed
qed

lemma comps_free: "c \<in> set (path_comps p) \<Longrightarrow> slash \<notin> set c"
proof -
  have "c \<in> set (clean_comps r st cs) \<Longrightarrow> \<forall>s\<in>set (st @ cs). slash \<notin> set s \<Longrightarrow> slash \<notin> set c" for r st cs
    by (induction r st cs rule: clean_comps.induct) (auto split: if_splits list.splits)
  from this [of "is_abs p" "[]" "split_slash p"] split_slash_free
  show "c \<in> set (path_comps p) \<Longrightarrow> slash \<notin> set c" by (auto simp: path_comps_def)
qed

text \<open>An absolute path is the clean one of its components.\<close>

lemma clean_abs: "is_abs p \<Longrightarrow> path_clean p = abs_path (path_comps p)"
  by (simp add: path_clean_def abs_path_def)

lemma abs_is_canonical:
  assumes "is_abs cwd"
  shows "\<exists>ds. (\<forall>d\<in>set ds. plain d) \<and> path_abs cwd p = abs_path ds"
proof (cases "is_abs p")
  case True
  then have "path_abs cwd p = abs_path (path_comps p)" by (simp add: path_abs_def clean_abs)
  with path_comps_plain [OF True] show ?thesis by blast
next
  case False
  let ?es = "if p = '''' then [] else [p]"
  let ?ds = "clean_comps True (rev (path_comps cwd)) (concat (map split_slash ?es))"
  have "path_join [cwd, p] = path_join (cwd # ?es)" by (simp add: path_join_def)
  also have "\<dots> = abs_path ?ds"
    by (rule join_abs) (use assms in auto)
  finally have "path_abs cwd p = abs_path ?ds" using False by (simp add: path_abs_def)
  moreover have "\<forall>s\<in>set ?ds. plain s"
    by (rule clean_all_plain) (use path_comps_plain [OF assms] split_slash_free in auto)
  ultimately show ?thesis by blast
qed

text \<open>Joining below a directory, absolute or not.\<close>

lemma abs_join:
  assumes "is_abs cwd" and "d \<noteq> ''''" and "f \<noteq> ''''"
    and "path_abs cwd d = abs_path ds" and "\<forall>c\<in>set ds. plain c"
  shows "path_abs cwd (path_join [d, f]) = abs_path (clean_comps True (rev ds) (split_slash f))"
proof (cases "is_abs d")
  case True
  then have "ds = path_comps d"
    using assms(4,5) path_comps_plain [OF True] by (simp add: path_abs_def clean_abs abs_path_inject)
  moreover have j: "path_join [d, f] = abs_path (clean_comps True (rev (path_comps d)) (split_slash f))"
    using join_abs [OF True, of "[f]"] assms(3) by simp
  moreover have "\<forall>s\<in>set (clean_comps True (rev (path_comps d)) (split_slash f)). plain s"
    using path_comps_plain [OF True] split_slash_free by (intro clean_all_plain) auto
  ultimately show ?thesis by (simp add: path_abs_def clean_abs comps_abs_path)
next
  case False
  let ?c = "clean_comps False [] (split_slash d @ split_slash f)"
  let ?P = "path_comps cwd"
  have rel: "\<not> is_abs (d @ slash # f)" using False assms(2) by (cases d) (auto simp: is_abs_def)
  have pj: "path_join [d, f] = (if ?c = [] then ''.'' else join_slash ?c)"
    using assms(2,3) rel by (simp add: path_join_def path_clean_def path_comps_def split_slash_append)
  have cfree: "\<forall>s\<in>set ?c. slash \<notin> set s \<and> s \<noteq> ''''"
  proof -
    have "s \<noteq> ''''" if "s \<in> set ?c" for s using clean_comps_nonempty [of "[]" s] that by auto
    then show ?thesis
      using comps_free [of _ "d @ slash # f"] rel by (auto simp: path_comps_def split_slash_append)
  qed
  have relj: "\<not> is_abs (path_join [d, f])" "path_join [d, f] \<noteq> ''''"
  proof -
    have "is_abs (join_slash (x # xs)) \<longleftrightarrow> is_abs x" if "x \<noteq> ''''" for x xs
      using that by (cases xs; cases x) (auto simp: is_abs_def)
    moreover have "\<not> is_abs x" if "slash \<notin> set x" for x using that by (cases x) (auto simp: is_abs_def)
    ultimately show "\<not> is_abs (path_join [d, f])" using cfree by (cases ?c) (auto simp: pj is_abs_def)
    show "path_join [d, f] \<noteq> ''''" using assms(2) path_join_nonempty [of d "[d, f]"] by simp
  qed
  have split: "clean_comps True st (split_slash (path_join [d, f])) = clean_comps True st ?c" for st
    using cfree by (cases "?c = []") (simp_all add: pj split_join)
  have "path_abs cwd (path_join [d, f]) = abs_path (clean_comps True (rev ?P) (split_slash (path_join [d, f])))"
    using join_abs [OF assms(1), of "[path_join [d, f]]"] relj by (simp add: path_abs_def)
  also have "\<dots> = abs_path (clean_comps True (rev ?P) (split_slash d @ split_slash f))"
    using clean_twice [of "[]" "rev ?P"] by (simp add: split)
  also have "clean_comps True (rev ?P) (split_slash d) = ds"
  proof -
    have "path_abs cwd d = abs_path (clean_comps True (rev ?P) (split_slash d))"
      using join_abs [OF assms(1), of "[d]"] assms(2) False by (simp add: path_abs_def)
    moreover have "\<forall>s\<in>set (clean_comps True (rev ?P) (split_slash d)). plain s"
      using path_comps_plain [OF assms(1)] split_slash_free by (intro clean_all_plain) auto
    ultimately show ?thesis using assms(4,5) by (simp add: abs_path_inject)
  qed
  then have "clean_comps True (rev ?P) (split_slash d @ split_slash f) = clean_comps True (rev ds) (split_slash f)"
    by (simp add: clean_append)
  finally show ?thesis .
qed

lemma abs_path_snoc: "abs_path (ds @ [e]) = (if ds = [] then slash # e else abs_path ds @ slash # e)"
  by (simp add: abs_path_def join_slash_snoc)

lemma prefix_child: "prefix (abs_path ds) (abs_path (ds @ [e]))"
  by (simp add: abs_path_snoc) (simp add: abs_path_def)

lemma base_abs: "plain e \<Longrightarrow> path_base (abs_path (ds @ [e])) = e"
proof -
  assume e: "plain e"
  then have ne: "e \<noteq> ''''" and nsl: "\<forall>c\<in>set e. c \<noteq> slash" by (auto simp: plain_def)
  obtain pre where k: "abs_path (ds @ [e]) = pre @ slash # e" by (metis abs_path_snoc append_Nil)
  from ne obtain x xs where r: "rev e = x # xs" by (cases "rev e") auto
  then have "x \<in> set e" by (metis list.set_intros(1) set_rev)
  with nsl have "x \<noteq> slash" by blast
  with r have "dropWhile (\<lambda>c. c = slash) (rev e @ slash # rev pre) = rev e @ slash # rev pre" by simp
  moreover have "takeWhile (\<lambda>c. c \<noteq> slash) (rev e @ slash # rev pre) = rev e"
    using nsl by (subst takeWhile_append2) auto
  ultimately have "rev (takeWhile (\<lambda>c. c \<noteq> slash) (dropWhile (\<lambda>c. c = slash) (rev (pre @ slash # e)))) = e"
    by simp
  moreover have "dropWhile (\<lambda>c. c = slash) (rev (pre @ slash # e)) \<noteq> []"
    using r \<open>x \<noteq> slash\<close> by simp
  ultimately show ?thesis unfolding path_base_def k Let_def by auto
qed

lemma prefix_name:
  assumes "slash \<notin> set d"
  shows "prefix d (e @ slash # f) \<longleftrightarrow> prefix d e"
proof -
  have "us = []" if "d = e @ us" "prefix us (slash # f)" for us using that assms by (cases us) auto
  then show ?thesis by (auto simp: prefix_append)
qed

text \<open>A profiler whose directory has these components.\<close>

definition dir_at :: "pf_env \<Rightarrow> profiler \<Rightarrow> string list \<Rightarrow> bool" where
  "dir_at env p ds \<longleftrightarrow> is_abs (pe_cwd env) \<and> pr_dir p \<noteq> '''' \<and>
     path_abs (pe_cwd env) (pr_dir p) = abs_path ds \<and> list_all plain ds"

lemma dir_path:
  assumes "dir_at env p ds" and "f \<noteq> ''''"
  shows "path_abs (pe_cwd env) (path_join [pr_dir p, f]) = abs_path (clean_comps True (rev ds) (split_slash f))"
    and "path_join [pr_dir p, f] \<noteq> ''''"
  using assms abs_join [of "pe_cwd env" "pr_dir p" f ds] path_join_nonempty [of f "[pr_dir p, f]"]
  by (auto simp: dir_at_def list_all_iff)

lemma delete_child:
  assumes "dir_at env p ds" and "plain f" and "map_of (pw_tree w) (abs_path (ds @ [f])) \<noteq> Some Pf_dir"
  shows "fst (delete_profile env f p w) =
    (if pe_ok env (abs_path (ds @ [f])) \<and> map_of (pw_tree w) (abs_path (ds @ [f])) \<noteq> None
     then w\<lparr>pw_tree := gm_del (abs_path (ds @ [f])) (pw_tree w)\<rparr> else w)"
proof -
  have f: "f \<noteq> ''''" "split_slash f = [f]" using assms(2) by (simp_all add: plain_def split_no_slash)
  have "path_abs (pe_cwd env) (path_join [pr_dir p, f]) = abs_path (ds @ [f])"
    using dir_path(1) [OF assms(1) f(1)] f(2) assms(2) clean_plain [of "[f]" True "rev ds"]
    by (simp del: clean_comps.simps)
  moreover have "path_abs (pe_cwd env) (pr_dir p) = abs_path ds" using assms(1) by (simp add: dir_at_def)
  ultimately show ?thesis
    using dir_path(2) [OF assms(1) f(1)] assms(3) prefix_child [of ds f]
    by (auto simp: delete_profile_def os_remove_def Let_def split: option.splits pf_node.splits)
qed

section \<open>Properties\<close>

text \<open>
  The guard of \<open>DeleteProfile\<close> looks at text, not at components: a name that goes up and into a directory
  beside the profile directory is refused exactly when the name of that directory does not start with the
  name of the profile directory; otherwise the file there is deleted.
\<close>

theorem delete_reaches_siblings:
  assumes "dir_at env p (ds @ [d])" and "plain e" and "plain f"
    and "map_of (pw_tree w) (abs_path (ds @ [e, f])) = Some (Pf_file t n)"
    and "pe_ok env (abs_path (ds @ [e, f]))"
  shows "delete_profile env (''../'' @ e @ slash # f) p w =
    (if prefix d e then (w\<lparr>pw_tree := gm_del (abs_path (ds @ [e, f])) (pw_tree w)\<rparr>, Inr ())
     else (w, Inl Profile_outside))"
proof -
  let ?name = "''../'' @ e @ slash # f"
  have pl: "\<forall>c\<in>set ds. plain c" "plain d" using assms(1) by (auto simp: dir_at_def list_all_iff)
  have "split_slash ?name = [''..'', e, f]"
    using split_slash_append [of "''..''" "e @ slash # f"] assms(2,3)
    by (simp add: split_slash_append split_no_slash plain_def)
  then have "clean_comps True (rev (ds @ [d])) (split_slash ?name) = ds @ [e, f]"
    using assms(2,3) pl(2) clean_plain [of "[e, f]" True "rev ds"] by (simp add: plain_def)
  then have a: "path_abs (pe_cwd env) (path_join [pr_dir p, ?name]) = abs_path (ds @ [e, f])"
    and j: "path_join [pr_dir p, ?name] \<noteq> ''''"
    using dir_path [OF assms(1), of ?name] by simp_all
  have "abs_path (ds @ [e, f]) = abs_path (ds @ [e]) @ slash # f"
    using abs_path_snoc [of "ds @ [e]" f] by simp
  then have "prefix (abs_path (ds @ [d])) (abs_path (ds @ [e, f])) \<longleftrightarrow> prefix d (e @ slash # f)"
    by (simp add: abs_path_snoc)
  also have "\<dots> \<longleftrightarrow> prefix d e" using pl(2) by (intro prefix_name) (simp add: plain_def)
  finally show ?thesis
    using a j assms(1,4,5) by (simp add: delete_profile_def os_remove_def dir_at_def)
qed

text \<open>Every path of the tree is written in its clean form.\<close>

definition clean_tree :: "pf_tree \<Rightarrow> bool" where
  "clean_tree t \<longleftrightarrow> gm_ok t \<and> list_all (\<lambda>(k, _). is_abs k \<and> path_clean k = k) t"

lemma tree_key:
  assumes "clean_tree t" and "(k, e) \<in> set t"
  shows "k = abs_path (path_comps k)" and "\<forall>c\<in>set (path_comps k). plain c"
  using assms path_comps_plain [of k] by (auto simp: clean_tree_def list_all_iff clean_abs)

text \<open>What is listed are the profile files of the directory.\<close>

lemma listed:
  assumes "clean_tree t" and "\<forall>c\<in>set ds. plain c"
  shows "i \<in> set (List.map_filter profile_entry (dir_entries (abs_path ds) t)) \<longleftrightarrow>
    (\<exists>f e. plain f \<and> (abs_path (ds @ [f]), e) \<in> set t \<and> profile_entry (f, e) = Some i)"
proof -
  have "k \<noteq> abs_path ds \<and> path_dir k = abs_path ds \<longleftrightarrow> (\<exists>f. plain f \<and> k = abs_path (ds @ [f]))"
    if "(k, e) \<in> set t" for k e
  proof (cases "path_comps k" rule: rev_cases)
    case Nil
    with tree_key [OF assms(1) that] have k: "k = abs_path []" by simp
    have "path_dir k = abs_path []" unfolding k by (simp add: path_dir_def path_clean_def path_comps_def abs_path_def)
    moreover have "k \<noteq> abs_path (ds @ [f])" if "plain f" for f
      unfolding k using abs_path_inject [of "[]" "ds @ [f]"] assms(2) that by auto
    ultimately show ?thesis using k by auto
  next
    case (snoc cs f)
    with tree_key [OF assms(1) that] have k: "k = abs_path (cs @ [f])" "\<forall>c\<in>set cs. plain c" "plain f" by auto
    then have "path_dir k = abs_path cs" by (simp add: dir_abs)
    moreover have "k \<noteq> abs_path cs" using k by (simp add: abs_path_inject)
    moreover have "abs_path (cs @ [f]) = abs_path (ds @ [g]) \<longleftrightarrow> cs = ds \<and> f = g" if "plain g" for g
      using k(2,3) assms(2) that by (subst abs_path_inject) auto
    ultimately show ?thesis using k assms(2) by (auto simp: abs_path_inject)
  qed
  then show ?thesis
    using base_abs [of _ ds] by (fastforce simp: dir_entries_def map_filter_def image_iff)
qed

lemma deleted_children:
  fixes old :: "profile_info \<Rightarrow> bool"
  assumes "dir_at env p ds"
    and "\<forall>i\<in>set infos. plain (pi_filename i) \<and> map_of (pw_tree w) (abs_path (ds @ [pi_filename i])) \<noteq> Some Pf_dir"
  defines "del \<equiv> \<lambda>w i. if old i then fst (delete_profile env (pi_filename i) p w) else w"
  shows "pw_recording (foldl del w infos) = pw_recording w \<and>
    map_of (pw_tree (foldl del w infos)) k =
      (if \<exists>i\<in>set infos. old i \<and> k = abs_path (ds @ [pi_filename i]) \<and> pe_ok env k
       then None else map_of (pw_tree w) k)"
  using assms(2)
proof (induction infos arbitrary: w)
  case Nil
  then show ?case by simp
next
  case (Cons i infos)
  let ?k = "abs_path (ds @ [pi_filename i])"
  have d: "del w i = (if old i \<and> pe_ok env ?k \<and> map_of (pw_tree w) ?k \<noteq> None
      then w\<lparr>pw_tree := gm_del ?k (pw_tree w)\<rparr> else w)"
    using delete_child [OF assms(1), of "pi_filename i" w] Cons.prems by (auto simp: del_def)
  have "\<forall>j\<in>set infos. plain (pi_filename j) \<and> map_of (pw_tree (del w i)) (abs_path (ds @ [pi_filename j])) \<noteq> Some Pf_dir"
    using Cons.prems by (simp add: d)
  from Cons.IH [OF this] show ?case by (auto simp: d)
qed

text \<open>
  Cleaning up deletes exactly the old profiles: of a directory that can be read, the entries with the
  extension \<open>.prof\<close> that are files, older than the bound and deletable are gone, and everything else in
  the tree of files is as it was.
\<close>

theorem clean_up_deletes_old:
  assumes "dir_at env p ds" and "clean_tree (pw_tree w)"
    and "map_of (pw_tree w) (abs_path ds) = Some Pf_dir" and "pe_ok env (abs_path ds)"
  shows "\<exists>w'. clean_old_profiles env age p w = (w', Inr ()) \<and> pw_recording w' = pw_recording w \<and>
    (\<forall>k. map_of (pw_tree w') k =
      (if \<exists>f t n. plain f \<and> k = abs_path (ds @ [f]) \<and> path_ext f = ''.prof'' \<and> pe_ok env k \<and>
            map_of (pw_tree w) k = Some (Pf_file t n) \<and> time_sub (pe_now env) t > age
       then None else map_of (pw_tree w) k))"
proof -
  let ?infos = "List.map_filter profile_entry (dir_entries (abs_path ds) (pw_tree w))"
  let ?old = "\<lambda>i. time_sub (pe_now env) (pi_timestamp i) > age"
  have ds: "\<forall>c\<in>set ds. plain c" and ok: "gm_ok (pw_tree w)"
    using assms(1,2) by (auto simp: dir_at_def list_all_iff clean_tree_def)
  have entry: "profile_entry (f, e) = Some i \<longleftrightarrow> path_ext f = ''.prof'' \<and> pi_filename i = f \<and>
      e = Pf_file (pi_timestamp i) (pi_size i) \<and> profile_type f = Some (pi_type i)" for f e i
    by (cases e; cases i) (auto simp: profile_entry_def profile_type_def)
  have info: "i \<in> set ?infos \<longleftrightarrow> plain (pi_filename i) \<and> path_ext (pi_filename i) = ''.prof'' \<and>
      map_of (pw_tree w) (abs_path (ds @ [pi_filename i])) = Some (Pf_file (pi_timestamp i) (pi_size i)) \<and>
      profile_type (pi_filename i) = Some (pi_type i)" for i
    using listed [OF assms(2) ds, of i] ok by (auto simp: entry)
  have "list_profiles env p w = Inr ?infos"
    using assms(1,3,4) by (simp add: list_profiles_def dir_at_def)
  then have c: "clean_old_profiles env age p w =
      (foldl (\<lambda>w i. if ?old i then fst (delete_profile env (pi_filename i) p w) else w) w ?infos, Inr ())"
    by (simp add: clean_old_profiles_def)
  have typed: "\<exists>ty. profile_type f = Some ty" if "path_ext f = ''.prof''" for f
    using that by (auto simp: profile_type_def split: option.splits)
  have "(\<exists>i\<in>set ?infos. ?old i \<and> k = abs_path (ds @ [pi_filename i]) \<and> pe_ok env k) \<longleftrightarrow>
      (\<exists>f t n. plain f \<and> k = abs_path (ds @ [f]) \<and> path_ext f = ''.prof'' \<and> pe_ok env k \<and>
            map_of (pw_tree w) k = Some (Pf_file t n) \<and> time_sub (pe_now env) t > age)" (is "?l = ?r") for k
  proof
    assume ?l
    then show ?r by (auto simp: info)
  next
    assume ?r
    then obtain f t n where r: "plain f" "k = abs_path (ds @ [f])" "path_ext f = ''.prof''" "pe_ok env k"
      "map_of (pw_tree w) k = Some (Pf_file t n)" "time_sub (pe_now env) t > age" by blast
    obtain ty where "profile_type f = Some ty" using typed [OF r(3)] ..
    with r show ?l
      by (intro bexI [of _ "\<lparr>pi_type = ty, pi_filename = f, pi_timestamp = t, pi_size = n\<rparr>"]) (simp_all add: info)
  qed
  then show ?thesis
    using deleted_children [OF assms(1), of ?infos w ?old] by (auto simp: c info)
qed

definition demo_pf_env :: pf_env where
  "demo_pf_env = \<lparr>pe_cwd = ''/srv'', pe_stamp = ''20240101_000000'', pe_now = 1000, pe_ok = (\<lambda>_. True),
     pe_known = (\<lambda>_. True), pe_written = (\<lambda>_. Some 10)\<rparr>"

definition demo_pf_world :: pf_world where
  "demo_pf_world = \<lparr>pw_tree = [(''/'', Pf_dir), (''/srv'', Pf_dir), (''/srv/profiles'', Pf_dir),
       (''/srv/profiles/heap_1.prof'', Pf_file 10 5), (''/srv/profiles/cpu_2.prof'', Pf_file 990 5),
       (''/srv/profiles/notes.txt'', Pf_file 10 5), (''/srv/profiles-old'', Pf_dir),
       (''/srv/profiles-old/x'', Pf_file 10 5)],
     pw_recording = False\<rparr>"

lemma demo_dir: "dir_at demo_pf_env (new_profiler ''./profiles'') ([''srv''] @ [''profiles''])"
  unfolding dir_at_def demo_pf_env_def new_profiler_def plain_def by code_simp

theorem delete_reaches_siblings_witness:
  "delete_profile demo_pf_env ''../profiles-old/x'' (new_profiler ''./profiles'') demo_pf_world =
     (demo_pf_world\<lparr>pw_tree := gm_del ''/srv/profiles-old/x'' (pw_tree demo_pf_world)\<rparr>, Inr ())"
  using delete_reaches_siblings [OF demo_dir, of "''profiles-old''" "''x''" demo_pf_world 10 5]
  by (simp add: demo_pf_env_def demo_pf_world_def plain_def abs_path_def)

theorem clean_up_deletes_old_witness:
  "\<exists>w'. clean_old_profiles demo_pf_env 100 (new_profiler ''./profiles'') demo_pf_world = (w', Inr ()) \<and>
    map_of (pw_tree w') ''/srv/profiles/heap_1.prof'' = None \<and>
    map_of (pw_tree w') ''/srv/profiles-old/x'' \<noteq> None"
proof -
  have t: "clean_tree (pw_tree demo_pf_world)" by code_simp
  have old: "plain ''heap_1.prof'' \<and> path_ext ''heap_1.prof'' = ''.prof'' \<and> time_sub 1000 10 > 100"
    unfolding plain_def by code_simp
  obtain w' where "clean_old_profiles demo_pf_env 100 (new_profiler ''./profiles'') demo_pf_world = (w', Inr ())"
    and "\<forall>k. map_of (pw_tree w') k =
      (if \<exists>f t n. plain f \<and> k = abs_path (([''srv''] @ [''profiles'']) @ [f]) \<and> path_ext f = ''.prof'' \<and> pe_ok demo_pf_env k \<and>
            map_of (pw_tree demo_pf_world) k = Some (Pf_file t n) \<and> time_sub (pe_now demo_pf_env) t > 100
       then None else map_of (pw_tree demo_pf_world) k)"
    using clean_up_deletes_old [OF demo_dir t, of 100] by (auto simp: demo_pf_env_def demo_pf_world_def abs_path_def)
  with old show ?thesis
    by (auto simp: demo_pf_env_def demo_pf_world_def abs_path_def)
qed

end
