(* ===== verification/Optimizer.thy ===== *)
theory Optimizer
  imports Profiler LruCache ConnPool WorkerPool
begin

text \<open>
  \<open>internal/performance/optimizer.go\<close>: the object that starts and stops the cache, the two pools, the
  garbage collector's tuning and the profiling, with its loop and the loops of its profile collectors. The
  runtime's garbage collection percentage and the files of the profiler are part of the state. Profilers
  and collectors are shared by pointer, so they are kept in lists and named by their position; those of an
  earlier start stay there.
\<close>

record optimizer_cfg =
  oc_caching :: bool
  oc_cache_size :: int
  oc_cache_ttl :: duration
  oc_pooling :: bool
  oc_max_conns :: int
  oc_max_workers :: int
  oc_gc_tuning :: bool
  oc_gc_percent :: int
  oc_profiling :: bool
  oc_interval :: duration
  oc_dir :: string

text \<open>A collector with its profiler; its loop runs until its channel is closed.\<close>

record collector =
  co_interval :: duration
  co_profiler :: "nat option"
  co_stopped :: bool

text \<open>The optimization loop waits on the context it read last, or is at work.\<close>

datatype opt_loop = Loop_waits nat | Loop_works

record 'v optimizer =
  op_cfg :: optimizer_cfg
  op_cache :: "'v cache option"
  op_conns :: "cpool option"
  op_workers :: "wpool option"
  op_tuner :: "int option"
  op_collector :: "nat option"
  op_profiler :: "nat option"
  op_ctx :: "nat option"
  op_cancelled :: "nat list"
  op_loops :: "opt_loop list"
  op_collectors :: "collector list"
  op_profilers :: "profiler list"
  op_gc :: int
  op_world :: pf_world

datatype opt_result = Opt_ok | Opt_failed pf_error | Opt_panics | Opt_waits

definition new_optimizer :: "optimizer_cfg \<Rightarrow> int \<Rightarrow> pf_world \<Rightarrow> 'v optimizer" where
  "new_optimizer c gc w = \<lparr>op_cfg = c, op_cache = None, op_conns = None, op_workers = None, op_tuner = None,
     op_collector = None, op_profiler = None, op_ctx = None, op_cancelled = [], op_loops = [],
     op_collectors = [], op_profilers = [], op_gc = gc, op_world = w\<rparr>"

text \<open>The parts of \<open>Start\<close> and \<open>Stop\<close> one after the other, until one does not return.\<close>

definition opt_then ::
  "('v optimizer \<Rightarrow> 'v optimizer \<times> opt_result) \<Rightarrow> ('v optimizer \<Rightarrow> 'v optimizer \<times> opt_result) \<Rightarrow>
     'v optimizer \<Rightarrow> 'v optimizer \<times> opt_result" where
  "opt_then f g o0 = (case f o0 of (o1, Opt_ok) \<Rightarrow> g o1 | r \<Rightarrow> r)"

section \<open>Start\<close>

definition new_context :: "'v optimizer \<Rightarrow> 'v optimizer \<times> opt_result" where
  "new_context o0 = (o0\<lparr>op_ctx := Some (case op_ctx o0 of None \<Rightarrow> 0 | Some n \<Rightarrow> Suc n)\<rparr>, Opt_ok)"

definition start_cache :: "'v optimizer \<Rightarrow> 'v optimizer \<times> opt_result" where
  "start_cache o0 =
     (let c = op_cfg o0 in
      if oc_caching c then (o0\<lparr>op_cache := Some (new_cache (oc_cache_size c) (oc_cache_ttl c))\<rparr>, Opt_ok)
      else (o0, Opt_ok))"

text \<open>A channel of a negative capacity cannot be made; the factory is set, so the pool starts.\<close>

definition start_pools :: "'v optimizer \<Rightarrow> 'v optimizer \<times> opt_result" where
  "start_pools o0 =
     (let c = op_cfg o0 in
      if \<not> oc_pooling c then (o0, Opt_ok)
      else if oc_max_conns c < 0 then (o0, Opt_panics)
      else (let o1 = o0\<lparr>op_conns := Some ((new_conn_pool (nat (oc_max_conns c)))\<lparr>cp_factory := True\<rparr>)\<rparr> in
            if oc_max_workers c < 0 then (o1, Opt_panics)
            else (case pool_start (new_worker_pool (nat (oc_max_workers c))) of
                    Next s _ \<Rightarrow> (o1\<lparr>op_workers := Some s\<rparr>, Opt_ok)
                  | Panics \<Rightarrow> (o1, Opt_panics) | Blocked \<Rightarrow> (o1, Opt_waits))))"

definition tuner_start :: "int \<Rightarrow> 'v optimizer \<Rightarrow> 'v optimizer" where
  "tuner_start percent o0 = o0\<lparr>op_gc := percent\<rparr>"

definition tuner_stop :: "'v optimizer \<Rightarrow> 'v optimizer" where
  "tuner_stop o0 = o0\<lparr>op_gc := 100\<rparr>"

definition start_tuner :: "'v optimizer \<Rightarrow> 'v optimizer \<times> opt_result" where
  "start_tuner o0 =
     (let c = op_cfg o0 in
      if oc_gc_tuning c then (tuner_start (oc_gc_percent c) (o0\<lparr>op_tuner := Some (oc_gc_percent c)\<rparr>), Opt_ok)
      else (o0, Opt_ok))"

definition new_collector :: "duration \<Rightarrow> collector" where
  "new_collector d = \<lparr>co_interval = d, co_profiler = None, co_stopped = False\<rparr>"

text \<open>The profiler is stored before it starts; a ticker of no positive interval panics in the collector's loop.\<close>

definition start_profiling :: "pf_env \<Rightarrow> 'v optimizer \<Rightarrow> 'v optimizer \<times> opt_result" where
  "start_profiling env o0 =
     (let c = op_cfg o0 in
      if \<not> oc_profiling c then (o0, Opt_ok)
      else
        let p = new_profiler (if oc_dir c = '''' then ''./profiles'' else oc_dir c);
            n = length (op_profilers o0);
            o1 = o0\<lparr>op_profilers := op_profilers o0 @ [p], op_profiler := Some n\<rparr> in
        (case profiler_start env p (op_world o1) of
           (w, Inl e) \<Rightarrow> (o1\<lparr>op_world := w\<rparr>, Opt_failed e)
         | (w, Inr _) \<Rightarrow>
             let k = length (op_collectors o1);
                 o2 = o1\<lparr>op_world := w, op_collector := Some k,
                         op_collectors := op_collectors o1 @ [(new_collector (oc_interval c))\<lparr>co_profiler := Some n\<rparr>]\<rparr> in
             (o2, if oc_interval c > 0 then Opt_ok else Opt_panics)))"

definition start_loop :: "'v optimizer \<Rightarrow> 'v optimizer \<times> opt_result" where
  "start_loop o0 =
     (case op_ctx o0 of
        None \<Rightarrow> (o0, Opt_panics) | Some n \<Rightarrow> (o0\<lparr>op_loops := op_loops o0 @ [Loop_waits n]\<rparr>, Opt_ok))"

definition optimizer_start :: "pf_env \<Rightarrow> 'v optimizer \<Rightarrow> 'v optimizer \<times> opt_result" where
  "optimizer_start env =
     opt_then new_context (opt_then start_cache (opt_then start_pools (opt_then start_tuner
       (opt_then (start_profiling env) start_loop))))"

section \<open>Stop\<close>

definition cancel_context :: "'v optimizer \<Rightarrow> 'v optimizer \<times> opt_result" where
  "cancel_context o0 =
     (case op_ctx o0 of None \<Rightarrow> (o0, Opt_ok) | Some n \<Rightarrow> (o0\<lparr>op_cancelled := n # op_cancelled o0\<rparr>, Opt_ok))"

definition stop_cache :: "'v optimizer \<Rightarrow> 'v optimizer \<times> opt_result" where
  "stop_cache o0 =
     (case op_cache o0 of
        None \<Rightarrow> (o0, Opt_ok)
      | Some c \<Rightarrow> (case cache_stop c of None \<Rightarrow> (o0, Opt_panics) | Some c1 \<Rightarrow> (o0\<lparr>op_cache := Some c1\<rparr>, Opt_ok)))"

definition stop_conns :: "'v optimizer \<Rightarrow> 'v optimizer \<times> opt_result" where
  "stop_conns o0 = (o0\<lparr>op_conns := map_option conn_pool_stop (op_conns o0)\<rparr>, Opt_ok)"

text \<open>The pool's \<open>Stop\<close> waits for the workers: what they do meanwhile is an argument.\<close>

definition stop_workers :: "wp_event list \<Rightarrow> 'v optimizer \<Rightarrow> 'v optimizer \<times> opt_result" where
  "stop_workers es o0 =
     (case op_workers o0 of
        None \<Rightarrow> (o0, Opt_ok)
      | Some s \<Rightarrow>
          if \<not> wp_stopping s \<and> \<not> wp_started s then (o0, Opt_ok)
          else (case wp_run (Stop_call # es @ [Stop_done]) s of
                  Next s1 _ \<Rightarrow> (o0\<lparr>op_workers := Some s1\<rparr>, Opt_ok)
                | Panics \<Rightarrow> (o0, Opt_panics) | Blocked \<Rightarrow> (o0, Opt_waits)))"

definition stop_tuner :: "'v optimizer \<Rightarrow> 'v optimizer \<times> opt_result" where
  "stop_tuner o0 = (case op_tuner o0 of None \<Rightarrow> (o0, Opt_ok) | Some _ \<Rightarrow> (tuner_stop o0, Opt_ok))"

definition stop_collector :: "'v optimizer \<Rightarrow> 'v optimizer \<times> opt_result" where
  "stop_collector o0 =
     (case op_collector o0 of
        None \<Rightarrow> (o0, Opt_ok)
      | Some k \<Rightarrow>
          if co_stopped (op_collectors o0 ! k) then (o0, Opt_panics)
          else (o0\<lparr>op_collectors := (op_collectors o0)[k := (op_collectors o0 ! k)\<lparr>co_stopped := True\<rparr>]\<rparr>, Opt_ok))"

definition stop_profiler :: "pf_env \<Rightarrow> 'v optimizer \<Rightarrow> 'v optimizer \<times> opt_result" where
  "stop_profiler env o0 =
     (case op_profiler o0 of
        None \<Rightarrow> (o0, Opt_ok)
      | Some n \<Rightarrow>
          (case profiler_stop env (op_profilers o0 ! n, op_world o0) of
             ((p, w), _) \<Rightarrow> (o0\<lparr>op_profilers := (op_profilers o0)[n := p], op_world := w\<rparr>, Opt_ok)))"

definition optimizer_stop :: "pf_env \<Rightarrow> wp_event list \<Rightarrow> 'v optimizer \<Rightarrow> 'v optimizer \<times> opt_result" where
  "optimizer_stop env es =
     opt_then cancel_context (opt_then stop_cache (opt_then stop_conns (opt_then (stop_workers es)
       (opt_then stop_tuner (opt_then stop_collector (stop_profiler env))))))"

section \<open>The loops\<close>

text \<open>Freeing memory and counting goroutines change nothing that is modelled.\<close>

definition optimize_memory :: "int \<Rightarrow> bool" where
  "optimize_memory alloc \<longleftrightarrow> alloc > 500 * 1024 * 1024"

definition perform_optimizations :: "time \<Rightarrow> 'v optimizer \<Rightarrow> 'v optimizer" where
  "perform_optimizations now o0 =
     o0\<lparr>op_cache := map_option (\<lambda>c. fst (cache_optimize now c)) (op_cache o0),
        op_conns := map_option (\<lambda>p. fst (pool_optimize now p)) (op_conns o0)\<rparr>"

text \<open>
  The collector of a number: it writes all profiles, and only when that worked it removes those older than
  seven days.
\<close>

definition collect_profiles :: "pf_env \<Rightarrow> nat \<Rightarrow> 'v optimizer \<Rightarrow> 'v optimizer" where
  "collect_profiles env k o0 =
     (case co_profiler (op_collectors o0 ! k) of
        None \<Rightarrow> o0
      | Some n \<Rightarrow>
          (case write_all_profiles env (op_profilers o0 ! n) (op_world o0) of
             (w, Inl _) \<Rightarrow> o0\<lparr>op_world := w\<rparr>
           | (w, Inr _) \<Rightarrow>
               o0\<lparr>op_world := fst (clean_old_profiles env (7 * 24 * 60 * minute) (op_profilers o0 ! n) w)\<rparr>))"

text \<open>
  The steps of the goroutines: a loop that waits takes a tick or sees that its context was cancelled; a
  loop that ends its work reads the context again.
\<close>

datatype opt_event =
  Loop_tick nat time | Loop_done nat | Loop_idle nat | Collector_tick nat pf_env

fun opt_step :: "opt_event \<Rightarrow> 'v optimizer \<Rightarrow> 'v optimizer option" where
  "opt_step (Loop_tick i now) o0 =
     (if i < length (op_loops o0) \<and> op_loops o0 ! i \<noteq> Loop_works
      then Some (perform_optimizations now (o0\<lparr>op_loops := (op_loops o0)[i := Loop_works]\<rparr>)) else None)"
| "opt_step (Loop_done i) o0 =
     (if i < length (op_loops o0)
      then (case op_loops o0 ! i of
              Loop_waits n \<Rightarrow>
                if n \<in> set (op_cancelled o0) then Some (o0\<lparr>op_loops := take i (op_loops o0) @ drop (Suc i) (op_loops o0)\<rparr>)
                else None
            | Loop_works \<Rightarrow> None)
      else None)"
| "opt_step (Loop_idle i) o0 =
     (if i < length (op_loops o0) \<and> op_loops o0 ! i = Loop_works
      then map_option (\<lambda>n. o0\<lparr>op_loops := (op_loops o0)[i := Loop_waits n]\<rparr>) (op_ctx o0) else None)"
| "opt_step (Collector_tick k env) o0 =
     (if k < length (op_collectors o0) \<and> \<not> co_stopped (op_collectors o0 ! k)
      then Some (collect_profiles env k o0) else None)"

section \<open>Statistics\<close>

record opt_stats =
  os_cache_hits :: nat
  os_cache_misses :: nat
  os_cache_size :: nat
  os_cache_rate :: "(nat \<times> nat) option"
  os_pool_active :: int
  os_pool_idle :: int
  os_pool_total :: int
  os_workers_active :: int
  os_workers_idle :: int
  os_workers_total :: int
  os_tasks_queued :: int
  os_tasks_processed :: nat

definition optimizer_stats :: "'v optimizer \<Rightarrow> opt_stats" where
  "optimizer_stats o0 =
     (let c = map_option LruCache.get_stats (op_cache o0); p = map_option pool_stats (op_conns o0);
          w = map_option worker_stats_of (op_workers o0) in
      \<lparr>os_cache_hits = (case c of None \<Rightarrow> 0 | Some s \<Rightarrow> cs_hits s),
       os_cache_misses = (case c of None \<Rightarrow> 0 | Some s \<Rightarrow> cs_misses s),
       os_cache_size = (case c of None \<Rightarrow> 0 | Some s \<Rightarrow> cs_size s),
       os_cache_rate = (case c of None \<Rightarrow> None | Some s \<Rightarrow> cs_rate s),
       os_pool_active = (case p of None \<Rightarrow> 0 | Some s \<Rightarrow> st_active s),
       os_pool_idle = (case p of None \<Rightarrow> 0 | Some s \<Rightarrow> st_idle s),
       os_pool_total = (case p of None \<Rightarrow> 0 | Some s \<Rightarrow> st_total s),
       os_workers_active = (case w of None \<Rightarrow> 0 | Some s \<Rightarrow> ws_active s),
       os_workers_idle = (case w of None \<Rightarrow> 0 | Some s \<Rightarrow> ws_idle s),
       os_workers_total = (case w of None \<Rightarrow> 0 | Some s \<Rightarrow> ws_total s),
       os_tasks_queued = (case w of None \<Rightarrow> 0 | Some s \<Rightarrow> ws_queued s),
       os_tasks_processed = (case w of None \<Rightarrow> 0 | Some s \<Rightarrow> ws_processed s)\<rparr>)"

section \<open>Lemmas\<close>

lemmas start_parts = new_context_def start_cache_def start_pools_def start_tuner_def start_profiling_def start_loop_def
lemmas stop_parts = cancel_context_def stop_cache_def stop_conns_def stop_workers_def stop_tuner_def stop_collector_def
  stop_profiler_def

text \<open>Workers without a task return one after the other.\<close>

abbreviation leaving :: "bool \<Rightarrow> worker" where
  "leaving gone \<equiv> new_worker\<lparr>wk_quit := True, wk_done := gone\<rparr>"

lemma workers_leave:
  assumes "wp_workers s = replicate i (leaving True) @ replicate (n - i) (leaving False)" and "i \<le> n"
  shows "wp_run (map Worker_quit [i..<n] @ es) s = wp_run es (s\<lparr>wp_workers := replicate n (leaving True)\<rparr>)"
  using assms
proof (induction "n - i" arbitrary: i s)
  case 0
  then have i: "i = n" "wp_workers s = replicate n (leaving True)" by simp_all
  have "s\<lparr>wp_workers := replicate n (leaving True)\<rparr> = s" by (rule wpool.equality) (simp_all add: i(2))
  with i(1) show ?case by simp
next
  case (Suc k)
  let ?s1 = "s\<lparr>wp_workers := (wp_workers s)[i := leaving True]\<rparr>"
  have i: "i < n" "[i..<n] = i # [Suc i..<n]" using Suc.hyps(2) by (simp_all add: upt_conv_Cons)
  have at: "wp_workers s ! i = leaving False" "i < length (wp_workers s)"
    using i Suc.prems by (simp_all add: nth_append)
  have "replicate (n - i) (leaving False) = leaving False # replicate (n - Suc i) (leaving False)"
    using i by (metis Suc_diff_Suc replicate_Suc)
  then have w: "wp_workers ?s1 = replicate (Suc i) (leaving True) @ replicate (n - Suc i) (leaving False)"
    by (simp add: Suc.prems(1) list_update_append replicate_app_Cons_same)
  have "worker_quit i s = Next ?s1 []"
    using at by (simp add: worker_quit_def new_worker_def)
  then have "wp_run (map Worker_quit [i..<n] @ es) s = wp_run (map Worker_quit [Suc i..<n] @ es) ?s1"
    by (simp add: i(2) split: wp_result.splits)
  also have "\<dots> = wp_run es (?s1\<lparr>wp_workers := replicate n (leaving True)\<rparr>)"
    by (rule Suc.hyps(1)) (use Suc.hyps(2) w i in auto)
  finally show ?case by simp
qed

definition running_pool :: "nat \<Rightarrow> wpool" where
  "running_pool n = (new_worker_pool n)\<lparr>wp_workers := replicate n new_worker, wp_disps := [Disp_waiting],
     wp_started := True\<rparr>"

definition stopped_pool :: "nat \<Rightarrow> wpool" where
  "stopped_pool n = (running_pool n)\<lparr>wp_workers := replicate n (leaving True), wp_started := False, wp_ctx_done := True,
     wp_queue := (make_chan (n * 10))\<lparr>ch_closed := True\<rparr>\<rparr>"

lemma fresh_pool_starts: "pool_start (new_worker_pool n) = Next (running_pool n) []"
  by (simp add: pool_start_def new_worker_pool_def running_pool_def)

lemma idle_pool_stops: "wp_run (Stop_call # map Worker_quit [0..<n] @ [Stop_done]) (running_pool n) = Next (stopped_pool n) []"
proof -
  let ?s = "(running_pool n)\<lparr>wp_ctx_done := True, wp_workers := replicate n (leaving False), wp_stopping := True\<rparr>"
  have "pool_stop (running_pool n) = Next ?s []"
    by (simp add: pool_stop_def running_pool_def new_worker_pool_def new_worker_def map_replicate_const)
  moreover have "wp_run (map Worker_quit [0..<n] @ [Stop_done]) ?s = Next (stopped_pool n) []"
    by (subst workers_leave [where i = 0 and n = n])
      (auto simp: pool_stop_end_def stopped_pool_def running_pool_def new_worker_pool_def new_worker_def ch_close_def make_chan_def)
  ultimately show ?thesis by simp
qed

text \<open>A component is there only when it is enabled, and the numbers are those of profilers and collectors.\<close>

definition parts_match :: "'v optimizer \<Rightarrow> bool" where
  "parts_match o0 \<longleftrightarrow>
     (op_cache o0 \<noteq> None \<longrightarrow> oc_caching (op_cfg o0)) \<and> (op_conns o0 \<noteq> None \<longrightarrow> oc_pooling (op_cfg o0)) \<and>
     (op_workers o0 \<noteq> None \<longrightarrow> oc_pooling (op_cfg o0)) \<and> (op_tuner o0 \<noteq> None \<longrightarrow> oc_gc_tuning (op_cfg o0)) \<and>
     (op_collector o0 \<noteq> None \<longrightarrow> oc_profiling (op_cfg o0)) \<and> (op_profiler o0 \<noteq> None \<longrightarrow> oc_profiling (op_cfg o0))"

lemma new_parts_match [simp]: "parts_match (new_optimizer c gc w)"
  by (simp add: parts_match_def new_optimizer_def)

definition profile_dir :: "optimizer_cfg \<Rightarrow> string" where
  "profile_dir c = (if oc_dir c = '''' then ''./profiles'' else oc_dir c)"

definition next_ctx :: "'v optimizer \<Rightarrow> nat" where
  "next_ctx o0 = (case op_ctx o0 of None \<Rightarrow> 0 | Some n \<Rightarrow> Suc n)"

text \<open>What a start that returns no error makes of the optimizer.\<close>

definition started :: "pf_env \<Rightarrow> 'v optimizer \<Rightarrow> 'v optimizer" where
  "started env o0 =
     (let c = op_cfg o0; n = length (op_profilers o0); k = length (op_collectors o0) in
      o0\<lparr>op_ctx := Some (next_ctx o0),
         op_cache := (if oc_caching c then Some (new_cache (oc_cache_size c) (oc_cache_ttl c)) else op_cache o0),
         op_conns := (if oc_pooling c then Some ((new_conn_pool (nat (oc_max_conns c)))\<lparr>cp_factory := True\<rparr>) else op_conns o0),
         op_workers := (if oc_pooling c then Some (running_pool (nat (oc_max_workers c))) else op_workers o0),
         op_tuner := (if oc_gc_tuning c then Some (oc_gc_percent c) else op_tuner o0),
         op_gc := (if oc_gc_tuning c then oc_gc_percent c else op_gc o0),
         op_profilers := (if oc_profiling c then op_profilers o0 @ [new_profiler (profile_dir c)] else op_profilers o0),
         op_profiler := (if oc_profiling c then Some n else op_profiler o0),
         op_collectors := (if oc_profiling c then op_collectors o0 @
           [\<lparr>co_interval = oc_interval c, co_profiler = Some n, co_stopped = False\<rparr>] else op_collectors o0),
         op_collector := (if oc_profiling c then Some k else op_collector o0),
         op_world := (if oc_profiling c then fst (profiler_start env (new_profiler (profile_dir c)) (op_world o0)) else op_world o0),
         op_loops := op_loops o0 @ [Loop_waits (next_ctx o0)]\<rparr>)"

text \<open>The parts that return without an error.\<close>

lemma opt_then_ok: "opt_then f g o0 = (o1, Opt_ok) \<longleftrightarrow> (\<exists>o'. f o0 = (o', Opt_ok) \<and> g o' = (o1, Opt_ok))"
  by (auto simp: opt_then_def split: prod.splits opt_result.splits)

lemma new_context_eq: "new_context o0 = (o0\<lparr>op_ctx := Some (next_ctx o0)\<rparr>, Opt_ok)"
  by (simp add: new_context_def next_ctx_def)

lemma start_cache_eq: "start_cache o0 =
    (o0\<lparr>op_cache := if oc_caching (op_cfg o0) then Some (new_cache (oc_cache_size (op_cfg o0)) (oc_cache_ttl (op_cfg o0)))
                   else op_cache o0\<rparr>, Opt_ok)"
  by (simp add: start_cache_def Let_def)

lemma start_pools_ok: "start_pools o0 = (o1, Opt_ok) \<longleftrightarrow>
    (oc_pooling (op_cfg o0) \<longrightarrow> oc_max_conns (op_cfg o0) \<ge> 0 \<and> oc_max_workers (op_cfg o0) \<ge> 0) \<and>
    o1 = (if oc_pooling (op_cfg o0)
          then o0\<lparr>op_conns := Some ((new_conn_pool (nat (oc_max_conns (op_cfg o0))))\<lparr>cp_factory := True\<rparr>),
                  op_workers := Some (running_pool (nat (oc_max_workers (op_cfg o0))))\<rparr> else o0)"
  by (auto simp: start_pools_def Let_def fresh_pool_starts)

lemma start_tuner_eq: "start_tuner o0 =
    (if oc_gc_tuning (op_cfg o0) then o0\<lparr>op_tuner := Some (oc_gc_percent (op_cfg o0)), op_gc := oc_gc_percent (op_cfg o0)\<rparr>
     else o0, Opt_ok)"
  by (simp add: start_tuner_def tuner_start_def Let_def)

lemma start_profiling_ok: "start_profiling env o0 = (o1, Opt_ok) \<longleftrightarrow>
    (oc_profiling (op_cfg o0) \<longrightarrow> oc_interval (op_cfg o0) > 0 \<and>
       snd (profiler_start env (new_profiler (profile_dir (op_cfg o0))) (op_world o0)) = Inr ()) \<and>
    o1 = (if oc_profiling (op_cfg o0)
          then o0\<lparr>op_profilers := op_profilers o0 @ [new_profiler (profile_dir (op_cfg o0))],
                  op_profiler := Some (length (op_profilers o0)),
                  op_collectors := op_collectors o0 @
                    [\<lparr>co_interval = oc_interval (op_cfg o0), co_profiler = Some (length (op_profilers o0)), co_stopped = False\<rparr>],
                  op_collector := Some (length (op_collectors o0)),
                  op_world := fst (profiler_start env (new_profiler (profile_dir (op_cfg o0))) (op_world o0))\<rparr> else o0)"
  by (auto simp: start_profiling_def Let_def new_collector_def profile_dir_def split: prod.splits sum.splits if_splits)

lemma start_result:
  "optimizer_start env o0 = (o1, Opt_ok) \<longleftrightarrow>
    o1 = started env o0 \<and>
    (oc_pooling (op_cfg o0) \<longrightarrow> oc_max_conns (op_cfg o0) \<ge> 0 \<and> oc_max_workers (op_cfg o0) \<ge> 0) \<and>
    (oc_profiling (op_cfg o0) \<longrightarrow> oc_interval (op_cfg o0) > 0 \<and>
       snd (profiler_start env (new_profiler (profile_dir (op_cfg o0))) (op_world o0)) = Inr ())"
  by (cases "oc_caching (op_cfg o0)"; cases "oc_pooling (op_cfg o0)"; cases "oc_gc_tuning (op_cfg o0)";
      cases "oc_profiling (op_cfg o0)"; simp add: optimizer_start_def opt_then_ok new_context_eq start_cache_eq
        start_pools_ok start_tuner_eq start_profiling_ok start_loop_def started_def Let_def; auto)

text \<open>The parts of a stop after a start.\<close>

abbreviation idle_workers :: "optimizer_cfg \<Rightarrow> wp_event list" where
  "idle_workers c \<equiv> map Worker_quit [0..<nat (oc_max_workers c)]"

lemma stop_workers_running:
  "op_workers o0 = Some (running_pool n) \<Longrightarrow>
     stop_workers (map Worker_quit [0..<n]) o0 = (o0\<lparr>op_workers := Some (stopped_pool n)\<rparr>, Opt_ok)"
  using idle_pool_stops [of n]
  by (simp add: stop_workers_def running_pool_def del: wp_run.simps)

lemma stop_workers_stopped:
  "op_workers o0 = Some (stopped_pool n) \<Longrightarrow> stop_workers es o0 = (o0, Opt_ok)"
  by (simp add: stop_workers_def stopped_pool_def running_pool_def new_worker_pool_def)

lemma stop_workers_none: "op_workers o0 = None \<Longrightarrow> stop_workers es o0 = (o0, Opt_ok)"
  by (simp add: stop_workers_def)

text \<open>What \<open>Stop\<close> leaves: every component that was there stopped.\<close>

definition shut_down :: "'v optimizer \<Rightarrow> bool" where
  "shut_down o0 \<longleftrightarrow>
     (\<forall>c. op_cache o0 = Some c \<longrightarrow> ca_stopped c \<and> ca_items c = []) \<and>
     (\<forall>p. op_conns o0 = Some p \<longrightarrow> cp_closed p) \<and>
     (\<forall>s. op_workers o0 = Some s \<longrightarrow> \<not> wp_started s \<and> (\<forall>w\<in>set (wp_workers s). wk_done w)) \<and>
     (\<forall>k. op_collector o0 = Some k \<longrightarrow> co_stopped (op_collectors o0 ! k)) \<and>
     (\<forall>n. op_profiler o0 = Some n \<longrightarrow> \<not> pr_cpu (op_profilers o0 ! n)) \<and>
     (op_tuner o0 \<noteq> None \<longrightarrow> op_gc o0 = 100) \<and>
     (\<forall>n. op_ctx o0 = Some n \<longrightarrow> n \<in> set (op_cancelled o0))"

text \<open>The parts of \<open>Stop\<close> on what \<open>Start\<close> made.\<close>

lemma cancel_context_eq:
  "op_ctx o0 = Some n \<Longrightarrow> cancel_context o0 = (o0\<lparr>op_cancelled := n # op_cancelled o0\<rparr>, Opt_ok)"
  by (simp add: cancel_context_def)

lemma stop_cache_fresh:
  "op_cache o0 = (if b then Some (new_cache a d) else None) \<Longrightarrow>
     stop_cache o0 = (o0\<lparr>op_cache := if b then Some ((new_cache a d)\<lparr>ca_stopped := True\<rparr>) else None\<rparr>, Opt_ok)"
  by (cases o0) (simp add: stop_cache_def cache_stop_def cache_clear_def new_cache_def)

lemma stop_workers_fresh:
  "op_workers o0 = (if b then Some (running_pool n) else None) \<Longrightarrow>
     stop_workers (map Worker_quit [0..<n]) o0 = (o0\<lparr>op_workers := if b then Some (stopped_pool n) else None\<rparr>, Opt_ok)"
  by (cases o0; cases b) (simp_all add: stop_workers_running stop_workers_none)

lemma stop_tuner_eq: "stop_tuner o0 = (if op_tuner o0 = None then o0 else o0\<lparr>op_gc := 100\<rparr>, Opt_ok)"
  by (simp add: stop_tuner_def tuner_stop_def split: option.splits)

lemma stop_collector_fresh:
  "op_collector o0 = (if b then Some k else None) \<Longrightarrow> (b \<Longrightarrow> \<not> co_stopped (op_collectors o0 ! k)) \<Longrightarrow>
     stop_collector o0 = (if b then o0\<lparr>op_collectors := (op_collectors o0)[k := (op_collectors o0 ! k)\<lparr>co_stopped := True\<rparr>]\<rparr>
       else o0, Opt_ok)"
  by (simp add: stop_collector_def)

lemma stop_collector_none: "op_collector o0 = None \<Longrightarrow> stop_collector o0 = (o0, Opt_ok)"
  by (simp add: stop_collector_def)

lemma stop_profiler_none: "op_profiler o0 = None \<Longrightarrow> stop_profiler env o0 = (o0, Opt_ok)"
  by (simp add: stop_profiler_def)

lemma stop_profiler_idle:
  "op_profiler o0 = (if b then Some n else None) \<Longrightarrow> (b \<Longrightarrow> \<not> pr_cpu (op_profilers o0 ! n)) \<Longrightarrow>
     stop_profiler env o0 = (o0, Opt_ok)"
  by (cases o0) (simp add: stop_profiler_def profiler_stop_def)

text \<open>A cache or a collector that was stopped cannot be stopped again.\<close>

lemma second_stop:
  assumes "op_ctx o0 \<noteq> None" and "op_cache o0 \<noteq> None \<Longrightarrow> ca_stopped (the (op_cache o0))"
    and "\<forall>s. op_workers o0 = Some s \<longrightarrow> \<not> wp_started s \<and> \<not> wp_stopping s"
    and "op_collector o0 \<noteq> None \<Longrightarrow> co_stopped (op_collectors o0 ! the (op_collector o0))"
    and "\<forall>n. op_profiler o0 = Some n \<longrightarrow> \<not> pr_cpu (op_profilers o0 ! n)"
  shows "snd (optimizer_stop env es o0) = (if op_cache o0 \<noteq> None \<or> op_collector o0 \<noteq> None then Opt_panics else Opt_ok)"
proof -
  obtain n where n: "op_ctx o0 = Some n" using assms(1) by blast
  show ?thesis
  proof (cases "op_cache o0")
    case (Some c)
    with assms(2) n show ?thesis
      by (simp add: optimizer_stop_def opt_then_def cancel_context_def stop_cache_def cache_stop_def)
  next
    case None
    have w: "stop_workers es (o0\<lparr>op_cancelled := x, op_conns := y\<rparr>) = (o0\<lparr>op_cancelled := x, op_conns := y\<rparr>, Opt_ok)" for x y
      using assms(3) by (auto simp: stop_workers_def split: option.splits)
    show ?thesis
      using None n assms(4,5) w
      by (auto simp: optimizer_stop_def opt_then_def cancel_context_def stop_cache_def stop_conns_def stop_tuner_def
          tuner_stop_def stop_collector_def stop_profiler_def profiler_stop_def split: option.splits)
  qed
qed

definition stopped :: "'v optimizer \<Rightarrow> 'v optimizer" where
  "stopped o1 =
     (let c = op_cfg o1; k = the (op_collector o1) in
      o1\<lparr>op_cancelled := the (op_ctx o1) # op_cancelled o1,
         op_cache := (if oc_caching c then Some ((new_cache (oc_cache_size c) (oc_cache_ttl c))\<lparr>ca_stopped := True\<rparr>) else None),
         op_conns := map_option conn_pool_stop (op_conns o1),
         op_workers := (if oc_pooling c then Some (stopped_pool (nat (oc_max_workers c))) else None),
         op_gc := (if op_tuner o1 = None then op_gc o1 else 100),
         op_collectors := (if oc_profiling c then (op_collectors o1)[k := (op_collectors o1 ! k)\<lparr>co_stopped := True\<rparr>]
                           else op_collectors o1)\<rparr>)"

lemma started_fields:
  assumes "parts_match o0"
  shows "op_cfg (started env o0) = op_cfg o0" and "op_ctx (started env o0) = Some (next_ctx o0)"
    and "op_cache (started env o0) =
      (if oc_caching (op_cfg o0) then Some (new_cache (oc_cache_size (op_cfg o0)) (oc_cache_ttl (op_cfg o0))) else None)"
    and "op_workers (started env o0) = (if oc_pooling (op_cfg o0) then Some (running_pool (nat (oc_max_workers (op_cfg o0)))) else None)"
    and "op_collector (started env o0) = (if oc_profiling (op_cfg o0) then Some (length (op_collectors o0)) else None)"
    and "op_profiler (started env o0) = (if oc_profiling (op_cfg o0) then Some (length (op_profilers o0)) else None)"
    and "op_tuner (started env o0) = (if oc_gc_tuning (op_cfg o0) then Some (oc_gc_percent (op_cfg o0)) else None)"
    and "op_conns (started env o0) = (if oc_pooling (op_cfg o0)
           then Some ((new_conn_pool (nat (oc_max_conns (op_cfg o0))))\<lparr>cp_factory := True\<rparr>) else None)"
    and "oc_profiling (op_cfg o0) \<Longrightarrow> op_collectors (started env o0) ! length (op_collectors o0) =
           \<lparr>co_interval = oc_interval (op_cfg o0), co_profiler = Some (length (op_profilers o0)), co_stopped = False\<rparr>"
    and "oc_profiling (op_cfg o0) \<Longrightarrow> op_profilers (started env o0) ! length (op_profilers o0) = new_profiler (profile_dir (op_cfg o0))"
    and "oc_profiling (op_cfg o0) \<Longrightarrow> length (op_collectors (started env o0)) = Suc (length (op_collectors o0))"
  using assms by (auto simp: started_def parts_match_def Let_def)

lemma stop_started:
  assumes "parts_match o0"
  shows "optimizer_stop env (idle_workers (op_cfg o0)) (started e o0) = (stopped (started e o0), Opt_ok)"
proof -
  note f = started_fields [OF assms, of e]
  show ?thesis
    by (cases "oc_profiling (op_cfg o0)")
      (simp_all add: optimizer_stop_def opt_then_def f(1-7) f(9-10) cancel_context_eq
        stop_cache_fresh [where b = "oc_caching (op_cfg o0)" and a = "oc_cache_size (op_cfg o0)" and d = "oc_cache_ttl (op_cfg o0)"]
        stop_conns_def stop_workers_fresh [where b = "oc_pooling (op_cfg o0)"] stop_tuner_eq
        stop_collector_fresh [where b = "oc_profiling (op_cfg o0)" and k = "length (op_collectors o0)"]
        stop_profiler_idle [where b = "oc_profiling (op_cfg o0)" and n = "length (op_profilers o0)"]
        stop_collector_none stop_profiler_none
        new_profiler_def stopped_def Let_def)
qed

lemma stopped_fields:
  assumes "parts_match o0"
  shows "shut_down (stopped (started e o0))" and "parts_match (stopped (started e o0))"
    and "snd (optimizer_stop env es (stopped (started e o0))) =
      (if oc_caching (op_cfg o0) \<or> oc_profiling (op_cfg o0) then Opt_panics else Opt_ok)"
proof -
  note f = started_fields [OF assms, of e]
  let ?o = "stopped (started e o0)"
  have closed: "cp_closed (conn_pool_stop p)" if "\<not> cp_closed p" for p
  proof -
    have "cp_closed (foldl (\<lambda>p c. close_sock c p) q cs) = cp_closed q" for q cs
      by (induction cs arbitrary: q) (simp_all add: close_sock_def split: option.splits)
    then show ?thesis using that by (simp add: conn_pool_stop_def)
  qed
  have fields: "op_cfg ?o = op_cfg o0" "op_ctx ?o = Some (next_ctx o0)" "op_tuner ?o = op_tuner (started e o0)"
    "op_profiler ?o = op_profiler (started e o0)" "op_profilers ?o = op_profilers (started e o0)"
    "op_cancelled ?o = next_ctx o0 # op_cancelled (started e o0)"
    "op_cache ?o = (if oc_caching (op_cfg o0)
       then Some ((new_cache (oc_cache_size (op_cfg o0)) (oc_cache_ttl (op_cfg o0)))\<lparr>ca_stopped := True\<rparr>) else None)"
    "op_conns ?o = map_option conn_pool_stop (op_conns (started e o0))"
    "op_workers ?o = (if oc_pooling (op_cfg o0) then Some (stopped_pool (nat (oc_max_workers (op_cfg o0)))) else None)"
    "op_collector ?o = op_collector (started e o0)"
    "oc_profiling (op_cfg o0) \<Longrightarrow> co_stopped (op_collectors ?o ! length (op_collectors o0))"
    "op_gc ?o = (if op_tuner (started e o0) = None then op_gc (started e o0) else 100)"
    using f by (simp_all add: stopped_def Let_def)
  have pool: "\<not> wp_started (stopped_pool n)" "\<not> wp_stopping (stopped_pool n)" "\<forall>w\<in>set (wp_workers (stopped_pool n)). wk_done w" for n
    by (simp_all add: stopped_pool_def running_pool_def new_worker_pool_def)
  show "parts_match ?o" using f by (simp add: parts_match_def fields)
  show "shut_down ?o"
    using f(5-8) f(10) pool closed by (simp add: shut_down_def fields new_cache_def new_conn_pool_def new_profiler_def)
  have "snd (optimizer_stop env es ?o) = (if op_cache ?o \<noteq> None \<or> op_collector ?o \<noteq> None then Opt_panics else Opt_ok)"
    by (rule second_stop) (use f(5,6) f(10) pool in \<open>auto simp: fields new_profiler_def split: if_splits\<close>)
  then show "snd (optimizer_stop env es ?o) = (if oc_caching (op_cfg o0) \<or> oc_profiling (op_cfg o0) then Opt_panics else Opt_ok)"
    by (simp add: fields f(5))
qed

lemma opt_then_failed:
  "opt_then f g o0 = (o1, Opt_failed e) \<longleftrightarrow>
     f o0 = (o1, Opt_failed e) \<or> (\<exists>o'. f o0 = (o', Opt_ok) \<and> g o' = (o1, Opt_failed e))"
  by (auto simp: opt_then_def split: prod.splits opt_result.splits)

lemma start_failed:
  assumes "optimizer_start env o0 = (o1, Opt_failed e)" and "parts_match o0"
  shows "oc_profiling (op_cfg o0)" and "op_collector o1 = op_collector o0" and "op_collectors o1 = op_collectors o0"
    and "op_loops o1 = op_loops o0" and "op_ctx o1 = Some (next_ctx o0)"
    and "op_cache o1 = (if oc_caching (op_cfg o0)
           then Some (new_cache (oc_cache_size (op_cfg o0)) (oc_cache_ttl (op_cfg o0))) else None)"
    and "op_workers o1 = (if oc_pooling (op_cfg o0) then Some (running_pool (nat (oc_max_workers (op_cfg o0)))) else None)"
proof -
  have pools: "start_pools o' \<noteq> (o'', Opt_failed e)" for o' o'' :: "'a optimizer"
    by (simp add: start_pools_def Let_def fresh_pool_starts)
  have prof: "start_profiling env o' = (o'', Opt_failed e) \<Longrightarrow> oc_profiling (op_cfg o') \<and>
      op_collector o'' = op_collector o' \<and> op_collectors o'' = op_collectors o' \<and> op_loops o'' = op_loops o' \<and>
      op_ctx o'' = op_ctx o' \<and> op_cache o'' = op_cache o' \<and> op_workers o'' = op_workers o'" for o' o'' :: "'a optimizer"
    by (auto simp: start_profiling_def Let_def split: if_splits prod.splits sum.splits)
  have loop: "start_loop o' \<noteq> (o'', Opt_failed e)" for o' o'' :: "'a optimizer"
    by (simp add: start_loop_def split: option.splits)
  from assms(1) obtain o' where p: "start_profiling env o' = (o1, Opt_failed e)"
    and o': "op_cfg o' = op_cfg o0" "op_collector o' = op_collector o0" "op_collectors o' = op_collectors o0"
      "op_loops o' = op_loops o0" "op_ctx o' = Some (next_ctx o0)"
      "op_cache o' = (if oc_caching (op_cfg o0) then Some (new_cache (oc_cache_size (op_cfg o0)) (oc_cache_ttl (op_cfg o0)))
         else op_cache o0)"
      "op_workers o' = (if oc_pooling (op_cfg o0) then Some (running_pool (nat (oc_max_workers (op_cfg o0)))) else op_workers o0)"
    by (auto simp: optimizer_start_def opt_then_failed new_context_eq start_cache_eq start_pools_ok start_tuner_eq pools loop
        split: if_splits)
  with prof [OF p] assms(2) show "oc_profiling (op_cfg o0)" and "op_collector o1 = op_collector o0"
    and "op_collectors o1 = op_collectors o0" and "op_loops o1 = op_loops o0" and "op_ctx o1 = Some (next_ctx o0)"
    and "op_cache o1 = (if oc_caching (op_cfg o0)
           then Some (new_cache (oc_cache_size (op_cfg o0)) (oc_cache_ttl (op_cfg o0))) else None)"
    and "op_workers o1 = (if oc_pooling (op_cfg o0) then Some (running_pool (nat (oc_max_workers (op_cfg o0)))) else None)"
    by (auto simp: parts_match_def)
qed

section \<open>Properties\<close>

text \<open>
  C33. Start, stop and start again: after a start that returned no error, \<open>Stop\<close> returns once the workers have
  left, with every component stopped, its cache empty and the garbage collector at 100 per cent; stopping
  once more panics exactly when a cache or a collector is there to be closed again; and a new start works
  as long as the profile directory can be made, with components as new as the first time.
\<close>

theorem optimizer_restarts:
  assumes "parts_match o0" and "optimizer_start env o0 = (o1, Opt_ok)"
  shows "\<exists>o2. optimizer_stop env1 (idle_workers (op_cfg o0)) o1 = (o2, Opt_ok) \<and> shut_down o2 \<and> parts_match o2 \<and>
    snd (optimizer_stop env2 es o2) = (if oc_caching (op_cfg o0) \<or> oc_profiling (op_cfg o0) then Opt_panics else Opt_ok) \<and>
    (snd (optimizer_start env3 o2) = Opt_ok \<longleftrightarrow>
       (oc_profiling (op_cfg o0) \<longrightarrow>
          snd (profiler_start env3 (new_profiler (profile_dir (op_cfg o0))) (op_world o2)) = Inr ())) \<and>
    (\<forall>o3. optimizer_start env3 o2 = (o3, Opt_ok) \<longrightarrow>
       op_cache o3 = op_cache o1 \<and> op_conns o3 = op_conns o1 \<and> op_workers o3 = op_workers o1 \<and> op_gc o3 = op_gc o1)"
proof -
  let ?o2 = "stopped o1"
  from assms(2) have o1: "o1 = started env o0" by (simp only: start_result)
  have cfg: "op_cfg ?o2 = op_cfg o0"
    by (simp add: o1 stopped_def Let_def started_fields(1) [OF assms(1)])
  note s = stopped_fields(1,2) [OF assms(1), of env, folded o1] stop_started [OF assms(1), of env1 env, folded o1]
    stopped_fields(3) [OF assms(1), where env = env2 and es = es and e = env, folded o1]
  have again: "optimizer_start env3 ?o2 = (o3, Opt_ok) \<longleftrightarrow> o3 = started env3 ?o2 \<and>
      (oc_profiling (op_cfg o0) \<longrightarrow>
          snd (profiler_start env3 (new_profiler (profile_dir (op_cfg o0))) (op_world ?o2)) = Inr ())" for o3
    using conjunct2 [OF assms(2) [unfolded start_result]] by (simp only: start_result cfg) blast
  have gc: "op_gc (started env3 ?o2) = op_gc o1"
    by (cases "oc_gc_tuning (op_cfg o0)") (use assms(1) in \<open>simp_all add: started_def Let_def o1 stopped_def parts_match_def\<close>)
  have "snd (optimizer_start env3 ?o2) = Opt_ok \<longleftrightarrow> (\<exists>o3. optimizer_start env3 ?o2 = (o3, Opt_ok))"
    by (metis prod.collapse snd_conv)
  then have anew: "snd (optimizer_start env3 ?o2) = Opt_ok \<longleftrightarrow>
      (oc_profiling (op_cfg o0) \<longrightarrow>
          snd (profiler_start env3 (new_profiler (profile_dir (op_cfg o0))) (op_world ?o2)) = Inr ())"
    by (simp add: again)
  have same: "op_cache (started env3 ?o2) = op_cache o1" "op_conns (started env3 ?o2) = op_conns o1"
    "op_workers (started env3 ?o2) = op_workers o1"
    by (simp_all only: started_fields [OF s(2)] started_fields [OF assms(1), of env, folded o1] cfg)
  show ?thesis
    by (intro exI [of _ ?o2] conjI allI impI) (use s anew again gc same in \<open>simp_all only:\<close>)
qed

definition demo_opt_cfg :: optimizer_cfg where
  "demo_opt_cfg = \<lparr>oc_caching = True, oc_cache_size = 10, oc_cache_ttl = minute, oc_pooling = True, oc_max_conns = 5,
     oc_max_workers = 2, oc_gc_tuning = True, oc_gc_percent = 50, oc_profiling = True, oc_interval = second, oc_dir = ''''\<rparr>"

definition demo_opt :: "string optimizer" where
  "demo_opt = new_optimizer demo_opt_cfg 100 demo_pf_world"

lemma demo_opt_fields [simp]: "op_cfg demo_opt = demo_opt_cfg" "parts_match demo_opt" "op_world demo_opt = demo_pf_world"
  by (simp_all add: demo_opt_def new_optimizer_def [of demo_opt_cfg] parts_match_def)

lemma demo_profiler_start: "snd (profiler_start demo_pf_env (new_profiler ''./profiles'') demo_pf_world) = Inr ()"
  by code_simp

lemma demo_opt_starts: "optimizer_start demo_pf_env demo_opt = (started demo_pf_env demo_opt, Opt_ok)"
  using demo_profiler_start
  by (simp add: start_result demo_opt_cfg_def profile_dir_def)

theorem optimizer_restarts_witness:
  "\<exists>o2. optimizer_stop demo_pf_env (idle_workers demo_opt_cfg) (started demo_pf_env demo_opt) = (o2, Opt_ok) \<and>
     shut_down o2 \<and> snd (optimizer_stop demo_pf_env [] o2) = Opt_panics"
  using optimizer_restarts [OF demo_opt_fields(2) demo_opt_starts, of demo_pf_env demo_pf_env "[]" demo_pf_env]
  by (auto simp: demo_opt_cfg_def)

text \<open>
  A restart whose profile directory cannot be made fails half way: the new cache and the new workers run,
  no loop was added, and \<open>Stop\<close>, the only way to end them, panics on the collector of the first start,
  which was stopped before.
\<close>

theorem failed_restart_cannot_stop:
  assumes "parts_match o0" and "optimizer_start env o0 = (o1, Opt_ok)"
    and "optimizer_stop env1 (idle_workers (op_cfg o0)) o1 = (o2, Opt_ok)"
    and "optimizer_start env2 o2 = (o3, Opt_failed e)"
  shows "op_cache o3 = op_cache o1 \<and> op_workers o3 = op_workers o1 \<and> op_loops o3 = op_loops o2 \<and>
    snd (optimizer_stop env3 (idle_workers (op_cfg o0)) o3) = Opt_panics"
proof -
  from assms(2) have o1: "o1 = started env o0" by (simp only: start_result)
  with stop_started [OF assms(1), of env1 env] assms(3) have o2: "o2 = stopped o1" by simp
  note f = started_fields [OF assms(1), of env, folded o1]
  have pm: "parts_match o2" using stopped_fields(2) [OF assms(1), of env] by (simp only: o1 o2)
  have cfg: "op_cfg o2 = op_cfg o0" using f(1) by (simp add: o2 stopped_def Let_def)
  note b = start_failed [OF assms(4) pm, unfolded cfg]
  have k: "op_collector o3 = Some (length (op_collectors o0))" "co_stopped (op_collectors o3 ! length (op_collectors o0))"
    using b(1) f(1,5,11) by (simp_all add: b(2,3) o2 stopped_def Let_def)
  have "snd (optimizer_stop env3 (idle_workers (op_cfg o0)) o3) = Opt_panics"
    by (simp add: optimizer_stop_def opt_then_def cancel_context_eq [OF b(5)] stop_conns_def stop_tuner_eq
        stop_cache_fresh [where b = "oc_caching (op_cfg o0)"] stop_workers_fresh [where b = "oc_pooling (op_cfg o0)"]
        b(6,7) stop_collector_def k)
  moreover have "op_cache o3 = op_cache o1" "op_workers o3 = op_workers o1" using f(3,4) b(6,7) by simp_all
  ultimately show ?thesis using b(4) by simp
qed

text \<open>At the restart the working directory is another one, in which nothing may be made.\<close>

definition demo_ro_env :: pf_env where
  "demo_ro_env = demo_pf_env\<lparr>pe_cwd := ''/mnt'', pe_ok := (\<lambda>_. False)\<rparr>"

lemma demo_ro_fails: "snd (profiler_start demo_ro_env (new_profiler ''./profiles'') demo_pf_world) = Inl Profile_dir_failed"
  by code_simp

lemma demo_restart_fails:
  "\<exists>o3. optimizer_start demo_ro_env (stopped (started demo_pf_env demo_opt)) = (o3, Opt_failed Profile_dir_failed)"
proof -
  let ?o2 = "stopped (started demo_pf_env demo_opt)"
  have w: "fst (profiler_start demo_pf_env (new_profiler ''./profiles'') demo_pf_world) = demo_pf_world" by code_simp
  have cfg: "op_cfg ?o2 = demo_opt_cfg" by (simp add: stopped_def Let_def started_fields(1))
  have world: "op_world ?o2 = demo_pf_world"
    using w by (simp add: stopped_def started_def Let_def) (simp add: demo_opt_cfg_def profile_dir_def)
  obtain o' where p: "opt_then new_context (opt_then start_cache (opt_then start_pools start_tuner)) ?o2 = (o', Opt_ok)"
    and o': "op_cfg o' = demo_opt_cfg" "op_world o' = demo_pf_world"
    using cfg world
    by (simp add: opt_then_ok new_context_eq start_cache_eq start_pools_ok start_tuner_eq) (simp add: demo_opt_cfg_def)
  have assoc: "opt_then f (opt_then g h) = opt_then (opt_then f g) h" for f g h :: "string optimizer \<Rightarrow> _"
    by (rule ext) (auto simp: opt_then_def split: prod.splits opt_result.splits)
  have "optimizer_start demo_ro_env ?o2 = opt_then (start_profiling demo_ro_env) start_loop o'"
    using p by (simp add: optimizer_start_def assoc) (simp add: opt_then_def)
  moreover obtain w' where "profiler_start demo_ro_env (new_profiler ''./profiles'') demo_pf_world = (w', Inl Profile_dir_failed)"
    using demo_ro_fails by (cases "profiler_start demo_ro_env (new_profiler ''./profiles'') demo_pf_world") auto
  then have "\<exists>o3. start_profiling demo_ro_env o' = (o3, Opt_failed Profile_dir_failed)"
    using o' by (simp add: start_profiling_def Let_def demo_opt_cfg_def)
  ultimately show ?thesis by (auto simp: opt_then_def)
qed

theorem failed_restart_cannot_stop_witness:
  "\<exists>o3. optimizer_start demo_ro_env (stopped (started demo_pf_env demo_opt)) = (o3, Opt_failed Profile_dir_failed) \<and>
     snd (optimizer_stop demo_pf_env (idle_workers demo_opt_cfg) o3) = Opt_panics"
proof -
  obtain o3 where o3: "optimizer_start demo_ro_env (stopped (started demo_pf_env demo_opt)) = (o3, Opt_failed Profile_dir_failed)"
    using demo_restart_fails by blast
  have s: "optimizer_stop demo_pf_env (idle_workers (op_cfg demo_opt)) (started demo_pf_env demo_opt) =
      (stopped (started demo_pf_env demo_opt), Opt_ok)"
    by (rule stop_started) simp
  show ?thesis
    using failed_restart_cannot_stop [OF demo_opt_fields(2) demo_opt_starts s o3, of demo_pf_env] o3 by simp
qed

text \<open>
  A loop that is at work while the optimizer is stopped and started reads the new context and stays: two
  loops then run side by side.
\<close>

lemma busy_loop_survives:
  assumes "op_loops o0 = [Loop_works]" and "op_ctx o0 = Some n" and "optimizer_start env o0 = (o1, Opt_ok)"
  shows "\<exists>o2. opt_step (Loop_idle 0) o1 = Some o2 \<and> op_loops o2 = [Loop_waits (Suc n), Loop_waits (Suc n)]"
  using assms by (simp add: start_result started_def Let_def next_ctx_def)

end
