(* ===== verification/CliConfig.thy ===== *)
theory CliConfig
  imports ConfigManager
begin

text \<open>
  \<open>internal/cli/config.go\<close>: the commands that show, set, check, migrate the configuration file and apply
  a template to it. Each makes a configuration manager of its own, uses it and stops it. The state is the
  content of the file and the backups beside it; the output is a list of lines.
\<close>

record 'f cfg_cli =
  cl_env :: "'f mgr_env"
  cl_watcher_ok :: bool
  cl_watch_ok :: bool
  cl_embedded :: "(string \<times> template option) list"
  cl_mkdir_ok :: bool
  cl_write_ok :: bool
  cl_stamp :: string

datatype cfg_cli_error =
  Cli_not_loaded mgr_error | Cli_not_set mgr_error | Cli_not_valid mgr_error | Cli_template_required
| Cli_template_failed mgr_error | Cli_backup_failed Migration.backup_error | Cli_not_migrated mgr_error | Cli_nil_config

datatype cli_out = Line string | Json_config config

definition get_config_path :: string where
  "get_config_path = ''./wemixvisor.toml''"

text \<open>A manager is made, used and stopped; when the watch fails the file may have been made already.\<close>

definition with_manager ::
  "'f cfg_cli \<Rightarrow> ('f cfg_mgr \<Rightarrow> 'f cfg_mgr \<times> 'r) \<Rightarrow> (mgr_error \<Rightarrow> 'r) \<Rightarrow> 'f option \<Rightarrow> 'f option \<times> 'r" where
  "with_manager e act failed file =
     (case manager_new (cl_env e) (cl_watcher_ok e) (cl_watch_ok e) get_config_path file (cl_embedded e) of
        Inl err \<Rightarrow>
          (if cl_watcher_ok e then cm_file (fst (load_config (cl_env e) (empty_manager get_config_path file (cl_embedded e))))
           else file, failed err)
      | Inr m \<Rightarrow> (case act m of (m1, r) \<Rightarrow> (cm_file (fst (manager_stop m1)), r)))"

definition bool_str :: "bool \<Rightarrow> string" where
  "bool_str b = (if b then ''true'' else ''false'')"

definition config_lines :: "config \<Rightarrow> cli_out list" where
  "config_lines c =
     [Line (''Home: '' @ cf_home (c_core c)), Line (''Name: '' @ cf_name (c_core c)),
      Line (''Network ID: '' @ nat_str (cf_network_id (c_wbft c))), Line (''Chain ID: '' @ cf_chain_id (c_wbft c)),
      Line (''RPC Port: '' @ int_str (cf_rpc_port (c_health c))),
      Line (''Validator Mode: '' @ bool_str (cf_validator_mode (c_wbft c))),
      Line (''Max Restarts: '' @ int_str (cf_max_restarts (c_process c)))]"

definition config_show :: "'f cfg_cli \<Rightarrow> string \<Rightarrow> 'f option \<Rightarrow> 'f option \<times> (cfg_cli_error + cli_out list)" where
  "config_show e format =
     with_manager e
       (\<lambda>m. (m, case current_cfg m of
                  None \<Rightarrow> Inl Cli_nil_config
                | Some c \<Rightarrow> Inr (if format = ''json'' then [Json_config c] else config_lines c)))
       (\<lambda>err. Inl (Cli_not_loaded err))"

text \<open>The value is the text of the argument, whatever the type of the field.\<close>

definition config_set ::
  "'f cfg_cli \<Rightarrow> string \<Rightarrow> string \<Rightarrow> 'f option \<Rightarrow> 'f option \<times> (cfg_cli_error + cli_out list)" where
  "config_set e key value =
     with_manager e
       (\<lambda>m. case update_config (cl_env e) key (GStr value) m of
              (m1, Inl err) \<Rightarrow> (m1, Inl (Cli_not_set err))
            | (m1, Inr _) \<Rightarrow> (m1, Inr [Line (''Configuration updated: '' @ key @ '' = '' @ value)]))
       (\<lambda>err. Inl (Cli_not_loaded err))"

definition config_check :: "'f cfg_cli \<Rightarrow> 'f option \<Rightarrow> 'f option \<times> (cfg_cli_error + cli_out list)" where
  "config_check e =
     with_manager e
       (\<lambda>m. (m, case check_current (me_rules (cl_env e)) m of
                  Inl err \<Rightarrow> Inl (Cli_not_valid err) | Inr _ \<Rightarrow> Inr [Line ''Configuration is valid'']))
       (\<lambda>err. Inl (Cli_not_loaded err))"

definition template_lines :: "template list \<Rightarrow> cli_out list" where
  "template_lines ts = Line ''Available templates:'' # map (\<lambda>t. Line (''  - '' @ tp_name t @ '': '' @ tp_description t)) ts"

definition config_template ::
  "'f cfg_cli \<Rightarrow> bool \<Rightarrow> string list \<Rightarrow> 'f option \<Rightarrow> 'f option \<times> (cfg_cli_error + cli_out list)" where
  "config_template e listing args =
     with_manager e
       (\<lambda>m. if listing then (m, Inr (template_lines (list_templates (new_template_manager (cl_embedded e)))))
            else (case args of
                    [] \<Rightarrow> (m, Inl Cli_template_required)
                  | name # _ \<Rightarrow>
                      (case apply_template (cl_env e) name m of
                         (m1, Inl err) \<Rightarrow> (m1, Inl (Cli_template_failed err))
                       | (m1, Inr _) \<Rightarrow> (m1, Inr [Line (''Template '' @ CHR 0x27 # name @ CHR 0x27 # '' applied successfully'')]))))
       (\<lambda>err. Inl (Cli_not_loaded err))"

text \<open>The versions that \<open>migrate\<close> takes for missing ones.\<close>

definition migrate_from :: "string \<Rightarrow> config \<Rightarrow> string" where
  "migrate_from from c =
     (if from \<noteq> '''' then from
      else if cf_config_version (c_automation c) \<noteq> '''' then cf_config_version (c_automation c) else ''0.4.0'')"

definition migrate_to :: "string \<Rightarrow> string" where
  "migrate_to to = (if to = '''' then ''0.5.0'' else to)"

text \<open>The backup is written under another name than the one that is printed.\<close>

definition config_migrate ::
  "'f cfg_cli \<Rightarrow> string \<Rightarrow> string \<Rightarrow> bool \<Rightarrow> 'f option \<times> cfg_store \<Rightarrow>
     'f option \<times> cfg_store \<times> cli_out list \<times> (cfg_cli_error + unit)" where
  "config_migrate e from to backup = (\<lambda>(file, st).
     with_manager e
       (\<lambda>m. case current_cfg m of
              None \<Rightarrow> (m, (st, [], Inl Cli_nil_config))
            | Some c \<Rightarrow>
                (let v = migrate_from from c; w = migrate_to to; path = get_config_path @ ''.backup'' in
                 case (if backup then backup_config (cl_mkdir_ok e) (cl_write_ok e) (cl_stamp e) (Some c) path st
                       else (st, Inr ())) of
                   (st1, Inl err) \<Rightarrow> (m, (st1, [], Inl (Cli_backup_failed err)))
                 | (st1, Inr _) \<Rightarrow>
                     (let created = (if backup then [Line (''Backup created: '' @ path)] else []) in
                      case migrate_config (cl_env e) v w m of
                        (m1, Inl err) \<Rightarrow> (m1, (st1, created, Inl (Cli_not_migrated err)))
                      | (m1, Inr _) \<Rightarrow>
                          (m1, (st1, created @ [Line (''Configuration migrated from '' @ v @ '' to '' @ w)], Inr ())))))
       (\<lambda>err. (st, [], Inl (Cli_not_loaded err))) file)"

section \<open>Lemmas\<close>

text \<open>A manager that was made has merged its two structs.\<close>

lemma loaded_manager:
  assumes "manager_new env wok hok path file emb = Inr m"
  obtains w n where "cm_wemix m = Some w" and "cm_node m = Some n" and "cm_merged m = Some 0"
    and "cm_heap m = [merge_cfg w n]" and "\<not> ch_closed (cm_updates m)" and "cm_path m = path"
proof -
  let ?m0 = "empty_manager path file emb"
  from assms have l: "load_config env ?m0 = (m, Inr ())"
    by (auto simp: manager_new_def split: if_splits prod.splits sum.splits)
  have chan: "\<not> ch_closed (cm_updates ?m0)" by (simp add: empty_manager_def make_chan_def)
  show thesis
  proof (cases "file")
    case None
    from l None obtain m1 where d: "apply_defaults (me_home env) ?m0 = Some m1" and s: "save_config env m1 = (m, Inr ())"
      by (auto simp: load_config_def empty_manager_def split: if_splits option.splits)
    from save_config_result [OF s] obtain x where "m = m1\<lparr>cm_file := x\<rparr>" by blast
    then show thesis using d that chan by (auto simp: apply_defaults_def Let_def merge_configs_some empty_manager_def)
  next
    case (Some f)
    have fields: "cm_file ?m0 = Some f" "cm_path ?m0 = path" "cm_heap ?m0 = []" by (simp_all add: empty_manager_def Some)
    from l fields(1,2) obtain fmt w n where "config_format path = Some fmt"
      and "cc_wemix (me_codec env) fmt f (cm_wemix ?m0) = (w, True)" and "cc_node (me_codec env) fmt f (cm_node ?m0) = (n, True)"
      and mc: "merge_configs (?m0\<lparr>cm_wemix := w, cm_node := n\<rparr>) = Some m"
      by (auto simp: load_config_def split: if_splits option.splits prod.splits bool.splits)
    from mc obtain w' n' where "w = Some w'" "n = Some n'"
      by (auto simp: merge_configs_def split: option.splits)
    with mc show thesis using that fields chan by (auto simp: merge_configs_some)
  qed
qed

text \<open>What a text does to a field: only a field of texts takes it.\<close>

lemma text_for_field:
  "convert fc ty (GStr s) = (if ty = TStr then Some (GStr s) else None)"
  by (cases ty) (simp_all add: as_string_def as_int_def as_uint_def)

lemma split_merge: "split_wemix (merge_cfg w n) w = w" "split_node (merge_cfg w n) n = n"
  by (simp_all add: split_wemix_def split_node_def merge_cfg_def)

text \<open>Of the fields of texts, the saved structs take the home and the name.\<close>

lemma text_fields_saved:
  "list_all (\<lambda>f. fd_type f = TStr \<longrightarrow> (\<forall>s c w. split_wemix (fd_put f (GStr s) c) w =
      (if fd_name f = ''Home'' then (split_wemix c w)\<lparr>wx_home := s\<rparr>
       else if fd_name f = ''Name'' then (split_wemix c w)\<lparr>wx_name := s\<rparr> else split_wemix c w) \<and>
      (\<forall>n. split_node (fd_put f (GStr s) c) n = split_node c n))) config_fields"
  by (simp add: config_fields_def core_fields_def upgrade_fields_def process_fields_def health_fields_def backup_fields_def
      wbft_fields_def download_fields_def logging_fields_def metrics_fields_def api_fields_def alerting_fields_def
      performance_fields_def automation_fields_def in_group_def field_kinds split_wemix_def split_node_def)

lemma toml_path: "config_format get_config_path = Some Fmt_toml"
  by code_simp

lemma commit_failed:
  assumes "commit env ty old m = (m1, Inl err)" and "\<not> ch_closed (cm_updates m)"
  shows "cm_file m1 = cm_file m"
proof (cases "save_config env m")
  case (Pair ms r)
  from save_config_result [OF Pair] obtain x where ms: "ms = m\<lparr>cm_file := x\<rparr>" and x: "r \<noteq> Inr () \<Longrightarrow> x = cm_file m" by blast
  show ?thesis
  proof (cases r)
    case (Inl e)
    with Pair assms(1) ms x show ?thesis by (auto simp: commit_def)
  next
    case (Inr u)
    have "\<not> ch_closed (cm_updates ms)" using assms(2) by (simp add: ms)
    from notify_open [OF this, of env ty old "cm_merged ms"] Pair Inr assms(1) show ?thesis
      by (auto simp: commit_def)
  qed
qed

lemma find_field: "find (\<lambda>f. fd_name f = key) config_fields = Some f \<Longrightarrow> f \<in> set config_fields \<and> fd_name f = key"
  by (auto simp: find_Some_iff)

lemma same_field: "f \<in> set config_fields \<Longrightarrow> g \<in> set config_fields \<Longrightarrow> fd_name f = fd_name g \<Longrightarrow> f = g"
  using config_field_names by (auto simp: distinct_map dest: inj_onD)

lemma text_refused:
  assumes "\<nexists>f. f \<in> set config_fields \<and> fd_name f = key \<and> fd_type f = TStr"
  shows "set_field fc key (GStr s) c \<in> {No_such_field, Not_assignable}"
proof (cases "find (\<lambda>f. fd_name f = key) config_fields")
  case (Some f)
  with find_field [OF Some] assms have "fd_type f \<noteq> TStr" by blast
  with Some show ?thesis by (simp add: set_field_def text_for_field)
qed (simp add: set_field_def)

text \<open>Setting a text on a manager that was just made.\<close>

lemma set_text:
  assumes m: "cm_wemix m = Some w" "cm_node m = Some n" "cm_merged m = Some 0" "cm_heap m = [merge_cfg w n]"
      "\<not> ch_closed (cm_updates m)" "cm_path m = get_config_path"
    and f: "f \<in> set config_fields" "fd_name f = key" "fd_type f = TStr"
    and u: "update_config env key (GStr value) m = (m1, r)"
  defines "w' \<equiv> if key = ''Home'' then w\<lparr>wx_home := value\<rparr> else if key = ''Name'' then w\<lparr>wx_name := value\<rparr> else w"
  shows "case r of
      Inr _ \<Rightarrow> \<exists>x. cm_file m1 = Some x \<and> cc_marshal (me_codec env) Fmt_toml (combined_doc (Some w') (Some n)) = Some x
    | Inl _ \<Rightarrow> cm_file m1 = cm_file m"
proof -
  let ?c = "fd_put f (GStr value) (merge_cfg w n)"
  obtain g where g: "find (\<lambda>f. fd_name f = key) config_fields = Some g"
    using f by (cases "find (\<lambda>f. fd_name f = key) config_fields") (auto simp: find_None_iff)
  with find_field [OF g] same_field [of f g] f have "g = f" by simp
  with g f(3) have s: "set_field (me_conv env) key (GStr value) (cm_heap m ! 0) = Updated ?c"
    by (simp add: set_field_def text_for_field m(4))
  have h: "0 < length (cm_heap m)" by (simp add: m(4))
  have sw: "split_wemix ?c w = w'" and sn: "split_node ?c n = n"
    using text_fields_saved f by (auto simp: list_all_iff split_merge w'_def)
  let ?m1 = "m\<lparr>cm_heap := (cm_heap m)[0 := ?c] @ [cm_heap m ! 0], cm_wemix := Some w', cm_node := Some n\<rparr>"
  have step: "update_config env key (GStr value) m =
     (case map_sum Config_rejected id (validate (me_rules env) (Some ?c)) of
       Inl e \<Rightarrow> (?m1\<lparr>cm_merged := Some (length (cm_heap m))\<rparr>, Inl e)
     | Inr _ \<Rightarrow> commit env Hot_reload_update (Some (length (cm_heap m))) ?m1)"
    using update_config_step [OF m(3) h m(1,2) s] by (simp only: sw sn Let_def)
  show ?thesis
  proof (cases "validate (me_rules env) (Some ?c)")
    case (Inl e)
    with step u show ?thesis by auto
  next
    case (Inr v)
    with step u have c: "commit env Hot_reload_update (Some (length (cm_heap m))) ?m1 = (m1, r)" by simp
    show ?thesis
    proof (cases r)
      case e: (Inl e)
      from commit_failed [OF c [unfolded e]] m(5) e show ?thesis by simp
    next
      case ok: (Inr v)
      have v: "v = ()" by simp
      from commit_ok [OF c [unfolded ok v]] ok m(6) toml_path show ?thesis by auto
    qed
  qed
qed

section \<open>Properties\<close>

text \<open>
  What \<open>config set\<close> can do: a field that does not hold a text is refused, because the argument is always
  handed over as a text; and of the fields of texts only the home and the name reach the file. When the
  command succeeds, the file holds the structs that were loaded, but for these two; when it fails, the
  file is as loading left it.
\<close>

theorem config_set_persists:
  assumes "manager_new (cl_env e) (cl_watcher_ok e) (cl_watch_ok e) get_config_path file (cl_embedded e) = Inr m"
    and "cm_wemix m = Some w" and "cm_node m = Some n"
    and "config_set e key value file = (file', r)"
  defines "w' \<equiv> if key = ''Home'' then w\<lparr>wx_home := value\<rparr> else if key = ''Name'' then w\<lparr>wx_name := value\<rparr> else w"
  shows "(case r of
      Inr _ \<Rightarrow> (\<exists>f\<in>set config_fields. fd_name f = key \<and> fd_type f = TStr) \<and>
        (\<exists>x. file' = Some x \<and> cc_marshal (me_codec (cl_env e)) Fmt_toml (combined_doc (Some w') (Some n)) = Some x)
    | Inl _ \<Rightarrow> file' = cm_file m) \<and>
    (\<forall>f\<in>set config_fields. fd_name f = key \<and> fd_type f \<noteq> TStr \<longrightarrow> r = Inl (Cli_not_set (Field_not_set Not_assignable)))"
proof -
  obtain w0 n0 where m: "cm_wemix m = Some w0" "cm_node m = Some n0" "cm_merged m = Some 0"
    "cm_heap m = [merge_cfg w0 n0]" "\<not> ch_closed (cm_updates m)" "cm_path m = get_config_path"
    using loaded_manager [OF assms(1)] by blast
  with assms(2,3) have wn: "w0 = w" "n0 = n" by simp_all
  obtain m1 u where u: "update_config (cl_env e) key (GStr value) m = (m1, u)" by fastforce
  have stop: "cm_file (fst (manager_stop k)) = cm_file k" for k :: "'a cfg_mgr"
    by (simp add: manager_stop_def split: option.splits)
  have res: "file' = cm_file m1" "r = (case u of Inl err \<Rightarrow> Inl (Cli_not_set err)
      | Inr _ \<Rightarrow> Inr [Line (''Configuration updated: '' @ key @ '' = '' @ value)])"
    using assms(4) by (auto simp: config_set_def with_manager_def assms(1) u stop split: sum.splits)
  have refused: "update_config (cl_env e) key (GStr value) m =
      (snd (clone_current m), Inl (Field_not_set (set_field (me_conv (cl_env e)) key (GStr value) (merge_cfg w n))))"
    if "\<nexists>f. f \<in> set config_fields \<and> fd_name f = key \<and> fd_type f = TStr"
  proof -
    note text_refused [OF that, of "me_conv (cl_env e)" "value" "merge_cfg w n"]
    then consider "set_field (me_conv (cl_env e)) key (GStr value) (merge_cfg w n) = No_such_field"
      | "set_field (me_conv (cl_env e)) key (GStr value) (merge_cfg w n) = Not_assignable" by blast
    then show ?thesis
      by cases (simp_all add: update_config_def clone_current_some [OF m(3)] update_field_def m(3,4) wn)
  qed
  have "case r of
      Inr _ \<Rightarrow> (\<exists>f\<in>set config_fields. fd_name f = key \<and> fd_type f = TStr) \<and>
        (\<exists>x. file' = Some x \<and> cc_marshal (me_codec (cl_env e)) Fmt_toml (combined_doc (Some w') (Some n)) = Some x)
    | Inl _ \<Rightarrow> file' = cm_file m"
  proof (cases "\<exists>f. f \<in> set config_fields \<and> fd_name f = key \<and> fd_type f = TStr")
    case True
    then obtain f where f: "f \<in> set config_fields" "fd_name f = key" "fd_type f = TStr" by blast
    from set_text [OF m f u] res wn f show ?thesis by (cases u) (auto simp: w'_def)
  next
    case False
    with refused u res clone_frame(1) [of m] show ?thesis by auto
  qed
  moreover have "\<forall>f\<in>set config_fields. fd_name f = key \<and> fd_type f \<noteq> TStr \<longrightarrow> r = Inl (Cli_not_set (Field_not_set Not_assignable))"
  proof (intro ballI impI)
    fix f
    assume f: "f \<in> set config_fields" "fd_name f = key \<and> fd_type f \<noteq> TStr"
    then have no: "\<nexists>f. f \<in> set config_fields \<and> fd_name f = key \<and> fd_type f = TStr" by (metis same_field)
    have "find (\<lambda>f. fd_name f = key) config_fields \<noteq> None" using f by (auto simp: find_None_iff)
    then obtain g where g: "find (\<lambda>f. fd_name f = key) config_fields = Some g" by blast
    with find_field [OF g] no have "set_field (me_conv (cl_env e)) key (GStr value) (merge_cfg w n) = Not_assignable"
      by (auto simp: set_field_def text_for_field)
    with refused [OF no] u res show "r = Inl (Cli_not_set (Field_not_set Not_assignable))" by auto
  qed
  ultimately show ?thesis by blast
qed

definition demo_cli :: "(string \<times> gval) list cfg_cli" where
  "demo_cli = \<lparr>cl_env = demo_mgr_env [], cl_watcher_ok = True, cl_watch_ok = True, cl_embedded = [], cl_mkdir_ok = True,
     cl_write_ok = True, cl_stamp = ''20240101-000000''\<rparr>"

lemma demo_cli_loads:
  "\<exists>m. manager_new (cl_env demo_cli) (cl_watcher_ok demo_cli) (cl_watch_ok demo_cli) get_config_path None (cl_embedded demo_cli) = Inr m \<and>
     cm_wemix m = Some (default_wemix ''/h'') \<and> cm_node m = Some (default_node (wx_home (default_wemix ''/h'')))"
  by (simp add: demo_cli_def demo_mgr_env_def demo_codec_def manager_new_def load_config_def empty_manager_def apply_defaults_def
      merge_configs_some save_config_def toml_path Let_def)

theorem config_set_persists_witness:
  "snd (config_set demo_cli ''MaxRestarts'' ''7'' None) = Inl (Cli_not_set (Field_not_set Not_assignable))"
proof -
  obtain m where m: "manager_new (cl_env demo_cli) (cl_watcher_ok demo_cli) (cl_watch_ok demo_cli) get_config_path None
      (cl_embedded demo_cli) = Inr m" "cm_wemix m = Some (default_wemix ''/h'')"
    "cm_node m = Some (default_node (wx_home (default_wemix ''/h'')))"
    using demo_cli_loads by blast
  have "\<exists>f\<in>set config_fields. fd_name f = ''MaxRestarts'' \<and> fd_type f \<noteq> TStr"
    by (simp add: config_fields_def process_fields_def in_group_def field_kinds)
  then show ?thesis
    using config_set_persists [OF m, of "''MaxRestarts''" "''7''"
        "fst (config_set demo_cli ''MaxRestarts'' ''7'' None)" "snd (config_set demo_cli ''MaxRestarts'' ''7'' None)"]
    by fastforce
qed

text \<open>
  The version that \<open>config migrate\<close> detects is always the first one: a configuration that was loaded has no
  version, so leaving the version out is the same as naming 0.4.0, whatever was migrated before.
\<close>

theorem migrate_detects_first_release:
  "config_migrate e '''' to backup = config_migrate e ''0.4.0'' to backup"
proof -
  have "migrate_from '''' c = migrate_from ''0.4.0'' c"
    if m: "manager_new (cl_env e) (cl_watcher_ok e) (cl_watch_ok e) get_config_path x (cl_embedded e) = Inr m"
      "current_cfg m = Some c" for m c x
  proof -
    obtain w n where "current_cfg m = Some (merge_cfg w n)"
      using loaded_manager [OF m(1)] by (metis current_cfg_def nth_Cons_0 option.simps(9))
    with m(2) have "cf_config_version (c_automation c) = ''''" by (auto simp: merge_cfg_def zero_config_def)
    then show ?thesis by (simp add: migrate_from_def)
  qed
  then show ?thesis
    by (auto simp: config_migrate_def with_manager_def fun_eq_iff Let_def split: sum.splits option.splits)
qed

end
