(* ===== verification/CliProfile.thy ===== *)
theory CliProfile
  imports Profiler Templates
begin

text \<open>
  \<open>internal/cli/profile.go\<close>: the commands that capture, list and clean profiles. Each makes a profiler on
  the directory given or on the one below the home directory, and starts it first. The table that
  \<open>list\<close> prints is given by its rows, before they are aligned.
\<close>

datatype profile_cli_error =
  Profiler_not_started pf_error | Cpu_not_started pf_error | Cpu_not_stopped pf_error | Not_captured pf_error
| Not_listed pf_error | Bad_max_age | Not_cleaned pf_error

definition profile_output :: "string \<Rightarrow> string \<Rightarrow> string" where
  "profile_output home output = (if output = '''' then path_join [home, ''profiles''] else output)"

definition with_profiler ::
  "pf_env \<Rightarrow> string \<Rightarrow> string \<Rightarrow> (profiler \<Rightarrow> pf_world \<Rightarrow> (pf_world, profile_cli_error, 'a) gores) \<Rightarrow>
     pf_world \<Rightarrow> (pf_world, profile_cli_error, 'a) gores" where
  "with_profiler env home output act w =
     (let p = new_profiler (profile_output home output) in
      case profiler_start env p w of
        (w1, Inl e) \<Rightarrow> (w1, Inl (Profiler_not_started e))
      | (w1, Inr _) \<Rightarrow> act p w1)"

text \<open>The profile is recorded for a while; the environment at its end is another one.\<close>

definition profile_cpu ::
  "pf_env \<Rightarrow> pf_env \<Rightarrow> string \<Rightarrow> string \<Rightarrow> pf_world \<Rightarrow> (pf_world, profile_cli_error, unit) gores" where
  "profile_cpu env env_end home output =
     with_profiler env home output (\<lambda>p w.
       case start_cpu_profile env (p, w) of
         ((p1, w1), Inl e) \<Rightarrow> (w1, Inl (Cpu_not_started e))
       | ((p1, w1), Inr _) \<Rightarrow>
           (case stop_cpu_profile env_end (p1, w1) of
              ((p2, w2), Inl e) \<Rightarrow> (w2, Inl (Cpu_not_stopped e))
            | ((p2, w2), Inr _) \<Rightarrow> (w2, Inr ())))"

definition capture ::
  "(pf_env \<Rightarrow> profiler \<Rightarrow> pf_world \<Rightarrow> (pf_world, pf_error, unit) gores) \<Rightarrow> pf_env \<Rightarrow> string \<Rightarrow> string \<Rightarrow>
     pf_world \<Rightarrow> (pf_world, profile_cli_error, unit) gores" where
  "capture write env home output =
     with_profiler env home output (\<lambda>p w. map_prod id (map_sum Not_captured id) (write env p w))"

definition profile_heap :: "pf_env \<Rightarrow> string \<Rightarrow> string \<Rightarrow> pf_world \<Rightarrow> (pf_world, profile_cli_error, unit) gores" where
  "profile_heap = capture write_heap_profile"

definition profile_goroutine :: "pf_env \<Rightarrow> string \<Rightarrow> string \<Rightarrow> pf_world \<Rightarrow> (pf_world, profile_cli_error, unit) gores" where
  "profile_goroutine = capture write_goroutine_profile"

definition profile_all :: "pf_env \<Rightarrow> string \<Rightarrow> string \<Rightarrow> pf_world \<Rightarrow> (pf_world, profile_cli_error, unit) gores" where
  "profile_all = capture write_all_profiles"

text \<open>A row: the type, the name, the size in whole kilobytes, the time.\<close>

definition profile_row :: "profile_info \<Rightarrow> string \<times> string \<times> int \<times> time" where
  "profile_row i = (pi_type i, pi_filename i, pi_size i div 1024, pi_timestamp i)"

datatype profile_table = No_profiles | Profile_table "(string \<times> string \<times> int \<times> time) list" nat

definition profile_list ::
  "pf_env \<Rightarrow> string \<Rightarrow> string \<Rightarrow> pf_world \<Rightarrow> (pf_world, profile_cli_error, profile_table) gores" where
  "profile_list env home output =
     with_profiler env home output (\<lambda>p w.
       (w, case list_profiles env p w of
             Inl e \<Rightarrow> Inl (Not_listed e)
           | Inr [] \<Rightarrow> Inr No_profiles
           | Inr infos \<Rightarrow> Inr (Profile_table (map profile_row infos) (length infos))))"

definition profile_clean ::
  "pf_env \<Rightarrow> string \<Rightarrow> string \<Rightarrow> string \<Rightarrow> pf_world \<Rightarrow> (pf_world, profile_cli_error, unit) gores" where
  "profile_clean env home output max_age w =
     (case parse_duration max_age of
        None \<Rightarrow> (w, Inl Bad_max_age)
      | Some age \<Rightarrow>
          with_profiler env home output
            (\<lambda>p w. map_prod id (map_sum Not_cleaned id) (clean_old_profiles env age p w)) w)"

section \<open>Lemmas\<close>

text \<open>The help of \<open>clean\<close> names 7d as an age, which no duration is.\<close>

lemma days_are_no_durations: "profile_clean env home output ''7d'' w = (w, Inl Bad_max_age)"
proof -
  have "parse_duration ''7d'' = None"
    by (simp add: parse_duration_def dur_item_def digit_val_def unit_ns_def digits_val_def Let_def del: map_of_eq_Some_iff)
  then show ?thesis by (simp add: profile_clean_def)
qed

text \<open>
  What \<open>profile cpu\<close> leaves: however it ends, it does not leave its own recording running; it is refused
  when another one of the process runs.
\<close>

lemma cpu_command_stops_recording:
  assumes "profile_cpu env env_end home output w = (w', r)"
  shows "pw_recording w' \<longleftrightarrow> pw_recording w" and "r = Inr () \<Longrightarrow> \<not> pw_recording w"
proof -
  have start: "pw_recording w1 = pw_recording w0" if "profiler_start env p w0 = (w1, x)" for p w0 w1 x
    using that by (auto simp: profiler_start_def split: prod.splits)
  show "pw_recording w' \<longleftrightarrow> pw_recording w" and "r = Inr () \<Longrightarrow> \<not> pw_recording w"
    using assms start
    by (auto simp: profile_cpu_def with_profiler_def Let_def start_cpu_profile_def stop_cpu_profile_def new_profiler_def
        split: prod.splits sum.splits option.splits if_splits)
qed

end
