(* ===== verification/CliLogs.thy ===== *)
theory CliLogs
  imports Prelude
begin

text \<open>
  \<open>internal/cli/utils.go\<close>: the end of a log file, and what is appended to it; and the decimal numbers of
  \<open>strconv\<close> that the commands read. A log file is the text in it.
\<close>

section \<open>Numbers\<close>

text \<open>\<open>strconv.ParseInt\<close> with base 10 and 64 bits, and \<open>strconv.Atoi\<close>: a sign, digits, the range.\<close>

definition parse_digits :: "string \<Rightarrow> nat option" where
  "parse_digits s = (if s = '''' then None else atoi_digits s 0)"

definition parse_int64 :: "string \<Rightarrow> int option" where
  "parse_int64 s =
     (let v = (case s of
                 c # cs \<Rightarrow> if c = CHR ''-'' then map_option (\<lambda>n. - int n) (parse_digits cs)
                           else if c = CHR ''+'' then map_option int (parse_digits cs)
                           else map_option int (parse_digits s)
               | [] \<Rightarrow> None) in
      case v of Some i \<Rightarrow> if is_int64 i then Some i else None | None \<Rightarrow> None)"

section \<open>Lines\<close>

abbreviation newline :: char where "newline \<equiv> CHR 0x0A"
abbreviation return_char :: char where "return_char \<equiv> CHR 0x0D"

text \<open>\<open>bufio.ScanLines\<close>: what is between the ends of lines, and a last line without an end.\<close>

fun raw_lines :: "string \<Rightarrow> string list" where
  "raw_lines [] = []"
| "raw_lines (c # cs) =
     (if c = newline then [] # raw_lines cs
      else (case raw_lines cs of [] \<Rightarrow> [[c]] | l # ls \<Rightarrow> (c # l) # ls))"

definition drop_return :: "string \<Rightarrow> string" where
  "drop_return l = (if l \<noteq> [] \<and> last l = return_char then butlast l else l)"

text \<open>The buffer of a scanner holds 64 KiB, so a longer line ends the scan with an error.\<close>

definition scan_lines :: "string \<Rightarrow> string list option" where
  "scan_lines s =
     (if \<forall>l\<in>set (raw_lines s). length l < 65536 then Some (map drop_return (raw_lines s)) else None)"

section \<open>The commands\<close>

datatype log_file = Log_absent | Log_unreadable | Log_text string

datatype log_error = Log_not_opened | Log_not_read

definition tail_logs :: "log_file \<Rightarrow> int \<Rightarrow> log_error + string list" where
  "tail_logs lf n =
     (case lf of
        Log_text s \<Rightarrow>
          (case scan_lines s of
             None \<Rightarrow> Inl Log_not_read
           | Some buffer \<Rightarrow>
               (let start = wrap64 (int (length buffer) - n) in
                Inr (drop (nat (if start < 0 then 0 else start)) buffer)))
      | _ \<Rightarrow> Inl Log_not_opened)"

text \<open>
  The loop of \<open>followLogs\<close>, which starts at the end of the file. It reads lines until it meets the end of
  the file; what it has then read of a line is dropped, and it looks again later. The argument is what
  was appended from one end to the next.
\<close>

definition whole_lines :: "string \<Rightarrow> string" where
  "whole_lines s = rev (dropWhile (\<lambda>c. c \<noteq> newline) (rev s))"

definition follow_logs :: "log_file \<Rightarrow> string list \<Rightarrow> log_error + string" where
  "follow_logs lf chunks =
     (case lf of Log_text _ \<Rightarrow> Inr (concat (map whole_lines chunks)) | _ \<Rightarrow> Inl Log_not_opened)"

section \<open>Lemmas\<close>

lemma parse_digits_str [simp]: "parse_digits (nat_str n) = Some n"
  by (simp add: parse_digits_def)

lemma parse_int64_str [simp]: "is_int64 i \<Longrightarrow> parse_int64 (int_str i) = Some i"
proof -
  assume i: "is_int64 i"
  have plus: "CHR ''+'' # xs \<noteq> nat_str n" for xs n
  proof
    assume "CHR ''+'' # xs = nat_str n"
    with hd_nat_str [of n] obtain d where "d < 10" and "CHR ''+'' = digit_char d"
      by (metis list.sel(1))
    then have "digit_val (CHR ''+'') = Some d" using \<open>d < 10\<close> by simp
    then show False by (simp add: digit_val_def)
  qed
  show ?thesis
  proof (cases "i < 0")
    case True
    with i show ?thesis by (simp add: parse_int64_def int_str_def Let_def)
  next
    case False
    obtain c cs where c: "nat_str (nat i) = c # cs" by (meson list.exhaust nat_str_nonempty)
    then have "c \<noteq> CHR ''-''" "c \<noteq> CHR ''+''" using minus_not_nat_str plus by metis+
    with False i c show ?thesis
      using parse_digits_str [of "nat i"] by (simp add: parse_int64_def int_str_def Let_def)
  qed
qed

lemma raw_lines_line:
  "newline \<notin> set l \<Longrightarrow> raw_lines (l @ newline # s) = l # raw_lines s"
  by (induction l) auto

lemma raw_lines_lines:
  "\<forall>l\<in>set ls. newline \<notin> set l \<Longrightarrow> raw_lines (concat (map (\<lambda>l. l @ [newline]) ls)) = ls"
  by (induction ls) (simp_all add: raw_lines_line)

lemma whole_lines_length: "length (whole_lines s) \<le> length s"
  by (metis length_dropWhile_le length_rev whole_lines_def)

lemma whole_lines_prefix: "whole_lines s @ rev (takeWhile (\<lambda>c. c \<noteq> newline) (rev s)) = s"
  by (metis rev_append rev_rev_ident takeWhile_dropWhile_id whole_lines_def)

lemma whole_lines_id: "whole_lines s = s \<longleftrightarrow> s = [] \<or> last s = newline"
proof -
  have "whole_lines s = s \<longleftrightarrow> dropWhile (\<lambda>c. c \<noteq> newline) (rev s) = rev s"
    by (metis rev_rev_ident whole_lines_def)
  also have "\<dots> \<longleftrightarrow> s = [] \<or> last s = newline"
    by (cases s rule: rev_cases) (auto simp: dropWhile_eq_Cons_conv)
  finally show ?thesis .
qed

text \<open>
  A log of whole lines comes back as it was written: \<open>tailLogs\<close> prints the last lines, as many as asked
  for, all of them when there are fewer, and none for a negative number.
\<close>

theorem tail_prints_last_lines:
  assumes "\<forall>l\<in>set ls. newline \<notin> set l \<and> length l < 65536 \<and> (l \<noteq> [] \<longrightarrow> last l \<noteq> return_char)"
    and "is_int64 n" and "is_int64 (int (length ls) - n)"
  shows "tail_logs (Log_text (concat (map (\<lambda>l. l @ [newline]) ls))) n =
    Inr (if n < 0 then [] else drop (length ls - nat n) ls)"
proof -
  let ?s = "concat (map (\<lambda>l. l @ [newline]) ls)"
  have raw: "raw_lines ?s = ls" using assms(1) by (simp add: raw_lines_lines)
  have "map drop_return ls = ls" using assms(1) by (intro map_idI) (auto simp: drop_return_def)
  with raw assms(1) have "scan_lines ?s = Some ls" by (simp add: scan_lines_def)
  with assms(3) show ?thesis
    by (auto simp: tail_logs_def Let_def wrap64_id nat_diff_distrib nat_le_iff intro!: arg_cong [where f = "\<lambda>k. drop k ls"])
qed

theorem tail_prints_last_lines_witness:
  "tail_logs (Log_text (''a'' @ [newline] @ ''b'' @ [newline] @ ''c'' @ [newline])) 2 = Inr [''b'', ''c'']"
  using tail_prints_last_lines [of "[''a'', ''b'', ''c'']" 2] by (simp add: is_int64_def)

text \<open>
  Following a log prints what is appended exactly when every end of the file that is met is the end of a
  line: the part of a line that was read before is lost.
\<close>

theorem follow_loses_partial_lines:
  "follow_logs (Log_text s) chunks = Inr (concat chunks) \<longleftrightarrow>
     (\<forall>chunk\<in>set chunks. chunk = [] \<or> last chunk = newline)"
proof -
  have "concat (map whole_lines chunks) = concat chunks \<longleftrightarrow> (\<forall>chunk\<in>set chunks. whole_lines chunk = chunk)"
  proof (induction chunks)
    case (Cons c cs)
    have len: "length (concat (map whole_lines cs)) \<le> length (concat cs)"
      by (induction cs) (auto intro: add_mono whole_lines_length)
    have "whole_lines c = c" if "whole_lines c @ concat (map whole_lines cs) = c @ concat cs"
    proof -
      have "length (whole_lines c) + length (concat (map whole_lines cs)) = length c + length (concat cs)"
        using arg_cong [OF that, of length] by (simp only: length_append)
      with len whole_lines_length [of c] have "length (whole_lines c) = length c" by linarith
      with that show ?thesis by (simp add: append_eq_append_conv)
    qed
    with Cons.IH show ?case by auto
  qed simp
  then show ?thesis by (simp add: follow_logs_def whole_lines_id)
qed

end
