(* ===== verification/CliUpgrade.thy ===== *)
theory CliUpgrade
  imports FileWatcher ConfigModel CliLogs
begin

text \<open>
  \<open>internal/cli/upgrade.go\<close>: the commands that schedule an upgrade, show it and cancel it. All three only
  touch the upgrade-info file, which the file watcher polls. The output is a list of lines, of entries of
  the \<open>info\<close> object, and of JSON documents.
\<close>

datatype up_out = Out_text string | Out_info string json | Out_doc json

datatype up_cli_error =
  Bad_height string | Height_refused int | Bad_binaries | Data_dir_failed
| Info_not_written types_error | Info_not_read types_error | Info_not_removed

record sched_env =
  sv_json :: "string \<Rightarrow> json option"
  sv_mkdir_ok :: bool
  sv_writable :: bool
  sv_now :: time

definition info_path :: "config \<Rightarrow> string" where
  "info_path c = upgrade_info_file_path (paths_of c)"

definition json_output :: "config \<Rightarrow> bool" where
  "json_output c = cf_json_output (c_automation c)"

text \<open>
  \<open>json.Unmarshal\<close> of a value into a map of strings: the text of a null entry is empty, and a null for
  the whole leaves the map nil.
\<close>

fun str_or_null :: "json \<Rightarrow> string option" where
  "str_or_null (JStr s) = Some s"
| "str_or_null JNull = Some ''''"
| "str_or_null _ = None"

fun str_entries :: "(string \<times> json) list \<Rightarrow> (string, string) gomap \<Rightarrow> (string, string) gomap option" where
  "str_entries [] m = Some m"
| "str_entries ((k, v) # kvs) m =
     (case str_or_null v of None \<Rightarrow> None | Some s \<Rightarrow> str_entries kvs (gm_put k s m))"

fun unmarshal_strings :: "json \<Rightarrow> (string, string) gomap option option" where
  "unmarshal_strings JNull = Some None"
| "unmarshal_strings (JObj kvs) = map_option Some (str_entries kvs [])"
| "unmarshal_strings _ = None"

definition strings_json :: "(string, string) gomap option \<Rightarrow> json" where
  "strings_json m = (case m of None \<Rightarrow> JNull | Some kvs \<Rightarrow> JObj (map (\<lambda>(k, v). (k, JStr v)) kvs))"

text \<open>The document of an upgrade; an empty \<open>info\<close> object is left out.\<close>

definition upgrade_doc :: "upgrade_info \<Rightarrow> json" where
  "upgrade_doc u =
     JObj ([(''name'', JStr (ui_name u)), (''height'', JNum (int_str (ui_height u)))] @
           (if ui_info u = [] then [] else [(''info'', JObj (ui_info u))]))"

section \<open>Schedule\<close>

definition schedule_info ::
  "sched_env \<Rightarrow> string \<Rightarrow> string \<Rightarrow> string \<Rightarrow> up_cli_error + (string \<times> json) list" where
  "schedule_info e binaries checksum info =
     (let rest = (if checksum \<noteq> '''' then [(''checksum'', JStr checksum)] else []) @
                 (if info \<noteq> '''' then [(''description'', JStr info)] else []) in
      if binaries = '''' then Inr rest
      else (case Option.bind (sv_json e binaries) unmarshal_strings of
              None \<Rightarrow> Inl Bad_binaries
            | Some m \<Rightarrow> Inr ((''binaries'', strings_json m) # rest)))"

definition check_mark :: string where
  "check_mark = [CHR 0xE2, CHR 0x9C, CHR 0x93, CHR 0x20]"

definition schedule_lines :: "config \<Rightarrow> upgrade_info \<Rightarrow> up_out list" where
  "schedule_lines c u =
     (if json_output c then [Out_doc (upgrade_doc u)]
      else [Out_text (check_mark @ ''Upgrade scheduled successfully''), Out_text (''  Name:   '' @ ui_name u),
            Out_text (''  Height: '' @ int_str (ui_height u)), Out_text (''  File:   '' @ info_path c), Out_text '''',
            Out_text (''The upgrade will be triggered automatically when the blockchain reaches height '' @
              int_str (ui_height u) @ ''.'')])"

definition cli_schedule ::
  "sched_env \<Rightarrow> config \<Rightarrow> string \<Rightarrow> string \<Rightarrow> string \<Rightarrow> string \<Rightarrow> string \<Rightarrow>
     ufs \<Rightarrow> (ufs, up_cli_error, up_out list) gores" where
  "cli_schedule e c name height binaries checksum info fs =
     (case parse_int64 height of
        None \<Rightarrow> (fs, Inl (Bad_height height))
      | Some h \<Rightarrow>
          if h \<le> 0 then (fs, Inl (Height_refused h))
          else (case schedule_info e binaries checksum info of
                  Inl err \<Rightarrow> (fs, Inl err)
                | Inr kvs \<Rightarrow>
                    (let u = \<lparr>ui_name = name, ui_height = h, ui_info = kvs\<rparr> in
                     if \<not> sv_mkdir_ok e then (fs, Inl Data_dir_failed)
                     else (case write_upgrade_info_file (sv_writable e) (sv_now e) (info_path c) u fs of
                             (fs1, Inl err) \<Rightarrow> (fs1, Inl (Info_not_written err))
                           | (fs1, Inr _) \<Rightarrow> (fs1, Inr (schedule_lines c u))))))"

section \<open>Status\<close>

definition nothing_lines :: "config \<Rightarrow> string \<Rightarrow> up_out list" where
  "nothing_lines c text =
     [if json_output c then Out_doc (JObj [(''message'', JStr text), (''status'', JStr ''no_upgrade'')]) else Out_text text]"

definition status_lines :: "config \<Rightarrow> upgrade_info \<Rightarrow> up_out list" where
  "status_lines c u =
     (if json_output c then [Out_doc (JObj [(''status'', JStr ''scheduled''), (''upgrade'', upgrade_doc u)])]
      else [Out_text ''Upgrade Status: SCHEDULED'', Out_text '''', Out_text (''  Name:   '' @ ui_name u),
            Out_text (''  Height: '' @ int_str (ui_height u))] @
           (if ui_info u = [] then []
            else [Out_text '''', Out_text ''Additional Info:''] @ map (\<lambda>(k, v). Out_info k v) (ui_info u)) @
           [Out_text '''', Out_text (''The upgrade will trigger automatically when the blockchain reaches height '' @
              int_str (ui_height u) @ ''.'')])"

definition cli_upgrade_status :: "config \<Rightarrow> ufs \<Rightarrow> up_cli_error + up_out list" where
  "cli_upgrade_status c fs =
     (if fs (info_path c) = Absent then Inr (nothing_lines c ''No upgrade scheduled'')
      else (case parse_upgrade_info_file fs (info_path c) of
              Inl err \<Rightarrow> Inl (Info_not_read err) | Inr u \<Rightarrow> Inr (status_lines c u)))"

section \<open>Cancel\<close>

definition cancel_prompt :: "upgrade_info \<Rightarrow> up_out" where
  "cancel_prompt u =
     Out_text (''Cancel upgrade '' @ CHR 0x27 # ui_name u @ CHR 0x27 # '' at height '' @ int_str (ui_height u) @ ''? (y/N): '')"

definition cancel_lines :: "config \<Rightarrow> upgrade_info \<Rightarrow> up_out list" where
  "cancel_lines c u =
     (if json_output c then [Out_doc (JObj [(''status'', JStr ''cancelled''), (''upgrade'', upgrade_doc u)])]
      else [Out_text (check_mark @ ''Upgrade cancelled successfully''), Out_text (''  Name:   '' @ ui_name u),
            Out_text (''  Height: '' @ int_str (ui_height u))])"

definition confirmed :: "config \<Rightarrow> bool \<Rightarrow> string \<Rightarrow> bool" where
  "confirmed c force response \<longleftrightarrow>
     force \<or> cf_quiet (c_automation c) \<or> response \<in> {''y'', ''Y'', ''yes''}"

text \<open>The prompt and its answer are skipped with \<open>--force\<close> and in quiet mode.\<close>

definition cli_cancel ::
  "config \<Rightarrow> bool \<Rightarrow> string \<Rightarrow> bool \<Rightarrow> ufs \<Rightarrow> (ufs, up_cli_error, up_out list) gores" where
  "cli_cancel c force response remove_ok fs =
     (if fs (info_path c) = Absent then (fs, Inr (nothing_lines c ''No upgrade to cancel''))
      else (case parse_upgrade_info_file fs (info_path c) of
              Inl err \<Rightarrow> (fs, Inl (Info_not_read err))
            | Inr u \<Rightarrow>
                (let asked = (if force \<or> cf_quiet (c_automation c) then [] else [cancel_prompt u]) in
                 if \<not> confirmed c force response then (fs, Inr (asked @ [Out_text ''Cancellation aborted'']))
                 else if \<not> remove_ok then (fs, Inl Info_not_removed)
                 else (fs(info_path c := Absent), Inr (asked @ cancel_lines c u)))))"

section \<open>Lemmas\<close>

lemma schedule_cases:
  assumes "cli_schedule e c name height binaries checksum info fs = (fs', Inr out)"
  obtains h kvs where "parse_int64 height = Some h" and "0 < h" and "schedule_info e binaries checksum info = Inr kvs"
    and "fs' = fs(info_path c := Present \<lparr>uf_empty = False, uf_mtime = sv_now e,
                    uf_decoded = Some \<lparr>ui_name = name, ui_height = h, ui_info = kvs\<rparr>\<rparr>)"
    and "out = schedule_lines c \<lparr>ui_name = name, ui_height = h, ui_info = kvs\<rparr>"
  using assms by (auto simp: cli_schedule_def write_upgrade_info_file_def Let_def split: option.splits sum.splits if_splits)

lemma str_entries_ok: "str_entries kvs m = Some m' \<Longrightarrow> gm_ok m \<Longrightarrow> gm_ok m'"
  by (induction kvs m rule: str_entries.induct) (auto split: option.splits)

lemma add_strings_lookup:
  fixes m :: "(string, string) gomap"
  assumes "gm_ok m"
  shows "map_of (add_binaries (map (\<lambda>(k, v). (k, JStr v)) m) []) p = map_of m p"
proof -
  let ?js = "map (\<lambda>(k, v). (k, JStr v)) m"
  have "map fst ?js = map fst m" by (simp add: comp_def case_prod_unfold)
  then have "gm_ok ?js" using assms by (simp only:)
  then have "map_of (add_binaries ?js []) p = (case as_str (map_of ?js p) of Some s \<Rightarrow> Some s | None \<Rightarrow> None)"
    by (simp add: add_binaries_lookup split: option.split)
  also have "map_of ?js p = map_option JStr (map_of m p)" by (simp only: map_of_map comp_def)
  also have "(case as_str (map_option JStr (map_of m p)) of Some s \<Rightarrow> Some s | None \<Rightarrow> None) = map_of m p"
    by (cases "map_of m p") simp_all
  finally show ?thesis .
qed

text \<open>The table the downloader reads from a scheduled upgrade is the one that was given.\<close>

lemma scheduled_binaries:
  assumes "schedule_info e binaries checksum info = Inr kvs" and "binaries \<noteq> ''''"
    and "sv_json e binaries = Some j" and "unmarshal_strings j = Some (Some m)"
  shows "\<exists>b. parse_binary_info kvs = Inr b \<and> bi_checksum b = checksum \<and> (\<forall>p. map_of (bi_binaries b) p = map_of m p)"
proof -
  obtain kvs' where "j = JObj kvs'" "str_entries kvs' [] = Some m"
    using assms(4) by (cases j) auto
  then have m: "gm_ok m" using str_entries_ok [of kvs' "[]" m] by simp
  let ?rest = "(if checksum \<noteq> '''' then [(''checksum'', JStr checksum)] else []) @
    (if info \<noteq> '''' then [(''description'', JStr info)] else [])"
  from assms have k: "kvs = (''binaries'', JObj (map (\<lambda>(k, v). (k, JStr v)) m)) # ?rest"
    by (simp add: schedule_info_def strings_json_def Let_def)
  have "(case as_str (map_of ?rest ''checksum'') of Some s \<Rightarrow> s | None \<Rightarrow> '''') = checksum"
    by (cases "checksum = ''''"; cases "info = ''''") simp_all
  then show ?thesis
    using m by (simp add: k parse_binary_info_def add_strings_lookup del: map_of_append map_of_eq_Some_iff)
qed

lemma absent_ticks:
  assumes "\<forall>fs\<in>set fss. fs (fw_filename fw) = Absent"
  shows "watch_ticks fss fw = fw"
  using assms by (induction fss) (simp_all add: check_for_update_def check_file_def)

text \<open>
  C36. A scheduled upgrade is seen by a watcher that polls after it, unless it has the name and the height of
  the one the watcher holds already. An empty name is accepted, but the file then cannot be read: the
  status is an error and no watcher ever sees it.
\<close>

theorem scheduled_upgrade_is_detected:
  assumes "cli_schedule e c name height binaries checksum info fs = (fs', Inr out)"
    and "fw_filename fw = info_path c" and "fw_last_mod fw < sv_now e"
  shows "\<exists>u. ui_name u = name \<and> parse_int64 height = Some (ui_height u) \<and> 0 < ui_height u \<and>
    (if name = '''' then
       cli_upgrade_status c fs' = Inl (Info_not_read Name_empty) \<and> check_for_update fs' fw = (fw, False)
     else
       cli_upgrade_status c fs' = Inr (status_lines c u) \<and>
       (snd (check_for_update fs' fw) \<longleftrightarrow>
          (\<forall>cur. fw_current fw = Some cur \<longrightarrow> ui_name cur \<noteq> name \<or> ui_height cur \<noteq> ui_height u)) \<and>
       (snd (check_for_update fs' fw) \<longrightarrow>
          needs_update (fst (check_for_update fs' fw)) \<and> get_current_upgrade (fst (check_for_update fs' fw)) = Some u))"
proof -
  from assms(1) obtain h kvs where h: "parse_int64 height = Some h" "0 < h"
    and fs': "fs' = fs(info_path c := Present \<lparr>uf_empty = False, uf_mtime = sv_now e,
                    uf_decoded = Some \<lparr>ui_name = name, ui_height = h, ui_info = kvs\<rparr>\<rparr>)"
    by (rule schedule_cases)
  let ?u = "\<lparr>ui_name = name, ui_height = h, ui_info = kvs\<rparr>"
  have p: "parse_upgrade_info_file fs' (info_path c) = (if name = '''' then Inl Name_empty else Inr ?u)"
    using h(2) by (simp add: fs' parse_upgrade_info_file_def)
  have s: "cli_upgrade_status c fs' =
      (if name = '''' then Inl (Info_not_read Name_empty) else Inr (status_lines c ?u))"
    unfolding cli_upgrade_status_def p by (simp add: fs')
  have f: "check_file fs' fw =
      (if name = '''' then (fw, Inl Parse_failed) else (fw\<lparr>fw_last_mod := sv_now e\<rparr>, Inr (Some ?u)))"
    unfolding check_file_def assms(2) p using assms(3) by (simp add: fs')
  show ?thesis
    using h s f
    by (intro exI [of _ ?u])
      (auto simp: check_for_update_def needs_update_def get_current_upgrade_def split: option.splits)
qed

text \<open>
  C37. Cancelling removes the file but is not seen by a watcher that saw the upgrade: however often it then
  polls, it hands the cancelled upgrade to the one who waits.
\<close>

theorem cancelled_upgrade_is_handed_out:
  assumes "cli_cancel c force response True fs = (fs', Inr out)" and "fs (info_path c) \<noteq> Absent"
    and "confirmed c force response" and "fw_filename fw = info_path c"
    and "needs_update fw" and "\<not> fw_stop_closed fw"
  shows "fs' = fs(info_path c := Absent) \<and>
    wait_for_upgrade_round (watch_ticks (replicate n fs') fw) =
      (clear_update_flag fw, Some (get_current_upgrade fw))"
proof -
  have fs': "fs' = fs(info_path c := Absent)"
    using assms(1,2,3) by (auto simp: cli_cancel_def Let_def split: sum.splits)
  then have "watch_ticks (replicate n fs') fw = fw" using assms(4) by (intro absent_ticks) simp
  with fs' assms(5,6) show ?thesis by (simp add: wait_for_upgrade_round_def)
qed

definition demo_sched_env :: sched_env where
  "demo_sched_env = \<lparr>sv_json = \<lambda>_. None, sv_mkdir_ok = True, sv_writable = True, sv_now = 7\<rparr>"

definition demo_cfg :: config where
  "demo_cfg = default_config '''' ''/root''"

theorem scheduled_upgrade_is_detected_witness:
  "\<exists>fs' out. cli_schedule demo_sched_env demo_cfg ''v2'' ''100'' '''' ''ab'' '''' (\<lambda>_. Absent) = (fs', Inr out) \<and>
     snd (check_for_update fs' (new_file_watcher (info_path demo_cfg) second))"
proof -
  have h: "parse_int64 ''100'' = Some 100"
    by (simp add: parse_int64_def parse_digits_def digit_val_def is_int64_def)
  obtain fs' out where s: "cli_schedule demo_sched_env demo_cfg ''v2'' ''100'' '''' ''ab'' '''' (\<lambda>_. Absent) = (fs', Inr out)"
    by (simp add: cli_schedule_def h schedule_info_def write_upgrade_info_file_def demo_sched_env_def Let_def)
  have "snd (check_for_update fs' (new_file_watcher (info_path demo_cfg) second))"
    using scheduled_upgrade_is_detected [OF s, of "new_file_watcher (info_path demo_cfg) second"]
    by (auto simp: new_file_watcher_def demo_sched_env_def)
  with s show ?thesis by blast
qed

definition demo_scheduled :: "config \<Rightarrow> ufs" where
  "demo_scheduled c = (\<lambda>_. Absent)(info_path c := Present \<lparr>uf_empty = False, uf_mtime = 7,
     uf_decoded = Some \<lparr>ui_name = ''v2'', ui_height = 100, ui_info = []\<rparr>\<rparr>)"

theorem cancelled_upgrade_is_handed_out_witness:
  "\<exists>fs'. fst (cli_cancel demo_cfg True '''' True (demo_scheduled demo_cfg)) = fs' \<and> fs' (info_path demo_cfg) = Absent \<and>
     snd (wait_for_upgrade_round (watch_ticks (replicate 3 fs')
       (fst (check_for_update (demo_scheduled demo_cfg) (new_file_watcher (info_path demo_cfg) second))))) =
     Some (Some \<lparr>ui_name = ''v2'', ui_height = 100, ui_info = []\<rparr>)"
proof -
  let ?fw = "fst (check_for_update (demo_scheduled demo_cfg) (new_file_watcher (info_path demo_cfg) second))"
  have p: "parse_upgrade_info_file (demo_scheduled demo_cfg) (info_path demo_cfg) = Inr \<lparr>ui_name = ''v2'', ui_height = 100, ui_info = []\<rparr>"
    by (simp add: parse_upgrade_info_file_def demo_scheduled_def)
  have there: "demo_scheduled demo_cfg (info_path demo_cfg) \<noteq> Absent" "confirmed demo_cfg True ''''"
    by (simp_all add: demo_scheduled_def confirmed_def)
  then obtain fs' out where s: "cli_cancel demo_cfg True '''' True (demo_scheduled demo_cfg) = (fs', Inr out)"
    by (simp add: cli_cancel_def p Let_def)
  have fw: "fw_filename ?fw = info_path demo_cfg" "needs_update ?fw" "\<not> fw_stop_closed ?fw"
    "get_current_upgrade ?fw = Some \<lparr>ui_name = ''v2'', ui_height = 100, ui_info = []\<rparr>"
  proof -
    have name: "fw_filename (new_file_watcher (info_path demo_cfg) second) = info_path demo_cfg" by (simp add: new_file_watcher_def)
    show "fw_filename ?fw = info_path demo_cfg" "needs_update ?fw" "\<not> fw_stop_closed ?fw"
      "get_current_upgrade ?fw = Some \<lparr>ui_name = ''v2'', ui_height = 100, ui_info = []\<rparr>"
      unfolding check_for_update_def check_file_def name p
      by (simp_all add: new_file_watcher_def demo_scheduled_def needs_update_def get_current_upgrade_def)
  qed
  have "fs' (info_path demo_cfg) = Absent \<and> snd (wait_for_upgrade_round (watch_ticks (replicate 3 fs') ?fw)) =
      Some (Some \<lparr>ui_name = ''v2'', ui_height = 100, ui_info = []\<rparr>)"
    using cancelled_upgrade_is_handed_out [OF s there fw(1-3), of 3] by (auto simp only: fw(4) snd_conv fun_upd_same)
  with s show ?thesis by (metis fst_conv)
qed

end
