(* ===== verification/Startup.thy ===== *)
theory Startup
  imports ConfigModel
begin

text \<open>
  How the program gets its configuration and its logger: \<open>cmd/wemixvisor/main.go\<close> with the flags of
  \<open>internal/cli/root.go\<close>, \<open>internal/commands/run.go\<close>, and \<open>pkg/logger/logger.go\<close>. The environment is the
  function \<open>os.Getenv\<close>; a flag that was not given is \<open>None\<close>, or the empty text where the code does not
  ask whether it was.
\<close>

section \<open>The logger\<close>

record logger_cfg =
  lg_development :: bool
  lg_colour :: bool
  lg_outputs :: "string list"

text \<open>\<open>logger.New\<close>: building fails when an output cannot be opened.\<close>

definition logger_new :: "(string \<Rightarrow> bool) \<Rightarrow> bool \<Rightarrow> bool \<Rightarrow> string \<Rightarrow> logger_cfg option" where
  "logger_new open_ok debug colour log_file =
     (let outs = ''stdout'' # (if log_file \<noteq> '''' then [log_file] else []) in
      if \<forall>out\<in>set outs. open_ok out
      then Some \<lparr>lg_development = debug, lg_colour = (debug \<and> colour), lg_outputs = outs\<rparr>
      else None)"

text \<open>An argument of a log call is a field, a text or something else; a field has a key and an argument.\<close>

datatype ('f, 'v) log_arg = Zap_arg 'f | Str_arg string | Other_arg 'v

datatype ('f, 'v) log_field = Zap_field 'f | Any_field string "('f, 'v) log_arg"

definition arg_key :: "nat \<Rightarrow> string" where
  "arg_key i = ''arg_'' @ nat_str i"

text \<open>The loop over keys and values; the number is the position in the call.\<close>

fun pair_fields :: "nat \<Rightarrow> ('f, 'v) log_arg list \<Rightarrow> ('f, 'v) log_field list" where
  "pair_fields i [] = []"
| "pair_fields i [a] = [Any_field (arg_key i) a]"
| "pair_fields i (a # b # rest) =
     (case a of
        Str_arg key \<Rightarrow> Any_field key b # pair_fields (Suc (Suc i)) rest
      | _ \<Rightarrow> Any_field (arg_key i) a # pair_fields (Suc i) (b # rest))"

definition to_zap_fields :: "('f, 'v) log_arg list \<Rightarrow> ('f, 'v) log_field list" where
  "to_zap_fields args =
     (case args of
        Zap_arg f # rest \<Rightarrow>
          Zap_field f # List.map_filter (\<lambda>a. case a of Zap_arg g \<Rightarrow> Some (Zap_field g) | _ \<Rightarrow> None) rest
      | _ \<Rightarrow> pair_fields 0 args)"

section \<open>The program \<open>wemixvisor\<close>\<close>

type_synonym getenv = "string \<Rightarrow> string"

definition set_home :: "string \<Rightarrow> config \<Rightarrow> config" where
  "set_home v c = c\<lparr>c_core := (c_core c)\<lparr>cf_home := v\<rparr>\<rparr>"

definition set_name :: "string \<Rightarrow> config \<Rightarrow> config" where
  "set_name v c = c\<lparr>c_core := (c_core c)\<lparr>cf_name := v\<rparr>\<rparr>"

definition set_allow :: "bool \<Rightarrow> config \<Rightarrow> config" where
  "set_allow b c = c\<lparr>c_upgrade := (c_upgrade c)\<lparr>cf_allow_download_binaries := b\<rparr>\<rparr>"

definition set_restart :: "bool \<Rightarrow> config \<Rightarrow> config" where
  "set_restart b c = c\<lparr>c_upgrade := (c_upgrade c)\<lparr>cf_restart_after_upgrade := b\<rparr>\<rparr>"

definition set_skip_backup :: "bool \<Rightarrow> config \<Rightarrow> config" where
  "set_skip_backup b c = c\<lparr>c_backup := (c_backup c)\<lparr>cf_unsafe_skip_backup := b\<rparr>\<rparr>"

definition set_automation :: "bool \<Rightarrow> config \<Rightarrow> config" where
  "set_automation b c = c\<lparr>c_automation := (c_automation c)\<lparr>cf_upgrade_enabled := b\<rparr>\<rparr>"

definition env_config :: "getenv \<Rightarrow> config" where
  "env_config env = default_config (env ''DAEMON_HOME'') (env ''HOME'')"

definition set_if :: "bool \<Rightarrow> ('a \<Rightarrow> config \<Rightarrow> config) \<Rightarrow> 'a \<Rightarrow> config \<Rightarrow> config" where
  "set_if b set_it x c = (if b then set_it x c else c)"

definition apply_env_vars :: "getenv \<Rightarrow> config \<Rightarrow> config" where
  "apply_env_vars env c =
     (let c1 = set_if (env ''DAEMON_HOME'' \<noteq> '''') set_home (env ''DAEMON_HOME'') c;
          c2 = set_if (env ''DAEMON_NAME'' \<noteq> '''') set_name (env ''DAEMON_NAME'') c1;
          c3 = set_if (env ''DAEMON_ALLOW_DOWNLOAD_BINARIES'' = ''true'') set_allow True c2;
          c4 = set_if (env ''DAEMON_RESTART_AFTER_UPGRADE'' = ''false'') set_restart False c3;
          c5 = set_if (env ''DAEMON_UPGRADE_ENABLED'' = ''false'') set_automation False c4 in
      set_if (env ''UNSAFE_SKIP_BACKUP'' = ''true'') set_skip_backup True c5)"

text \<open>The flags of the root command write into the configuration.\<close>

record root_flags =
  rt_home :: "string option"
  rt_name :: "string option"
  rt_restart :: "bool option"
  rt_allow :: "bool option"
  rt_skip_backup :: "bool option"

definition given :: "('a \<Rightarrow> config \<Rightarrow> config) \<Rightarrow> 'a option \<Rightarrow> config \<Rightarrow> config" where
  "given set_it v c = (case v of None \<Rightarrow> c | Some x \<Rightarrow> set_it x c)"

definition apply_root_flags :: "root_flags \<Rightarrow> config \<Rightarrow> config" where
  "apply_root_flags f c =
     given set_skip_backup (rt_skip_backup f) (given set_allow (rt_allow f) (given set_restart (rt_restart f)
       (given set_name (rt_name f) (given set_home (rt_home f) c))))"

definition main_config :: "getenv \<Rightarrow> root_flags \<Rightarrow> config" where
  "main_config env f = apply_root_flags f (apply_env_vars env (env_config env))"

definition asks_for_help :: "string list \<Rightarrow> bool" where
  "asks_for_help args \<longleftrightarrow> (case args of a # _ \<Rightarrow> a \<in> {''--help'', ''-h'', ''help''} | [] \<Rightarrow> False)"

text \<open>What \<open>main\<close> comes to: the help, an exit with status 1, or the commands with their configuration.\<close>

datatype main_result = Main_help | Main_no_logger | Main_commands config logger_cfg

definition main_start :: "(string \<Rightarrow> bool) \<Rightarrow> getenv \<Rightarrow> root_flags \<Rightarrow> string list \<Rightarrow> main_result" where
  "main_start open_ok env f args =
     (if asks_for_help args then Main_help
      else (case logger_new open_ok False True '''' of
              None \<Rightarrow> Main_no_logger | Some lg \<Rightarrow> Main_commands (main_config env f) lg))"

section \<open>The command \<open>run\<close> of package \<open>commands\<close>\<close>

record run_flags =
  rf_home :: string
  rf_name :: string
  rf_allow :: "bool option"
  rf_restart :: "bool option"
  rf_grace :: "duration option"
  rf_poll :: "duration option"
  rf_rpc :: string
  rf_skip_backup :: "bool option"

definition set_grace :: "duration \<Rightarrow> config \<Rightarrow> config" where
  "set_grace d c = c\<lparr>c_process := (c_process c)\<lparr>cf_shutdown_grace := d\<rparr>\<rparr>"

definition set_poll :: "duration \<Rightarrow> config \<Rightarrow> config" where
  "set_poll d c = c\<lparr>c_process := (c_process c)\<lparr>cf_poll_interval := d\<rparr>\<rparr>"

definition set_rpc :: "string \<Rightarrow> config \<Rightarrow> config" where
  "set_rpc v c = c\<lparr>c_wbft := (c_wbft c)\<lparr>cf_rpc_address := v\<rparr>\<rparr>"

text \<open>The pattern of the text settings: the flag, then the variable, then what is there.\<close>

definition text_setting :: "(string \<Rightarrow> config \<Rightarrow> config) \<Rightarrow> string \<Rightarrow> string \<Rightarrow> config \<Rightarrow> config" where
  "text_setting set_it flag var c = (if flag \<noteq> '''' then set_it flag c else if var \<noteq> '''' then set_it var c else c)"

text \<open>The pattern of the switches: a given flag, then a variable with its reading.\<close>

definition bool_setting ::
  "(bool \<Rightarrow> config \<Rightarrow> config) \<Rightarrow> bool option \<Rightarrow> (string \<Rightarrow> bool) \<Rightarrow> string \<Rightarrow> config \<Rightarrow> config" where
  "bool_setting set_it flag reading var c =
     (case flag of Some b \<Rightarrow> set_it b c | None \<Rightarrow> if var \<noteq> '''' then set_it (reading var) c else c)"

definition set_log_env :: "getenv \<Rightarrow> config \<Rightarrow> config" where
  "set_log_env env c =
     (let l = c_logging c;
          l1 = (if env ''COSMOVISOR_DISABLE_LOGS'' = ''true'' then l\<lparr>cf_disable_logs := True\<rparr> else l);
          l2 = (if env ''COSMOVISOR_COLOR_LOGS'' = ''false'' then l1\<lparr>cf_color_logs := False\<rparr> else l1);
          l3 = (if env ''COSMOVISOR_TIMEFORMAT_LOGS'' \<noteq> ''''
                then l2\<lparr>cf_time_format_logs := env ''COSMOVISOR_TIMEFORMAT_LOGS''\<rparr> else l2) in
      c\<lparr>c_logging := l3\<rparr>)"

definition load_run_config :: "getenv \<Rightarrow> run_flags \<Rightarrow> config" where
  "load_run_config env f =
     (let c1 = text_setting set_home (rf_home f) (env ''DAEMON_HOME'') (env_config env);
          c2 = text_setting set_name (rf_name f) (env ''DAEMON_NAME'') c1;
          c3 = bool_setting set_allow (rf_allow f) (\<lambda>v. v = ''true'') (env ''DAEMON_ALLOW_DOWNLOAD_BINARIES'') c2;
          c4 = bool_setting set_restart (rf_restart f) (\<lambda>v. v \<noteq> ''false'') (env ''DAEMON_RESTART_AFTER_UPGRADE'') c3;
          c5 = bool_setting set_skip_backup (rf_skip_backup f) (\<lambda>v. v = ''true'') (env ''UNSAFE_SKIP_BACKUP'') c4;
          c6 = given set_grace (rf_grace f) c5;
          c7 = given set_poll (rf_poll f) c6;
          c8 = text_setting set_rpc (rf_rpc f) (env ''DAEMON_RPC_ADDRESS'') c7 in
      set_log_env env c8)"

datatype run_error = Run_invalid config_error | Run_no_logger

text \<open>\<open>runExecute\<close> up to the process manager, which gets the configuration and the logger.\<close>

definition run_execute ::
  "(string \<Rightarrow> bool) \<Rightarrow> getenv \<Rightarrow> run_flags \<Rightarrow> string list \<Rightarrow> run_error + config \<times> logger_cfg" where
  "run_execute open_ok env f args =
     (let c0 = load_run_config env f; c = c0\<lparr>c_core := (c_core c0)\<lparr>cf_args := args\<rparr>\<rparr> in
      case config_validate c of
        Inl e \<Rightarrow> Inl (Run_invalid e)
      | Inr _ \<Rightarrow>
          (case logger_new open_ok (cf_color_logs (c_logging c)) (cf_disable_logs (c_logging c))
                  (cf_time_format_logs (c_logging c)) of
             None \<Rightarrow> Inl Run_no_logger | Some lg \<Rightarrow> Inr (c, lg)))"

section \<open>Lemmas\<close>

lemmas setters = set_home_def set_name_def set_allow_def set_restart_def set_skip_backup_def set_automation_def
  set_grace_def set_poll_def set_rpc_def

lemmas settings = text_setting_def bool_setting_def given_def set_if_def

text \<open>Each setting writes into one group of fields and keeps the others.\<close>

lemma core_kept:
  "c_core (text_setting set_rpc v w c) = c_core c" "c_core (bool_setting set_allow x r w c) = c_core c"
  "c_core (bool_setting set_restart x r w c) = c_core c" "c_core (bool_setting set_skip_backup x r w c) = c_core c"
  "c_core (given set_allow x c) = c_core c" "c_core (given set_restart x c) = c_core c"
  "c_core (given set_skip_backup x c) = c_core c" "c_core (given set_grace d c) = c_core c"
  "c_core (given set_poll d c) = c_core c" "c_core (set_if b set_allow t c) = c_core c"
  "c_core (set_if b set_restart t c) = c_core c" "c_core (set_if b set_skip_backup t c) = c_core c"
  "c_core (set_if b set_automation t c) = c_core c"
  by (simp_all add: settings setters split: option.split)

lemma upgrade_kept:
  "c_upgrade (text_setting set_home v w c) = c_upgrade c" "c_upgrade (text_setting set_name v w c) = c_upgrade c"
  "c_upgrade (text_setting set_rpc v w c) = c_upgrade c" "c_upgrade (bool_setting set_skip_backup x r w c) = c_upgrade c"
  "c_upgrade (given set_home y c) = c_upgrade c" "c_upgrade (given set_name y c) = c_upgrade c"
  "c_upgrade (given set_skip_backup x c) = c_upgrade c" "c_upgrade (given set_grace d c) = c_upgrade c"
  "c_upgrade (given set_poll d c) = c_upgrade c" "c_upgrade (set_if b set_home v c) = c_upgrade c"
  "c_upgrade (set_if b set_name v c) = c_upgrade c" "c_upgrade (set_if b set_skip_backup t c) = c_upgrade c"
  "c_upgrade (set_if b set_automation t c) = c_upgrade c"
  by (simp_all add: settings setters split: option.split)

lemma backup_kept:
  "c_backup (text_setting set_home v w c) = c_backup c" "c_backup (text_setting set_name v w c) = c_backup c"
  "c_backup (text_setting set_rpc v w c) = c_backup c" "c_backup (bool_setting set_allow x r w c) = c_backup c"
  "c_backup (bool_setting set_restart x r w c) = c_backup c" "c_backup (given set_home y c) = c_backup c"
  "c_backup (given set_name y c) = c_backup c" "c_backup (given set_allow x c) = c_backup c"
  "c_backup (given set_restart x c) = c_backup c" "c_backup (given set_grace d c) = c_backup c"
  "c_backup (given set_poll d c) = c_backup c" "c_backup (set_if b set_home v c) = c_backup c"
  "c_backup (set_if b set_name v c) = c_backup c" "c_backup (set_if b set_allow t c) = c_backup c"
  "c_backup (set_if b set_restart t c) = c_backup c" "c_backup (set_if b set_automation t c) = c_backup c"
  by (simp_all add: settings setters split: option.split)

lemma logging_kept:
  "c_logging (text_setting set_home v w c) = c_logging c" "c_logging (text_setting set_name v w c) = c_logging c"
  "c_logging (text_setting set_rpc v w c) = c_logging c" "c_logging (bool_setting set_allow x r w c) = c_logging c"
  "c_logging (bool_setting set_restart x r w c) = c_logging c" "c_logging (bool_setting set_skip_backup x r w c) = c_logging c"
  "c_logging (given set_home y c) = c_logging c" "c_logging (given set_name y c) = c_logging c"
  "c_logging (given set_allow x c) = c_logging c" "c_logging (given set_restart x c) = c_logging c"
  "c_logging (given set_skip_backup x c) = c_logging c" "c_logging (given set_grace d c) = c_logging c"
  "c_logging (given set_poll d c) = c_logging c" "c_logging (set_if b set_home v c) = c_logging c"
  "c_logging (set_if b set_name v c) = c_logging c" "c_logging (set_if b set_allow t c) = c_logging c"
  "c_logging (set_if b set_restart t c) = c_logging c" "c_logging (set_if b set_skip_backup t c) = c_logging c"
  "c_logging (set_if b set_automation t c) = c_logging c"
  by (simp_all add: settings setters split: option.split)

lemma health_kept:
  "c_health (text_setting set_home v w c) = c_health c" "c_health (text_setting set_name v w c) = c_health c"
  "c_health (text_setting set_rpc v w c) = c_health c" "c_health (bool_setting set_allow x r w c) = c_health c"
  "c_health (bool_setting set_restart x r w c) = c_health c" "c_health (bool_setting set_skip_backup x r w c) = c_health c"
  "c_health (given set_home y c) = c_health c" "c_health (given set_name y c) = c_health c"
  "c_health (given set_allow x c) = c_health c" "c_health (given set_restart x c) = c_health c"
  "c_health (given set_skip_backup x c) = c_health c" "c_health (given set_grace d c) = c_health c"
  "c_health (given set_poll d c) = c_health c" "c_health (set_if b set_home v c) = c_health c"
  "c_health (set_if b set_name v c) = c_health c" "c_health (set_if b set_allow t c) = c_health c"
  "c_health (set_if b set_restart t c) = c_health c" "c_health (set_if b set_skip_backup t c) = c_health c"
  "c_health (set_if b set_automation t c) = c_health c"
  by (simp_all add: settings setters split: option.split)

lemma automation_kept:
  "c_automation (text_setting set_home v w c) = c_automation c" "c_automation (text_setting set_name v w c) = c_automation c"
  "c_automation (text_setting set_rpc v w c) = c_automation c" "c_automation (bool_setting set_allow x r w c) = c_automation c"
  "c_automation (bool_setting set_restart x r w c) = c_automation c" "c_automation (bool_setting set_skip_backup x r w c) = c_automation c"
  "c_automation (given set_home y c) = c_automation c" "c_automation (given set_name y c) = c_automation c"
  "c_automation (given set_allow x c) = c_automation c" "c_automation (given set_restart x c) = c_automation c"
  "c_automation (given set_skip_backup x c) = c_automation c" "c_automation (given set_grace d c) = c_automation c"
  "c_automation (given set_poll d c) = c_automation c" "c_automation (set_if b set_home v c) = c_automation c"
  "c_automation (set_if b set_name v c) = c_automation c" "c_automation (set_if b set_allow t c) = c_automation c"
  "c_automation (set_if b set_restart t c) = c_automation c" "c_automation (set_if b set_skip_backup t c) = c_automation c"
  by (simp_all add: settings setters split: option.split)

lemma set_log_env_others [simp]:
  "c_core (set_log_env env c) = c_core c" "c_upgrade (set_log_env env c) = c_upgrade c"
  "c_process (set_log_env env c) = c_process c" "c_backup (set_log_env env c) = c_backup c"
  "c_wbft (set_log_env env c) = c_wbft c"
  by (simp_all add: set_log_env_def Let_def)

text \<open>The flags of \<open>run\<close> as flags of the root command.\<close>

definition root_of :: "run_flags \<Rightarrow> root_flags" where
  "root_of f = \<lparr>rt_home = (if rf_home f = '''' then None else Some (rf_home f)),
     rt_name = (if rf_name f = '''' then None else Some (rf_name f)),
     rt_restart = rf_restart f, rt_allow = rf_allow f, rt_skip_backup = rf_skip_backup f\<rparr>"

lemma home_settings:
  "cf_home (c_core (text_setting set_home v w c)) = (if v \<noteq> '''' then v else if w \<noteq> '''' then w else cf_home (c_core c))"
  "cf_home (c_core (given set_home x c)) = (case x of Some h \<Rightarrow> h | None \<Rightarrow> cf_home (c_core c))"
  "cf_home (c_core (set_if t set_home v c)) = (if t then v else cf_home (c_core c))"
  "cf_home (c_core (text_setting set_name v w c)) = cf_home (c_core c)"
  "cf_home (c_core (given set_name x c)) = cf_home (c_core c)"
  "cf_home (c_core (set_if t set_name v c)) = cf_home (c_core c)"
  by (simp_all add: settings setters split: option.split)

lemma name_settings:
  "cf_name (c_core (text_setting set_name v w c)) = (if v \<noteq> '''' then v else if w \<noteq> '''' then w else cf_name (c_core c))"
  "cf_name (c_core (given set_name x c)) = (case x of Some h \<Rightarrow> h | None \<Rightarrow> cf_name (c_core c))"
  "cf_name (c_core (set_if t set_name v c)) = (if t then v else cf_name (c_core c))"
  "cf_name (c_core (text_setting set_home v w c)) = cf_name (c_core c)"
  "cf_name (c_core (given set_home x c)) = cf_name (c_core c)"
  "cf_name (c_core (set_if t set_home v c)) = cf_name (c_core c)"
  by (simp_all add: settings setters split: option.split)

lemma args_settings:
  "cf_args (c_core (text_setting set_home v w c)) = cf_args (c_core c)" "cf_args (c_core (text_setting set_name v w c)) = cf_args (c_core c)"
  "cf_args (c_core (given set_home x c)) = cf_args (c_core c)" "cf_args (c_core (given set_name x c)) = cf_args (c_core c)"
  "cf_args (c_core (set_if t set_home v c)) = cf_args (c_core c)" "cf_args (c_core (set_if t set_name v c)) = cf_args (c_core c)"
  by (simp_all add: settings setters split: option.split)

lemma allow_settings:
  "cf_allow_download_binaries (c_upgrade (bool_setting set_allow x r w c)) =
  (case x of Some b \<Rightarrow> b | None \<Rightarrow> if w \<noteq> '''' then r w else cf_allow_download_binaries (c_upgrade c))"
  "cf_allow_download_binaries (c_upgrade (given set_allow x c)) =
  (case x of Some b \<Rightarrow> b | None \<Rightarrow> cf_allow_download_binaries (c_upgrade c))"
  "cf_allow_download_binaries (c_upgrade (set_if t set_allow b c)) = (if t then b else cf_allow_download_binaries (c_upgrade c))"
  "cf_allow_download_binaries (c_upgrade (bool_setting set_restart x r w c)) = cf_allow_download_binaries (c_upgrade c)"
  "cf_allow_download_binaries (c_upgrade (given set_restart x c)) = cf_allow_download_binaries (c_upgrade c)"
  "cf_allow_download_binaries (c_upgrade (set_if t set_restart b c)) = cf_allow_download_binaries (c_upgrade c)"
  by (simp_all add: settings setters split: option.split)

lemma restart_settings:
  "cf_restart_after_upgrade (c_upgrade (bool_setting set_restart x r w c)) =
  (case x of Some b \<Rightarrow> b | None \<Rightarrow> if w \<noteq> '''' then r w else cf_restart_after_upgrade (c_upgrade c))"
  "cf_restart_after_upgrade (c_upgrade (given set_restart x c)) =
  (case x of Some b \<Rightarrow> b | None \<Rightarrow> cf_restart_after_upgrade (c_upgrade c))"
  "cf_restart_after_upgrade (c_upgrade (set_if t set_restart b c)) = (if t then b else cf_restart_after_upgrade (c_upgrade c))"
  "cf_restart_after_upgrade (c_upgrade (bool_setting set_allow x r w c)) = cf_restart_after_upgrade (c_upgrade c)"
  "cf_restart_after_upgrade (c_upgrade (given set_allow x c)) = cf_restart_after_upgrade (c_upgrade c)"
  "cf_restart_after_upgrade (c_upgrade (set_if t set_allow b c)) = cf_restart_after_upgrade (c_upgrade c)"
  by (simp_all add: settings setters split: option.split)

lemma skip_settings:
  "c_backup (bool_setting set_skip_backup x r w c) =
  (c_backup c)\<lparr>cf_unsafe_skip_backup := (case x of Some b \<Rightarrow> b | None \<Rightarrow> if w \<noteq> '''' then r w else cf_unsafe_skip_backup (c_backup c))\<rparr>"
  "c_backup (given set_skip_backup x c) =
  (c_backup c)\<lparr>cf_unsafe_skip_backup := (case x of Some b \<Rightarrow> b | None \<Rightarrow> cf_unsafe_skip_backup (c_backup c))\<rparr>"
  "c_backup (set_if t set_skip_backup b c) =
  (c_backup c)\<lparr>cf_unsafe_skip_backup := (if t then b else cf_unsafe_skip_backup (c_backup c))\<rparr>"
  by (simp_all add: settings setters split: option.split)

lemma upgrade_settings:
  assumes "\<And>u b. g (u\<lparr>cf_allow_download_binaries := b\<rparr>) = g u" and "\<And>u b. g (u\<lparr>cf_restart_after_upgrade := b\<rparr>) = g u"
  shows "g (c_upgrade (bool_setting set_restart x r w c)) = g (c_upgrade c)" "g (c_upgrade (given set_restart x c)) = g (c_upgrade c)"
    "g (c_upgrade (set_if t set_restart b c)) = g (c_upgrade c)" "g (c_upgrade (bool_setting set_allow x r w c)) = g (c_upgrade c)"
    "g (c_upgrade (given set_allow x c)) = g (c_upgrade c)" "g (c_upgrade (set_if t set_allow b c)) = g (c_upgrade c)"
  using assms by (simp_all add: settings setters split: option.split)

lemma env_defaults:
  "cf_allow_download_binaries (c_upgrade (env_config env)) = False" "cf_restart_after_upgrade (c_upgrade (env_config env)) = True"
  "cf_unsafe_skip_backup (c_backup (env_config env)) = False"
  "cf_data_backup_path (c_backup (env_config env)) = path_join [default_home (env ''DAEMON_HOME'') (env ''HOME''), ''backups'']"
  "cf_home (c_core (env_config env)) = default_home (env ''DAEMON_HOME'') (env ''HOME'')"
  by (simp_all add: env_config_def default_config_def Let_def)

lemmas load_defs = load_run_config_def Let_def
lemmas main_defs = main_config_def apply_env_vars_def apply_root_flags_def Let_def

lemma same_core: "c_core (load_run_config env f) = c_core (main_config env (root_of f))"
proof (rule core_cfg.equality)
  note defs = load_defs main_defs root_of_def core_kept
  show "cf_home (c_core (load_run_config env f)) = cf_home (c_core (main_config env (root_of f)))"
    by (cases "rf_home f = ''''") (simp_all add: defs home_settings)
  show "cf_name (c_core (load_run_config env f)) = cf_name (c_core (main_config env (root_of f)))"
    by (cases "rf_name f = ''''") (simp_all add: defs name_settings)
  show "cf_args (c_core (load_run_config env f)) = cf_args (c_core (main_config env (root_of f)))"
    by (simp add: defs args_settings)
qed simp

lemma same_upgrade: "c_upgrade (load_run_config env f) = c_upgrade (main_config env (root_of f))"
proof (rule upgrade_cfg.equality)
  note defs = load_defs main_defs root_of_def upgrade_kept env_defaults
  show "cf_allow_download_binaries (c_upgrade (load_run_config env f)) = cf_allow_download_binaries (c_upgrade (main_config env (root_of f)))"
    by (cases "rf_allow f") (simp_all add: defs allow_settings)
  show "cf_restart_after_upgrade (c_upgrade (load_run_config env f)) = cf_restart_after_upgrade (c_upgrade (main_config env (root_of f)))"
    by (cases "rf_restart f") (simp_all add: defs restart_settings)
  show "cf_download_must_have_checksum (c_upgrade (load_run_config env f)) = cf_download_must_have_checksum (c_upgrade (main_config env (root_of f)))"
    by (simp add: defs upgrade_settings)
  show "cf_restart_delay (c_upgrade (load_run_config env f)) = cf_restart_delay (c_upgrade (main_config env (root_of f)))"
    by (simp add: defs upgrade_settings)
qed simp

lemma same_backup: "c_backup (load_run_config env f) = c_backup (main_config env (root_of f))"
  by (cases "rf_skip_backup f")
    (simp_all add: load_defs main_defs root_of_def backup_kept skip_settings env_defaults)

lemma env_home: "env ''DAEMON_HOME'' \<noteq> '''' \<Longrightarrow> cf_home (c_core (env_config env)) = env ''DAEMON_HOME''"
  by (simp add: env_config_def default_config_def default_home_def Let_def)

definition field_args :: "bool \<Rightarrow> ('f, 'v) log_field \<Rightarrow> ('f, 'v) log_arg list" where
  "field_args keyed fld =
     (case fld of Zap_field f \<Rightarrow> [Zap_arg f] | Any_field k a \<Rightarrow> if keyed then [Str_arg k, a] else [a])"

lemma pair_fields_args:
  "\<exists>keyed. length keyed = length (pair_fields i args) \<and> concat (map2 field_args keyed (pair_fields i args)) = args"
proof (induction i args rule: pair_fields.induct)
  case (1 i)
  show ?case by simp
next
  case (2 i a)
  show ?case by (rule exI [of _ "[False]"]) (simp add: field_args_def)
next
  case (3 i a b rest)
  show ?case
  proof (cases a)
    case (Str_arg key)
    with 3(2) [OF Str_arg] obtain ks where "length ks = length (pair_fields (Suc (Suc i)) rest)"
      "concat (map2 field_args ks (pair_fields (Suc (Suc i)) rest)) = rest" by auto
    with Str_arg show ?thesis by (intro exI [of _ "True # ks"]) (simp add: field_args_def)
  next
    case (Zap_arg f)
    with 3(1) [OF Zap_arg] obtain ks where "length ks = length (pair_fields (Suc i) (b # rest))"
      "concat (map2 field_args ks (pair_fields (Suc i) (b # rest))) = b # rest" by auto
    with Zap_arg show ?thesis by (intro exI [of _ "False # ks"]) (simp add: field_args_def)
  next
    case (Other_arg v)
    with 3(3) [OF Other_arg] obtain ks where "length ks = length (pair_fields (Suc i) (b # rest))"
      "concat (map2 field_args ks (pair_fields (Suc i) (b # rest))) = b # rest" by auto
    with Other_arg show ?thesis by (intro exI [of _ "False # ks"]) (simp add: field_args_def)
  qed
qed

text \<open>
  A log call whose first argument is a field keeps the fields and drops everything else; any other call
  loses nothing: its arguments are those of its fields, in order, each with its key or without.
\<close>

theorem log_arguments_kept:
  "(case args of
      Zap_arg f # rest \<Rightarrow>
        to_zap_fields args = map Zap_field (List.map_filter (\<lambda>a. case a of Zap_arg g \<Rightarrow> Some g | _ \<Rightarrow> None) args)
    | _ \<Rightarrow> \<exists>keyed. length keyed = length (to_zap_fields args) \<and>
             concat (map2 field_args keyed (to_zap_fields args)) = args)"
proof -
  have fields: "List.map_filter (\<lambda>a. case a of Zap_arg g \<Rightarrow> Some (Zap_field g) | _ \<Rightarrow> None) as =
      map Zap_field (List.map_filter (\<lambda>a. case a of Zap_arg g \<Rightarrow> Some g | _ \<Rightarrow> None) as)"
    for as :: "('a, 'b) log_arg list"
    by (induction as) (auto simp: map_filter_simps split: log_arg.splits)
  have pairs: "\<exists>keyed. length keyed = length (pair_fields 0 args) \<and> concat (map2 field_args keyed (pair_fields 0 args)) = args"
    by (rule pair_fields_args)
  show ?thesis
  proof (cases args)
    case Nil
    then show ?thesis using pairs by (simp add: to_zap_fields_def)
  next
    case (Cons a rest)
    then show ?thesis using pairs by (cases a) (simp_all add: to_zap_fields_def fields map_filter_simps)
  qed
qed

text \<open>
  \<open>run\<close> hands the logger its settings in the wrong places: the switch for colours selects the development
  mode, the switch that disables the logs selects the colours, and the time format names a log file, so
  by default a file \<open>kitchen\<close> is written in the working directory.
\<close>

theorem run_logs_to_time_format:
  assumes "run_execute open_ok env f args = Inr (c, lg)"
  shows "lg_outputs lg = [''stdout'', if env ''COSMOVISOR_TIMEFORMAT_LOGS'' = '''' then ''kitchen''
       else env ''COSMOVISOR_TIMEFORMAT_LOGS''] \<and>
    (lg_development lg \<longleftrightarrow> env ''COSMOVISOR_COLOR_LOGS'' \<noteq> ''false'') \<and>
    (lg_colour lg \<longleftrightarrow> env ''COSMOVISOR_COLOR_LOGS'' \<noteq> ''false'' \<and> env ''COSMOVISOR_DISABLE_LOGS'' = ''true'')"
proof -
  have env: "c_logging (env_config env) = \<lparr>cf_disable_logs = False, cf_color_logs = True, cf_time_format_logs = ''kitchen''\<rparr>"
    by (simp add: env_config_def default_config_def Let_def)
  have "c_logging (load_run_config env f) =
    \<lparr>cf_disable_logs = (env ''COSMOVISOR_DISABLE_LOGS'' = ''true''), cf_color_logs = (env ''COSMOVISOR_COLOR_LOGS'' \<noteq> ''false''),
     cf_time_format_logs = (if env ''COSMOVISOR_TIMEFORMAT_LOGS'' = '''' then ''kitchen''
       else env ''COSMOVISOR_TIMEFORMAT_LOGS'')\<rparr>"
    by (simp add: load_run_config_def set_log_env_def Let_def logging_kept env)
  with assms show ?thesis
    by (auto simp: run_execute_def logger_new_def Let_def split: sum.splits option.splits if_splits)
qed

definition demo_env :: getenv where
  "demo_env v = (if v = ''HOME'' then ''/root'' else '''')"

definition no_run_flags :: run_flags where
  "no_run_flags = \<lparr>rf_home = '''', rf_name = '''', rf_allow = None, rf_restart = None, rf_grace = None, rf_poll = None,
     rf_rpc = '''', rf_skip_backup = None\<rparr>"

theorem run_logs_to_time_format_witness:
  "\<exists>c lg. run_execute (\<lambda>_. True) demo_env no_run_flags [''start''] = Inr (c, lg) \<and>
     lg_outputs lg = [''stdout'', ''kitchen'']"
proof -
  let ?loaded = "load_run_config demo_env no_run_flags"
  let ?c = "?loaded\<lparr>c_core := (c_core ?loaded)\<lparr>cf_args := [''start'']\<rparr>\<rparr>"
  have "c_core ?loaded = c_core (env_config demo_env)" "c_process ?loaded = c_process (env_config demo_env)"
    by (simp_all add: load_run_config_def settings no_run_flags_def demo_env_def set_log_env_def Let_def)
  moreover have "config_validate (env_config demo_env) = Inr ()"
    unfolding env_config_def by (rule default_config_valid)
  ultimately have "config_validate ?c = Inr ()" by (auto simp: config_validate_def split: if_splits)
  then obtain lg where r: "run_execute (\<lambda>_. True) demo_env no_run_flags [''start''] = Inr (?c, lg)"
    by (simp add: run_execute_def logger_new_def Let_def)
  show ?thesis using run_logs_to_time_format [OF r] r by (auto simp: demo_env_def)
qed

text \<open>
  C38. The two entry points read the home, the name, the upgrade settings and the backup settings the same way,
  a flag before the variable before the default, whatever the environment.
\<close>

theorem entry_points_agree:
  "c_core (load_run_config env f) = c_core (main_config env (root_of f)) \<and>
   c_upgrade (load_run_config env f) = c_upgrade (main_config env (root_of f)) \<and>
   c_backup (load_run_config env f) = c_backup (main_config env (root_of f))"
  by (simp add: same_core same_upgrade same_backup)

text \<open>
  The directory of the backups never follows a flag: with another home directory than the one of the
  environment the backups stay below the latter.
\<close>

theorem backups_stay_in_default_home:
  "cf_data_backup_path (c_backup (main_config env f)) = path_join [default_home (env ''DAEMON_HOME'') (env ''HOME''), ''backups''] \<and>
   cf_home (c_core (main_config env f)) =
     (case rt_home f of Some h \<Rightarrow> h | None \<Rightarrow> default_home (env ''DAEMON_HOME'') (env ''HOME''))"
  by (cases "rt_home f")
    (simp_all add: main_defs backup_kept core_kept home_settings skip_settings env_defaults default_home_def)

text \<open>
  Nothing a user can set reaches the output mode: no variable and no flag of the program switches JSON
  output, quiet or debug mode on or selects a network, although the help and the commands have them.
\<close>

theorem output_modes_unreachable:
  "\<not> cf_json_output (c_automation (main_config env f)) \<and> \<not> cf_quiet (c_automation (main_config env f)) \<and>
   \<not> cf_debug (c_health (main_config env f)) \<and> cf_network (c_health (main_config env f)) = ''mainnet''"
proof -
  have h: "c_health (main_config env f) = c_health (env_config env)"
    by (simp add: main_config_def apply_env_vars_def apply_root_flags_def Let_def health_kept)
  have q: "cf_json_output (c_automation (set_if b set_automation t c)) = cf_json_output (c_automation c)"
    "cf_quiet (c_automation (set_if b set_automation t c)) = cf_quiet (c_automation c)" for b t c
    by (simp_all add: set_if_def setters)
  have "cf_json_output (c_automation (main_config env f)) = cf_json_output (c_automation (env_config env))"
    "cf_quiet (c_automation (main_config env f)) = cf_quiet (c_automation (env_config env))"
    by (simp_all add: main_config_def apply_env_vars_def apply_root_flags_def Let_def automation_kept q)
  with h show ?thesis by (simp add: env_config_def default_config_def Let_def)
qed

end
