(* ===== verification/GovClient.thy ===== *)
theory GovClient
  imports GovMonitor Templates
begin

text \<open>
  The requests of \<open>internal/governance/client.go\<close>: JSON-RPC calls by HTTP, and what is made of the answers.
  The server is a function of the method and the parameters; decoding a result into the structure that a
  call expects is \<open>encoding/json\<close>'s, so it is an argument. The client is what the governance monitor asks:
  the last lemmas relate it to the node that the tracker and the monitor are modelled over.
\<close>

section \<open>Requests\<close>

datatype rpc_params = No_params | Height_param string | Status_param string | Id_param string

text \<open>An answer: no connection, or a status code and the decoded body, whose result may be missing.\<close>

record 'd rpc_reply =
  rr_error :: "(int \<times> string) option"
  rr_result :: "'d option"

datatype 'd http_answer = No_answer | Http_answer int "'d rpc_reply option"

type_synonym 'd rpc_server = "string \<Rightarrow> rpc_params \<Rightarrow> 'd http_answer"

datatype rpc_failure =
  Empty_base_url | Request_failed | Http_status int | Body_not_decoded | Rpc_failure int string
| Result_not_parsed | Height_not_parsed

record gov_client =
  gc_base_url :: string
  gc_timeout :: duration
  gc_http_timeout :: duration

definition new_gov_client :: "string \<Rightarrow> rpc_failure + gov_client" where
  "new_gov_client url =
     (if url = '''' then Inl Empty_base_url
      else Inr \<lparr>gc_base_url = url, gc_timeout = 30 * second, gc_http_timeout = 30 * second\<rparr>)"

definition set_timeout :: "duration \<Rightarrow> gov_client \<Rightarrow> gov_client" where
  "set_timeout d c = c\<lparr>gc_timeout := d, gc_http_timeout := d\<rparr>"

text \<open>
  What \<open>net/http\<close> sends a request to: the scheme of the address, in any case, is one it knows and is
  followed by a host. The base URL is used as it is.
\<close>

definition lower_char :: "char \<Rightarrow> char" where
  "lower_char c = (let n = of_char c :: nat in if 65 \<le> n \<and> n \<le> 90 then char_of (n + 32) else c)"

definition http_url :: "string \<Rightarrow> bool" where
  "http_url a \<longleftrightarrow>
     map lower_char (takeWhile (\<lambda>c. c \<noteq> CHR '':'') a) \<in> {''http'', ''https''} \<and>
     (let rest = dropWhile (\<lambda>c. c \<noteq> CHR '':'') a in
      take 3 rest = ''://'' \<and> (case drop 3 rest of [] \<Rightarrow> False | c # _ \<Rightarrow> c \<notin> set ''/?#''))"

definition make_request :: "'d rpc_server \<Rightarrow> gov_client \<Rightarrow> string \<Rightarrow> rpc_params \<Rightarrow> rpc_failure + 'd rpc_reply" where
  "make_request srv c rpc_method params =
     (if \<not> http_url (gc_base_url c) then Inl Request_failed
      else (case srv rpc_method params of
              No_answer \<Rightarrow> Inl Request_failed
            | Http_answer status body \<Rightarrow>
                if status \<noteq> 200 then Inl (Http_status status)
                else (case body of
                        None \<Rightarrow> Inl Body_not_decoded
                      | Some reply \<Rightarrow>
                          (case rr_error reply of Some (code, msg) \<Rightarrow> Inl (Rpc_failure code msg) | None \<Rightarrow> Inr reply))))"

text \<open>A request and the parse of its result; a missing result does not parse.\<close>

definition fetch_result ::
  "'d rpc_server \<Rightarrow> gov_client \<Rightarrow> ('d \<Rightarrow> 'a option) \<Rightarrow> string \<Rightarrow> rpc_params \<Rightarrow> rpc_failure + 'a" where
  "fetch_result srv c dec rpc_method params =
     (case make_request srv c rpc_method params of
        Inl e \<Rightarrow> Inl e
      | Inr reply \<Rightarrow> (case Option.bind (rr_result reply) dec of None \<Rightarrow> Inl Result_not_parsed | Some x \<Rightarrow> Inr x))"

section \<open>Results\<close>

record raw_block =
  rb_height :: string
  rb_time :: time
  rb_hash :: string
  rb_txs :: "string list"

record raw_validator =
  rv_address :: string
  rv_pub_key :: string
  rv_voting_power :: string

record raw_params =
  rw_voting_period :: string
  rw_min_deposit :: "(string \<times> string) list"
  rw_quorum :: string
  rw_threshold :: string
  rw_veto :: string

record block_info =
  bk_height :: int
  bk_hash :: string
  bk_time :: time
  bk_proposer :: string
  bk_tx_count :: nat
  bk_validator :: string

record validator_info =
  vi_operator :: string
  vi_pubkey :: string
  vi_jailed :: bool
  vi_status :: string
  vi_tokens :: string
  vi_voting_power :: int
  vi_commission :: string
  vi_moniker :: string

record gov_params =
  gp_voting_period :: duration
  gp_min_deposit :: string
  gp_quorum :: string
  gp_pass :: string
  gp_veto :: string
  gp_max_upgrade_height :: int
  gp_min_upgrade_delay :: duration
  gp_emergency_period :: duration

record 'd decoders =
  de_status :: "'d \<Rightarrow> string option"
  de_block :: "'d \<Rightarrow> raw_block option"
  de_proposals :: "'d \<Rightarrow> raw_proposal list option"
  de_proposal :: "'d \<Rightarrow> raw_proposal option"
  de_validators :: "'d \<Rightarrow> raw_validator list option"
  de_params :: "'d \<Rightarrow> raw_params option"

section \<open>The calls\<close>

definition client_height :: "'d decoders \<Rightarrow> 'd rpc_server \<Rightarrow> gov_client \<Rightarrow> rpc_failure + int" where
  "client_height d srv c =
     (case fetch_result srv c (de_status d) ''status'' No_params of
        Inl e \<Rightarrow> Inl e
      | Inr h \<Rightarrow> (case scan_int h of None \<Rightarrow> Inl Height_not_parsed | Some (n, _) \<Rightarrow> Inr n))"

definition client_block :: "'d decoders \<Rightarrow> 'd rpc_server \<Rightarrow> gov_client \<Rightarrow> int \<Rightarrow> rpc_failure + block_info" where
  "client_block d srv c height =
     (case fetch_result srv c (de_block d) ''block'' (Height_param (int_str height)) of
        Inl e \<Rightarrow> Inl e
      | Inr b \<Rightarrow>
          (case scan_int (rb_height b) of
             None \<Rightarrow> Inl Height_not_parsed
           | Some (n, _) \<Rightarrow> Inr \<lparr>bk_height = n, bk_hash = rb_hash b, bk_time = rb_time b,
               bk_proposer = '''', bk_tx_count = length (rb_txs b), bk_validator = ''''\<rparr>))"

definition client_proposals ::
  "'d decoders \<Rightarrow> 'd rpc_server \<Rightarrow> gov_client \<Rightarrow> string \<Rightarrow> rpc_failure + proposal list" where
  "client_proposals d srv c status =
     map_sum id (map decode_list_proposal) (fetch_result srv c (de_proposals d) ''gov/proposals'' (Status_param status))"

definition client_proposal :: "'d decoders \<Rightarrow> 'd rpc_server \<Rightarrow> gov_client \<Rightarrow> string \<Rightarrow> rpc_failure + proposal" where
  "client_proposal d srv c pid =
     map_sum id decode_single_proposal (fetch_result srv c (de_proposal d) ''gov/proposal'' (Id_param pid))"

text \<open>A voting power that is no number counts as none, and every validator is called bonded; the node is not asked for the rest.\<close>

definition decode_validator :: "raw_validator \<Rightarrow> validator_info" where
  "decode_validator v =
     \<lparr>vi_operator = rv_address v, vi_pubkey = rv_pub_key v, vi_jailed = False, vi_status = ''bonded'',
      vi_tokens = '''', vi_voting_power = (case scan_int (rv_voting_power v) of Some (n, _) \<Rightarrow> n | None \<Rightarrow> 0),
      vi_commission = '''', vi_moniker = ''''\<rparr>"

definition client_validators :: "'d decoders \<Rightarrow> 'd rpc_server \<Rightarrow> gov_client \<Rightarrow> rpc_failure + validator_info list" where
  "client_validators d srv c =
     map_sum id (map decode_validator) (fetch_result srv c (de_validators d) ''validators'' No_params)"

definition decode_params :: "raw_params \<Rightarrow> gov_params" where
  "decode_params p =
     \<lparr>gp_voting_period = (case parse_duration (rw_voting_period p) of Some v \<Rightarrow> v | None \<Rightarrow> 14 * 24 * 60 * minute),
      gp_min_deposit = (case rw_min_deposit p of (_, amount) # _ \<Rightarrow> amount | [] \<Rightarrow> ''''),
      gp_quorum = rw_quorum p, gp_pass = rw_threshold p, gp_veto = rw_veto p, gp_max_upgrade_height = 0,
      gp_min_upgrade_delay = 24 * 60 * minute, gp_emergency_period = 24 * 60 * minute\<rparr>"

definition client_params :: "'d decoders \<Rightarrow> 'd rpc_server \<Rightarrow> gov_client \<Rightarrow> rpc_failure + gov_params" where
  "client_params d srv c = map_sum id decode_params (fetch_result srv c (de_params d) ''gov/params'' No_params)"

section \<open>The node behind the client\<close>

definition ok_of :: "'e + 'a \<Rightarrow> 'a option" where
  "ok_of r = (case r of Inl _ \<Rightarrow> None | Inr x \<Rightarrow> Some x)"

definition node_of :: "'d decoders \<Rightarrow> 'd rpc_server \<Rightarrow> gov_client \<Rightarrow> gov_node" where
  "node_of d srv c =
     \<lparr>gn_height = ok_of (fetch_result srv c (de_status d) ''status'' No_params),
      gn_list = (\<lambda>status. ok_of (fetch_result srv c (de_proposals d) ''gov/proposals'' (Status_param status))),
      gn_single = (\<lambda>pid. ok_of (fetch_result srv c (de_proposal d) ''gov/proposal'' (Id_param pid)))\<rparr>"

lemma ok_of_map [simp]: "ok_of (map_sum id f r) = map_option f (ok_of r)"
  by (cases r) (simp_all add: ok_of_def)

lemma fetch_result_Inr:
  "fetch_result srv c dec rpc_method params = Inr x \<longleftrightarrow>
     http_url (gc_base_url c) \<and>
     (\<exists>reply res. srv rpc_method params = Http_answer 200 (Some reply) \<and> rr_error reply = None \<and>
        rr_result reply = Some res \<and> dec res = Some x)"
proof -
  have "make_request srv c rpc_method params = Inr reply \<longleftrightarrow> http_url (gc_base_url c) \<and>
      srv rpc_method params = Http_answer 200 (Some reply) \<and> rr_error reply = None" for reply
    by (auto simp: make_request_def split: http_answer.splits option.splits)
  then show ?thesis
    by (auto simp: fetch_result_def bind_eq_Some_conv split: sum.splits option.splits)
qed

lemma http_url_parts:
  assumes "http_url a"
  obtains s r where "a = s @ ''://'' @ r" and "CHR '':'' \<notin> set s" and "s \<noteq> []" and "hd s \<noteq> CHR ''[''"
proof
  let ?s = "takeWhile (\<lambda>c. c \<noteq> CHR '':'') a" and ?t = "dropWhile (\<lambda>c. c \<noteq> CHR '':'') a"
  have "?t = take 3 ?t @ drop 3 ?t" by simp
  with assms have "?t = ''://'' @ drop 3 ?t" by (simp add: http_url_def Let_def)
  then show "a = ?s @ ''://'' @ drop 3 ?t" by (metis takeWhile_dropWhile_id)
  show "CHR '':'' \<notin> set ?s" by (auto dest: set_takeWhileD)
  have l: "map lower_char ?s \<in> {''http'', ''https''}" using assms by (simp add: http_url_def)
  then show "?s \<noteq> []" by auto
  with l have "lower_char (hd ?s) = CHR ''h''" by (cases ?s) auto
  moreover have "lower_char (CHR ''['') = CHR ''[''" by (simp add: lower_char_def)
  ultimately show "hd ?s \<noteq> CHR ''[''" by auto
qed

lemma takeWhile_shorter: "x \<in> set xs \<Longrightarrow> \<not> P x \<Longrightarrow> length (takeWhile P xs) < length xs"
  by (induction xs) auto

lemma http_url_split:
  assumes "http_url a"
  shows "split_host_port a = None \<or> (\<exists>host r. split_host_port a = Some (host, slash # r))"
proof -
  from assms obtain s r where a: "a = s @ ''://'' @ r" and s: "CHR '':'' \<notin> set s" "s \<noteq> []" "hd s \<noteq> CHR ''[''"
    by (rule http_url_parts)
  let ?k = "length (takeWhile (\<lambda>c. c \<noteq> CHR '':'') (rev a))"
  have i: "rindex_colon a = Some (length a - 1 - ?k)" by (simp add: rindex_colon_def a)
  have first: "take 1 a \<noteq> ''[''" using s by (cases s) (simp_all add: a)
  show ?thesis
  proof (cases "CHR '':'' \<in> set r")
    case True
    then have "takeWhile (\<lambda>c. c \<noteq> CHR '':'') (rev a) = takeWhile (\<lambda>c. c \<noteq> CHR '':'') (rev r)"
      by (simp add: a takeWhile_append1)
    moreover have "length (takeWhile (\<lambda>c. c \<noteq> CHR '':'') (rev r)) < length r"
      using True takeWhile_shorter [of "CHR '':''" "rev r" "\<lambda>c. c \<noteq> CHR '':''"] by simp
    ultimately have "length s < length a - 1 - ?k" by (simp add: a)
    then have "(length a - 1 - ?k) \<le> length a \<and> a ! length s = CHR '':'' \<and> length s < length a - 1 - ?k"
      by (simp add: a)
    then have "CHR '':'' \<in> set (take (length a - 1 - ?k) a)"
      by (metis in_set_conv_nth length_take min.absorb2 nth_take)
    with i first show ?thesis by (simp add: split_host_port_def)
  next
    case False
    then have "takeWhile (\<lambda>c. c \<noteq> CHR '':'') (rev a) = rev r @ ''//''"
      using takeWhile_append2 [of "rev r" "\<lambda>c. c \<noteq> CHR '':''" "''//:'' @ rev s"] by (auto simp: a)
    then have "length a - 1 - ?k = length s" by (simp add: a)
    with i first s(1) show ?thesis by (auto simp: split_host_port_def) (simp add: a)
  qed
qed

text \<open>
  C39. An address of the node that the validator accepts is one the client cannot use: the validator wants a host
  and a port, and the client takes the address as a URL without putting a scheme before it. So the
  tracker fetches nothing and the monitor never knows a height.
\<close>

theorem accepted_address_is_unusable:
  assumes "network_rule env cfg = Inr ()" and "\<And>a. http_url a \<Longrightarrow> \<not> ve_is_ip env a"
    and "new_gov_client (cf_rpc_address (c_wbft cfg)) = Inr c"
  shows "make_request srv c rpc_method params = Inl Request_failed \<and>
    fetched (node_of d srv c) = [] \<and> gov_current_height (node_of d srv c) = None"
proof -
  have addr: "gc_base_url c = cf_rpc_address (c_wbft cfg)" "cf_rpc_address (c_wbft cfg) \<noteq> ''''"
    using assms(3) by (auto simp: new_gov_client_def split: if_splits)
  have "\<not> http_url (cf_rpc_address (c_wbft cfg))"
  proof
    assume h: "http_url (cf_rpc_address (c_wbft cfg))"
    have "scan_int (slash # r) = None" for r
      by (simp add: scan_int_def is_digit_def digit_val_def Let_def)
    with http_url_split [OF h] assms(1) addr(2) assms(2) [OF h] show False
      by (auto simp: network_rule_def Let_def split: if_splits)
  qed
  with addr(1) have no: "\<not> http_url (gc_base_url c)" by simp
  then have "fetch_result srv c dec m p = Inl Request_failed" for dec :: "'a \<Rightarrow> 'b option" and m p
    by (simp add: fetch_result_def make_request_def)
  with no show ?thesis
    by (simp add: make_request_def fetched_def get_governance_proposals_def gov_current_height_def node_of_def ok_of_def
        fetch_result_def fetch_statuses_def)
qed

lemma default_address_accepted: "ve_resolves env ''localhost'' \<Longrightarrow> network_rule env (default_config dh eh) = Inr ()"
  by (simp add: network_rule_def default_config_def Let_def split_host_port_def rindex_colon_def scan_int_def is_digit_def
      digit_val_def is_int64_def)

theorem accepted_address_is_unusable_witness:
  "\<exists>c. new_gov_client ''localhost:8545'' = Inr c \<and>
     make_request (\<lambda>_ _. Http_answer 200 None) c ''status'' No_params = Inl Request_failed"
proof -
  let ?cfg = "default_config '''' ''/root''"
  let ?env = "demo_val_env Missing"
  have a: "cf_rpc_address (c_wbft ?cfg) = ''localhost:8545''" by (simp add: default_config_def Let_def)
  obtain c where c: "new_gov_client (cf_rpc_address (c_wbft ?cfg)) = Inr c"
    by (simp add: a new_gov_client_def)
  have "network_rule ?env ?cfg = Inr ()" by (rule default_address_accepted) (simp add: demo_val_env_def)
  moreover have "\<not> ve_is_ip ?env b" for b by (simp add: demo_val_env_def)
  ultimately show ?thesis
    using accepted_address_is_unusable [of ?env ?cfg c "\<lambda>_ _. Http_answer 200 None" "''status''" No_params] c a by auto
qed

text \<open>
  For the tracker and the monitor the client is the node they are modelled over: each call returns exactly
  what the node of the model does.
\<close>

theorem client_is_the_node:
  "ok_of (client_height d srv c) = gov_current_height (node_of d srv c) \<and>
   ok_of (client_proposals d srv c status) = get_governance_proposals (node_of d srv c) status \<and>
   ok_of (client_proposal d srv c pid) = get_proposal (node_of d srv c) pid"
  by (auto simp: client_height_def gov_current_height_def client_proposals_def get_governance_proposals_def
      client_proposal_def get_proposal_def node_of_def ok_of_def split: sum.splits option.splits)

text \<open>A proposal that is fetched alone has no type and no upgrade, whatever the list says of it.\<close>

lemma single_proposal_has_no_upgrade:
  "pr_type (decode_single_proposal r) = '''' \<and> pr_upgrade_info (decode_single_proposal r) = None \<and>
   pr_type (decode_list_proposal r) \<noteq> ''''"
  by (simp add: decode_single_proposal_def decode_list_proposal_def empty_proposal_def Let_def)

end
