(* ===== verification/CliInit.thy ===== *)
theory CliInit
  imports Backups Startup Profiler
begin

text \<open>
  \<open>internal/cli/init.go\<close> and \<open>internal/commands/init.go\<close>: the two commands that make the directories of a
  home, copy the first binary into them and point the \<open>current\<close> link at it. The state is the file tree, the
  files with permission to execute, and what is at \<open>current\<close>; what the operating system allows is an
  argument.
\<close>

record init_world =
  iw_tree :: tree
  iw_exec :: "string list"
  iw_current :: cur_entry

record init_env =
  ie_cwd :: string
  ie_dir_ok :: "string \<Rightarrow> bool"
  ie_read_ok :: "string \<Rightarrow> bool"
  ie_write_ok :: "string \<Rightarrow> bool"
  ie_chmod_ok :: "string \<Rightarrow> bool"
  ie_link :: link_env

datatype init_error =
  Init_no_binary | Init_dir_failed string | Init_not_read | Init_not_written | Init_not_executable
| Init_not_linked link_error

section \<open>Files\<close>

fun make_dirs :: "init_env \<Rightarrow> string list \<Rightarrow> tree \<Rightarrow> (tree, init_error, unit) gores" where
  "make_dirs env [] t = (t, Inr ())"
| "make_dirs env (d # ds) t =
     (if d = '''' then (t, Inl (Init_dir_failed d))
      else (case tree_mkdirs (ie_dir_ok env) (path_abs (ie_cwd env) d) t of
              (t1, False) \<Rightarrow> (t1, Inl (Init_dir_failed d))
            | (t1, True) \<Rightarrow> make_dirs env ds t1))"

text \<open>
  \<open>copyBinary\<close> and \<open>copyFile\<close>. The permission to execute is given to a file that is created; one that is
  there already, or that a link leads to, keeps what it has. Permissions are those of real paths.
\<close>

definition real_name :: "tree \<Rightarrow> string \<Rightarrow> string" where
  "real_name t p = (case real_path t (path_comps p) of Some qs \<Rightarrow> abs_path qs | None \<Rightarrow> p)"

definition copy_binary :: "init_env \<Rightarrow> string \<Rightarrow> string \<Rightarrow> init_world \<Rightarrow> (init_world, init_error, unit) gores" where
  "copy_binary env src dst w =
     (let a = path_abs (ie_cwd env) src; b = path_abs (ie_cwd env) dst; t = iw_tree w in
      case (if ie_read_ok env a then read_path t a else None) of
        None \<Rightarrow> (w, Inl Init_not_read)
      | Some s \<Rightarrow>
          (case write_path (ie_write_ok env) b s t of
             (t1, False) \<Rightarrow> (w, Inl Init_not_written)
           | (t1, True) \<Rightarrow>
               (w\<lparr>iw_tree := t1, iw_exec := (if path_missing t b then real_name t b # iw_exec w else iw_exec w)\<rparr>,
                Inr ())))"

definition link_genesis :: "config \<Rightarrow> init_env \<Rightarrow> init_world \<Rightarrow> (init_world, init_error, unit) gores" where
  "link_genesis c env w =
     (case link_to_genesis (paths_of c) (ie_link env) (iw_current w) of
        (cur, Inl e) \<Rightarrow> (w\<lparr>iw_current := cur\<rparr>, Inl (Init_not_linked e))
      | (cur, Inr _) \<Rightarrow> (w\<lparr>iw_current := cur\<rparr>, Inr ()))"

definition init_then ::
  "(init_world \<Rightarrow> (init_world, init_error, unit) gores) \<Rightarrow> (init_world \<Rightarrow> (init_world, init_error, unit) gores) \<Rightarrow>
     init_world \<Rightarrow> (init_world, init_error, unit) gores" where
  "init_then f g w = (case f w of (w1, Inl e) \<Rightarrow> (w1, Inl e) | (w1, Inr _) \<Rightarrow> g w1)"

definition init_dirs :: "init_env \<Rightarrow> string list \<Rightarrow> init_world \<Rightarrow> (init_world, init_error, unit) gores" where
  "init_dirs env ds w = (case make_dirs env ds (iw_tree w) of (t, r) \<Rightarrow> (w\<lparr>iw_tree := t\<rparr>, r))"

section \<open>The commands\<close>

definition cli_dirs :: "config \<Rightarrow> string list" where
  "cli_dirs c =
     (let p = paths_of c in
      [wemixvisor_dir p, genesis_dir p, path_join [genesis_dir p, ''bin''], upgrades_dir p,
       path_join [cf_home (c_core c), ''data'']])"

definition cli_init :: "config \<Rightarrow> init_env \<Rightarrow> string \<Rightarrow> init_world \<Rightarrow> (init_world, init_error, unit) gores" where
  "cli_init c env binary =
     init_then (init_dirs env (cli_dirs c))
       (init_then (copy_binary env binary (genesis_bin (paths_of c))) (link_genesis c env))"

definition init_config :: "getenv \<Rightarrow> string \<Rightarrow> string \<Rightarrow> config" where
  "init_config env home name =
     text_setting set_name name (env ''DAEMON_NAME'') (text_setting set_home home (env ''DAEMON_HOME'') (env_config env))"

definition command_dirs :: "config \<Rightarrow> string list" where
  "command_dirs c =
     (let p = paths_of c in
      [wemixvisor_dir p, genesis_dir p, path_join [genesis_dir p, ''bin''], upgrades_dir p,
       cf_data_backup_path (c_backup c), path_join [cf_home (c_core c), ''data'']])"

definition check_binary :: "init_env \<Rightarrow> string \<Rightarrow> init_world \<Rightarrow> (init_world, init_error, unit) gores" where
  "check_binary env binary w =
     (case real_path (iw_tree w) (path_comps (path_abs (ie_cwd env) binary)) of
        None \<Rightarrow> (w, Inl Init_no_binary)
      | Some qs \<Rightarrow>
          if qs \<noteq> [] \<and> map_of (iw_tree w) (abs_path qs) = None then (w, Inl Init_no_binary) else (w, Inr ()))"

definition chmod_binary :: "init_env \<Rightarrow> string \<Rightarrow> init_world \<Rightarrow> (init_world, init_error, unit) gores" where
  "chmod_binary env dst w =
     (let b = real_name (iw_tree w) (path_abs (ie_cwd env) dst) in
      if ie_chmod_ok env b then (w\<lparr>iw_exec := b # iw_exec w\<rparr>, Inr ()) else (w, Inl Init_not_executable))"

definition command_init :: "config \<Rightarrow> init_env \<Rightarrow> string \<Rightarrow> init_world \<Rightarrow> (init_world, init_error, unit) gores" where
  "command_init c env binary =
     init_then (check_binary env binary) (init_then (init_dirs env (command_dirs c))
       (init_then (copy_binary env binary (genesis_bin (paths_of c)))
         (init_then (chmod_binary env (genesis_bin (paths_of c))) (link_genesis c env))))"

definition init_execute ::
  "getenv \<Rightarrow> string \<Rightarrow> string \<Rightarrow> init_env \<Rightarrow> string \<Rightarrow> init_world \<Rightarrow> (init_world, init_error, unit) gores" where
  "init_execute vars home name env binary = command_init (init_config vars home name) env binary"

text \<open>The directory of an upgrade, and the height that the file watcher reports, which is not asked for.\<close>

definition create_upgrade_dir :: "config \<Rightarrow> init_env \<Rightarrow> string \<Rightarrow> tree \<Rightarrow> (tree, init_error, unit) gores" where
  "create_upgrade_dir c env name t = make_dirs env [path_join [upgrade_dir (paths_of c) name, ''bin'']] t"

definition check_height :: "init_error + int" where
  "check_height = Inr 0"

section \<open>Lemmas\<close>

lemma init_then_Inr:
  "init_then f g w = (w', Inr x) \<longleftrightarrow> (\<exists>w1. f w = (w1, Inr ()) \<and> g w1 = (w', Inr x))"
  by (auto simp: init_then_def split: prod.splits sum.splits)

text \<open>Making directories adds directories and nothing else, so what is read stays.\<close>

lemma make_dirs_adds:
  "make_dirs env ds t = (t', r) \<Longrightarrow> map_of t' p = map_of t p \<or> map_of t p = None \<and> map_of t' p = Some Tdir"
proof (induction env ds t rule: make_dirs.induct)
  case (2 env d ds t)
  show ?case
  proof (cases "d = ''''")
    case False
    obtain t1 b where m: "tree_mkdirs (ie_dir_ok env) (path_abs (ie_cwd env) d) t = (t1, b)" by fastforce
    note m' = m [unfolded tree_mkdirs_def]
    have k: "map_of t1 p = map_of t p \<or> map_of t p = None \<and> map_of t1 p = Some Tdir"
      using mkdir_path_keeps [OF m', of p] mkdir_path_new [OF m', of p] by (cases "map_of t p") auto
    show ?thesis
    proof (cases b)
      case True
      with "2.prems" False m have "make_dirs env ds t1 = (t', r)" by simp
      from "2.IH" [OF False m [symmetric] _ this] True k show ?thesis by (auto simp del: map_of_eq_Some_iff)
    next
      case False
      with "2.prems" \<open>d \<noteq> ''''\<close> m k show ?thesis by auto
    qed
  qed (use "2.prems" in auto)
qed auto

lemma init_dirs_adds:
  assumes "init_dirs env ds w = (w1, r)"
  shows "map_of (iw_tree w1) p = map_of (iw_tree w) p \<or>
      map_of (iw_tree w) p = None \<and> map_of (iw_tree w1) p = Some Tdir"
    and "iw_exec w1 = iw_exec w" and "iw_current w1 = iw_current w"
    and "real_path (iw_tree w1) cs = real_path (iw_tree w) cs"
proof -
  obtain t where m: "make_dirs env ds (iw_tree w) = (t, r)" "w1 = w\<lparr>iw_tree := t\<rparr>"
    using assms by (auto simp: init_dirs_def split: prod.splits)
  note A = make_dirs_adds [OF m(1)]
  show "map_of (iw_tree w1) p = map_of (iw_tree w) p \<or>
      map_of (iw_tree w) p = None \<and> map_of (iw_tree w1) p = Some Tdir"
    using A [of p] m(2) by simp
  show "iw_exec w1 = iw_exec w" "iw_current w1 = iw_current w" by (simp_all add: m(2))
  have "map_of t p = Some (Tlink q) \<longleftrightarrow> map_of (iw_tree w) p = Some (Tlink q)" for p q
    using A [of p] by (auto simp del: map_of_eq_Some_iff)
  then have "real_path t cs = real_path (iw_tree w) cs"
    unfolding real_path_def by (rule real_comps_cong)
  then show "real_path (iw_tree w1) cs = real_path (iw_tree w) cs" by (simp add: m(2))
qed

lemma init_dirs_reads:
  assumes "init_dirs env ds w = (w1, r)" and "read_path (iw_tree w) q = Some s"
  shows "read_path (iw_tree w1) q = Some s"
proof -
  from assms(2) obtain qs where qs: "real_path (iw_tree w) (path_comps q) = Some qs"
    "map_of (iw_tree w) (abs_path qs) = Some (Tfile s)"
    by (auto simp: read_path_def simp del: map_of_eq_Some_iff split: option.splits tnode.splits)
  with init_dirs_adds(1) [OF assms(1), of "abs_path qs"] have "map_of (iw_tree w1) (abs_path qs) = Some (Tfile s)"
    by (auto simp del: map_of_eq_Some_iff)
  with qs(1) show ?thesis by (simp add: read_path_def init_dirs_adds(4) [OF assms(1)])
qed

lemma write_path_result:
  assumes "write_path ok p s t = (t', True)"
  obtains qs where "real_path t (path_comps p) = Some qs" and "t' = gm_put (abs_path qs) (Tfile s) t"
    and "map_of t (abs_path qs) = None \<and> qs \<noteq> [] \<or> (\<exists>c. map_of t (abs_path qs) = Some (Tfile c))"
    and "\<And>cs. real_path t' cs = real_path t cs"
proof -
  from assms obtain qs where qs: "real_path t (path_comps p) = Some qs" "t' = gm_put (abs_path qs) (Tfile s) t"
    "map_of t (abs_path qs) = None \<and> qs \<noteq> [] \<or> (\<exists>c. map_of t (abs_path qs) = Some (Tfile c))"
    by (auto simp: write_path_def simp del: map_of_eq_Some_iff split: option.splits tnode.splits if_splits)
  have "map_of t' a = Some (Tlink q) \<longleftrightarrow> map_of t a = Some (Tlink q)" for a q
    using qs(2,3) by (auto simp del: map_of_eq_Some_iff)
  then have "real_path t' cs = real_path t cs" for cs
    unfolding real_path_def by (rule real_comps_cong)
  from that [OF qs this] show thesis .
qed

lemma copy_result:
  assumes "copy_binary env src dst w = (w1, Inr ())" and "read_path (iw_tree w) (path_abs (ie_cwd env) src) = Some s"
  shows "read_path (iw_tree w1) (path_abs (ie_cwd env) dst) = Some s" and "iw_current w1 = iw_current w"
    and "real_path (iw_tree w1) cs = real_path (iw_tree w) cs"
    and "set (iw_exec w1) = (if path_missing (iw_tree w) (path_abs (ie_cwd env) dst)
       then insert (real_name (iw_tree w) (path_abs (ie_cwd env) dst)) (set (iw_exec w)) else set (iw_exec w))"
    and "map_of (iw_tree w) p = Some Tdir \<Longrightarrow> real_path (iw_tree w) (path_comps (path_abs (ie_cwd env) dst)) = Some qs
       \<Longrightarrow> p \<noteq> abs_path qs"
proof -
  let ?b = "path_abs (ie_cwd env) dst"
  from assms obtain t1 where w: "write_path (ie_write_ok env) ?b s (iw_tree w) = (t1, True)"
    and w1: "w1 = w\<lparr>iw_tree := t1, iw_exec :=
      (if path_missing (iw_tree w) ?b then real_name (iw_tree w) ?b # iw_exec w else iw_exec w)\<rparr>"
    by (auto simp: copy_binary_def Let_def split: option.splits prod.splits bool.splits if_splits)
  obtain rs where rs: "real_path (iw_tree w) (path_comps ?b) = Some rs" "t1 = gm_put (abs_path rs) (Tfile s) (iw_tree w)"
    "map_of (iw_tree w) (abs_path rs) = None \<and> rs \<noteq> [] \<or> (\<exists>c. map_of (iw_tree w) (abs_path rs) = Some (Tfile c))"
    "\<And>cs. real_path t1 cs = real_path (iw_tree w) cs"
    by (rule write_path_result [OF w], rule that)
  then show "read_path (iw_tree w1) ?b = Some s" "real_path (iw_tree w1) cs = real_path (iw_tree w) cs"
    by (simp_all add: read_path_def w1)
  show "iw_current w1 = iw_current w" "set (iw_exec w1) = (if path_missing (iw_tree w) ?b
       then insert (real_name (iw_tree w) ?b) (set (iw_exec w)) else set (iw_exec w))"
    by (simp_all add: w1)
  show "p \<noteq> abs_path qs" if "map_of (iw_tree w) p = Some Tdir" "real_path (iw_tree w) (path_comps ?b) = Some qs"
    using rs(1,3) that by (auto simp del: map_of_eq_Some_iff)
qed

lemma genesis_path:
  assumes "is_abs (cf_home (c_core c))" and "plain (cf_name (c_core c))"
  shows "path_abs cwd (genesis_bin (paths_of c)) = genesis_bin (paths_of c)"
proof -
  let ?cs = "home_comps (paths_of c) @ [''wemixvisor'', ''genesis'', ''bin'', pc_name (paths_of c)]"
  have p: "is_abs (pc_home (paths_of c))" "plain (pc_name (paths_of c))" using assms by (simp_all add: paths_of_def)
  have "\<forall>s\<in>set ?cs. plain s" using path_comps_plain [OF p(1)] p(2) by auto
  then have "path_abs cwd (abs_path ?cs) = abs_path ?cs"
    using comps_abs_path [of ?cs] by (simp add: path_abs_def path_clean_def) (simp add: abs_path_def)
  then show ?thesis by (simp only: layout_bins(1) [OF p])
qed

lemma link_result:
  assumes "is_abs (cf_home (c_core c))" and "plain (cf_name (c_core c))" and "link_genesis c env w = (w', Inr ())"
  shows "resolve_current (paths_of c) (iw_current w') [''bin'', cf_name (c_core c)] = Some (genesis_bin (paths_of c))"
    and "iw_tree w' = iw_tree w" and "iw_exec w' = iw_exec w"
proof -
  let ?p = "paths_of c"
  have p: "is_abs (pc_home ?p)" "plain (pc_name ?p)" "pc_name ?p = cf_name (c_core c)" using assms by (simp_all add: paths_of_def)
  note h = path_comps_plain [OF p(1)]
  have rel: "path_rel (path_dir (current_dir ?p)) (genesis_dir ?p) = Some (join_slash [''genesis''])"
    using h rel_below [of "home_comps ?p @ [''wemixvisor'']" "[''genesis'']"]
    by (simp add: dir_current [OF p(1)] layout(3) [OF p(1)])
  then have "iw_current w' = Link_to (join_slash [''genesis''])" "iw_tree w' = iw_tree w" "iw_exec w' = iw_exec w"
    using assms(3) by (auto simp: link_genesis_def link_to_genesis_def create_symlink_def split: prod.splits sum.splits if_splits)
  then show "resolve_current ?p (iw_current w') [''bin'', cf_name (c_core c)] = Some (genesis_bin ?p)"
    and "iw_tree w' = iw_tree w" and "iw_exec w' = iw_exec w"
    using h p resolve_below [of "home_comps ?p @ [''wemixvisor'']" "[''genesis'']" "[''bin'', pc_name ?p]"]
    by (simp_all add: resolve_current_def dir_current layout_bins)
qed

text \<open>
  C40. After either command the daemon that is opened through \<open>current\<close> is the genesis binary, and what is read
  there is the content of the binary that was given, whatever was at \<open>current\<close> and in its place before:
  a node that was upgraded is set back. It may be executed if the command was that of package \<open>commands\<close>,
  or if nothing was there before, or if what was there could be executed: the other command, the one the
  program has, leaves the permissions of a file that was there.
\<close>

theorem init_installs_binary:
  assumes "is_abs (cf_home (c_core c))" and "plain (cf_name (c_core c))"
    and "read_path (iw_tree w) (path_abs (ie_cwd env) binary) = Some s"
    and "cli_init c env binary w = (w', Inr ()) \<or> command_init c env binary w = (w', Inr ())"
  shows "resolve_current (paths_of c) (iw_current w') [''bin'', cf_name (c_core c)] = Some (genesis_bin (paths_of c)) \<and>
    read_path (iw_tree w') (genesis_bin (paths_of c)) = Some s \<and>
    (command_init c env binary w = (w', Inr ()) \<or> path_missing (iw_tree w) (genesis_bin (paths_of c)) \<or>
       real_name (iw_tree w) (genesis_bin (paths_of c)) \<in> set (iw_exec w) \<longrightarrow>
     real_name (iw_tree w') (genesis_bin (paths_of c)) \<in> set (iw_exec w'))"
proof -
  let ?g = "genesis_bin (paths_of c)"
  note g = genesis_path [OF assms(1,2)]
  have tail: "resolve_current (paths_of c) (iw_current w') [''bin'', cf_name (c_core c)] = Some ?g \<and>
      read_path (iw_tree w') ?g = Some s \<and> real_name (iw_tree w') ?g = real_name (iw_tree w3) ?g \<and>
      iw_exec w' = iw_exec w3 \<and>
      (path_missing (iw_tree w) ?g \<or> real_name (iw_tree w) ?g \<in> set (iw_exec w) \<longrightarrow>
       real_name (iw_tree w') ?g \<in> set (iw_exec w2))"
    if d: "init_dirs env ds w = (w1, Inr ())" and k: "copy_binary env binary ?g w1 = (w2, Inr ())"
      and t3: "iw_tree w3 = iw_tree w2" and l: "link_genesis c env w3 = (w', Inr ())" for ds w1 w2 w3
  proof -
    note D = init_dirs_adds [OF d] and L = link_result [OF assms(1,2) l]
    note K = copy_result [OF k init_dirs_reads [OF d assms(3)], unfolded g]
    have "real_path (iw_tree w') (path_comps ?g) = real_path (iw_tree w) (path_comps ?g)"
      "real_path (iw_tree w1) (path_comps ?g) = real_path (iw_tree w) (path_comps ?g)"
      by (simp_all add: L t3 K(3) D(4))
    then have n: "real_name (iw_tree w') ?g = real_name (iw_tree w) ?g" "real_name (iw_tree w1) ?g = real_name (iw_tree w) ?g"
      by (simp_all add: real_name_def)
    have "path_missing (iw_tree w1) ?g" if m: "path_missing (iw_tree w) ?g"
    proof -
      from m obtain qs where qs: "real_path (iw_tree w) (path_comps ?g) = Some qs" "qs \<noteq> []"
        "map_of (iw_tree w) (abs_path qs) = None"
        by (auto simp: path_missing_def split: option.splits)
      then have "map_of (iw_tree w1) (abs_path qs) \<noteq> Some Tdir" using K(5) D(4) by metis
      with D(1) [of "abs_path qs"] qs show ?thesis by (auto simp: path_missing_def D(4))
    qed
    with n K(4) have "path_missing (iw_tree w) ?g \<or> real_name (iw_tree w) ?g \<in> set (iw_exec w) \<longrightarrow>
        real_name (iw_tree w') ?g \<in> set (iw_exec w2)"
      by (auto simp: D(2))
    with L K(1) t3 show ?thesis by simp
  qed
  have com: ?thesis if "command_init c env binary w = (w', Inr ())"
  proof -
    from that obtain w1 w2 w3 where "init_dirs env (command_dirs c) w = (w1, Inr ())" "copy_binary env binary ?g w1 = (w2, Inr ())"
      "chmod_binary env ?g w2 = (w3, Inr ())" and l: "link_genesis c env w3 = (w', Inr ())"
      by (auto simp: command_init_def init_then_Inr check_binary_def split: if_splits option.splits)
    moreover from this(3) g have "iw_tree w3 = iw_tree w2" "real_name (iw_tree w2) ?g \<in> set (iw_exec w3)"
      by (auto simp: chmod_binary_def Let_def split: if_splits)
    ultimately show ?thesis using tail by metis
  qed
  show ?thesis
  proof (cases "command_init c env binary w = (w', Inr ())")
    case True
    then show ?thesis by (rule com)
  next
    case False
    with assms(4) obtain w1 w2 where d: "init_dirs env (cli_dirs c) w = (w1, Inr ())"
      and k: "copy_binary env binary ?g w1 = (w2, Inr ())" and l: "link_genesis c env w2 = (w', Inr ())"
      by (auto simp: cli_init_def init_then_Inr)
    from tail [OF d k refl l] False show ?thesis by metis
  qed
qed

text \<open>A home and a binary on which both commands run through.\<close>

definition demo_init_env :: init_env where
  "demo_init_env = \<lparr>ie_cwd = ''/tmp'', ie_dir_ok = \<lambda>_. True, ie_read_ok = \<lambda>_. True, ie_write_ok = \<lambda>_. True,
     ie_chmod_ok = \<lambda>_. True, ie_link = \<lparr>le_stat_ok = \<lambda>_. True, le_remove_ok = True, le_symlink_ok = True\<rparr>\<rparr>"

definition demo_init_world :: init_world where
  "demo_init_world = \<lparr>iw_tree = [(''/b'', Tfile ''code'')], iw_exec = [], iw_current = Link_to ''upgrades/v1''\<rparr>"

abbreviation demo_home :: config where
  "demo_home \<equiv> default_config ''/h'' ''/root''"

theorem init_installs_binary_witness:
  "\<exists>w'. command_init demo_home demo_init_env ''/b'' demo_init_world = (w', Inr ()) \<and>
     read_path (iw_tree w') (genesis_bin (paths_of demo_home)) = Some ''code'' \<and>
     real_name (iw_tree w') (genesis_bin (paths_of demo_home)) \<in> set (iw_exec w')"
proof -
  have ok: "snd (command_init demo_home demo_init_env ''/b'' demo_init_world) = Inr ()" by code_simp
  obtain w' r where w: "command_init demo_home demo_init_env ''/b'' demo_init_world = (w', r)" by fastforce
  with ok have r: "command_init demo_home demo_init_env ''/b'' demo_init_world = (w', Inr ())" by simp
  have home: "cf_home (c_core demo_home) = ''/h''" "cf_name (c_core demo_home) = ''wemixd''"
    by (simp_all add: default_config_def default_home_def Let_def)
  then have "is_abs (cf_home (c_core demo_home))" "plain (cf_name (c_core demo_home))"
    by (simp_all only:) (simp_all add: is_abs_def plain_def)
  moreover have "read_path (iw_tree demo_init_world) (path_abs (ie_cwd demo_init_env) ''/b'') = Some ''code''" by code_simp
  ultimately show ?thesis using init_installs_binary [of demo_home demo_init_world demo_init_env "''/b''" "''code''" w'] r by blast
qed

end
