(* ===== verification/CommandHandler.thy ===== *)
theory CommandHandler
  imports CliParser CliLogs CliInit Health
begin

text \<open>
  \<open>internal/cli/commands.go\<close>: the handler that parses a command line, applies its own options to the
  configuration and runs a command on the node manager; and what it shows of the node, the status of
  \<open>internal/node/manager.go\<close>. The state is the configuration, which the manager shares, the manager and the
  files. What the goroutines of the manager do while a command waits for a signal is an argument.
\<close>

section \<open>The status of the node\<close>

record node_status =
  ns_state :: node_state
  ns_state_string :: string
  ns_pid :: nat
  ns_start_time :: time
  ns_uptime :: duration
  ns_restart_count :: int
  ns_version :: string
  ns_network :: string
  ns_binary :: string
  ns_health :: "health_status option"

definition get_status ::
  "time \<Rightarrow> (string list option \<times> bool) list \<Rightarrow> health_status \<Rightarrow> config \<Rightarrow> node_mgr \<Rightarrow> node_status" where
  "get_status now tries health c m =
     (let bin = current_bin (paths_of c) in
      \<lparr>ns_state = nm_state m, ns_state_string = state_string (nm_state m), ns_pid = get_pid m,
       ns_start_time = nm_start_time m,
       ns_uptime = (case nm_process m of None \<Rightarrow> 0 | Some _ \<Rightarrow> now - nm_start_time m),
       ns_restart_count = nm_restart_count m,
       ns_version = (if bin \<noteq> '''' \<and> nm_state m = StateRunning then get_version (node_config_of c) tries m else ''''),
       ns_network = cf_network (c_health c), ns_binary = bin,
       ns_health = (if nm_state m = StateRunning then Some health else None)\<rparr>)"

text \<open>
  The quotients are floats in the source; they have these whole parts for every duration below 90 days. The
  remainders keep the sign, as Go's do.
\<close>

definition go_div :: "int \<Rightarrow> int \<Rightarrow> int" where
  "go_div a b = (if a < 0 then - (- a div b) else a div b)"

definition go_mod :: "int \<Rightarrow> int \<Rightarrow> int" where
  "go_mod a b = a - go_div a b * b"

definition format_duration :: "duration \<Rightarrow> string" where
  "format_duration d =
     (let days = go_div d (24 * 60 * minute); hours = go_mod (go_div d (60 * minute)) 24;
          minutes = go_mod (go_div d minute) 60; seconds = go_mod (go_div d second) 60 in
      (if days > 0 then int_str days @ ''d '' else '''') @
      (if days > 0 \<or> hours > 0 then int_str hours @ ''h '' else '''') @
      (if days > 0 \<or> hours > 0 \<or> minutes > 0 then int_str minutes @ ''m '' else '''') @ int_str seconds @ ''s'')"

abbreviation good_mark :: string where "good_mark \<equiv> [CHR 0xE2, CHR 0x9C, CHR 0x85]"
abbreviation bad_mark :: string where "bad_mark \<equiv> [CHR 0xE2, CHR 0x9D, CHR 0x8C]"

datatype status_line = St_text string | St_check bool string "check_error option"

text \<open>A check is shown with the text of its error.\<close>

definition health_lines :: "health_status \<Rightarrow> status_line list" where
  "health_lines h =
     [St_text '''', St_text (''Health Status: '' @ (if hs_healthy h then good_mark @ '' Healthy'' else bad_mark @ '' Unhealthy''))] @
     (if hs_checks h = [] then []
      else St_text ''Health Checks:'' # map (\<lambda>(name, r). St_check (cr_healthy r) name (cr_error r)) (hs_checks h))"

definition node_lines :: "node_status \<Rightarrow> status_line list" where
  "node_lines s =
     [St_text (''Node Status: '' @ ns_state_string s)] @
     (if ns_pid s > 0 then [St_text (''PID: '' @ nat_str (ns_pid s)), St_text (''Uptime: '' @ format_duration (ns_uptime s))]
      else []) @
     [St_text (''Network: '' @ ns_network s)] @
     (if ns_version s \<noteq> '''' then [St_text (''Version: '' @ ns_version s)] else []) @
     [St_text (''Restart Count: '' @ int_str (ns_restart_count s))] @
     (if ns_binary s \<noteq> '''' then [St_text (''Binary: '' @ ns_binary s)] else []) @
     (case ns_health s of None \<Rightarrow> [] | Some h \<Rightarrow> health_lines h)"

text \<open>Where the node writes its output, and where the \<open>logs\<close> command looks for it.\<close>

definition node_log_path :: "config \<Rightarrow> string option" where
  "node_log_path c =
     (let f = cf_log_file (c_health c) in
      if f = '''' then None else Some (if is_abs f then f else path_join [cf_home (c_core c), f]))"

definition log_path :: "config \<Rightarrow> string" where
  "log_path c =
     (let f = cf_log_file (c_health c) in
      if f = '''' then path_join [cf_home (c_core c), ''logs'', ''node.log''] else f)"

section \<open>The handler\<close>

record handler =
  hd_config :: config
  hd_node :: node_mgr
  hd_files :: init_world

definition new_handler :: "config \<Rightarrow> init_world \<Rightarrow> handler" where
  "new_handler c w = \<lparr>hd_config = c, hd_node = new_manager (node_config_of c), hd_files = w\<rparr>"

record cmd_env =
  ce_start :: start_env
  ce_stop :: stop_env
  ce_now :: time
  ce_versions :: "(string list option \<times> bool) list"
  ce_health :: health_status
  ce_init :: init_env
  ce_logs :: "string \<Rightarrow> log_file"
  ce_appended :: "string list"
  ce_meanwhile :: "node_mgr \<Rightarrow> node_mgr"

datatype cmd_output =
  Out_nothing | Out_initialized | Out_status_doc node_status | Out_status "status_line list" | Out_log "string list"
| Out_version "string list"

datatype cmd_error =
  Cmd_parse parse_error | Cmd_already_running | Cmd_not_started nm_error | Cmd_not_running
| Cmd_not_stopped nm_error | Cmd_not_restarted nm_error | Cmd_log_missing string | Cmd_log_failed log_error
| Cmd_init_failed init_error | Cmd_unknown string

text \<open>A command returns, panics, or goes on printing what is appended to the log.\<close>

datatype cmd_result = Cmd_ok cmd_output | Cmd_failed cmd_error | Cmd_panics | Cmd_follows string

text \<open>The options are visited in no particular order.\<close>

definition apply_option :: "string \<times> string \<Rightarrow> config \<Rightarrow> config" where
  "apply_option = (\<lambda>(k, v) c.
     if k = ''--home'' then set_home v c
     else if k = ''--name'' then set_name v c
     else if k = ''--network'' then c\<lparr>c_health := (c_health c)\<lparr>cf_network := v\<rparr>\<rparr>
     else if k = ''--debug'' then c\<lparr>c_health := (c_health c)\<lparr>cf_debug := (v = ''true'')\<rparr>\<rparr>
     else if k = ''--json'' then c\<lparr>c_automation := (c_automation c)\<lparr>cf_json_output := (v = ''true'')\<rparr>\<rparr>
     else if k = ''--quiet'' then c\<lparr>c_automation := (c_automation c)\<lparr>cf_quiet := (v = ''true'')\<rparr>\<rparr>
     else c)"

definition apply_options :: "(string, string) gomap \<Rightarrow> config \<Rightarrow> config" where
  "apply_options opts c = fold apply_option opts c"

definition wait_for_signal :: "cmd_env \<Rightarrow> handler \<Rightarrow> handler \<times> cmd_result" where
  "wait_for_signal e h =
     (let m = ce_meanwhile e (hd_node h) in
      if nm_state m = StateRunning then
        (case nm_stop (ce_stop e) m of
           (m1, Inl err) \<Rightarrow> (h\<lparr>hd_node := m1\<rparr>, Cmd_failed (Cmd_not_stopped err))
         | (m1, Inr _) \<Rightarrow> (h\<lparr>hd_node := m1\<rparr>, Cmd_ok Out_nothing))
      else (h\<lparr>hd_node := m\<rparr>, Cmd_ok Out_nothing))"

definition handle_start :: "cmd_env \<Rightarrow> parsed_args \<Rightarrow> handler \<Rightarrow> handler \<times> cmd_result" where
  "handle_start e p h =
     (if nm_state (hd_node h) = StateRunning then (h, Cmd_failed Cmd_already_running)
      else (case nm_start (node_config_of (hd_config h)) (ce_start e) (pa_node_args p) (hd_node h) of
              (m, Inl err) \<Rightarrow> (h\<lparr>hd_node := m\<rparr>, Cmd_failed (Cmd_not_started err))
            | (m, Inr _) \<Rightarrow>
                (let h1 = h\<lparr>hd_node := m\<rparr> in
                 if \<not> cf_daemon (c_automation (hd_config h)) then wait_for_signal e h1 else (h1, Cmd_ok Out_nothing))))"

definition handle_stop :: "cmd_env \<Rightarrow> handler \<Rightarrow> handler \<times> cmd_result" where
  "handle_stop e h =
     (if nm_state (hd_node h) \<noteq> StateRunning then (h, Cmd_failed Cmd_not_running)
      else (case nm_stop (ce_stop e) (hd_node h) of
              (m, Inl err) \<Rightarrow> (h\<lparr>hd_node := m\<rparr>, Cmd_failed (Cmd_not_stopped err))
            | (m, Inr _) \<Rightarrow> (h\<lparr>hd_node := m\<rparr>, Cmd_ok Out_nothing)))"

definition handle_restart :: "cmd_env \<Rightarrow> parsed_args \<Rightarrow> handler \<Rightarrow> handler \<times> cmd_result" where
  "handle_restart e p h =
     (let m = (if pa_node_args p \<noteq> [] then set_node_args (pa_node_args p) (hd_node h) else hd_node h) in
      case nm_restart (node_config_of (hd_config h)) (ce_stop e) (ce_start e) m of
        (m1, Inl err) \<Rightarrow> (h\<lparr>hd_node := m1\<rparr>, Cmd_failed (Cmd_not_restarted err))
      | (m1, Inr _) \<Rightarrow> (h\<lparr>hd_node := m1\<rparr>, Cmd_ok Out_nothing))"

definition handle_status :: "cmd_env \<Rightarrow> handler \<Rightarrow> handler \<times> cmd_result" where
  "handle_status e h =
     (let s = get_status (ce_now e) (ce_versions e) (ce_health e) (hd_config h) (hd_node h) in
      (h, Cmd_ok (if cf_json_output (c_automation (hd_config h)) then Out_status_doc s else Out_status (node_lines s))))"

text \<open>The options of \<open>logs\<close>: the last number that can be read counts.\<close>

definition log_option :: "string \<Rightarrow> bool \<times> int \<Rightarrow> bool \<times> int" where
  "log_option a = (\<lambda>(follow, n).
     (follow \<or> a = ''--follow'' \<or> a = ''-f'',
      if take 7 a = ''--tail='' then (case parse_int64 (drop 7 a) of Some k \<Rightarrow> k | None \<Rightarrow> n) else n))"

definition handle_logs :: "cmd_env \<Rightarrow> parsed_args \<Rightarrow> handler \<Rightarrow> handler \<times> cmd_result" where
  "handle_logs e p h =
     (case fold log_option (pa_node_args p) (False, 100) of
        (follow, n) \<Rightarrow>
          (let path = log_path (hd_config h); lf = ce_logs e path in
           (h, if lf = Log_absent then Cmd_failed (Cmd_log_missing path)
               else if follow then
                 (case follow_logs lf (ce_appended e) of Inl err \<Rightarrow> Cmd_failed (Cmd_log_failed err) | Inr s \<Rightarrow> Cmd_follows s)
               else (case tail_logs lf n of Inl err \<Rightarrow> Cmd_failed (Cmd_log_failed err) | Inr ls \<Rightarrow> Cmd_ok (Out_log ls)))))"

definition handle_version :: "cmd_env \<Rightarrow> handler \<Rightarrow> handler \<times> cmd_result" where
  "handle_version e h =
     (let m = hd_node h; v = get_version (node_config_of (hd_config h)) (ce_versions e) m in
      (h, Cmd_ok (Out_version (''wemixvisor version: 0.5.0'' #
            (if nm_state m = StateRunning \<and> v \<noteq> '''' \<and> v \<noteq> ''unknown'' then [''node version: '' @ v] else [])))))"

definition handle_run :: "cmd_env \<Rightarrow> parsed_args \<Rightarrow> handler \<Rightarrow> handler \<times> cmd_result" where
  "handle_run e p h =
     (case nm_start (node_config_of (hd_config h)) (ce_start e) (pa_node_args p) (hd_node h) of
        (m, Inl err) \<Rightarrow> (h\<lparr>hd_node := m\<rparr>, Cmd_failed (Cmd_not_started err))
      | (m, Inr _) \<Rightarrow> wait_for_signal e (h\<lparr>hd_node := m\<rparr>))"

text \<open>\<open>init\<close> is called with the node arguments and takes the first without asking whether there is one.\<close>

definition handle_init :: "cmd_env \<Rightarrow> parsed_args \<Rightarrow> handler \<Rightarrow> handler \<times> cmd_result" where
  "handle_init e p h =
     (case pa_node_args p of
        [] \<Rightarrow> (h, Cmd_panics)
      | binary # _ \<Rightarrow>
          (case cli_init (hd_config h) (ce_init e) binary (hd_files h) of
             (w, Inl err) \<Rightarrow> (h\<lparr>hd_files := w\<rparr>, Cmd_failed (Cmd_init_failed err))
           | (w, Inr _) \<Rightarrow> (h\<lparr>hd_files := w\<rparr>, Cmd_ok Out_initialized)))"

definition execute :: "cmd_env \<Rightarrow> string list \<Rightarrow> handler \<Rightarrow> handler \<times> cmd_result" where
  "execute e args h0 =
     (case parse args of
        Inl err \<Rightarrow> (h0, Cmd_failed (Cmd_parse err))
      | Inr p \<Rightarrow>
          (let h = h0\<lparr>hd_config := apply_options (pa_opts p) (hd_config h0)\<rparr>; cmd = pa_command p in
           if cmd = ''init'' then handle_init e p h
           else if cmd = ''start'' then handle_start e p h
           else if cmd = ''stop'' then handle_stop e h
           else if cmd = ''restart'' then handle_restart e p h
           else if cmd = ''status'' then handle_status e h
           else if cmd = ''logs'' then handle_logs e p h
           else if cmd = ''version'' then handle_version e h
           else if cmd = ''run'' then handle_run e p h
           else (h, Cmd_failed (Cmd_unknown cmd))))"

section \<open>Lemmas\<close>

text \<open>Options under different names write different fields, so their order does not matter.\<close>

lemma apply_option_simps [simp]:
  "apply_option (''--home'', v) = set_home v" "apply_option (''--name'', v) = set_name v"
  "apply_option (''--network'', v) = (\<lambda>c. c\<lparr>c_health := (c_health c)\<lparr>cf_network := v\<rparr>\<rparr>)"
  "apply_option (''--debug'', v) = (\<lambda>c. c\<lparr>c_health := (c_health c)\<lparr>cf_debug := (v = ''true'')\<rparr>\<rparr>)"
  "apply_option (''--json'', v) = (\<lambda>c. c\<lparr>c_automation := (c_automation c)\<lparr>cf_json_output := (v = ''true'')\<rparr>\<rparr>)"
  "apply_option (''--quiet'', v) = (\<lambda>c. c\<lparr>c_automation := (c_automation c)\<lparr>cf_quiet := (v = ''true'')\<rparr>\<rparr>)"
  "k \<notin> set wemixvisor_flags \<Longrightarrow> apply_option (k, v) = (\<lambda>c. c)"
  by (simp_all add: apply_option_def fun_eq_iff wemixvisor_flags_def)

lemma flag_cases:
  obtains "k = ''--home''" | "k = ''--name''" | "k = ''--network''" | "k = ''--debug''" | "k = ''--json''" | "k = ''--quiet''"
  | "k \<notin> set wemixvisor_flags"
  unfolding wemixvisor_flags_def by force

lemma apply_option_commute:
  "k1 \<noteq> k2 \<Longrightarrow> apply_option (k1, v1) (apply_option (k2, v2) c) = apply_option (k2, v2) (apply_option (k1, v1) c)"
  by (rule flag_cases [of k1]; rule flag_cases [of k2]; simp; simp add: set_home_def set_name_def)

lemma apply_options_any_order:
  assumes "gm_ok opts" and "mset opts' = mset opts"
  shows "apply_options opts' c = apply_options opts c"
proof -
  have "apply_option x \<circ> apply_option y = apply_option y \<circ> apply_option x" if "x \<in> set opts" "y \<in> set opts" for x y
  proof (cases "fst x = fst y")
    case True
    with that assms(1) have "x = y" by (metis eq_key_imp_eq_value prod.collapse)
    then show ?thesis by simp
  next
    case False
    then show ?thesis by (cases x; cases y) (simp add: apply_option_commute fun_eq_iff del: apply_option_simps)
  qed
  then have "fold apply_option opts = fold apply_option opts'"
    using assms(2) by (intro fold_multiset_equiv) simp_all
  then show ?thesis by (simp add: apply_options_def)
qed

lemma parse_rest_opts_ok: "gm_ok (pa_opts p) \<Longrightarrow> gm_ok (pa_opts (parse_rest as p))"
  by (induction as p rule: parse_rest.induct) (auto split: list.splits)

lemma options_keep_daemon: "cf_daemon (c_automation (apply_options opts c)) = cf_daemon (c_automation c)"
proof -
  have one: "cf_daemon (c_automation (apply_option kv d)) = cf_daemon (c_automation d)" for kv d
    by (cases kv) (simp add: apply_option_def set_home_def set_name_def del: apply_option_simps)
  show ?thesis unfolding apply_options_def
    by (induction opts arbitrary: c) (simp_all only: fold_simps one)
qed

lemma parse_start:
  assumes "cmd \<in> {''start'', ''restart'', ''logs'', ''version'', ''init'', ''run''}"
  shows "parse (cmd # args) = Inr (parse_rest args \<lparr>pa_command = cmd, pa_opts = [], pa_node_args = []\<rparr>)"
  using assms by (auto simp: parse_def is_valid_command_def valid_commands_def validate_args_def parse_rest_command Let_def)

lemma nm_stop_leaves_running: "nm_stop e m = (m', r) \<Longrightarrow> nm_state m = StateRunning \<Longrightarrow> nm_state m' \<noteq> StateRunning"
  by (auto simp: nm_stop_def stop_begin_def cleanup_state_def close_done_def split: option.splits sum.splits if_splits)

lemma wait_leaves_running: "wait_for_signal e h = (h', r) \<Longrightarrow> nm_state (hd_node h') \<noteq> StateRunning"
  by (auto simp: wait_for_signal_def Let_def dest: nm_stop_leaves_running split: prod.splits sum.splits if_splits)

lemma nm_start_runs:
  "nm_start cfg env args m = (m', Inr ()) \<Longrightarrow> nm_state m' = StateRunning \<and> nm_args m' = args \<and> nm_state m = StateStopped"
  by (auto simp: nm_start_def start_process_def Let_def split: option.splits if_splits prod.splits sum.splits)

lemma nm_start_fails:
  "nm_start cfg env args m = (m', Inl e) \<Longrightarrow> nm_state m \<noteq> StateRunning \<Longrightarrow> nm_state m' \<noteq> StateRunning"
  by (auto simp: nm_start_def start_process_def Let_def split: option.splits if_splits prod.splits sum.splits)

text \<open>
  C34. A background start splits its command line: the node runs with exactly the arguments that are not the
  handler's own, and the others have changed the configuration, in whatever order they are visited. There
  is no option for the background itself: \<open>--daemon\<close> is an argument of the node.
\<close>

theorem start_splits_command_line:
  assumes "execute e (''start'' # args) h = (h', Cmd_ok out)" and "cf_daemon (c_automation (hd_config h))"
  shows "nm_state (hd_node h') = StateRunning \<and> nm_args (hd_node h') = passed_on args \<and>
    (\<exists>opts. parse (''start'' # args) = Inr \<lparr>pa_command = ''start'', pa_opts = opts, pa_node_args = passed_on args\<rparr> \<and>
       (\<forall>opts'. mset opts' = mset opts \<longrightarrow> hd_config h' = apply_options opts' (hd_config h)))"
proof -
  let ?p = "parse_rest args \<lparr>pa_command = ''start'', pa_opts = [], pa_node_args = []\<rparr>"
  have parsed: "parse (''start'' # args) = Inr ?p" by (rule parse_start) simp
  have p: "?p = \<lparr>pa_command = ''start'', pa_opts = pa_opts ?p, pa_node_args = passed_on args\<rparr>"
    by (rule parsed_args.equality) (simp_all add: parse_rest_command parse_rest_node)
  have ok: "gm_ok (pa_opts ?p)" by (rule parse_rest_opts_ok) simp
  let ?c = "apply_options (pa_opts ?p) (hd_config h)"
  from assms(1) have "handle_start e ?p (h\<lparr>hd_config := ?c\<rparr>) = (h', Cmd_ok out)"
    by (simp add: execute_def parsed parse_rest_command Let_def)
  then obtain m where "nm_start (node_config_of ?c) (ce_start e) (passed_on args) (hd_node h) = (m, Inr ())"
    and h': "h' = h\<lparr>hd_config := ?c, hd_node := m\<rparr>"
    using assms(2) by (auto simp: handle_start_def options_keep_daemon parse_rest_node Let_def split: prod.splits sum.splits if_splits)
  then have "nm_state m = StateRunning" "nm_args m = passed_on args" using nm_start_runs by blast+
  moreover have "\<exists>opts. parse (''start'' # args) = Inr \<lparr>pa_command = ''start'', pa_opts = opts, pa_node_args = passed_on args\<rparr> \<and>
      (\<forall>opts'. mset opts' = mset opts \<longrightarrow> ?c = apply_options opts' (hd_config h))"
  proof (intro exI conjI allI impI)
    show "parse (''start'' # args) = Inr \<lparr>pa_command = ''start'', pa_opts = pa_opts ?p, pa_node_args = passed_on args\<rparr>"
      using parsed p by (rule trans [OF _ arg_cong [of _ _ Inr]])
    show "?c = apply_options opts' (hd_config h)" if "mset opts' = mset (pa_opts ?p)" for opts'
      using apply_options_any_order [OF ok that] by (rule sym)
  qed
  ultimately show ?thesis unfolding h' by simp
qed

text \<open>
  C35. A command that runs the node in the foreground never leaves it in the running state, whatever happened
  until the signal came.
\<close>

theorem foreground_leaves_nothing_running:
  assumes "execute e (cmd # args) h = (h', r)" and "cmd = ''run'' \<or> cmd = ''start'' \<and> \<not> cf_daemon (c_automation (hd_config h))"
    and "nm_state (hd_node h) \<noteq> StateRunning"
  shows "nm_state (hd_node h') \<noteq> StateRunning"
proof -
  let ?p = "parse_rest args \<lparr>pa_command = cmd, pa_opts = [], pa_node_args = []\<rparr>"
  have parsed: "parse (cmd # args) = Inr ?p" by (rule parse_start) (use assms(2) in auto)
  let ?h = "h\<lparr>hd_config := apply_options (pa_opts ?p) (hd_config h)\<rparr>"
  from assms(1,2) have "handle_run e ?p ?h = (h', r) \<or> handle_start e ?p ?h = (h', r) \<and> \<not> cf_daemon (c_automation (hd_config ?h))"
    by (auto simp: execute_def parsed parse_rest_command options_keep_daemon Let_def)
  with assms(3) show ?thesis
    by (auto simp: handle_run_def handle_start_def Let_def dest: nm_start_fails wait_leaves_running
        split: prod.splits sum.splits if_splits)
qed

text \<open>
  A new process has a manager of its own, which knows no node: it cannot stop one, calls it stopped, and
  restarting starts a second one without arguments.
\<close>

lemma new_process_knows_no_node:
  "execute e [''stop''] (new_handler c w) = (new_handler c w, Cmd_failed Cmd_not_running) \<and>
   (\<exists>s. ns_state s = StateStopped \<and> (execute e [''status''] (new_handler c w)) = (new_handler c w,
      Cmd_ok (if cf_json_output (c_automation c) then Out_status_doc s else Out_status (node_lines s)))) \<and>
   (execute e [''restart''] (new_handler c w) = (h', Cmd_ok out) \<longrightarrow> nm_state (hd_node h') = StateRunning \<and> nm_args (hd_node h') = [])"
proof (intro conjI)
  have p: "parse [''stop''] = Inr \<lparr>pa_command = ''stop'', pa_opts = [], pa_node_args = []\<rparr>"
    "parse [''status''] = Inr \<lparr>pa_command = ''status'', pa_opts = [], pa_node_args = []\<rparr>"
    "parse [''restart''] = Inr \<lparr>pa_command = ''restart'', pa_opts = [], pa_node_args = []\<rparr>"
    by (simp_all add: parse_def is_valid_command_def valid_commands_def validate_args_def Let_def)
  show "execute e [''stop''] (new_handler c w) = (new_handler c w, Cmd_failed Cmd_not_running)"
    by (simp add: execute_def p apply_options_def handle_stop_def new_handler_def new_manager_def Let_def)
  show "\<exists>s. ns_state s = StateStopped \<and> (execute e [''status''] (new_handler c w)) = (new_handler c w,
      Cmd_ok (if cf_json_output (c_automation c) then Out_status_doc s else Out_status (node_lines s)))"
    by (rule exI [of _ "get_status (ce_now e) (ce_versions e) (ce_health e) c (new_manager (node_config_of c))"])
      (simp add: execute_def p apply_options_def handle_status_def new_handler_def Let_def,
       simp add: get_status_def new_manager_def Let_def)
  show "execute e [''restart''] (new_handler c w) = (h', Cmd_ok out) \<longrightarrow> nm_state (hd_node h') = StateRunning \<and> nm_args (hd_node h') = []"
    by (auto simp: execute_def p apply_options_def handle_restart_def new_handler_def new_manager_def nm_restart_def ensure_done_def Let_def
        dest: nm_start_runs split: prod.splits sum.splits)
qed

text \<open>With a relative name, or none, the log is written at one place and read at another.\<close>

lemma log_read_where_written:
  assumes "is_abs (cf_home (c_core c))"
  shows "node_log_path c = Some (log_path c) \<longleftrightarrow> is_abs (cf_log_file (c_health c))"
proof -
  have "is_abs (path_join [cf_home (c_core c), f])" for f
    using assms by (cases "cf_home (c_core c)") (auto simp: path_join_def path_clean_def is_abs_def split: list.splits)
  then have "path_join [cf_home (c_core c), f] \<noteq> f" if "\<not> is_abs f" for f using that by metis
  then show ?thesis by (auto simp: node_log_path_def log_path_def Let_def is_abs_def)
qed

section \<open>Witnesses\<close>

definition demo_cmd_env :: cmd_env where
  "demo_cmd_env =
     \<lparr>ce_start = \<lparr>se_stat_ok = True, se_spawn = Some 42, se_now = 5\<rparr>,
      ce_stop = \<lparr>ke_group_term = True, ke_process_term = True, ke_group_kill = True\<rparr>, ce_now = 9, ce_versions = [],
      ce_health = \<lparr>hs_healthy = True, hs_timestamp = 0, hs_checks = []\<rparr>, ce_init = demo_init_env,
      ce_logs = (\<lambda>_. Log_absent), ce_appended = [], ce_meanwhile = id\<rparr>"

definition demo_handler :: "bool \<Rightarrow> handler" where
  "demo_handler background = new_handler (demo_home\<lparr>c_automation := (c_automation demo_home)\<lparr>cf_daemon := background\<rparr>\<rparr>) demo_init_world"

lemma demo_idle: "nm_state (hd_node (demo_handler background)) \<noteq> StateRunning"
  by (simp add: demo_handler_def new_handler_def new_manager_def)

theorem start_splits_command_line_witness:
  "\<exists>h'. execute demo_cmd_env [''start'', ''--name'', ''gwemix'', ''--syncmode'', ''full''] (demo_handler True) = (h', Cmd_ok Out_nothing) \<and>
     nm_state (hd_node h') = StateRunning \<and> nm_args (hd_node h') = [''--syncmode'', ''full'']"
proof -
  let ?args = "[''--name'', ''gwemix'', ''--syncmode'', ''full'']"
  have "snd (execute demo_cmd_env (''start'' # ?args) (demo_handler True)) = Cmd_ok Out_nothing" by code_simp
  then obtain h' where h': "execute demo_cmd_env (''start'' # ?args) (demo_handler True) = (h', Cmd_ok Out_nothing)"
    by (metis prod.collapse)
  have "cf_daemon (c_automation (hd_config (demo_handler True)))" by (simp add: demo_handler_def new_handler_def)
  then have "nm_state (hd_node h') = StateRunning \<and> nm_args (hd_node h') = passed_on ?args"
    using start_splits_command_line [OF h'] by blast
  moreover have "passed_on ?args = [''--syncmode'', ''full'']" by code_simp
  ultimately show ?thesis using h' by auto
qed

theorem foreground_leaves_nothing_running_witness:
  "\<exists>h'. execute demo_cmd_env [''run'', ''--syncmode'', ''full''] (demo_handler False) = (h', Cmd_ok Out_nothing) \<and>
     nm_state (hd_node h') \<noteq> StateRunning"
proof -
  have "snd (execute demo_cmd_env [''run'', ''--syncmode'', ''full''] (demo_handler False)) = Cmd_ok Out_nothing" by code_simp
  then obtain h' where h': "execute demo_cmd_env [''run'', ''--syncmode'', ''full''] (demo_handler False) = (h', Cmd_ok Out_nothing)"
    by (metis prod.collapse)
  with foreground_leaves_nothing_running [OF h' _ demo_idle] show ?thesis by blast
qed

end
