(* ===== verification/CliBackup.thy ===== *)
theory CliBackup
  imports Backups Profiler
begin

text \<open>
  \<open>internal/cli/backup.go\<close>, \<open>status.go\<close> and \<open>start.go\<close>: the backup commands over the backup manager, and the
  commands that show, start and stop the node. What can be read is an argument, and so is the working
  directory; archives outside the backup directory are not part of the state.
\<close>

section \<open>The backup commands\<close>

definition cli_backup_create :: "config \<Rightarrow> backup_env \<Rightarrow> backup_state \<Rightarrow> (backup_state, backup_error, string list) gores" where
  "cli_backup_create c env s =
     (case create_backup c env ''manual'' s of
        (s1, Inl e) \<Rightarrow> (s1, Inl e)
      | (s1, Inr path) \<Rightarrow> (s1, Inr [''Backup created: '' @ path]))"

definition cli_backup_restore ::
  "config \<Rightarrow> string \<Rightarrow> (string \<Rightarrow> bool) \<Rightarrow> string \<Rightarrow> backup_state \<Rightarrow> (backup_state, backup_error, string list) gores" where
  "cli_backup_restore c cwd ok name s =
     (case restore_backup c ok (path_abs cwd name) s of
        (s1, Inl e) \<Rightarrow> (s1, Inl e)
      | (s1, Inr _) \<Rightarrow> (s1, Inr [''Backup restored: '' @ name]))"

text \<open>A directory that is missing is read as an empty one.\<close>

definition cli_backup_list :: "bool \<Rightarrow> backup_state \<Rightarrow> backup_error + string list" where
  "cli_backup_list dir_ok s =
     (if \<not> dir_ok then Inl Read_dir_failed
      else if list_backups s = [] then Inr [''No backups found'']
      else Inr (''Available backups:'' # map (\<lambda>n. ''  - '' @ n) (list_backups s)))"

text \<open>The days are an \<open>int\<close> of 64 bits, multiplied as they stand.\<close>

definition max_age_of_days :: "int \<Rightarrow> duration" where
  "max_age_of_days days = wrap64 (wrap64 (days * 24) * (60 * minute))"

definition cli_backup_clean ::
  "bool \<Rightarrow> (string \<Rightarrow> bool) \<Rightarrow> time \<Rightarrow> int \<Rightarrow> backup_state \<Rightarrow> (backup_state, backup_error, string list) gores" where
  "cli_backup_clean dir_ok removable now days s =
     (if \<not> dir_ok then (s, Inl Read_dir_failed)
      else (clean_old_backups removable now (max_age_of_days days) s, Inr [''Old backups cleaned successfully'']))"

section \<open>The node commands\<close>

datatype pid_file = Pid_absent | Pid_not_found_out | Pid_unreadable | Pid_text string

datatype status_error = Status_not_checked | Pid_not_read

definition pid_path :: "config \<Rightarrow> string" where
  "pid_path c = cf_home (c_core c) @ ''/wemixvisor.pid''"

text \<open>The upgrade counts as pending when its file is found.\<close>

definition cli_status :: "config \<Rightarrow> (string \<Rightarrow> pid_file) \<Rightarrow> (string \<Rightarrow> bool) \<Rightarrow> status_error + string list" where
  "cli_status c pid found =
     (case pid (pid_path c) of
        Pid_absent \<Rightarrow> Inr [''Node is not running'']
      | Pid_not_found_out \<Rightarrow> Inl Status_not_checked
      | Pid_unreadable \<Rightarrow> Inl Pid_not_read
      | Pid_text t \<Rightarrow>
          Inr [''Node is running (PID: '' @ t @ '')'', ''Binary: '' @ current_bin (paths_of c), ''Home: '' @ cf_home (c_core c),
               ''Upgrade pending: '' @ (if found (upgrade_info_file_path (paths_of c)) then ''Yes'' else ''No'')])"

definition cli_stop :: "config \<Rightarrow> (string \<Rightarrow> pid_file) \<Rightarrow> status_error + string list" where
  "cli_stop c pid =
     (case pid (pid_path c) of
        Pid_absent \<Rightarrow> Inr [''Node is not running'']
      | Pid_not_found_out \<Rightarrow> Inl Status_not_checked
      | _ \<Rightarrow> Inr [''Node stop command is not yet implemented''])"

definition cli_restart :: "string list" where
  "cli_restart = [''Node restart command is not yet implemented'']"

definition go_list :: "string list \<Rightarrow> string" where
  "go_list xs = CHR ''['' # concat (case xs of [] \<Rightarrow> [] | x # rest \<Rightarrow> x # map (\<lambda>y. CHR '' '' # y) rest) @ '']''"

definition cli_start :: "config \<Rightarrow> bool \<Rightarrow> string list \<Rightarrow> string list" where
  "cli_start c background args =
     [''Starting node at '' @ current_bin (paths_of c), ''Home: '' @ cf_home (c_core c), ''Args: '' @ go_list args] @
     (if background then [''Running in daemon mode''] else [])"

definition cli_run :: "config \<Rightarrow> string list \<Rightarrow> string list" where
  "cli_run c args =
     [''Running node at '' @ current_bin (paths_of c), ''Home: '' @ cf_home (c_core c), ''Args: '' @ go_list args]"

section \<open>Properties\<close>

lemma days_fit: "0 \<le> days \<Longrightarrow> days \<le> 106751 \<Longrightarrow> max_age_of_days days = days * (24 * (60 * minute))"
  by (simp add: max_age_of_days_def wrap64_id is_int64_def)

lemma days_overflow: "106752 \<le> days \<Longrightarrow> days \<le> 213503 \<Longrightarrow> max_age_of_days days = days * (24 * (60 * minute)) - 2 ^ 64"
proof -
  assume d: "106752 \<le> days" "days \<le> 213503"
  let ?x = "days * (24 * (60 * minute))"
  have "(?x + 2 ^ 63) mod 2 ^ 64 = (?x + 2 ^ 63 - 2 ^ 64) mod (2 ^ 64 :: int)" by (simp only: minus_mod_self2)
  also have "\<dots> = ?x + 2 ^ 63 - 2 ^ 64" using d by (intro mod_pos_pos_trivial) simp_all
  finally have "wrap64 ?x = ?x - 2 ^ 64" by (simp add: wrap64_def)
  moreover have "wrap64 (days * 24) = days * 24" using d by (simp add: is_int64_def)
  ultimately show ?thesis by (simp add: max_age_of_days_def mult.assoc)
qed

text \<open>
  The clean-up keeps what is younger than the days, up to 292 years; beyond, the age overflows to a
  negative one, and every file that can be removed is, also the newest.
\<close>

theorem clean_up_overflows:
  assumes "gm_ok (bs_dir s)" and "cli_backup_clean True removable now days s = (s', r)" and "0 \<le> days" and "days \<le> 213503"
    and "map_of (bs_dir s) n = Some e" and "entry_time e = Some t" and "removable n" and "t \<le> now"
  shows "map_of (bs_dir s') n = None \<longleftrightarrow> 106752 \<le> days \<or> now - t > days * (24 * (60 * minute))"
proof -
  have "map_of (bs_dir s') n = None \<longleftrightarrow> now - t > max_age_of_days days"
    using assms by (auto simp: cli_backup_clean_def clean_old_backups_def map_of_filter_key split: if_splits)
  with assms(3,4,8) days_fit [of days] days_overflow [of days] show ?thesis
    by (cases "106752 \<le> days") auto
qed

text \<open>
  The names that \<open>list\<close> prints are not what \<open>restore\<close> takes: unless it runs in the backup directory itself, a
  listed name is not found, and nothing changes.
\<close>

theorem listed_name_not_restored:
  assumes "n \<in> set (list_backups s)" and "plain n" and "\<forall>m\<in>fst ` set (bs_dir s). plain m"
    and "is_abs (backup_dir c)" and "is_abs cwd" and "path_comps cwd \<noteq> path_comps (backup_dir c)"
  shows "cli_backup_restore c cwd ok n s = (s, Inl Archive_open_failed)"
proof -
  note d = path_comps_plain [OF assms(4)] path_comps_plain [OF assms(5)]
  have "path_abs cwd n = abs_path (path_comps cwd @ [n])"
    using assms(2,5) by (auto simp: path_abs_def join_plain plain_def is_abs_def split: list.splits)
  moreover have "path_join [backup_dir c, m] = abs_path (path_comps (backup_dir c) @ [m])" if "plain m" for m
    using that assms(4) by (simp add: join_plain)
  ultimately have "path_join [backup_dir c, m] \<noteq> path_abs cwd n" if "plain m" for m
    using that d assms(2,6) by (simp add: abs_path_inject)
  with assms(3) have "find (\<lambda>(m, _). path_join [backup_dir c, m] = path_abs cwd n) (bs_dir s) = None"
    by (auto simp: find_None_iff)
  then show ?thesis by (simp add: cli_backup_restore_def restore_backup_def Let_def)
qed

definition demo_backups :: backup_state where
  "demo_backups = \<lparr>bs_tree = [], bs_dir = [(''a.gz'', Other_file 5)]\<rparr>"

theorem clean_up_overflows_witness:
  "\<exists>s' r. cli_backup_clean True (\<lambda>_. True) 5 106752 demo_backups = (s', r) \<and> map_of (bs_dir s') ''a.gz'' = None"
proof -
  obtain s' r where c: "cli_backup_clean True (\<lambda>_. True) 5 106752 demo_backups = (s', r)" by fastforce
  have "gm_ok (bs_dir demo_backups)" "map_of (bs_dir demo_backups) ''a.gz'' = Some (Other_file 5)"
    by (simp_all add: demo_backups_def)
  from clean_up_overflows [OF this(1) c _ _ this(2)] c show ?thesis by simp
qed

theorem listed_name_not_restored_witness:
  "cli_backup_list True demo_backups = Inr [''Available backups:'', ''  - a.gz''] \<and>
   cli_backup_restore demo_backup_cfg ''/home'' (\<lambda>_. True) ''a.gz'' demo_backups = (demo_backups, Inl Archive_open_failed)"
proof -
  have "list_backups demo_backups = [''a.gz'']" by code_simp
  moreover have "path_comps ''/home'' = [''home'']" "path_comps (backup_dir demo_backup_cfg) = [''w'', ''backups'']"
    by code_simp+
  moreover have "is_abs (backup_dir demo_backup_cfg)" by code_simp
  ultimately show ?thesis
    using listed_name_not_restored [of "''a.gz''" demo_backups demo_backup_cfg "''/home''" "\<lambda>_. True"]
    by (simp add: cli_backup_list_def demo_backups_def plain_def is_abs_def)
qed

end
