(* ===== verification/MetricsCli.thy ===== *)
theory MetricsCli
  imports ApiServer
begin

text \<open>
  \<open>internal/metrics/exporter.go\<close> with the commands of \<open>internal/cli/metrics.go\<close> and \<open>api.go\<close>: who builds a
  collector, what it then collects, and where it is shown. The exporter is a list of HTTP servers, because
  a second start leaves the first one to itself. What a collection finds is an argument, as in Metrics.
\<close>

section \<open>The exporter\<close>

record http_srv =
  hs_patterns :: "string list"
  hs_closed :: bool
  hs_listening :: bool

record exporter =
  ex_collector :: collector
  ex_port :: int
  ex_path :: string
  ex_servers :: "http_srv list"

definition new_exporter :: "collector \<Rightarrow> int \<Rightarrow> string \<Rightarrow> exporter" where
  "new_exporter c port path =
     \<lparr>ex_collector = c, ex_port = (if port = 0 then 9090 else port),
      ex_path = (if path = '''' then ''/metrics'' else path), ex_servers = []\<rparr>"

text \<open>
  \<open>ServeMux.Handle\<close> panics for a pattern that is there already or has no slash. Patterns with blanks or braces
  have a syntax of their own; whether \<open>net/http\<close> takes such a one is an argument.
\<close>

definition special_pattern :: "string \<Rightarrow> bool" where
  "special_pattern p \<longleftrightarrow> (\<exists>c\<in>set p. c \<in> set '' {}'' \<or> c = CHR 0x09)"

fun mux_patterns :: "(string \<Rightarrow> bool) \<Rightarrow> string list \<Rightarrow> string list \<Rightarrow> string list option" where
  "mux_patterns ok [] ps = Some ps"
| "mux_patterns ok (p # rest) ps =
     (if p \<in> set ps \<or> \<not> (if special_pattern p then ok p else slash \<in> set p) then None
      else mux_patterns ok rest (ps @ [p]))"

text \<open>\<open>Start\<close> returns before the server listens, which is a step of its own; the port must be free.\<close>

definition exporter_start :: "(string \<Rightarrow> bool) \<Rightarrow> exporter \<Rightarrow> exporter option" where
  "exporter_start ok e =
     (case mux_patterns ok [ex_path e, ''/health'', ''/ready'', ''/api/metrics/info''] [] of
        None \<Rightarrow> None
      | Some ps \<Rightarrow> Some (e\<lparr>ex_servers := ex_servers e @ [\<lparr>hs_patterns = ps, hs_closed = False, hs_listening = False\<rparr>]\<rparr>))"

definition exporter_listen :: "bool \<Rightarrow> nat \<Rightarrow> exporter \<Rightarrow> exporter" where
  "exporter_listen port_free i e =
     (if i < length (ex_servers e) \<and> \<not> hs_closed (ex_servers e ! i) \<and> port_free \<and> (\<forall>s\<in>set (ex_servers e). \<not> hs_listening s)
      then e\<lparr>ex_servers := (ex_servers e)[i := (ex_servers e ! i)\<lparr>hs_listening := True\<rparr>]\<rparr> else e)"

text \<open>\<open>Stop\<close> closes the listener of the last server at once; requests that go on for ten seconds make it an error.\<close>

definition exporter_stop :: "bool \<Rightarrow> exporter \<Rightarrow> (exporter, unit, unit) gores" where
  "exporter_stop in_time e =
     (if ex_servers e = [] then (e, Inr ())
      else (e\<lparr>ex_servers := butlast (ex_servers e) @ [(last (ex_servers e))\<lparr>hs_closed := True, hs_listening := False\<rparr>]\<rparr>,
            if in_time then Inr () else Inl ()))"

definition get_url :: "exporter \<Rightarrow> string" where
  "get_url e = ''http://localhost:'' @ int_str (ex_port e) @ ex_path e"

section \<open>Its handlers\<close>

definition quoted :: "string \<Rightarrow> string" where
  "quoted s = CHR 0x22 # s @ [CHR 0x22]"

definition health_handler :: "int \<times> string" where
  "health_handler = (200, CHR ''{'' # quoted ''status'' @ '':'' @ quoted ''healthy'' @ ''}'')"

definition ready_handler :: "exporter \<Rightarrow> int \<times> string" where
  "ready_handler e =
     (if cl_last (ex_collector e) = None
      then (503, CHR ''{'' # quoted ''status'' @ '':'' @ quoted ''not_ready'' @ '','' @ quoted ''message'' @ '':'' @
              quoted ''No metrics collected yet'' @ ''}'')
      else (200, CHR ''{'' # quoted ''status'' @ '':'' @ quoted ''ready'' @ ''}''))"

text \<open>\<open>Duration.String\<close>: the fraction of a unit without its last zeros, then units up to hours.\<close>

definition frac_text :: "nat \<Rightarrow> nat \<Rightarrow> string" where
  "frac_text prec v =
     (let digits = replicate (prec - length (nat_str v)) CHR ''0'' @ nat_str v;
          kept = rev (dropWhile (\<lambda>c. c = CHR ''0'') (rev digits)) in
      if kept = [] then [] else CHR ''.'' # kept)"

definition duration_text :: "duration \<Rightarrow> string" where
  "duration_text d =
     (let u = nat \<bar>d\<bar>; s = u div 1000000000; m = s div 60; h = m div 60;
          body = (if u = 0 then ''0s''
                  else if u < 1000 then nat_str u @ ''ns''
                  else if u < 1000000 then nat_str (u div 1000) @ frac_text 3 (u mod 1000) @ [CHR 0xC2, CHR 0xB5] @ ''s''
                  else if u < 1000000000 then nat_str (u div 1000000) @ frac_text 6 (u mod 1000000) @ ''ms''
                  else (if h > 0 then nat_str h @ ''h'' else []) @ (if m > 0 then nat_str (m mod 60) @ ''m'' else []) @
                       nat_str (s mod 60) @ frac_text 9 (u mod 1000000000) @ ''s'') in
      if d < 0 then CHR ''-'' # body else body)"

definition bool_text :: "bool \<Rightarrow> string" where
  "bool_text b = (if b then ''true'' else ''false'')"

text \<open>The body of the information page; the path stands in it as it is.\<close>

definition info_lines :: "exporter \<Rightarrow> (nat \<times> string) list" where
  "info_lines e =
     (let cfg = cl_config (ex_collector e); member = (\<lambda>k v. quoted k @ '': '' @ v) in
      [(0, ''{''), (2, member ''exporter'' ''{''), (3, member ''version'' (quoted ''0.7.0'') @ '',''),
       (3, member ''port'' (int_str (ex_port e)) @ '',''), (3, member ''path'' (quoted (ex_path e))), (2, ''},''),
       (2, member ''collector'' ''{''), (3, member ''enabled'' (bool_text (cc_enabled cfg)) @ '',''),
       (3, member ''interval'' (quoted (duration_text (cc_interval cfg))) @ '',''),
       (3, member ''system_metrics'' (bool_text (cc_system cfg)) @ '',''),
       (3, member ''app_metrics'' (bool_text (cc_app cfg)) @ '',''),
       (3, member ''gov_metrics'' (bool_text (cc_gov cfg)) @ '',''),
       (3, member ''perf_metrics'' (bool_text (cc_perf cfg))), (2, ''}''), (1, ''}'')])"

definition metrics_info_handler :: "exporter \<Rightarrow> int \<times> string" where
  "metrics_info_handler e =
     (let ls = map (\<lambda>(n, s). replicate n (CHR 0x09) @ s) (info_lines e) in
      (200, concat (map (\<lambda>l. l @ [CHR 0x0A]) (butlast ls)) @ last ls))"

section \<open>The commands \<open>metrics\<close>\<close>

definition cli_collector :: "int \<Rightarrow> bool \<Rightarrow> time \<Rightarrow> collector" where
  "cli_collector interval system now =
     new_collector \<lparr>cc_enabled = True, cc_interval = wrap64 (interval * second), cc_retention = 0, cc_system = system,
       cc_app = False, cc_gov = False, cc_perf = False, cc_port = 0, cc_path = ''''\<rparr> now"

text \<open>A line is a label with a value; how a float or a time is printed is left to \<open>fmt\<close>.\<close>

datatype metric_line =
  Ml_text string | Ml_time string time | Ml_percent string f64 | Ml_hundredfold string f64
| Ml_megabytes string nat | Ml_count string int | Ml_seconds string int

definition system_lines :: "system_metrics \<Rightarrow> metric_line list" where
  "system_lines m =
     [Ml_text '''', Ml_percent ''CPU:'' (sy_cpu_usage m), Ml_percent ''Memory Usage:'' (sy_memory_usage m),
      Ml_megabytes ''Memory Total:'' (sy_memory_total m div 1048576),
      Ml_megabytes ''Memory Available:'' (sy_memory_available m div 1048576),
      Ml_percent ''Disk Usage:'' (sy_disk_usage m), Ml_count ''Goroutines:'' (sy_goroutines m),
      Ml_seconds ''Uptime:'' (sy_uptime m)]"

definition application_lines :: "application_metrics \<Rightarrow> metric_line list" where
  "application_lines m =
     [Ml_text '''', Ml_text ''=== Application Metrics ==='', Ml_count ''Upgrade Total:'' (ap_upgrade_total m),
      Ml_count ''Upgrade Success:'' (ap_upgrade_success m), Ml_count ''Upgrade Failed:'' (ap_upgrade_failed m),
      Ml_count ''Upgrade Pending:'' (ap_upgrade_pending m), Ml_count ''Process Restarts:'' (ap_process_restarts m)]"

definition governance_lines :: "governance_metrics \<Rightarrow> metric_line list" where
  "governance_lines m =
     [Ml_text '''', Ml_text ''=== Governance Metrics ==='', Ml_count ''Proposal Total:'' (gv_proposal_total m),
      Ml_count ''Proposal Voting:'' (gv_proposal_voting m), Ml_count ''Proposal Passed:'' (gv_proposal_passed m),
      Ml_count ''Proposal Rejected:'' (gv_proposal_rejected m), Ml_hundredfold ''Voting Turnout:'' (gv_voting_turnout m)]"

definition snapshot_lines :: "metrics_snapshot \<Rightarrow> metric_line list" where
  "snapshot_lines s =
     ([Ml_text ''=== System Metrics ==='', Ml_time ''Timestamp:'' (sn_timestamp s)] @
      (case sn_system s of None \<Rightarrow> [] | Some m \<Rightarrow> system_lines m) @
      (case sn_application s of None \<Rightarrow> [] | Some m \<Rightarrow> application_lines m) @
      (case sn_governance s of None \<Rightarrow> [] | Some m \<Rightarrow> governance_lines m))"

datatype metrics_out = Mo_lines "metric_line list" | Mo_json metrics_snapshot

text \<open>
  A command ends with what it printed or an error, goes on for ever, or takes the program down: the ticker of
  the collector panics for an interval that is not positive. The collections that have ended by the time
  a command looks are arguments.
\<close>

datatype metrics_run = Mr_printed "metrics_out list" | Mr_no_metrics | Mr_forever "metrics_out list" | Mr_panics

definition collected :: "collect_env list \<Rightarrow> collector \<Rightarrow> collector" where
  "collected envs c = collection_loop envs (collector_start c)"

definition cli_collect :: "int \<Rightarrow> bool \<Rightarrow> int \<Rightarrow> time \<Rightarrow> collect_env list \<Rightarrow> collector \<times> metrics_run" where
  "cli_collect interval system dur now envs =
     (let c = cli_collector interval system now; c1 = collected envs c in
      if cc_interval (cl_config c) \<le> 0 then (c, Mr_panics)
      else if dur > 0 then
        (collector_stop c1, Mr_printed (case cl_last c1 of None \<Rightarrow> [] | Some s \<Rightarrow> [Mo_lines (snapshot_lines s)]))
      else (c1, Mr_forever []))"

definition shown :: "bool \<Rightarrow> metrics_snapshot \<Rightarrow> metrics_out" where
  "shown json s = (if json then Mo_json s else Mo_lines (snapshot_lines s))"

text \<open>Watching shows the last snapshot at each tick: the collections up to each are a prefix of all.\<close>

definition cli_show ::
  "int \<Rightarrow> bool \<Rightarrow> bool \<Rightarrow> time \<Rightarrow> collect_env list \<Rightarrow> collect_env list list \<Rightarrow> collector \<times> metrics_run" where
  "cli_show interval json watch now envs ticks =
     (let c = cli_collector interval True now in
      if cc_interval (cl_config c) \<le> 0 then (c, Mr_panics)
      else if watch then
        (let seen = map (\<lambda>k. collected (envs @ concat (take k ticks)) c) [0..<Suc (length ticks)] in
         (last seen, Mr_forever (map (shown json) (List.map_filter cl_last seen))))
      else
        (let c1 = collected envs c in
         (collector_stop c1, case cl_last c1 of None \<Rightarrow> Mr_no_metrics | Some s \<Rightarrow> Mr_printed [shown json s])))"

definition cli_export :: "(string \<Rightarrow> bool) \<Rightarrow> int \<Rightarrow> time \<Rightarrow> collect_env list \<Rightarrow> exporter option" where
  "cli_export ok port now envs = exporter_start ok (new_exporter (collected envs (cli_collector 10 True now)) port ''/metrics'')"

section \<open>The command \<open>api\<close>\<close>

record api_flags =
  af_port :: int
  af_metrics :: bool
  af_governance :: bool
  af_interval :: int
  af_system :: bool

datatype api_end = Api_no_monitor monitor_error | Api_stopped | Api_not_stopped | Api_panics

definition api_collector :: "api_flags \<Rightarrow> time \<Rightarrow> collect_env list \<Rightarrow> collector option" where
  "api_collector f now envs = (if af_metrics f then Some (collected envs (cli_collector (af_interval f) (af_system f) now)) else None)"

definition api_monitor :: "api_flags \<Rightarrow> config \<Rightarrow> nat \<Rightarrow> monitor_error + monitor option" where
  "api_monitor f c counter =
     (if \<not> af_governance f then Inr None
      else (case monitor_start counter (new_monitor (cf_rpc_address (c_wbft c)) (upgrade_info_file_path (paths_of c))) of
              (_, Inl e) \<Rightarrow> Inl e | (m, Inr _) \<Rightarrow> Inr (Some m)))"

text \<open>The configuration, the server as it serves, if it got that far, the collector at the end, and the end.\<close>

definition cli_api ::
  "api_flags \<Rightarrow> config \<Rightarrow> time \<Rightarrow> nat \<Rightarrow> collect_env list \<Rightarrow> bool \<Rightarrow>
     config \<times> server option \<times> collector option \<times> api_end" where
  "cli_api f c now counter envs in_time =
     (let col = api_collector f now envs in
      if af_metrics f \<and> wrap64 (af_interval f * second) \<le> 0 then (c, None, col, Api_panics)
      else (case api_monitor f c counter of
              Inl e \<Rightarrow> (c, None, map_option collector_stop col, Api_no_monitor e)
            | Inr mon \<Rightarrow>
                (let c1 = c\<lparr>c_api := (c_api c)\<lparr>cf_api_port := af_port f\<rparr>\<rparr>;
                     s = server_start (new_server c1 mon col) in
                 (c1, Some s, map_option collector_stop col,
                  case server_stop in_time s of (_, Inr _) \<Rightarrow> Api_stopped | (_, Inl _) \<Rightarrow> Api_not_stopped))))"

section \<open>Lemmas\<close>

fun call_name :: "prom_call \<Rightarrow> string" where
  "call_name (Gauge_set n _) = n"
| "call_name (Counter_add n _) = n"
| "call_name (Counter_inc n) = n"
| "call_name (Observe n _) = n"

lemma registered_mem: "n \<in> set (registered_metrics c) \<longleftrightarrow> (\<exists>k g. (n, k, g) \<in> set prometheus_metrics \<and> group_enabled c g)"
  by (force simp: registered_metrics_def)

lemma update_names:
  "\<forall>x\<in>set (update_system m). \<exists>k. (call_name x, k, System_group) \<in> set prometheus_metrics"
  "\<forall>x\<in>set (update_application a). \<exists>k. (call_name x, k, App_group) \<in> set prometheus_metrics"
  "\<forall>x\<in>set (update_governance g). \<exists>k. (call_name x, k, Gov_group) \<in> set prometheus_metrics"
  "\<forall>x\<in>set (update_performance p). \<exists>k. (call_name x, k, Perf_group) \<in> set prometheus_metrics"
     apply (auto simp: update_system_def prometheus_metrics_def) [1]
    apply (auto simp: update_application_def prometheus_metrics_def) [1]
   apply (cases g; auto simp: update_governance_def prometheus_metrics_def) [1]
  apply (auto simp: update_performance_def prometheus_metrics_def) [1]
  done

lemma collect_registered:
  assumes "\<forall>x\<in>set (cl_calls c). call_name x \<in> set (registered_metrics (cl_config c))"
  shows "\<forall>x\<in>set (cl_calls (collect env c)). call_name x \<in> set (registered_metrics (cl_config c))"
proof
  fix x assume x: "x \<in> set (cl_calls (collect env c))"
  let ?cfg = "cl_config c"
  from x have "x \<in> set (cl_calls c) \<or> (cc_system ?cfg \<and> (\<exists>m. x \<in> set (update_system m))) \<or>
      (cc_app ?cfg \<and> (\<exists>m. x \<in> set (update_application m))) \<or> (cc_gov ?cfg \<and> (\<exists>m. x \<in> set (update_governance m))) \<or>
      (cc_perf ?cfg \<and> (\<exists>m. x \<in> set (update_performance m)))"
    by (cases "cc_gov ?cfg") (auto simp: collect_def Let_def update_governance_def [of None] split: if_splits)
  then show "call_name x \<in> set (registered_metrics ?cfg)"
    unfolding registered_mem using assms [unfolded registered_mem] update_names group_enabled.simps by metis
qed

lemma loop_snoc: "collection_loop (envs @ [e]) c = collect e (collection_loop envs c)"
  by (simp add: collection_loop_def)

lemma loop_config [simp]:
  "cl_config (collection_loop envs c) = cl_config c" "cl_running (collection_loop envs c) = cl_running c"
  by (induction envs rule: rev_induct) (simp_all add: loop_snoc, simp_all add: collection_loop_def)

lemma start_kept [simp]:
  "cl_config (collector_start c) = cl_config c" "cl_calls (collector_start c) = cl_calls c" "cl_last (collector_start c) = cl_last c"
  by (simp_all add: collector_start_def)

lemma loop_registered:
  "\<forall>x\<in>set (cl_calls c). call_name x \<in> set (registered_metrics (cl_config c)) \<Longrightarrow>
   \<forall>x\<in>set (cl_calls (collection_loop envs c)). call_name x \<in> set (registered_metrics (cl_config c))"
proof (induction envs rule: rev_induct)
  case (snoc e envs)
  then show ?case using collect_registered [of "collection_loop envs c" e] by (simp add: loop_snoc)
qed (simp add: collection_loop_def)

lemma loop_last:
  "cl_last (collection_loop envs c) = (if envs = [] then cl_last c else cl_last (collect (last envs) (collection_loop (butlast envs) c)))"
  by (cases envs rule: rev_cases) (simp_all add: collection_loop_def)

definition system_only :: "metrics_snapshot \<Rightarrow> bool" where
  "system_only s \<longleftrightarrow> sn_application s = None \<and> sn_governance s = None \<and> sn_performance s = None"

lemma cli_collector_simps [simp]:
  "cc_system (cl_config (cli_collector i b now)) = b" "\<not> cc_app (cl_config (cli_collector i b now))"
  "\<not> cc_gov (cl_config (cli_collector i b now))" "\<not> cc_perf (cl_config (cli_collector i b now))"
  "cl_last (cli_collector i b now) = None" "cl_calls (cli_collector i b now) = []"
  by (simp_all add: cli_collector_def new_collector_def)

lemma collected_system_only: "cl_last (collected envs (cli_collector i b now)) = Some s \<Longrightarrow> system_only s"
  by (auto simp: collected_def loop_last collect_def Let_def system_only_def split: if_splits)

lemma collected_registered:
  "\<forall>x\<in>set (cl_calls (collected envs (cli_collector i b now))).
     call_name x \<in> set (registered_metrics (cl_config (cli_collector i b now)))"
  unfolding collected_def using loop_registered [of "collector_start (cli_collector i b now)"] by simp

fun outputs :: "metrics_run \<Rightarrow> metrics_out list" where
  "outputs (Mr_printed os) = os"
| "outputs (Mr_forever os) = os"
| "outputs _ = []"

section \<open>Properties\<close>

text \<open>
  Whatever is collected, the commands show nothing but the system metrics: the switches for the application,
  the governance and the performance metrics are set by no command. The API server answers with system
  metrics only, and the exporter has six metrics, all of the system, which are the ones the collector sets.
\<close>

theorem commands_show_system_only:
  "(\<forall>out\<in>set (outputs (snd (cli_show i json watch now envs ticks))). \<exists>sn. system_only sn \<and> out = shown json sn) \<and>
   (\<forall>out\<in>set (outputs (snd (cli_collect i system dur now envs))). \<exists>sn. system_only sn \<and> out = shown False sn) \<and>
   (case cli_api f c now counter envs in_time of
      (_, Some s, _, _) \<Rightarrow> (\<forall>sn. get_metrics s = (200, R_snapshot sn) \<longrightarrow> system_only sn) | _ \<Rightarrow> True) \<and>
   (case cli_export ok port now envs of
      Some e \<Rightarrow> registered_metrics (cl_config (ex_collector e)) = map fst (take 6 prometheus_metrics) \<and>
        (\<forall>x\<in>set (cl_calls (ex_collector e)). call_name x \<in> set (map fst (take 6 prometheus_metrics)))
    | None \<Rightarrow> False)"
proof (intro conjI)
  show "\<forall>out\<in>set (outputs (snd (cli_show i json watch now envs ticks))). \<exists>sn. system_only sn \<and> out = shown json sn"
    by (auto simp: cli_show_def Let_def List.map_filter_def dest: collected_system_only split: option.splits)
  show "\<forall>out\<in>set (outputs (snd (cli_collect i system dur now envs))). \<exists>sn. system_only sn \<and> out = shown False sn"
    using collected_system_only [of envs i system now] by (cases "cl_last (collected envs (cli_collector i system now))") (auto simp: cli_collect_def shown_def Let_def)
  show "case cli_api f c now counter envs in_time of
      (_, Some s, _, _) \<Rightarrow> (\<forall>sn. get_metrics s = (200, R_snapshot sn) \<longrightarrow> system_only sn) | _ \<Rightarrow> True"
    by (auto simp: cli_api_def api_collector_def server_start_def new_server_def get_metrics_def Let_def
        dest: collected_system_only split: sum.splits option.splits if_splits)
  have r: "registered_metrics (cl_config (cli_collector 10 True now)) = map fst (take 6 prometheus_metrics)"
    by (simp add: registered_metrics_def prometheus_metrics_def)
  have k: "cl_config (collected envs (cli_collector 10 True now)) = cl_config (cli_collector 10 True now)"
    by (simp add: collected_def)
  have "\<exists>e. cli_export ok port now envs = Some e \<and> ex_collector e = collected envs (cli_collector 10 True now)"
    by (simp add: cli_export_def exporter_start_def new_exporter_def special_pattern_def)
  with r k collected_registered [of envs 10 True now] show "case cli_export ok port now envs of
      Some e \<Rightarrow> registered_metrics (cl_config (ex_collector e)) = map fst (take 6 prometheus_metrics) \<and>
        (\<forall>x\<in>set (cl_calls (ex_collector e)). call_name x \<in> set (map fst (take 6 prometheus_metrics)))
    | None \<Rightarrow> False"
    by auto
qed

text \<open>
  An exporter that is started twice keeps its first server: \<open>Stop\<close> closes the second, which could not listen
  because of the first.
\<close>

theorem exporter_start_twice_leaks:
  assumes "exporter_start ok (new_exporter c port path) = Some e1" and "exporter_start ok (exporter_listen True 0 e1) = Some e2"
    and "exporter_stop in_time (exporter_listen True 1 e2) = (e3, r)"
  shows "\<exists>s t. ex_servers e3 = [s, t] \<and> hs_listening s \<and> \<not> hs_listening t"
  using assms by (auto simp: exporter_start_def new_exporter_def exporter_listen_def exporter_stop_def split: option.splits)

text \<open>The path of the metrics must not be that of another page; then starting the exporter panics.\<close>

lemma taken_path_panics:
  "path \<in> {''/health'', ''/ready'', ''/api/metrics/info''} \<Longrightarrow> exporter_start ok (new_exporter c port path) = None"
  by (auto simp: exporter_start_def new_exporter_def special_pattern_def)

text \<open>
  The command \<open>api\<close> leaves nothing that collects, however it ends, and listens at the given port or, when that
  is not positive, at 8080, whatever it prints.
\<close>

theorem api_cleans_up:
  assumes "cli_api f c now counter envs in_time = (c', s, col, r)" and "r \<noteq> Api_panics"
  shows "(col = None \<or> (\<exists>k. col = Some k \<and> \<not> cl_running k)) \<and>
    (case s of None \<Rightarrow> r = Api_no_monitor Rpc_client_failed \<and> af_governance f \<and> cf_rpc_address (c_wbft c) = ''''
     | Some v \<Rightarrow> sv_port v = (if af_port f > 0 then af_port f else 8080) \<and> sv_running v)"
  using assms
  by (auto simp: cli_api_def api_monitor_def monitor_start_def new_monitor_def server_start_def new_server_def collector_stop_def
      api_collector_def Let_def split: sum.splits prod.splits if_splits)

definition demo_collect :: collect_env where
  "demo_collect = \<lparr>en_now = 7, en_cpu = None, en_memory = None, en_disk = None, en_net = None, en_goroutines = 3,
     en_height = None, en_peers = None, en_syncing = None, en_proposals = None\<rparr>"

theorem commands_show_system_only_witness:
  "\<exists>sn. outputs (snd (cli_show 5 True False 0 [demo_collect] [])) = [Mo_json sn] \<and> sn_timestamp sn = 7 \<and>
     sn_system sn \<noteq> None \<and> system_only sn"
proof -
  have o: "outputs (snd (cli_show 5 True False 0 [demo_collect] [])) =
      [Mo_json \<lparr>sn_system = Some (collect_system demo_collect (collector_start (cli_collector 5 True 0))), sn_application = None,
         sn_governance = None, sn_performance = None, sn_timestamp = 7\<rparr>]"
    by (simp add: cli_show_def cli_collector_def new_collector_def collected_def collection_loop_def collector_start_def
        collect_def shown_def demo_collect_def is_int64_def Let_def)
  with commands_show_system_only [of 5 True False 0 "[demo_collect]" "[]"] show ?thesis
    by (auto simp: shown_def)
qed

end
