(* ===== verification/NodeParts.thy ===== *)
theory NodeParts
  imports Health Metrics
begin

text \<open>
  What \<open>internal/node/manager.go\<close> starts beside the process: the health checker, which it restarts with every
  start of the node, the collector of metrics with its loops, and the readers of the health status. A
  start of the node starts all of them; stopping it stops the checker and the last loop; a crash stops
  nothing. What the checks find is an argument.
\<close>

section \<open>The parts\<close>

record node_parts =
  np_health :: health_checker
  np_collector :: "collector option"
  np_loops :: nat
  np_current :: bool
  np_readers :: nat

text \<open>\<open>initMetricsCollector\<close>; the height it reports is the constant of its callback.\<close>

definition init_collector :: "config \<Rightarrow> time \<Rightarrow> collector option" where
  "init_collector c now =
     (let m = c_metrics c in
      if \<not> cf_metrics_enabled m then None
      else Some (new_collector \<lparr>cc_enabled = True, cc_interval = cf_metrics_collection_interval m, cc_retention = 0,
        cc_system = cf_enable_system_metrics m, cc_app = cf_enable_app_metrics m, cc_gov = cf_enable_gov_metrics m,
        cc_perf = cf_enable_perf_metrics m, cc_port = cf_metrics_port m, cc_path = cf_metrics_path m\<rparr> now))"

definition with_callbacks :: "collect_env \<Rightarrow> collect_env" where
  "with_callbacks env = env\<lparr>en_height := Some (Some 0), en_peers := None, en_syncing := None, en_proposals := None\<rparr>"

definition new_parts :: "config \<Rightarrow> time \<Rightarrow> node_parts" where
  "new_parts c now =
     \<lparr>np_health = new_health_checker c, np_collector = init_collector c now, np_loops = 0, np_current = False, np_readers = 0\<rparr>"

text \<open>
  \<open>startMonitoring\<close>: a reader that starts the checker, and a new loop of the collector under a context of its
  own. The first round of checks comes with the start of the loop; a panic of the checker would be \<open>None\<close>.
\<close>

definition start_monitoring :: "check_env \<Rightarrow> time \<Rightarrow> node_parts \<Rightarrow> node_parts option" where
  "start_monitoring env now p =
     (case health_step (Health_start env now) (np_health p) of
        None \<Rightarrow> None
      | Some h \<Rightarrow>
          (let p1 = p\<lparr>np_health := h, np_readers := np_readers p + 1\<rparr> in
           Some (case np_collector p of
                   None \<Rightarrow> p1
                 | Some c \<Rightarrow> if cc_enabled (cl_config c)
                             then p1\<lparr>np_collector := Some (collector_start c), np_loops := np_loops p + 1, np_current := True\<rparr>
                             else p1)))"

text \<open>\<open>stopMonitoring\<close>: the collector keeps only the cancel function of its last start.\<close>

definition stop_monitoring :: "node_parts \<Rightarrow> node_parts option" where
  "stop_monitoring p =
     (case health_step Health_stop (np_health p) of
        None \<Rightarrow> None
      | Some h \<Rightarrow>
          (let p1 = p\<lparr>np_health := h\<rparr> in
           Some (case np_collector p of
                   None \<Rightarrow> p1
                 | Some c \<Rightarrow> p1\<lparr>np_collector := Some (collector_stop c), np_current := False,
                                np_loops := np_loops p - (if np_current p then 1 else 0)\<rparr>)))"

text \<open>What goes on: the checker's own steps, and a collection by one of the loops that run.\<close>

datatype parts_op =
  Parts_start check_env time | Parts_stop | Parts_health health_op | Parts_collect collect_env

definition parts_step :: "parts_op \<Rightarrow> node_parts \<Rightarrow> node_parts option" where
  "parts_step op p =
     (case op of
        Parts_start env now \<Rightarrow> start_monitoring env now p
      | Parts_stop \<Rightarrow> stop_monitoring p
      | Parts_health hop \<Rightarrow> map_option (\<lambda>h. p\<lparr>np_health := h\<rparr>) (health_step hop (np_health p))
      | Parts_collect env \<Rightarrow>
          Some (if np_loops p = 0 then p
                else p\<lparr>np_collector := map_option (collect (with_callbacks env)) (np_collector p)\<rparr>))"

fun parts_run :: "parts_op list \<Rightarrow> node_parts \<Rightarrow> node_parts option" where
  "parts_run [] p = Some p"
| "parts_run (op # ops) p = Option.bind (parts_step op p) (parts_run ops)"

section \<open>Lemmas\<close>

lemma parts_run_append: "parts_run (xs @ ys) p = Option.bind (parts_run xs p) (parts_run ys)"
proof (induction xs arbitrary: p)
  case (Cons op xs)
  then show ?case by (cases "parts_step op p") simp_all
qed simp

fun health_ops :: "parts_op list \<Rightarrow> health_op list" where
  "health_ops [] = []"
| "health_ops (Parts_start env now # ops) = Health_start env now # health_ops ops"
| "health_ops (Parts_stop # ops) = Health_stop # health_ops ops"
| "health_ops (Parts_health hop # ops) = hop # health_ops ops"
| "health_ops (Parts_collect _ # ops) = health_ops ops"

lemma parts_health: "parts_run ops p = Some p' \<Longrightarrow> health_run (health_ops ops) (np_health p) = Some (np_health p')"
proof (induction ops arbitrary: p)
  case (Cons op ops)
  then obtain p1 where p1: "parts_step op p = Some p1" "parts_run ops p1 = Some p'"
    by (auto simp: bind_eq_Some_conv)
  with Cons.IH have "health_run (health_ops ops) (np_health p1) = Some (np_health p')" by blast
  with p1(1) show ?case
    by (cases op) (auto simp: parts_step_def start_monitoring_def stop_monitoring_def Let_def
        split: option.splits if_splits)
qed simp

text \<open>No order of starts and stops makes the checker panic.\<close>

lemma parts_step_ok: "hc_ok (np_health p) \<Longrightarrow> \<exists>p'. parts_step op p = Some p' \<and> hc_ok (np_health p')"
proof (cases op)
  case (Parts_start env now)
  then show "hc_ok (np_health p) \<Longrightarrow> ?thesis"
    using health_step_ok [of "np_health p" "Health_start env now"]
    by (cases "np_collector p") (auto simp: parts_step_def start_monitoring_def Let_def simp del: health_step.simps)
next
  case Parts_stop
  then show "hc_ok (np_health p) \<Longrightarrow> ?thesis"
    using health_step_ok [of "np_health p" Health_stop]
    by (cases "np_collector p") (auto simp: parts_step_def stop_monitoring_def Let_def simp del: health_step.simps)
next
  case (Parts_health hop)
  then show "hc_ok (np_health p) \<Longrightarrow> ?thesis"
    using health_step_ok [of "np_health p" hop] by (auto simp: parts_step_def simp del: health_step.simps)
qed (simp add: parts_step_def)

lemma parts_run_ok: "hc_ok (np_health p) \<Longrightarrow> \<exists>p'. parts_run ops p = Some p' \<and> hc_ok (np_health p')"
proof (induction ops arbitrary: p)
  case (Cons op ops)
  from parts_step_ok [OF Cons.prems, of op] obtain p1 where "parts_step op p = Some p1" "hc_ok (np_health p1)" by blast
  with Cons.IH [of p1] show ?case by simp
qed simp

text \<open>Without a loop the checker does nothing until it is started.\<close>

definition no_start :: "health_op \<Rightarrow> bool" where
  "no_start op \<longleftrightarrow> (case op of Health_start _ _ \<Rightarrow> False | _ \<Rightarrow> True)"

lemma idle_checker:
  "health_run ops h = Some h' \<Longrightarrow> \<forall>op\<in>set ops. no_start op \<Longrightarrow> hc_loops h = 0 \<Longrightarrow>
   hc_last h' = hc_last h \<and> hc_loops h' = 0 \<and> (\<exists>xs. ch_buf (hc_chan h) = xs @ ch_buf (hc_chan h'))"
proof (induction ops arbitrary: h)
  case (Cons op ops)
  then obtain h1 where h1: "health_step op h = Some h1" "health_run ops h1 = Some h'" by (auto split: option.splits)
  have "hc_last h1 = hc_last h \<and> hc_loops h1 = 0 \<and> (\<exists>xs. ch_buf (hc_chan h) = xs @ ch_buf (hc_chan h1))"
    using h1(1) Cons.prems(2,3)
    by (cases op) (auto simp: no_start_def ch_recv_def split: list.splits if_splits recv_result.splits)
  with Cons.IH [OF h1(2)] Cons.prems(2) show ?case by (fastforce simp del: append_assoc simp add: append_assoc [symmetric])
qed simp

section \<open>Properties\<close>

text \<open>
  C4. After the node was stopped and started again it is never healthy any more: the checker that was stopped
  stays so, its one round at the start asks the node under a context that is cancelled, and then its loop
  ends. Until the next start the status is that of this moment, whatever the node does, and no update
  is sent. The loops that ran when it was stopped have ended.
\<close>

theorem health_lost_after_restart:
  assumes "hc_ok (np_health p)" and "hc_cancelled (np_health p)" and "hc_loops (np_health p) = 0"
    and "Rpc_check url \<in> set (hc_checks (np_health p))"
    and "parts_run (Parts_start env now # Parts_health Loop_exit # ops) p = Some p'"
    and "\<forall>op\<in>set (health_ops ops). no_start op"
  shows "hs_timestamp (hc_last (np_health p')) = now \<and> \<not> is_healthy (np_health p') \<and>
    (\<exists>xs. ch_buf (hc_chan (np_health p)) = xs @ ch_buf (hc_chan (np_health p')))"
proof -
  let ?h = "np_health p" and ?env = "env\<lparr>ce_rpc := \<lambda>_ _. Unreachable\<rparr>"
  have "health_run (Health_start env now # Loop_exit # health_ops ops) ?h = Some (np_health p')"
    using parts_health [OF assms(5)] by simp
  then obtain h2 where h2: "health_run [Health_start env now, Loop_exit] ?h = Some h2"
    and rest: "health_run (health_ops ops) h2 = Some (np_health p')"
    by (auto split: option.splits)
  let ?st = "collect_results ?env (hc_checks ?h) \<lparr>hs_healthy = True, hs_timestamp = now, hs_checks = []\<rparr>"
  have last: "hc_last h2 = ?st \<and> hc_loops h2 = 0 \<and> hc_chan h2 = hc_chan ?h"
    using h2 assms(1-3) by (auto simp: hc_ok_def perform_checks_def send_status_update_def cleanup_on_exit_def under_context_def Let_def)
  have "run_check ?env (Rpc_check url) \<noteq> Inr ()" by (simp add: rpc_health_check_def)
  with assms(4) have "\<not> hs_healthy ?st" unfolding collect_healthy by blast
  with last idle_checker [OF rest assms(6)] show ?thesis by (simp add: collect_timestamp is_healthy_def)
qed

text \<open>
  Every start after a crash leaves the loop of the collector that ran before: after \<open>n\<close> restarts without a stop
  there are \<open>n + 1\<close> loops and readers, of which a stop ends one loop.
\<close>

lemma starts_add_loops:
  assumes "parts_run (map (\<lambda>(env, now). Parts_start env now) xs) p = Some p'" and "np_collector p = Some c" and "cc_enabled (cl_config c)"
  shows "np_loops p' = np_loops p + length xs \<and> np_readers p' = np_readers p + length xs \<and>
    (\<exists>c'. np_collector p' = Some c' \<and> cc_enabled (cl_config c')) \<and> (xs \<noteq> [] \<longrightarrow> np_current p')"
  using assms
proof (induction xs arbitrary: p c)
  case (Cons x xs)
  obtain env now where x: "x = (env, now)" by fastforce
  with Cons.prems(1) obtain p1 where p1: "start_monitoring env now p = Some p1"
    "parts_run (map (\<lambda>(env, now). Parts_start env now) xs) p1 = Some p'"
    by (auto simp: parts_step_def bind_eq_Some_conv)
  have "np_loops p1 = np_loops p + 1 \<and> np_readers p1 = np_readers p + 1 \<and> np_current p1 \<and>
      np_collector p1 = Some (collector_start c) \<and> cc_enabled (cl_config (collector_start c))"
    using p1(1) Cons.prems(2,3) by (auto simp: start_monitoring_def collector_start_def Let_def split: option.splits)
  with Cons.IH [OF p1(2)] p1(2) show ?case by (cases xs) auto
qed simp

theorem crash_restarts_leak_loops:
  assumes "parts_run (map (\<lambda>(env, now). Parts_start env now) xs @ [Parts_stop]) (new_parts c t) = Some p"
    and "cf_metrics_enabled (c_metrics c)"
  shows "np_loops p = length xs - 1 \<and> np_readers p = length xs"
proof -
  obtain col where col: "np_collector (new_parts c t) = Some col" "cc_enabled (cl_config col)"
    using assms(2) by (simp add: new_parts_def init_collector_def new_collector_def Let_def)
  from assms(1) obtain p1 where p1: "parts_run (map (\<lambda>(env, now). Parts_start env now) xs) (new_parts c t) = Some p1"
    and stop: "stop_monitoring p1 = Some p"
    by (auto simp: parts_run_append parts_step_def bind_eq_Some_conv)
  have "np_loops (new_parts c t) = 0" "np_readers (new_parts c t) = 0" "\<not> np_current (new_parts c t)"
    by (simp_all add: new_parts_def)
  with starts_add_loops [OF p1 col] stop p1 show ?thesis
    by (cases xs) (auto simp: stop_monitoring_def Let_def split: option.splits)
qed

lemma step_collector:
  assumes "parts_step op p = Some p'" and "np_collector p' = Some c'"
  shows "\<exists>c. np_collector p = Some c \<and> (cl_last c' = cl_last c \<or> (\<exists>env. c' = collect (with_callbacks env) c))"
  using assms by (cases op; cases "np_collector p")
    (auto simp: parts_step_def start_monitoring_def stop_monitoring_def collector_start_def collector_stop_def Let_def
      split: option.splits if_splits)

lemma collected_height:
  "cl_last (collect (with_callbacks env) c) = Some sn \<Longrightarrow> sn_application sn = Some a \<Longrightarrow>
   ap_node_height a = 0 \<and> ap_node_peers a = 0 \<and> \<not> ap_node_syncing a"
  by (auto simp: collect_def collect_application_def with_callbacks_def callback_def Let_def split: if_splits)

text \<open>The height in the metrics of the manager is zero, whatever the node says.\<close>

theorem manager_height_is_zero:
  assumes "parts_run ops (new_parts c t) = Some p" and "np_collector p = Some col" and "cl_last col = Some sn"
    and "sn_application sn = Some a"
  shows "ap_node_height a = 0 \<and> ap_node_peers a = 0 \<and> \<not> ap_node_syncing a"
proof -
  let ?zero = "\<lambda>p. \<forall>col sn a. np_collector p = Some col \<longrightarrow> cl_last col = Some sn \<longrightarrow> sn_application sn = Some a \<longrightarrow>
      ap_node_height a = 0 \<and> ap_node_peers a = 0 \<and> \<not> ap_node_syncing a"
  have step: "?zero p2" if "?zero p1" "parts_step op p1 = Some p2" for op p1 p2
    using that(1) step_collector [OF that(2)] collected_height by metis
  have "?zero p'" if "?zero p1" "parts_run ops p1 = Some p'" for p1 p' ops
    using that
  proof (induction ops arbitrary: p1)
    case (Cons op ops)
    from Cons.prems(2) obtain p2 where "parts_step op p1 = Some p2" "parts_run ops p2 = Some p'"
      by (auto simp: bind_eq_Some_conv)
    with Cons.IH [OF step [OF Cons.prems(1)]] show ?case by blast
  qed simp
  moreover have "?zero (new_parts c t)"
    by (simp add: new_parts_def init_collector_def new_collector_def Let_def)
  ultimately show ?thesis using assms by blast
qed

lemma stop_ends_loop:
  "health_run [Health_start env now, Health_stop, Loop_exit] h = Some h1 \<Longrightarrow> hc_loops h = 0 \<Longrightarrow>
   hc_cancelled h1 \<and> hc_loops h1 = 0 \<and> hc_checks h1 = hc_checks h"
  by (auto simp: perform_checks_def send_status_update_def cleanup_on_exit_def Let_def split: if_splits)

definition demo_up :: check_env where
  "demo_up = \<lparr>ce_pid_file = \<lambda>_. None, ce_pid_alive = \<lambda>_. True, ce_rpc = \<lambda>_. demo_reply, ce_statfs = \<lambda>_. None\<rparr>"

theorem health_lost_after_restart_witness:
  "\<exists>p. parts_run [Parts_start demo_up 1, Parts_stop, Parts_health Loop_exit, Parts_start demo_up 5, Parts_health Loop_exit,
       Parts_health (Health_tick demo_up 9)] (new_parts (default_config ''/w'' '''') 0) = Some p \<and>
     hs_timestamp (hc_last (np_health p)) = 5 \<and> \<not> is_healthy (np_health p)"
proof -
  let ?p = "new_parts (default_config ''/w'' '''') 0"
  let ?before = "[Parts_start demo_up 1, Parts_stop, Parts_health Loop_exit]"
  let ?after = "[Parts_health (Health_tick demo_up 9)]"
  have "hc_ok (np_health ?p)" by (simp add: new_parts_def new_checker_ok)
  then obtain p1 where p1: "parts_run ?before ?p = Some p1" and ok: "hc_ok (np_health p1)"
    using parts_run_ok by blast
  from ok obtain p where p: "parts_run (Parts_start demo_up 5 # Parts_health Loop_exit # ?after) p1 = Some p"
    using parts_run_ok by blast
  have "health_run [Health_start demo_up 1, Health_stop, Loop_exit] (np_health ?p) = Some (np_health p1)"
    using parts_health [OF p1] by simp
  moreover have "hc_loops (np_health ?p) = 0" "Rpc_check (hc_rpc_url (np_health ?p)) \<in> set (hc_checks (np_health ?p))"
    by (simp_all add: new_parts_def new_health_checker_def create_default_checks_def Let_def)
  ultimately have h: "hc_cancelled (np_health p1)" "hc_loops (np_health p1) = 0"
    "Rpc_check (hc_rpc_url (np_health ?p)) \<in> set (hc_checks (np_health p1))"
    using stop_ends_loop by simp_all
  have "\<forall>op\<in>set (health_ops ?after). no_start op" by (simp add: no_start_def)
  with health_lost_after_restart [OF ok h p] have
    "hs_timestamp (hc_last (np_health p)) = 5 \<and> \<not> is_healthy (np_health p)" by blast
  moreover have "parts_run (?before @ Parts_start demo_up 5 # Parts_health Loop_exit # ?after) ?p = Some p"
    unfolding parts_run_append p1 by (simp only: bind.bind_lunit p)
  ultimately show ?thesis by (simp only: append.simps) blast
qed

end
