(* ===== verification/Lifecycles.thy ===== *)
theory Lifecycles
  imports GovMonitor Orchestrator
begin

text \<open>
  The goroutines of \<open>internal/governance/monitor.go\<close> and \<open>internal/orchestrator/orchestrator.go\<close> over starts and
  stops. Both keep one context for their whole life: a stop cancels it, and loops that a later start adds end
  when they see it. The tickers of the monitor's loops fire at any time, or in time (\<open>timely\<close>). With them the operations of the tracker that GovMonitor has no use for.
\<close>

section \<open>The governance monitor\<close>

text \<open>
  A loop waits with a ticker; the flag says that the ticker has fired and its tick waits to be taken. The
  votes are looked at with half the interval of the proposals.
\<close>

datatype loop_kind = Proposal_loop | Voting_loop | Queue_loop
datatype gov_loop = Ended | Looping loop_kind bool

record gov_life =
  gl_monitor :: monitor
  gl_files :: ufs
  gl_cancelled :: bool
  gl_stopping :: bool
  gl_loops :: "gov_loop list"

definition new_gov_life :: "config \<Rightarrow> ufs \<Rightarrow> gov_life" where
  "new_gov_life c fs =
     \<lparr>gl_monitor = new_monitor (cf_rpc_address (c_wbft c)) (upgrade_info_file_path (paths_of c)), gl_files = fs,
      gl_cancelled = False, gl_stopping = False, gl_loops = []\<rparr>"

definition starts_loops :: "monitor \<Rightarrow> bool" where
  "starts_loops m \<longleftrightarrow> mo_enabled m \<and> mo_rpc_address m \<noteq> ''''"

definition new_loops :: "gov_loop list" where
  "new_loops = [Looping Proposal_loop False, Looping Voting_loop False, Looping Queue_loop False]"

text \<open>
  \<open>Start\<close> adds three loops. A ticker panics for an interval that is not positive, and the loop of the votes
  halves the interval. The panic of a goroutine ends the program, which is \<open>None\<close>.
\<close>

definition gov_start :: "nat \<Rightarrow> gov_life \<Rightarrow> gov_life option" where
  "gov_start counter g =
     (let m = gl_monitor g in
      if starts_loops m \<and> mo_poll_interval m < 2 then None
      else Some (g\<lparr>gl_monitor := fst (monitor_start counter m),
                   gl_loops := gl_loops g @ (if starts_loops m then new_loops else [])\<rparr>))"

text \<open>\<open>Stop\<close> cancels the context and holds the mutex of the monitor until every loop has ended.\<close>

definition gov_stop :: "gov_life \<Rightarrow> gov_life" where
  "gov_stop g = g\<lparr>gl_cancelled := True, gl_stopping := True\<rparr>"

definition gov_stopped :: "gov_life \<Rightarrow> gov_life" where
  "gov_stopped g = (if gl_stopping g \<and> set (gl_loops g) \<subseteq> {Ended} then g\<lparr>gl_stopping := False, gl_loops := []\<rparr> else g)"

datatype gov_op =
  Gov_start nat | Gov_stop | Gov_stopped | Gov_fires nat | Gov_look nat bool gov_node bool time | Gov_enable bool
| Gov_interval duration | Gov_sync gov_node time

fun loop_tick :: "loop_kind \<Rightarrow> gov_node \<Rightarrow> bool \<Rightarrow> time \<Rightarrow> tick_event" where
  "loop_tick Proposal_loop node writable now = Proposal_tick node now"
| "loop_tick Voting_loop node writable now = Voting_tick node now"
| "loop_tick Queue_loop node writable now = Queue_tick node writable now"

text \<open>
  The \<open>select\<close> of a loop: a cancelled context ends it, a tick that waits is handled, and when both are there
  the choice is free. With neither the loop keeps waiting.
\<close>

definition gov_look :: "nat \<Rightarrow> bool \<Rightarrow> gov_node \<Rightarrow> bool \<Rightarrow> time \<Rightarrow> gov_life \<Rightarrow> gov_life" where
  "gov_look i tick_wins node writable now g =
     (case gl_loops g ! i of
        Ended \<Rightarrow> g
      | Looping k fired \<Rightarrow>
          if gl_cancelled g \<and> \<not> (fired \<and> tick_wins) then g\<lparr>gl_loops := (gl_loops g)[i := Ended]\<rparr>
          else if fired then
            (case monitor_tick (loop_tick k node writable now) (gl_monitor g, gl_files g) of
               (m, fs) \<Rightarrow> g\<lparr>gl_monitor := m, gl_files := fs, gl_loops := (gl_loops g)[i := Looping k False]\<rparr>)
          else g)"

text \<open>
  The ticker of loop \<open>i\<close> fires. In a timely schedule a loop whose context is cancelled looks at it before
  its next tick is due, which is half a poll interval away at least: without that assumption a goroutine
  that is not run for so long may still find a tick beside the cancelled context.
\<close>

definition gov_fires :: "bool \<Rightarrow> nat \<Rightarrow> gov_life \<Rightarrow> gov_life" where
  "gov_fires timely i g =
     (case gl_loops g ! i of
        Ended \<Rightarrow> g
      | Looping k fired \<Rightarrow> if timely \<and> gl_cancelled g then g else g\<lparr>gl_loops := (gl_loops g)[i := Looping k True]\<rparr>)"

fun gov_step :: "bool \<Rightarrow> gov_op \<Rightarrow> gov_life \<Rightarrow> gov_life option" where
  "gov_step timely (Gov_start counter) g = (if gl_stopping g then Some g else gov_start counter g)"
| "gov_step timely Gov_stop g = Some (if gl_stopping g then g else gov_stop g)"
| "gov_step timely Gov_stopped g = Some (gov_stopped g)"
| "gov_step timely (Gov_fires i) g = Some (if i < length (gl_loops g) then gov_fires timely i g else g)"
| "gov_step timely (Gov_look i tick_wins node writable now) g =
     Some (if i < length (gl_loops g) then gov_look i tick_wins node writable now g else g)"
| "gov_step timely (Gov_enable b) g =
     Some (if gl_stopping g then g else g\<lparr>gl_monitor := monitor_set_enabled b (gl_monitor g)\<rparr>)"
| "gov_step timely (Gov_interval d) g =
     Some (if gl_stopping g then g else g\<lparr>gl_monitor := monitor_set_poll_interval d (gl_monitor g)\<rparr>)"
| "gov_step timely (Gov_sync node now) g =
     Some (if gl_stopping g then g
           else (case monitor_force_sync node now (gl_monitor g) of None \<Rightarrow> g | Some m \<Rightarrow> g\<lparr>gl_monitor := m\<rparr>))"

fun gov_run :: "bool \<Rightarrow> gov_op list \<Rightarrow> gov_life \<Rightarrow> gov_life option" where
  "gov_run timely [] g = Some g"
| "gov_run timely (op # ops) g = Option.bind (gov_step timely op g) (gov_run timely ops)"

section \<open>The tracker\<close>

definition set_sync_interval :: "duration \<Rightarrow> tracker \<Rightarrow> tracker" where
  "set_sync_interval d t = t\<lparr>tr_sync_interval := d\<rparr>"

definition set_max_proposal_age :: "duration \<Rightarrow> tracker \<Rightarrow> tracker" where
  "set_max_proposal_age d t = t\<lparr>tr_max_age := d\<rparr>"

section \<open>The orchestrator\<close>

record orch_life =
  ol_orch :: orch
  ol_heights :: hmon
  ol_node :: node_mgr
  ol_watcher :: watcher
  ol_cancelled :: bool
  ol_loops :: nat

datatype orch_op =
  Orch_start | Orch_stop | Orch_loop_ends | Orch_poll | Orch_height "(start_env, stop_env) height_env" int

definition orch_step :: "nm_config \<Rightarrow> orch_op \<Rightarrow> orch_life \<Rightarrow> orch_life" where
  "orch_step cfg op l =
     (case op of
        Orch_start \<Rightarrow>
          (case orch_start (ol_orch l, ol_heights l) of
             (_, Inl _) \<Rightarrow> l
           | ((uo, hm), Inr _) \<Rightarrow> l\<lparr>ol_orch := uo, ol_heights := hm, ol_loops := ol_loops l + 2\<rparr>)
      | Orch_stop \<Rightarrow> l\<lparr>ol_cancelled := True, ol_loops := 0\<rparr>
      | Orch_loop_ends \<Rightarrow> if ol_cancelled l then l\<lparr>ol_loops := ol_loops l - 1\<rparr> else l
      | Orch_poll \<Rightarrow>
          if ol_loops l = 0 then l
          else (case poll_configs needs_update get_current_upgrade clear_update_flag (ol_orch l, ol_watcher l) of
                  (uo, w) \<Rightarrow> l\<lparr>ol_orch := uo, ol_watcher := w\<rparr>)
      | Orch_height env h \<Rightarrow>
          if ol_loops l = 0 then l
          else (case handle_height (ctl_start cfg) ctl_stop env h (ol_orch l, ol_node l) of
                  ((uo, n), _) \<Rightarrow> l\<lparr>ol_orch := uo, ol_node := n\<rparr>))"

definition orch_run :: "nm_config \<Rightarrow> orch_op list \<Rightarrow> orch_life \<Rightarrow> orch_life" where
  "orch_run cfg ops l = fold (orch_step cfg) ops l"

section \<open>Lemmas\<close>

lemma gov_run_append: "gov_run timely (xs @ ys) g = Option.bind (gov_run timely xs g) (gov_run timely ys)"
proof (induction xs arbitrary: g)
  case (Cons op xs)
  then show ?case by (cases "gov_step timely op g") simp_all
qed simp

text \<open>Calls other than a start and a stop, the looks of a loop, and what the forced synchronisations leave.\<close>

fun keeps_running :: "gov_op \<Rightarrow> bool" where
  "keeps_running (Gov_start _) = False"
| "keeps_running Gov_stop = False"
| "keeps_running _ = True"

fun looks_at :: "nat \<Rightarrow> gov_op \<Rightarrow> bool" where
  "looks_at i (Gov_look j _ _ _ _) = (i = j)"
| "looks_at i _ = False"

fun forced :: "gov_op list \<Rightarrow> tracker \<Rightarrow> tracker" where
  "forced [] t = t"
| "forced (Gov_sync node now # ops) t = forced ops (tracker_sync node now t)"
| "forced (op # ops) t = forced ops t"

fun is_sync :: "gov_op \<Rightarrow> bool" where
  "is_sync (Gov_sync _ _) = True"
| "is_sync _ = False"

lemma not_forced: "\<forall>op\<in>set ops. \<not> is_sync op \<Longrightarrow> forced ops t = t"
proof (induction ops)
  case (Cons op ops)
  then show ?case by (cases op) auto
qed simp

text \<open>No loop has a tick to take.\<close>

definition none_fired :: "gov_life \<Rightarrow> bool" where
  "none_fired g \<longleftrightarrow> (\<forall>k. Looping k True \<notin> set (gl_loops g))"

definition idle_monitor :: "gov_life \<Rightarrow> bool" where
  "idle_monitor g \<longleftrightarrow> gl_cancelled g \<and> \<not> gl_stopping g \<and> mo_started (gl_monitor g) \<and> none_fired g"

definition loops_after :: "gov_op list \<Rightarrow> gov_loop list \<Rightarrow> gov_loop list" where
  "loops_after ops ls = map (\<lambda>i. if \<exists>op\<in>set ops. looks_at i op then Ended else ls ! i) [0..<length ls]"

lemma loops_after_Nil [simp]: "loops_after [] ls = ls"
  by (simp add: loops_after_def map_nth)

lemma loops_after_Cons:
  "loops_after (op # ops) ls =
     loops_after ops (case op of Gov_look i _ _ _ _ \<Rightarrow> ls[i := Ended] | _ \<Rightarrow> ls)"
  by (cases op) (auto simp: loops_after_def nth_list_update)

lemma idle_gov_step:
  assumes "idle_monitor g" and "keeps_running op"
  shows "\<exists>g1. gov_step True op g = Some g1 \<and> idle_monitor g1 \<and> gl_files g1 = gl_files g \<and>
     gl_loops g1 = (case op of Gov_look i _ _ _ _ \<Rightarrow> (gl_loops g)[i := Ended] | _ \<Rightarrow> gl_loops g) \<and>
     mo_tracker (gl_monitor g1) = forced [op] (mo_tracker (gl_monitor g)) \<and>
     mo_scheduler (gl_monitor g1) = mo_scheduler (gl_monitor g) \<and> mo_notifier (gl_monitor g1) = mo_notifier (gl_monitor g)"
proof (cases op)
  case (Gov_look i tick_wins node writable now)
  show ?thesis
  proof (cases "i < length (gl_loops g)")
    case True
    then have "gl_loops g ! i \<in> set (gl_loops g)" by simp
    with assms(1) have l: "gl_loops g ! i = Looping k fired \<Longrightarrow> \<not> fired" for k fired
      by (cases fired) (auto simp: idle_monitor_def none_fired_def)
    have upd: "set ((gl_loops g)[i := Ended]) \<subseteq> insert Ended (set (gl_loops g))" by (rule set_update_subset_insert)
    have same: "gl_loops g ! i = Ended \<Longrightarrow> (gl_loops g)[i := Ended] = gl_loops g" by (metis list_update_id)
    have "gov_look i tick_wins node writable now g = g\<lparr>gl_loops := (gl_loops g)[i := Ended]\<rparr>"
      using l same assms(1) by (auto simp: gov_look_def idle_monitor_def split: gov_loop.splits)
    with upd assms(1) Gov_look True show ?thesis by (auto simp: idle_monitor_def none_fired_def)
  qed (use assms(1) Gov_look in \<open>simp add: list_update_beyond\<close>)
next
  case (Gov_fires i)
  with assms(1) show ?thesis by (auto simp: gov_fires_def idle_monitor_def split: gov_loop.splits)
qed (use assms in \<open>auto simp: idle_monitor_def none_fired_def gov_stopped_def monitor_set_enabled_def
       monitor_set_poll_interval_def monitor_force_sync_def\<close>)

lemma forced_append: "forced (xs @ ys) t = forced ys (forced xs t)"
  by (induction xs t rule: forced.induct) simp_all

lemma idle_gov_run:
  "idle_monitor g \<Longrightarrow> \<forall>op\<in>set ops. keeps_running op \<Longrightarrow>
   \<exists>g'. gov_run True ops g = Some g' \<and> idle_monitor g' \<and> gl_files g' = gl_files g \<and> gl_loops g' = loops_after ops (gl_loops g) \<and>
     mo_tracker (gl_monitor g') = forced ops (mo_tracker (gl_monitor g)) \<and>
     mo_scheduler (gl_monitor g') = mo_scheduler (gl_monitor g) \<and> mo_notifier (gl_monitor g') = mo_notifier (gl_monitor g)"
proof (induction ops arbitrary: g)
  case (Cons op ops)
  have "keeps_running op" using Cons.prems(2) by simp
  from idle_gov_step [OF Cons.prems(1) this] obtain g1 where g1: "gov_step True op g = Some g1" "idle_monitor g1"
     "gl_files g1 = gl_files g" "gl_loops g1 = (case op of Gov_look i _ _ _ _ \<Rightarrow> (gl_loops g)[i := Ended] | _ \<Rightarrow> gl_loops g)"
     "mo_tracker (gl_monitor g1) = forced [op] (mo_tracker (gl_monitor g))"
     "mo_scheduler (gl_monitor g1) = mo_scheduler (gl_monitor g)" "mo_notifier (gl_monitor g1) = mo_notifier (gl_monitor g)"
    by blast
  from Cons.IH [OF g1(2)] Cons.prems(2) obtain g' where g': "gov_run True ops g1 = Some g'" "idle_monitor g'"
     "gl_files g' = gl_files g1" "gl_loops g' = loops_after ops (gl_loops g1)"
     "mo_tracker (gl_monitor g') = forced ops (mo_tracker (gl_monitor g1))"
     "mo_scheduler (gl_monitor g') = mo_scheduler (gl_monitor g1)" "mo_notifier (gl_monitor g') = mo_notifier (gl_monitor g1)"
    by auto
  have "forced (op # ops) (mo_tracker (gl_monitor g)) = forced ops (mo_tracker (gl_monitor g1))"
    using forced_append [of "[op]" ops] g1(5) by simp
  with g1 g' show ?case by (simp add: loops_after_Cons)
qed simp

section \<open>Properties\<close>

text \<open>
  C32. A monitor that was stopped never monitors again. Started after its stop it reports success and makes
  a new tracker, scheduler and notifier and three loops; in a timely schedule each of the three ends the
  first time it looks, and none ever takes a tick. Until it is stopped or started again its upgrade queue
  stays empty, it notifies nobody and writes no upgrade file, and its tracker holds what forced
  synchronisations put there: without one it lists no proposal, whatever the node has.
\<close>

theorem restarted_monitor_is_idle:
  assumes "gl_cancelled g" and "\<not> gl_stopping g" and "gl_loops g = []" and "starts_loops (gl_monitor g)"
    and "mo_poll_interval (gl_monitor g) \<ge> 2" and "\<forall>op\<in>set ops. keeps_running op"
  shows "snd (monitor_start counter (gl_monitor g)) = Inr () \<and>
    (\<exists>g'. gov_run True (Gov_start counter # ops) g = Some g' \<and> gl_files g' = gl_files g \<and>
       gl_loops g' = map (\<lambda>(i, k). if \<exists>op\<in>set ops. looks_at i op then Ended else Looping k False)
         [(0, Proposal_loop), (1, Voting_loop), (2, Queue_loop)] \<and>
       monitor_get_queue (gl_monitor g') = Some [] \<and> mo_notifier (gl_monitor g') = new_notifier counter \<and>
       mo_tracker (gl_monitor g') = forced ops new_tracker \<and>
       ((\<forall>op\<in>set ops. \<not> is_sync op) \<longrightarrow> monitor_get_proposals (gl_monitor g') = Some []))"
proof -
  let ?m = "fst (monitor_start counter (gl_monitor g))"
  let ?g1 = "g\<lparr>gl_monitor := ?m, gl_loops := new_loops\<rparr>"
  have m: "monitor_start counter (gl_monitor g) = (gl_monitor g\<lparr>mo_tracker := new_tracker, mo_scheduler := new_scheduler,
      mo_notifier := new_notifier counter, mo_started := True\<rparr>, Inr ())"
    using assms(4) by (simp add: monitor_start_def starts_loops_def)
  have start: "gov_run True (Gov_start counter # ops) g = gov_run True ops ?g1"
    using assms(2-5) by (simp add: gov_start_def)
  have "idle_monitor ?g1" using assms(1,2) by (simp add: idle_monitor_def none_fired_def new_loops_def m)
  from idle_gov_run [OF this assms(6)] obtain g' where g': "gov_run True ops ?g1 = Some g'" "idle_monitor g'"
      "gl_files g' = gl_files g" "gl_loops g' = loops_after ops new_loops" "mo_tracker (gl_monitor g') = forced ops new_tracker"
      "mo_scheduler (gl_monitor g') = new_scheduler" "mo_notifier (gl_monitor g') = new_notifier counter"
    by (auto simp: m)
  have up: "[0..<Suc (Suc (Suc 0))] = [0, 1, Suc 1]" by simp
  have "gl_loops g' = map (\<lambda>(i, k). if \<exists>op\<in>set ops. looks_at i op then Ended else Looping k False)
         [(0, Proposal_loop), (1, Voting_loop), (2, Queue_loop)]"
    by (simp add: g'(4) loops_after_def new_loops_def up numeral_2_eq_2)
  moreover have "monitor_get_queue (gl_monitor g') = Some []"
    using g'(2,6) by (simp add: idle_monitor_def monitor_get_queue_def new_scheduler_def sched_queue_view_def sort_slice_def)
  moreover have "monitor_get_proposals (gl_monitor g') = Some []" if "\<forall>op\<in>set ops. \<not> is_sync op"
    using that g'(2,5) by (simp add: idle_monitor_def monitor_get_proposals_def not_forced new_tracker_def get_active_def
        newest_first_def sort_slice_def)
  ultimately show ?thesis using g'(1,3,5,7) start m by simp
qed

text \<open>
  After a stop the orchestrator does nothing any more, and cannot be started: it is still marked as started.
\<close>

lemma orch_idle:
  assumes "ol_cancelled l" and "ol_loops l = 0" and "uo_started (ol_orch l)"
  shows "orch_run cfg ops l = l"
  using assms by (induction ops arbitrary: l)
    (auto simp: orch_run_def orch_step_def orch_start_def split: orch_op.splits prod.splits)

theorem stopped_orchestrator_is_idle:
  assumes "uo_started (ol_orch l)"
  shows "snd (orch_start (ol_orch l, ol_heights l)) = Inl Orch_already_started \<and>
    orch_run cfg (Orch_stop # ops) l = l\<lparr>ol_cancelled := True, ol_loops := 0\<rparr>"
proof -
  have "orch_run cfg (Orch_stop # ops) l = orch_run cfg ops (l\<lparr>ol_cancelled := True, ol_loops := 0\<rparr>)"
    by (simp add: orch_run_def orch_step_def)
  also have "\<dots> = l\<lparr>ol_cancelled := True, ol_loops := 0\<rparr>" using assms by (intro orch_idle) simp_all
  finally show ?thesis using assms by (simp add: orch_start_def)
qed

section \<open>Witnesses\<close>

text \<open>A run over a start, a stop with its three looks, and a second start whose loops look but for one.\<close>

definition silent_node :: gov_node where
  "silent_node = \<lparr>gn_height = None, gn_list = (\<lambda>_. None), gn_single = (\<lambda>_. None)\<rparr>"

definition demo_look :: "nat \<Rightarrow> gov_op" where
  "demo_look i = Gov_look i True silent_node True 0"

definition demo_stop :: "gov_op list" where
  "demo_stop = [Gov_start 0, Gov_stop, demo_look 0, demo_look 1, demo_look 2, Gov_stopped]"

definition demo_restart :: "gov_op list" where
  "demo_restart = [demo_look 0, Gov_fires 1, demo_look 1, Gov_enable True]"

theorem restarted_monitor_is_idle_witness:
  "\<exists>g. gov_run True (demo_stop @ Gov_start 1 # demo_restart) (new_gov_life (default_config ''/w'' '''') (\<lambda>_. Absent)) = Some g \<and>
     gl_loops g = [Ended, Ended, Looping Queue_loop False] \<and> monitor_get_proposals (gl_monitor g) = Some []"
proof -
  let ?g = "new_gov_life (default_config ''/w'' '''') (\<lambda>_. Absent)"
  let ?m = "gl_monitor ?g"
  have rpc: "mo_rpc_address ?m = ''localhost:8545''" "mo_enabled ?m" "mo_poll_interval ?m = 30 * second"
    by (simp_all add: new_gov_life_def new_monitor_def default_config_def Let_def)
  let ?g1 = "?g\<lparr>gl_monitor := fst (monitor_start 0 ?m), gl_cancelled := True\<rparr>"
  have one: "gov_run True demo_stop ?g = Some ?g1"
    using rpc by (simp add: demo_stop_def demo_look_def gov_start_def starts_loops_def gov_stop_def gov_stopped_def
        gov_look_def new_loops_def new_gov_life_def)
  have m: "starts_loops (gl_monitor ?g1)" "mo_poll_interval (gl_monitor ?g1) \<ge> 2"
    using rpc by (simp_all add: monitor_start_def starts_loops_def)
  have ops: "\<forall>op\<in>set demo_restart. keeps_running op" "\<forall>op\<in>set demo_restart. \<not> is_sync op"
    by (simp_all add: demo_restart_def demo_look_def)
  have g1: "gl_cancelled ?g1" "\<not> gl_stopping ?g1" "gl_loops ?g1 = []" by (simp_all add: new_gov_life_def)
  from restarted_monitor_is_idle [OF g1 m ops(1)] ops(2) obtain g where
    g: "gov_run True (Gov_start 1 # demo_restart) ?g1 = Some g" "monitor_get_proposals (gl_monitor g) = Some []"
      "gl_loops g = map (\<lambda>(i, k). if \<exists>op\<in>set demo_restart. looks_at i op then Ended else Looping k False)
         [(0, Proposal_loop), (1, Voting_loop), (2, Queue_loop)]" by blast
  moreover have "gl_loops g = [Ended, Ended, Looping Queue_loop False]"
    using g(3) by (simp add: demo_restart_def demo_look_def)
  ultimately show ?thesis by (simp only: gov_run_append one bind.bind_lunit) blast
qed

end
