(* ===== verification/Spec2Isabelle.thy ===== *)
theory Spec2Isabelle
  imports Orchestrator NodeLifecycle Migration Coordinator ProcessRuns LruCache WorkerPool ConnPool Alerting
    CliParser Health ApiAuth ApiServer ConfigManager
    Optimizer CliConfig CliProfile CliUpgrade Startup GovClient CliInit CommandHandler CliBackup MetricsCli NodeParts Lifecycles
begin

text \<open>
  A model of wemixvisor, the process manager that runs a WBFT blockchain node, watches for planned
  upgrades, and switches the node to a new binary at the planned height. The definitions follow the Go
  sources under \<open>src/\<close>, operation by operation; the theorems say what each component keeps and does, and
  where the code does something else than its comments promise, the theorem says what it does.

  \<^bold>\<open>How the program is put together.\<close> \<open>cmd/wemixvisor\<close> builds a configuration from defaults, variables and
  flags and hands it to the commands of \<open>internal/cli\<close>. The node is a process that \<open>internal/node\<close> starts,
  stops, monitors and restarts. An upgrade is a file \<open>upgrade-info.json\<close>, written by the command line, the
  governance monitor or an operator, that \<open>internal/upgrade\<close> polls. \<open>internal/height\<close> polls the height of the
  chain and tells its subscribers; \<open>internal/orchestrator\<close> subscribes, and at the planned height stops the
  node, switches the binary and starts it, or rolls back. \<open>internal/process\<close> is an older manager that does
  the same with a backup of the data (\<open>internal/backup\<close>), a script (\<open>internal/hooks\<close>) and a download
  (\<open>internal/download\<close>). \<open>internal/governance\<close> follows the proposals of the chain, \<open>internal/batch\<close> and
  \<open>internal/wbft\<close> handle plans of several upgrades, and \<open>internal/metrics\<close>, \<open>monitor\<close>, \<open>alerting\<close>, \<open>api\<close> and
  \<open>performance\<close> observe all of it.

  \<^bold>\<open>Conventions.\<close> A struct is a record with the fields in the code's order, an enumeration a datatype or
  its string. A method that changes its receiver returns the new receiver and an error or a result (\<open>gores\<close>
  of Prelude), so every early return is a branch. A Go map is an association list with distinct keys
  (\<open>gomap\<close>, invariant \<open>gm_ok\<close>): the order of the list is the order in which \<open>range\<close> happens to visit it, and
  what must not depend on it is proved so. Integers are \<open>int\<close> with the ranges and the wrap-around of 64 bits
  written out (\<open>is_int64\<close>, \<open>wrap64\<close>) where they matter. A panic and a wait that never ends are values.
  Whatever a call asks of the outside (the clock, the answers of a server, files that can be opened,
  processes that start, digests, decoded JSON) is an argument, so the theorems hold for every answer.

  \<^bold>\<open>Shared theories.\<close> Prelude: results, arithmetic, maps, paths, sorting (locale \<open>slice_sort\<close>, the contract
  of \<open>sort.Slice\<close>) and the collections \<open>go_simps\<close> and \<open>go_inv\<close>. Channels: buffered channels (locale
  \<open>fifo_channel\<close>). Refinements: the simulation of a component by its specification (locale \<open>simulation\<close>).

  \<^bold>\<open>The node and its upgrades.\<close>
  \<^item> UpgradeTypes (\<open>pkg/types/upgrade.go\<close>): the upgrade file, read and written, and its binary table.
  \<^item> FileWatcher (\<open>internal/upgrade/watcher.go\<close>): the polls as rounds over a file system; exactly when an
    update is flagged. It provides the locale \<open>upgrade_source\<close> that the orchestrator relies on.
  \<^item> HeightMon (\<open>internal/height/monitor.go\<close>): a subscriber sees the changes of height in order.
  \<^item> NodeManager, NodeLifecycle (\<open>internal/node\<close>): the state machine, and its goroutines as the step
    relation \<open>nm_step\<close> with reachable states, where a call of \<open>Stop\<close> or \<open>Restart\<close> is a phase that other steps may
    interleave: at most one process when the schedule is timely (a monitor acts before the next call) and the
    calls are serial, two processes when two restarts overlap, bounded restarts, what a late monitor does. It
    provides the locale \<open>node_control\<close>. NodeParts: the health checker and the
    metrics collector that the manager starts and stops with the node, and what a restart leaves of them.
  \<^item> Orchestrator (\<open>internal/orchestrator\<close>): scheduling, validation, execution and rollback; its lemmas are
    proved inside \<open>upgrade_source\<close> and \<open>node_control\<close>.
  \<^item> ProcessManager, ProcessRuns (\<open>internal/process/manager.go\<close>): the run loop over the events of each cycle
    and the upgrade with backup, script and restore; what a successful and a failed upgrade leave behind.
  \<^item> Backups, Hooks, Downloads (\<open>internal/backup\<close>, \<open>hooks\<close>, \<open>download\<close>): archives of a file tree and their
    restore, where paths and writes follow the links of the tree; the attempts of the script; downloads with retries and digests (locale \<open>binary_source\<close>).
  \<^item> BatchPlans, Coordinator (\<open>internal/batch\<close>, \<open>internal/wbft\<close>): plans of upgrades, their files and
    validation, the RPC client and the coordination rounds; BatchPlans states \<open>binary_source\<close>.

  \<^bold>\<open>Configuration.\<close>
  \<^item> Paths, ConfigModel (\<open>internal/config/paths.go\<close>, \<open>config.go\<close>): the directory layout, the \<open>current\<close> link and the
    record of the settings in the groups of the source. (The JSON copy that \<open>cloneConfig\<close> makes is taken as the
    identity; text that is not valid UTF-8 would be replaced.)
  \<^item> Validation, Migration (\<open>validator.go\<close>, \<open>migrator.go\<close>): the rules in their order and the chain of versions.
  \<^item> Templates, ConfigFields, ConfigManager (\<open>templates.go\<close>, \<open>manager.go\<close>): templates with their keys, the update
    of a field by name, and the manager with the pointers it hands out, the saved file and the reload.

  \<^bold>\<open>Governance.\<close> Proposals, GovClient, Scheduler, Notifications, GovMonitor (\<open>internal/governance\<close>): the
  tracker with its three maps, the RPC client and its queries, the queue ordered by height over a store of
  shared upgrades, the notifications, and the monitor's loops over all of them. Lifecycles: the monitor and the
  orchestrator over starts and stops, after which neither works again; a loop with a cancelled context ends at
  its first look in a timely schedule.

  \<^bold>\<open>Observation.\<close> Metrics and MetricsCli (the collector and the exporter of \<open>internal/metrics\<close>, the commands
  \<open>metrics\<close> and \<open>api\<close>), Health (\<open>internal/monitor\<close>), AlertChannels and
  Alerting (\<open>internal/alerting\<close>), ApiAuth and ApiServer (\<open>internal/api\<close>: the handlers over decoded requests,
  the authentication, the rate limiter, and the WebSocket goroutines as steps with the read lock of a delivery
  and the channels that a removal closes).

  \<^bold>\<open>Performance.\<close> LruCache (an LRU cache with expiry, refined from a list), WorkerPool (queue, dispatchers and
  workers in any interleaving), ConnPool, Profiler and Optimizer (\<open>internal/performance\<close>).

  \<^bold>\<open>Command line.\<close> Startup (\<open>cmd/wemixvisor/main.go\<close>, \<open>cli/root.go\<close>, \<open>commands/run.go\<close>, \<open>pkg/logger\<close>: the two entry
  points and the logger), CliParser (\<open>cli/parser.go\<close>), CommandHandler (\<open>cli/commands.go\<close> and the status of the
  node), CliInit (both \<open>init\<close> commands), CliLogs (\<open>cli/utils.go\<close>), CliUpgrade, CliConfig, CliProfile, CliBackup
  (the commands \<open>upgrade\<close>, \<open>config\<close>, \<open>profile\<close> and \<open>backup\<close>, and in the last \<open>start\<close>, \<open>run\<close>, \<open>stop\<close>, \<open>restart\<close> and \<open>status\<close>).

  \<^bold>\<open>What the lemmas show.\<close> Invariants over every run or interleaving (node processes, accounted tasks, the
  tracker's maps, the scheduler's queue, the connection limit); the result of each operation on every
  branch, errors included; equivalences (the parser with a filter, the priority queue with a stable sort,
  the two entry points); refinement (the cache); round trips (backup and restore, save and load, numbers and
  their text); termination and bounds (script attempts, restarts, requests in a minute); and what never
  happens (a graceful stop in a timely schedule, a scheduled governance upgrade, the end of a crash loop).

  \<^bold>\<open>Fuel and bounds.\<close> Most recursions are structural. The scans of text in Downloads (\<open>go_fields\<close>, \<open>replace_all\<close>) and the
  chain of migrations (\<open>migrate_loop\<close>) have a measure; \<open>dur_loop\<close> in Templates reads a duration with the length of
  the text as fuel, which is enough (\<open>dur_loop_fuel\<close>). Loops that wait for the outside are given as the finite
  list of what happens, and the theorems quantify over all such lists; claims that a loop goes on are
  stated for every length.

  \<^bold>\<open>Not modelled.\<close> Third-party libraries (zap, cobra, viper, gin, gorilla, Prometheus, gopsutil) and the encodings
  of JSON, YAML, TOML, tar and gzip: their results are arguments. The layout of tables and help texts; the
  runtime's memory statistics; and the programs under \<open>examples/\<close>, which only call the packages.
\<close>

end
